(* ===== verification/FwPrelude.thy ===== *)
theory FwPrelude imports Complex_Main "HOL-Library.Word" begin

text \<open>
  Prelude of the firmware development: names of the machine types, C casts, the
  big-endian 16-bit codec that four modules of the firmware write out by hand, the
  model of a bounded \<^verbatim>\<open>memcpy\<close>, and the list and word lemmas the components share.
\<close>

unbundle bit_operations_syntax

section \<open>Machine types\<close>

type_synonym u8 = "8 word"
type_synonym u16 = "16 word"
type_synonym u32 = "32 word"
type_synonym bytes = "8 word list"

named_theorems wf_intros \<open>introduction rules of the components' invariants\<close>
named_theorems fw_frame \<open>fields an operation leaves alone\<close>

text \<open>The cast \<^verbatim>\<open>(int16_t)x\<close> of an \<^verbatim>\<open>int\<close> expression.\<close>

definition to_i16 :: "int \<Rightarrow> int" where
  "to_i16 x = (x + 32768) mod 65536 - 32768"

lemma to_i16_id [simp]: "-32768 \<le> x \<Longrightarrow> x \<le> 32767 \<Longrightarrow> to_i16 x = x"
  by (simp add: to_i16_def)

lemma to_i16_range: "-32768 \<le> to_i16 x \<and> to_i16 x \<le> 32767"
  by (simp add: to_i16_def)

section \<open>Big-endian 16-bit fields\<close>

definition be16_hi :: "u16 \<Rightarrow> u8" where
  "be16_hi v = ucast (drop_bit 8 v AND 0xFF)"

definition be16_lo :: "u16 \<Rightarrow> u8" where
  "be16_lo v = ucast (v AND 0xFF)"

definition be16_join :: "u8 \<Rightarrow> u8 \<Rightarrow> u16" where
  "be16_join a b = push_bit 8 (ucast a) OR ucast b"

lemma mask_8: "(0xFF :: 'a::len word) = mask 8"
  by (simp add: mask_eq_decr_exp)

lemma be16_join_hi_lo [simp]: "be16_join (be16_hi v) (be16_lo v) = v"
  by (rule bit_eqI)
    (auto simp: be16_join_def be16_hi_def be16_lo_def mask_8 bit_simps)

lemma be16_hi_join [simp]: "be16_hi (be16_join a b) = a"
  by (rule bit_eqI) (auto simp: be16_join_def be16_hi_def mask_8 bit_simps dest: bit_imp_le_length)

lemma be16_lo_join [simp]: "be16_lo (be16_join a b) = b"
  by (rule bit_eqI) (auto simp: be16_join_def be16_lo_def mask_8 bit_simps dest: bit_imp_le_length)

section \<open>Lists\<close>

text \<open>\<^verbatim>\<open>memcpy(&buf[off], xs, len)\<close> inside the bounds of \<open>buf\<close>.\<close>

definition memcpy_at :: "'a list \<Rightarrow> nat \<Rightarrow> 'a list \<Rightarrow> 'a list" where
  "memcpy_at buf off xs = take off buf @ xs @ drop (off + length xs) buf"

lemma length_memcpy_at [simp]:
  "off + length xs \<le> length buf \<Longrightarrow> length (memcpy_at buf off xs) = length buf"
  by (simp add: memcpy_at_def)

lemma memcpy_at_take_drop:
  assumes "off + n \<le> length ys" and "length buf = length ys" and "take off buf = take off ys"
  shows "take (off + n) (memcpy_at buf off (take n (drop off ys))) = take (off + n) ys"
  using assms by (simp add: memcpy_at_def take_add)

lemma nth_memcpy_at:
  assumes "off + length xs \<le> length buf" and "i < length buf"
  shows "memcpy_at buf off xs ! i =
    (if i < off then buf ! i else if i < off + length xs then xs ! (i - off) else buf ! i)"
  using assms by (auto simp: memcpy_at_def nth_append)

lemma fold_inv:
  assumes "P s" and "\<And>x s. x \<in> set xs \<Longrightarrow> P s \<Longrightarrow> P (f x s)"
  shows "P (fold f xs s)"
  using assms by (induction xs arbitrary: s) auto

lemma list_len3: "length xs = 3 \<longleftrightarrow> (\<exists>a b c. xs = [a, b, c])"
  by (auto simp: numeral_3_eq_3 length_Suc_conv)

lemma less_3_cases: "(i::nat) < 3 \<longleftrightarrow> i = 0 \<or> i = 1 \<or> i = 2"
  by auto

lemma upt_3: "[0..<3] = [0, 1, 2::nat]"
  by (simp add: upt_rec)

lemma list_all_update: "list_all P xs \<Longrightarrow> P x \<Longrightarrow> list_all P (xs[i := x])"
  using set_update_subset_insert[of xs i x] by (auto simp: list_all_iff)

lemma list_all_nth: "list_all P xs \<Longrightarrow> i < length xs \<Longrightarrow> P (xs ! i)"
  by (simp add: list_all_length)

lemma take_push: "length xs \<le> n \<Longrightarrow> take n (take n (xs @ [c]) @ cs) = take n (xs @ c # cs)"
  by (cases "length xs < n") auto

lemma min_add_left: "min (a + b) (a + c) = a + min b (c::nat)"
  by simp

section \<open>Words\<close>

lemma unat_of_nat16: "n < 65536 \<Longrightarrow> unat (of_nat n :: u16) = n"
  by (simp add: unat_of_nat take_bit_nat_eq_self)

lemma unat_of_nat8: "n < 256 \<Longrightarrow> unat (of_nat n :: u8) = n"
  by (simp add: unat_of_nat take_bit_nat_eq_self)

lemma unat_of_nat32: "n < 4294967296 \<Longrightarrow> unat (of_nat n :: u32) = n"
  by (simp add: unat_of_nat take_bit_nat_eq_self)

text \<open>Byte sums: the 16-bit checksums of both ends add in 32 bits and truncate.\<close>

lemma mask_16: "(0xFFFF :: 'a::len word) = mask 16"
  by (simp add: mask_eq_decr_exp)

lemma take_bit_inner: "take_bit 16 (take_bit 32 s + y) = take_bit 16 (s + (y::int))"
  unfolding take_bit_eq_mod by (rule mod_add_cong) (simp_all add: mod_mod_cancel)

lemma ucast_add_byte: "(ucast (s + ucast (x::u8) :: u32) :: u16) = ucast s + ucast x"
  apply transfer
  apply (simp add: take_bit_inner)
  done

lemma ucast_low16: "(ucast (v AND 0xFFFF :: u32) :: u16) = ucast v"
  by (rule bit_word_eqI) (simp add: mask_16 bit_simps)

lemma unat_ucast_8_16 [simp]: "unat (ucast (a::u8) :: u16) = unat a"
  using unsigned_less[of a, where ?'a = nat] by (simp add: unsigned_ucast_eq take_bit_nat_eq_self)

lemma ucast_8_16_inj: "(ucast (a::u8) :: u16) = ucast b \<longleftrightarrow> a = b"
  using unat_ucast_8_16[of a] unat_ucast_8_16[of b] by (auto simp: word_unat_eq_iff)

lemma ucast_byte_sum:
  "(ucast (foldl (\<lambda>sum b. sum + ucast b) (s :: u32) xs) :: u16) = ucast s + sum_list (map ucast (xs :: bytes))"
  by (induction xs arbitrary: s) (simp_all add: ucast_add_byte add.assoc)

lemma sum_list_change:
  fixes f :: "'a \<Rightarrow> 'b::ab_group_add"
  shows "i < length xs \<Longrightarrow> sum_list (map f (xs[i := x])) = sum_list (map f xs) - f (xs ! i) + f x"
  by (induction xs arbitrary: i) (auto split: nat.split simp: algebra_simps)

section \<open>Ticks of the ESP32\<close>

text \<open>\<^verbatim>\<open>CONFIG_FREERTOS_HZ\<close> of the project's sdkconfig, and the macro \<^verbatim>\<open>pdMS_TO_TICKS\<close>.\<close>

definition configTICK_RATE_HZ :: nat where
  "configTICK_RATE_HZ = 100"

definition pdMS_TO_TICKS :: "nat \<Rightarrow> u32" where
  "pdMS_TO_TICKS ms = of_nat (ms * configTICK_RATE_HZ div 1000)"

end
