(* ===== verification/RingFifo.thy ===== *)
theory RingFifo imports FwPrelude begin

text \<open>
  Ring buffers and the contract they keep. Three parts of the firmware hold a ring of
  slots with a head index and a count (the servo set queue of motor.c, the command queue
  of the STM32 main.c, the frame buffers of the ESP32 frame link). \<open>ring_list\<close> reads
  such a ring as the list of its live entries. The locale \<open>bounded_fifo\<close> is the contract
  of a bounded first-in first-out queue; the two queues interpret it, and the FreeRTOS
  and Zephyr queues, which are not part of the repository, are assumed to satisfy it.
\<close>

section \<open>Rings of slots\<close>

definition ring_list :: "'a list \<Rightarrow> nat \<Rightarrow> nat \<Rightarrow> 'a list" where
  "ring_list slots h n = map (\<lambda>k. slots ! ((h + k) mod length slots)) [0..<n]"

text \<open>The code's index step: increment, and back to zero at the end of the array.\<close>

definition ring_succ :: "nat \<Rightarrow> nat \<Rightarrow> nat" where
  "ring_succ c i = (if i + 1 \<ge> c then 0 else i + 1)"

lemma ring_succ_mod: "i < c \<Longrightarrow> ring_succ c i = (i + 1) mod c"
  by (cases "i + 1 = c") (auto simp: ring_succ_def)

lemma ring_succ_less: "0 < c \<Longrightarrow> ring_succ c i < c"
  by (simp add: ring_succ_def)

lemma length_ring_list [simp]: "length (ring_list slots h n) = n"
  by (simp add: ring_list_def)

lemma ring_list_0 [simp]: "ring_list slots h 0 = []"
  by (simp add: ring_list_def)

lemma nth_ring_list: "k < n \<Longrightarrow> ring_list slots h n ! k = slots ! ((h + k) mod length slots)"
  by (simp add: ring_list_def)

lemma mod_add_inj:
  assumes "i < c" "j < c" "(h + i) mod c = (h + j) mod (c::nat)"
  shows "i = j"
proof -
  have *: "a = b" if "a \<le> b" "b < c" "(h + a) mod c = (h + b) mod c" for a b
  proof -
    from that(3) that(1) have "c dvd (h + b) - (h + a)"
      by (metis add_le_cancel_left mod_eq_dvd_iff_nat)
    with that(1,2) show ?thesis
      by (auto dest!: dvd_imp_le)
  qed
  show ?thesis
    using *[of i j] *[of j i] assms by (cases "i \<le> j") auto
qed

text \<open>Writing a slot that is not live leaves the contents alone.\<close>

lemma ring_list_update_other:
  assumes "\<And>k. k < n \<Longrightarrow> (h + k) mod length slots \<noteq> t"
  shows "ring_list (slots[t := x]) h n = ring_list slots h n"
  using assms by (fastforce simp: ring_list_def)

lemma ring_push:
  assumes "n < length slots" and "t = (h + n) mod length slots"
  shows "ring_list (slots[t := x]) h (Suc n) = ring_list slots h n @ [x]"
proof -
  have "ring_list (slots[t := x]) h n = ring_list slots h n"
    using assms by (intro ring_list_update_other) (auto dest: mod_add_inj[rotated 2])
  moreover from assms have "t < length slots"
    by (cases slots) auto
  ultimately show ?thesis
    using assms(2) by (simp add: ring_list_def)
qed

lemma ring_pop:
  assumes "0 < n" and "h < length slots"
  shows "ring_list slots h n = slots ! h # ring_list slots (ring_succ (length slots) h) (n - 1)"
proof -
  have eq: "(ring_succ (length slots) h + k) mod length slots = (h + Suc k) mod length slots" for k
    using assms(2) by (simp add: ring_succ_mod mod_simps)
  have "[0..<n] = 0 # map Suc [0..<n - 1]"
    using assms(1) by (simp add: map_Suc_upt upt_conv_Cons)
  then show ?thesis
    using assms(2) by (simp add: ring_list_def eq)
qed

text \<open>The slot at the head is not among the entries left after a pop.\<close>

lemma ring_pop_erase:
  assumes "0 < n" and "n \<le> length slots" and "h < length slots"
  shows "ring_list (slots[h := z]) (ring_succ (length slots) h) (n - 1)
       = ring_list slots (ring_succ (length slots) h) (n - 1)"
proof (rule ring_list_update_other)
  fix k assume "k < n - 1"
  with assms have k: "Suc k < length slots" "0 < length slots"
    by linarith+
  have "(h + Suc k) mod length slots \<noteq> (h + 0) mod length slots"
    using mod_add_inj[OF k, of h] by auto
  then show "(ring_succ (length slots) h + k) mod length slots \<noteq> h"
    using assms(3) by (simp add: ring_succ_mod mod_simps)
qed

section \<open>The contract of a bounded queue\<close>

text \<open>
  \<open>push\<close> answers whether the entry was accepted; \<open>pop\<close> answers the oldest entry, or
  \<open>None\<close> on an empty queue. \<open>contents\<close> is the abstract queue.
\<close>

locale bounded_fifo =
  fixes inv :: "'s \<Rightarrow> bool"
    and contents :: "'s \<Rightarrow> 'a list"
    and cap :: nat
    and ok :: "'a \<Rightarrow> bool"
    and push :: "'a \<Rightarrow> 's \<Rightarrow> bool \<times> 's"
    and pop :: "'s \<Rightarrow> ('a \<times> 's) option"
  assumes contents_cap: "inv s \<Longrightarrow> length (contents s) \<le> cap"
    and push_inv: "inv s \<Longrightarrow> ok x \<Longrightarrow> inv (snd (push x s))"
    and push_room: "inv s \<Longrightarrow> ok x \<Longrightarrow> length (contents s) < cap \<Longrightarrow>
      fst (push x s) \<and> contents (snd (push x s)) = contents s @ [x]"
    and push_full: "inv s \<Longrightarrow> ok x \<Longrightarrow> length (contents s) = cap \<Longrightarrow>
      \<not> fst (push x s) \<and> contents (snd (push x s)) = contents s"
    and pop_none: "inv s \<Longrightarrow> pop s = None \<longleftrightarrow> contents s = []"
    and pop_some: "inv s \<Longrightarrow> pop s = Some (x, s') \<Longrightarrow> inv s' \<and> contents s = x # contents s'"
begin

lemma push_iff: "inv s \<Longrightarrow> ok x \<Longrightarrow> fst (push x s) \<longleftrightarrow> length (contents s) < cap"
  using contents_cap[of s] push_room[of s x] push_full[of s x] by linarith

lemma push_contents:
  "inv s \<Longrightarrow> ok x \<Longrightarrow> contents (snd (push x s)) = take cap (contents s @ [x])"
  using contents_cap[of s] push_room[of s x] push_full[of s x]
  by (cases "length (contents s) < cap") auto

text \<open>A burst of pushes keeps what fits, in order, and drops the rest.\<close>

lemma push_all:
  "inv s \<Longrightarrow> list_all ok xs \<Longrightarrow>
     inv (fold (\<lambda>x. snd \<circ> push x) xs s) \<and>
     contents (fold (\<lambda>x. snd \<circ> push x) xs s) = take cap (contents s @ xs)"
proof (induction xs arbitrary: s)
  case Nil
  then show ?case by (simp add: contents_cap)
next
  case (Cons x xs)
  show ?case
    using Cons contents_cap[OF Cons.prems(1)] by (auto simp: push_contents push_inv take_push simp del: take_append)
qed

text \<open>What was accepted comes out in the order it went in.\<close>

lemma pop_front:
  assumes "inv s" and "contents s = x # xs"
  shows "\<exists>s'. pop s = Some (x, s') \<and> inv s' \<and> contents s' = xs"
proof -
  from assms obtain y s' where p: "pop s = Some (y, s')"
    using pop_none[of s] by (cases "pop s") auto
  from pop_some[OF assms(1) p] assms(2) show ?thesis
    using p by auto
qed

lemma pop_after_push_empty:
  assumes "inv s" and "ok x" and "contents s = []" and "0 < cap"
  shows "\<exists>s'. pop (snd (push x s)) = Some (x, s') \<and> contents s' = []"
  using assms push_room[of s x] push_inv[of s x] pop_front[of "snd (push x s)" x "[]"]
  by auto

end

section \<open>A list as a queue\<close>

text \<open>A queue of the operating systems, for concrete runs.\<close>

definition fifo_put :: "nat \<Rightarrow> 'a \<Rightarrow> 'a list \<Rightarrow> bool \<times> 'a list" where
  "fifo_put cap x q = (if length q < cap then (True, q @ [x]) else (False, q))"

fun fifo_get :: "'a list \<Rightarrow> ('a \<times> 'a list) option" where
  "fifo_get [] = None"
| "fifo_get (x # q) = Some (x, q)"

lemma list_fifo: "bounded_fifo (\<lambda>q. length q \<le> cap) (\<lambda>q. q) cap ok (fifo_put cap) fifo_get"
proof
  show "length s \<le> cap \<Longrightarrow> fifo_get s = Some (x, s') \<Longrightarrow> length s' \<le> cap \<and> s = x # s'" for s s' :: "'a list" and x
    by (cases s) auto
  show "length s \<le> cap \<Longrightarrow> (fifo_get s = None) = (s = [])" for s :: "'a list"
    by (cases s) auto
qed (auto simp: fifo_put_def)

end
