(* ===== verification/ServoState.thy ===== *)
theory ServoState imports RingFifo begin

text \<open>
  The state of the servo controller (STM32 motor.c) and its primitive operations: angle
  clamping, the queue of pending set commands, the PCA9685 register writes and the
  calibration table. The static variables of motor.c are the fields of \<open>servo\<close>; the bytes
  handed to \<^verbatim>\<open>HAL_I2C_Master_Transmit\<close> are appended to \<open>i2c_log\<close>. \<^verbatim>\<open>int16_t\<close> and
  \<^verbatim>\<open>int8_t\<close> values are integers with the C casts written out; the millisecond tick is a
  32-bit word, so tick differences wrap as in the code.
\<close>

section \<open>Constants and state\<close>

abbreviation (input) MOTOR_NUM :: nat where "MOTOR_NUM \<equiv> 3"
abbreviation (input) SET_QUEUE_LEN :: nat where "SET_QUEUE_LEN \<equiv> 8"

definition MOTOR_ANGLE_MIN :: int where "MOTOR_ANGLE_MIN = 0"
definition MOTOR_ANGLE_MAX :: int where "MOTOR_ANGLE_MAX = 180"
definition MOTOR_STEP_INTERVAL_MS :: u32 where "MOTOR_STEP_INTERVAL_MS = 20"

record MotorSetCommand =
  set_mask :: u8
  set_angles :: "int list"

record servo =
  s_hi2c :: bool
  s_angle :: "int list"
  s_target_angle :: "int list"
  s_moving :: "int list"
  s_speed_deg :: "int list"
  s_set_queue :: "MotorSetCommand list"
  s_set_queue_head :: nat
  s_set_queue_tail :: nat
  s_set_queue_count :: nat
  s_set_queue_active :: bool
  s_set_active_mask :: u8
  s_last_tick :: "u32 list"
  i2c_log :: "bytes list"

text \<open>The static initialisers of motor.c: no I2C handle, all servos at 90 degrees.\<close>

definition servo_reset :: servo where
  "servo_reset = \<lparr> s_hi2c = False, s_angle = [90, 90, 90], s_target_angle = [90, 90, 90],
     s_moving = [0, 0, 0], s_speed_deg = [1, 1, 1],
     s_set_queue = replicate SET_QUEUE_LEN \<lparr> set_mask = 0, set_angles = [0, 0, 0] \<rparr>,
     s_set_queue_head = 0, s_set_queue_tail = 0, s_set_queue_count = 0,
     s_set_queue_active = False, s_set_active_mask = 0, s_last_tick = [0, 0, 0], i2c_log = [] \<rparr>"

section \<open>Primitive operations\<close>

definition clamp_angle :: "int \<Rightarrow> int" where
  "clamp_angle angle =
     (let r = angle;
          r = (if r < MOTOR_ANGLE_MIN then MOTOR_ANGLE_MIN else r)
      in if r > MOTOR_ANGLE_MAX then MOTOR_ANGLE_MAX else r)"

definition motor_clear_set_queue :: "servo \<Rightarrow> servo" where
  "motor_clear_set_queue s = s\<lparr> s_set_queue_head := 0, s_set_queue_tail := 0, s_set_queue_count := 0,
     s_set_queue_active := False, s_set_active_mask := 0 \<rparr>"

definition mask_has :: "u8 \<Rightarrow> nat \<Rightarrow> bool" where
  "mask_has m i \<longleftrightarrow> m AND push_bit i 1 \<noteq> 0"

definition motor_apply_target_angles :: "int list \<Rightarrow> u8 \<Rightarrow> u32 \<Rightarrow> servo \<Rightarrow> servo" where
  "motor_apply_target_angles as m now s =
     fold (\<lambda>i s. if mask_has m i
       then s\<lparr> s_target_angle := (s_target_angle s)[i := clamp_angle (as ! i)],
               s_moving := (s_moving s)[i := 0],
               s_last_tick := (s_last_tick s)[i := now] \<rparr>
       else s) [0..<MOTOR_NUM] s"

definition motor_active_set_complete :: "servo \<Rightarrow> bool" where
  "motor_active_set_complete s =
     list_all (\<lambda>i. \<not> (mask_has (s_set_active_mask s) i \<and>
                      (s_moving s ! i \<noteq> 0 \<or> s_angle s ! i \<noteq> s_target_angle s ! i))) [0..<MOTOR_NUM]"

definition motor_start_next_queued_set :: "u32 \<Rightarrow> servo \<Rightarrow> servo" where
  "motor_start_next_queued_set now s =
     (if s_set_queue_count s = 0 \<or> s_set_queue_active s then s
      else
        let next_cmd = s_set_queue s ! s_set_queue_head s;
            s = motor_apply_target_angles (set_angles next_cmd) (set_mask next_cmd) now s
        in s\<lparr> s_set_queue_head := ring_succ SET_QUEUE_LEN (s_set_queue_head s),
              s_set_queue_count := s_set_queue_count s - 1,
              s_set_queue_active := True,
              s_set_active_mask := set_mask next_cmd \<rparr>)"

definition motor_enqueue_target_angles :: "int list \<Rightarrow> u8 \<Rightarrow> servo \<Rightarrow> bool \<times> servo" where
  "motor_enqueue_target_angles as m s =
     (if \<not> s_hi2c s then (False, s)
      else if s_set_queue_count s \<ge> SET_QUEUE_LEN then (False, s)
      else (True,
        s\<lparr> s_set_queue := (s_set_queue s)[s_set_queue_tail s :=
              \<lparr> set_mask = m, set_angles = map (\<lambda>i. clamp_angle (as ! i)) [0..<MOTOR_NUM] \<rparr>],
           s_set_queue_tail := ring_succ SET_QUEUE_LEN (s_set_queue_tail s),
           s_set_queue_count := s_set_queue_count s + 1 \<rparr>))"

section \<open>PCA9685 register writes\<close>

text \<open>
  \<^verbatim>\<open>pca_write\<close> answers the HAL status of the transfer; the bus is a parameter: whether the
  transfer of \<open>buf\<close> succeeds after the transfers of the log. The PWM writes ignore it.
\<close>

type_synonym i2c_bus = "bytes list \<Rightarrow> bytes \<Rightarrow> bool"

definition pca_write :: "i2c_bus \<Rightarrow> u8 \<Rightarrow> u8 \<Rightarrow> servo \<Rightarrow> bool \<times> servo" where
  "pca_write bus reg val s = (bus (i2c_log s) [reg, val], s\<lparr> i2c_log := i2c_log s @ [[reg, val]] \<rparr>)"

definition pca_pwm_bytes :: "nat \<Rightarrow> u16 \<Rightarrow> bytes" where
  "pca_pwm_bytes ch tick =
     [0x06 + of_nat ch * 4, 0, 0, ucast (tick AND 0xFF), ucast (drop_bit 8 tick AND 0x1F)]"

definition pca_set_pwm :: "nat \<Rightarrow> u16 \<Rightarrow> servo \<Rightarrow> servo" where
  "pca_set_pwm ch tick s = s\<lparr> i2c_log := i2c_log s @ [pca_pwm_bytes ch tick] \<rparr>"

definition pca_release_bytes :: "nat \<Rightarrow> bytes" where
  "pca_release_bytes ch = [0x06 + of_nat ch * 4, 0, 0, 0, 0x10]"

definition pca_release_pwm :: "nat \<Rightarrow> servo \<Rightarrow> servo" where
  "pca_release_pwm ch s = s\<lparr> i2c_log := i2c_log s @ [pca_release_bytes ch] \<rparr>"

section \<open>Calibration\<close>

definition s_cal_min :: "u16 list" where "s_cal_min = [540, 600, 500]"
definition s_cal_center :: "u16 list" where "s_cal_center = [1530, 1500, 1490]"
definition s_cal_max :: "u16 list" where "s_cal_max = [2600, 2500, 2500]"

text \<open>\<^verbatim>\<open>PULSE_US_TO_TICK\<close>: 32-bit multiplication, 32-bit division, truncation to 16 bits.\<close>

definition PULSE_US_TO_TICK :: "u16 \<Rightarrow> u16" where
  "PULSE_US_TO_TICK us = ucast ((ucast us :: u32) * 330 * 4096 div 1000000)"

definition angle_to_tick :: "nat \<Rightarrow> int \<Rightarrow> u16" where
  "angle_to_tick motor_id angle =
     (if angle \<le> 0 then PULSE_US_TO_TICK (s_cal_min ! motor_id)
      else if angle \<ge> 180 then PULSE_US_TO_TICK (s_cal_max ! motor_id)
      else if angle = 90 then PULSE_US_TO_TICK (s_cal_center ! motor_id)
      else
        let us = (if angle < 90
          then s_cal_min ! motor_id + ucast ((ucast (s_cal_center ! motor_id - s_cal_min ! motor_id) :: u32)
                 * of_int angle div 90)
          else s_cal_center ! motor_id + ucast ((ucast (s_cal_max ! motor_id - s_cal_center ! motor_id) :: u32)
                 * of_int (angle - 90) div 90))
        in PULSE_US_TO_TICK us)"

end
