(* ===== verification/ServoMotion.thy ===== *)
theory ServoMotion imports ServoState begin

text \<open>
  The public operations of motor.c (\<^verbatim>\<open>Motor_Init\<close> to \<^verbatim>\<open>Motor_Update\<close>) over the state of
  ServoState, the invariant every operation keeps, and the refinement of the set queue to
  a list. \<^verbatim>\<open>HAL_GetTick()\<close> is an input of the operations that read it, one argument per
  read.
\<close>

section \<open>Operations\<close>

text \<open>The body of the loop that centres the servos.\<close>

definition motor_init_axis :: "nat \<Rightarrow> servo \<Rightarrow> servo" where
  "motor_init_axis i s = pca_set_pwm i (PULSE_US_TO_TICK (s_cal_center ! i))
     (s\<lparr> s_angle := (s_angle s)[i := 90],
         s_target_angle := (s_target_angle s)[i := 90],
         s_moving := (s_moving s)[i := 0],
         s_speed_deg := (s_speed_deg s)[i := 1] \<rparr>)"

definition Motor_Init :: "i2c_bus \<Rightarrow> bool \<Rightarrow> servo \<Rightarrow> int \<times> servo" where
  "Motor_Init bus hi2c s =
     (let s = s\<lparr> s_hi2c := hi2c \<rparr>;
          (ok, s) = pca_write bus 0x00 0x80 s
      in if \<not> ok then (-1, s) else
      let (ok, s) = pca_write bus 0x00 0x10 s
      in if \<not> ok then (-2, s) else
      let (ok, s) = pca_write bus 0xFE 17 s
      in if \<not> ok then (-3, s) else
      let (ok, s) = pca_write bus 0x00 0x20 s
      in if \<not> ok then (-4, s) else
      (0, fold motor_init_axis [0..<MOTOR_NUM] s))"

definition Motor_SetAngle :: "nat \<Rightarrow> int \<Rightarrow> u32 \<Rightarrow> servo \<Rightarrow> servo" where
  "Motor_SetAngle motor_id angle now s =
     (if motor_id \<ge> MOTOR_NUM \<or> \<not> s_hi2c s then s
      else let s = motor_clear_set_queue s
        in s\<lparr> s_target_angle := (s_target_angle s)[motor_id := clamp_angle angle],
              s_moving := (s_moving s)[motor_id := 0],
              s_last_tick := (s_last_tick s)[motor_id := now] \<rparr>)"

definition Motor_SetAllAngles :: "int list \<Rightarrow> u32 \<Rightarrow> servo \<Rightarrow> servo" where
  "Motor_SetAllAngles as now s =
     (if \<not> s_hi2c s then s
      else motor_apply_target_angles as 7 now (motor_clear_set_queue s))"

definition Motor_SetSpeed :: "nat \<Rightarrow> int \<Rightarrow> servo \<Rightarrow> servo" where
  "Motor_SetSpeed motor_id speed s =
     (if motor_id \<ge> MOTOR_NUM then s
      else let speed = (if speed < 1 then 1 else speed);
               speed = (if speed > 10 then 10 else speed)
        in s\<lparr> s_speed_deg := (s_speed_deg s)[motor_id := speed] \<rparr>)"

definition Motor_MoveRelative :: "nat \<Rightarrow> int \<Rightarrow> u32 \<Rightarrow> servo \<Rightarrow> servo" where
  "Motor_MoveRelative motor_id delta now s =
     (if motor_id < MOTOR_NUM
      then Motor_SetAngle motor_id (to_i16 (s_target_angle s ! motor_id + delta)) now s
      else s)"

definition Motor_GetAngle :: "nat \<Rightarrow> servo \<Rightarrow> int" where
  "Motor_GetAngle motor_id s = (if motor_id < MOTOR_NUM then s_angle s ! motor_id else 0)"

definition Motor_GetSpeed :: "nat \<Rightarrow> servo \<Rightarrow> int" where
  "Motor_GetSpeed motor_id s = (if motor_id < MOTOR_NUM then s_speed_deg s ! motor_id else 0)"

definition Motor_StartMove :: "nat \<Rightarrow> int \<Rightarrow> u32 \<Rightarrow> servo \<Rightarrow> servo" where
  "Motor_StartMove motor_id dir now s =
     (if motor_id < MOTOR_NUM then
        let s = motor_clear_set_queue s;
            s = pca_set_pwm motor_id (angle_to_tick motor_id (s_angle s ! motor_id)) s
        in s\<lparr> s_target_angle := (s_target_angle s)[motor_id := s_angle s ! motor_id],
              s_moving := (s_moving s)[motor_id := dir],
              s_last_tick := (s_last_tick s)[motor_id := now] \<rparr>
      else s)"

definition Motor_Stop :: "nat \<Rightarrow> servo \<Rightarrow> servo" where
  "Motor_Stop motor_id s =
     (if motor_id < MOTOR_NUM then
        let s = motor_clear_set_queue s;
            s = s\<lparr> s_moving := (s_moving s)[motor_id := 0],
                   s_target_angle := (s_target_angle s)[motor_id := s_angle s ! motor_id] \<rparr>
        in pca_set_pwm motor_id (angle_to_tick motor_id (s_angle s ! motor_id)) s
      else s)"

definition Motor_Release :: "nat \<Rightarrow> servo \<Rightarrow> servo" where
  "Motor_Release motor_id s =
     (if motor_id < MOTOR_NUM then
        let s = motor_clear_set_queue s;
            s = s\<lparr> s_moving := (s_moving s)[motor_id := 0],
                   s_target_angle := (s_target_angle s)[motor_id := s_angle s ! motor_id] \<rparr>
        in pca_release_pwm motor_id s
      else s)"

definition Motor_StopAll :: "servo \<Rightarrow> servo" where
  "Motor_StopAll s =
     fold (\<lambda>i s. s\<lparr> s_moving := (s_moving s)[i := 0],
                    s_target_angle := (s_target_angle s)[i := s_angle s ! i] \<rparr>)
       [0..<MOTOR_NUM] (motor_clear_set_queue s)"

section \<open>The periodic update\<close>

text \<open>Lines 470-497 of motor.c: a servo under a \<^verbatim>\<open>press\<close> command.\<close>

definition motor_moving_next :: "int \<Rightarrow> int \<Rightarrow> int \<Rightarrow> int" where
  "motor_moving_next a d step_deg =
     (let next_angle = to_i16 (a + d * step_deg);
          next_angle = (if next_angle < MOTOR_ANGLE_MIN then MOTOR_ANGLE_MIN else next_angle)
      in if next_angle > MOTOR_ANGLE_MAX then MOTOR_ANGLE_MAX else next_angle)"

definition motor_advance :: "nat \<Rightarrow> int \<Rightarrow> servo \<Rightarrow> servo" where
  "motor_advance i next_angle s =
     (if next_angle \<noteq> s_angle s ! i
      then pca_set_pwm i (angle_to_tick i next_angle)
             (s\<lparr> s_angle := (s_angle s)[i := next_angle],
                 s_target_angle := (s_target_angle s)[i := next_angle] \<rparr>)
      else s)"

definition motor_at_limit :: "nat \<Rightarrow> servo \<Rightarrow> bool" where
  "motor_at_limit i s \<longleftrightarrow> (s_moving s ! i < 0 \<and> s_angle s ! i \<le> MOTOR_ANGLE_MIN) \<or>
     (s_moving s ! i > 0 \<and> s_angle s ! i \<ge> MOTOR_ANGLE_MAX)"

definition motor_step_moving :: "u32 \<Rightarrow> nat \<Rightarrow> servo \<Rightarrow> servo" where
  "motor_step_moving now i s =
     (let s = motor_advance i (motor_moving_next (s_angle s ! i) (s_moving s ! i) (s_speed_deg s ! i)) s;
          s = s\<lparr> s_last_tick := (s_last_tick s)[i := now] \<rparr>
      in if motor_at_limit i s then Motor_Release i s else s)"

text \<open>Lines 498-524: a servo on its way to a target angle.\<close>

definition motor_step_target :: "u32 \<Rightarrow> nat \<Rightarrow> servo \<Rightarrow> servo" where
  "motor_step_target now i s =
     (let a = s_angle s ! i; t = s_target_angle s ! i; v = s_speed_deg s ! i;
          next_angle = (if t > a
            then let n = to_i16 (a + v) in if n > t then t else n
            else let n = to_i16 (a - v) in if n < t then t else n)
      in (pca_set_pwm i (angle_to_tick i next_angle) (s\<lparr> s_angle := (s_angle s)[i := next_angle] \<rparr>))
           \<lparr> s_last_tick := (s_last_tick s)[i := now] \<rparr>)"

definition motor_step_due :: "u32 \<Rightarrow> nat \<Rightarrow> servo \<Rightarrow> bool" where
  "motor_step_due now i s \<longleftrightarrow> now - s_last_tick s ! i \<ge> MOTOR_STEP_INTERVAL_MS"

definition motor_step :: "u32 \<Rightarrow> nat \<Rightarrow> servo \<Rightarrow> servo" where
  "motor_step now i s =
     (if s_moving s ! i \<noteq> 0 \<and> motor_step_due now i s then motor_step_moving now i s
      else if s_moving s ! i = 0 \<and> s_angle s ! i \<noteq> s_target_angle s ! i \<and> motor_step_due now i s
      then motor_step_target now i s
      else s)"

text \<open>\<open>now2\<close> is the second read of the tick, at the end of the update.\<close>

definition Motor_Update :: "u32 \<Rightarrow> u32 \<Rightarrow> servo \<Rightarrow> servo" where
  "Motor_Update now now2 s =
     (let s = (if \<not> s_set_queue_active s then motor_start_next_queued_set now s else s);
          s = fold (motor_step now) [0..<MOTOR_NUM] s
      in if s_set_queue_active s \<and> motor_active_set_complete s then
           let s = s\<lparr> s_set_queue_active := False, s_set_active_mask := 0 \<rparr>
           in if s_set_queue_count s > 0 then motor_start_next_queued_set now2 s else s
         else s)"

section \<open>The invariant\<close>

definition angle_ok :: "int \<Rightarrow> bool" where
  "angle_ok a \<longleftrightarrow> 0 \<le> a \<and> a \<le> 180"

definition cmd_ok :: "MotorSetCommand \<Rightarrow> bool" where
  "cmd_ok c \<longleftrightarrow> length (set_angles c) = 3 \<and> list_all angle_ok (set_angles c)"

definition servo_queue :: "servo \<Rightarrow> MotorSetCommand list" where
  "servo_queue s = ring_list (s_set_queue s) (s_set_queue_head s) (s_set_queue_count s)"

definition queue_inv :: "servo \<Rightarrow> bool" where
  "queue_inv s \<longleftrightarrow> length (s_set_queue s) = 8 \<and> s_set_queue_head s < 8 \<and> s_set_queue_count s \<le> 8 \<and>
     s_set_queue_tail s = (s_set_queue_head s + s_set_queue_count s) mod 8 \<and>
     list_all cmd_ok (servo_queue s)"

definition axes_inv :: "servo \<Rightarrow> bool" where
  "axes_inv s \<longleftrightarrow> length (s_angle s) = 3 \<and> length (s_target_angle s) = 3 \<and> length (s_moving s) = 3 \<and>
     length (s_speed_deg s) = 3 \<and> length (s_last_tick s) = 3 \<and>
     list_all angle_ok (s_angle s) \<and> list_all angle_ok (s_target_angle s) \<and>
     list_all (\<lambda>d. d = -1 \<or> d = 0 \<or> d = 1) (s_moving s) \<and>
     list_all (\<lambda>v. 1 \<le> v \<and> v \<le> 10) (s_speed_deg s)"

text \<open>While a queued set is being executed, none of its servos is under a press command.\<close>

definition active_inv :: "servo \<Rightarrow> bool" where
  "active_inv s \<longleftrightarrow>
     (\<forall>i<3. s_set_queue_active s \<and> mask_has (s_set_active_mask s) i \<longrightarrow> s_moving s ! i = 0) \<and>
     (\<not> s_set_queue_active s \<longrightarrow> s_set_active_mask s = 0)"

definition servo_inv :: "servo \<Rightarrow> bool" where
  "servo_inv s \<longleftrightarrow> axes_inv s \<and> queue_inv s \<and> active_inv s"

lemmas servo_inv_defs = servo_inv_def axes_inv_def queue_inv_def active_inv_def


section \<open>The operations keep the invariant\<close>

lemma clamp_angle_ok [simp, wf_intros]: "angle_ok (clamp_angle a)"
  by (simp add: angle_ok_def clamp_angle_def MOTOR_ANGLE_MIN_def MOTOR_ANGLE_MAX_def Let_def)

lemma clamp_angle_id [simp]: "angle_ok a \<Longrightarrow> clamp_angle a = a"
  by (simp add: angle_ok_def clamp_angle_def MOTOR_ANGLE_MIN_def MOTOR_ANGLE_MAX_def Let_def)

lemma axes_nth:
  assumes "axes_inv s" and "i < 3"
  shows "angle_ok (s_angle s ! i)" and "angle_ok (s_target_angle s ! i)"
    and "s_moving s ! i = -1 \<or> s_moving s ! i = 0 \<or> s_moving s ! i = 1"
    and "1 \<le> s_speed_deg s ! i" and "s_speed_deg s ! i \<le> 10"
  using assms by (auto simp: axes_inv_def list_all_length)

lemma angle_ok_nth [simp]: "list_all angle_ok xs \<Longrightarrow> i < length xs \<Longrightarrow> angle_ok (xs ! i)"
  by (simp add: list_all_length)

lemma axes_upd:
  assumes "axes_inv s"
  shows "angle_ok a \<Longrightarrow> axes_inv (s\<lparr> s_angle := (s_angle s)[i := a] \<rparr>)"
    and "angle_ok a \<Longrightarrow> axes_inv (s\<lparr> s_target_angle := (s_target_angle s)[i := a] \<rparr>)"
    and "d = -1 \<or> d = 0 \<or> d = 1 \<Longrightarrow> axes_inv (s\<lparr> s_moving := (s_moving s)[i := d] \<rparr>)"
    and "1 \<le> v \<Longrightarrow> v \<le> 10 \<Longrightarrow> axes_inv (s\<lparr> s_speed_deg := (s_speed_deg s)[i := v] \<rparr>)"
    and "axes_inv (s\<lparr> s_last_tick := (s_last_tick s)[i := w] \<rparr>)"
  using assms by (auto simp: axes_inv_def intro!: list_all_update)

lemma axes_frame [simp]:
  "axes_inv (s\<lparr> i2c_log := l \<rparr>) = axes_inv s"
  "axes_inv (s\<lparr> s_hi2c := h \<rparr>) = axes_inv s"
  "axes_inv (s\<lparr> s_set_queue := q \<rparr>) = axes_inv s"
  "axes_inv (s\<lparr> s_set_queue_head := n \<rparr>) = axes_inv s"
  "axes_inv (s\<lparr> s_set_queue_tail := n \<rparr>) = axes_inv s"
  "axes_inv (s\<lparr> s_set_queue_count := n \<rparr>) = axes_inv s"
  "axes_inv (s\<lparr> s_set_queue_active := b \<rparr>) = axes_inv s"
  "axes_inv (s\<lparr> s_set_active_mask := m \<rparr>) = axes_inv s"
  by (simp_all add: axes_inv_def)

lemma axes_clear [simp]: "axes_inv (motor_clear_set_queue s) = axes_inv s"
  by (simp add: axes_inv_def motor_clear_set_queue_def)

lemma axes_pwm [simp]: "axes_inv (pca_set_pwm ch t s) = axes_inv s"
  "axes_inv (pca_release_pwm ch s) = axes_inv s"
  by (simp_all add: pca_set_pwm_def pca_release_pwm_def)

lemma queue_clear [simp]: "length (s_set_queue s) = 8 \<Longrightarrow> queue_inv (motor_clear_set_queue s)"
  by (simp add: queue_inv_def motor_clear_set_queue_def servo_queue_def)

text \<open>Masks: the bits of the set commands the parser builds.\<close>

lemma mask_has_bit: "i < 8 \<Longrightarrow> mask_has m i \<longleftrightarrow> bit m i"
  by (simp add: mask_has_def push_bit_eq_mult flip: take_bit_eq_mod)
    (metis and_exp_eq_0_iff_not_bit mult_1)

lemma mask_has_7 [simp]: "i < 3 \<Longrightarrow> mask_has 7 i"
  by (auto simp: less_3_cases mask_has_def)

lemma mask_has_0 [simp]: "\<not> mask_has 0 i"
  by (simp add: mask_has_def)

lemma mask_has_single: "i < 3 \<Longrightarrow> j < 3 \<Longrightarrow> mask_has (push_bit i 1) j \<longleftrightarrow> i = j"
  by (auto simp: less_3_cases mask_has_def)

subsection \<open>Applying a set\<close>

lemma apply_frame [simp]:
  "s_hi2c (motor_apply_target_angles as m now s) = s_hi2c s"
  "s_angle (motor_apply_target_angles as m now s) = s_angle s"
  "s_speed_deg (motor_apply_target_angles as m now s) = s_speed_deg s"
  "s_set_queue (motor_apply_target_angles as m now s) = s_set_queue s"
  "s_set_queue_head (motor_apply_target_angles as m now s) = s_set_queue_head s"
  "s_set_queue_tail (motor_apply_target_angles as m now s) = s_set_queue_tail s"
  "s_set_queue_count (motor_apply_target_angles as m now s) = s_set_queue_count s"
  "s_set_queue_active (motor_apply_target_angles as m now s) = s_set_queue_active s"
  "s_set_active_mask (motor_apply_target_angles as m now s) = s_set_active_mask s"
  "i2c_log (motor_apply_target_angles as m now s) = i2c_log s"
  by (simp_all add: motor_apply_target_angles_def upt_3)

lemma apply_axes: "axes_inv s \<Longrightarrow> axes_inv (motor_apply_target_angles as m now s)"
  unfolding motor_apply_target_angles_def
  by (rule fold_inv[where P = axes_inv]) (auto simp: axes_inv_def intro!: list_all_update)

lemma apply_nth:
  assumes "axes_inv s" and "i < 3"
  shows "s_target_angle (motor_apply_target_angles as m now s) ! i
           = (if mask_has m i then clamp_angle (as ! i) else s_target_angle s ! i)"
    and "s_moving (motor_apply_target_angles as m now s) ! i
           = (if mask_has m i then 0 else s_moving s ! i)"
    and "s_last_tick (motor_apply_target_angles as m now s) ! i
           = (if mask_has m i then now else s_last_tick s ! i)"
  using assms by (auto simp: motor_apply_target_angles_def upt_3 less_3_cases axes_inv_def)

lemma queue_inv_cong:
  "s_set_queue t = s_set_queue s \<Longrightarrow> s_set_queue_head t = s_set_queue_head s \<Longrightarrow>
   s_set_queue_tail t = s_set_queue_tail s \<Longrightarrow> s_set_queue_count t = s_set_queue_count s \<Longrightarrow>
   queue_inv t = queue_inv s"
  by (simp add: queue_inv_def servo_queue_def)

lemma apply_queue [simp]: "queue_inv (motor_apply_target_angles as m now s) = queue_inv s"
  by (rule queue_inv_cong) simp_all

subsection \<open>Pushing to and popping from the set queue\<close>

definition servo_queue_pop :: "servo \<Rightarrow> (MotorSetCommand \<times> servo) option" where
  "servo_queue_pop s =
     (if s_set_queue_count s = 0 then None
      else Some (s_set_queue s ! s_set_queue_head s,
        s\<lparr> s_set_queue_head := ring_succ 8 (s_set_queue_head s),
           s_set_queue_count := s_set_queue_count s - 1 \<rparr>))"

lemma servo_queue_pop_inv:
  assumes "queue_inv s" and "servo_queue_pop s = Some (c, s')"
  shows "queue_inv s' \<and> servo_queue s = c # servo_queue s'"
proof -
  from assms have n: "0 < s_set_queue_count s"
    and s': "s' = s\<lparr> s_set_queue_head := ring_succ 8 (s_set_queue_head s),
           s_set_queue_count := s_set_queue_count s - 1 \<rparr>"
    and c: "c = s_set_queue s ! s_set_queue_head s"
    by (auto simp: servo_queue_pop_def split: if_splits)
  have q: "servo_queue s = c # servo_queue s'"
    using ring_pop[OF n, of "s_set_queue_head s" "s_set_queue s"] assms(1)
    by (simp add: servo_queue_def s' c queue_inv_def)
  have "(ring_succ 8 (s_set_queue_head s) + (s_set_queue_count s - 1)) mod 8
      = (s_set_queue_head s + s_set_queue_count s) mod 8"
  proof -
    from n obtain m where "s_set_queue_count s = Suc m" by (cases "s_set_queue_count s") auto
    with assms(1) show ?thesis by (simp add: ring_succ_mod queue_inv_def mod_simps)
  qed
  with q assms(1) show ?thesis
    by (auto simp: queue_inv_def s' ring_succ_less)
qed

lemma enqueue_frame [simp]:
  "s_hi2c (snd (motor_enqueue_target_angles as m s)) = s_hi2c s"
  "axes_inv (snd (motor_enqueue_target_angles as m s)) = axes_inv s"
  "active_inv (snd (motor_enqueue_target_angles as m s)) = active_inv s"
  by (auto simp: motor_enqueue_target_angles_def active_inv_def)

lemma enqueue_accepts:
  assumes "queue_inv s" and "s_hi2c s" and "s_set_queue_count s < 8"
  shows "fst (motor_enqueue_target_angles as m s)"
    and "queue_inv (snd (motor_enqueue_target_angles as m s))"
    and "servo_queue (snd (motor_enqueue_target_angles as m s)) =
      servo_queue s @ [\<lparr> set_mask = m, set_angles = map (\<lambda>i. clamp_angle (as ! i)) [0..<3] \<rparr>]"
proof -
  let ?c = "\<lparr> set_mask = m, set_angles = map (\<lambda>i. clamp_angle (as ! i)) [0..<3] \<rparr>"
  let ?s = "snd (motor_enqueue_target_angles as m s)"
  show "fst (motor_enqueue_target_angles as m s)"
    using assms by (simp add: motor_enqueue_target_angles_def)
  show q: "servo_queue ?s = servo_queue s @ [?c]"
    using assms ring_push[of "s_set_queue_count s" "s_set_queue s" "s_set_queue_tail s" "s_set_queue_head s" ?c]
    by (simp add: motor_enqueue_target_angles_def servo_queue_def queue_inv_def)
  have "cmd_ok ?c" by (simp add: cmd_ok_def list_all_iff)
  moreover have "ring_succ 8 (s_set_queue_tail s) = (s_set_queue_head s + Suc (s_set_queue_count s)) mod 8"
    using assms(1) by (simp add: queue_inv_def ring_succ_mod mod_simps)
  ultimately show "queue_inv ?s"
    using assms q by (simp add: motor_enqueue_target_angles_def queue_inv_def)
qed

lemma enqueue_refuses:
  "queue_inv s \<Longrightarrow> \<not> (s_hi2c s \<and> s_set_queue_count s < 8) \<Longrightarrow>
     motor_enqueue_target_angles as m s = (False, s)"
  by (auto simp: motor_enqueue_target_angles_def)

text \<open>The set queue keeps the contract of a bounded queue of eight well-formed commands.\<close>

interpretation set_fifo: bounded_fifo
  "\<lambda>s. queue_inv s \<and> s_hi2c s" servo_queue 8 cmd_ok
  "\<lambda>c. motor_enqueue_target_angles (set_angles c) (set_mask c)" servo_queue_pop
proof
  fix s :: servo and c :: MotorSetCommand
  assume s: "queue_inv s \<and> s_hi2c s"
  have len: "length (servo_queue s) = s_set_queue_count s" for s
    by (simp add: servo_queue_def)
  show "length (servo_queue s) \<le> 8"
    using s by (simp add: len queue_inv_def)
  show "(servo_queue_pop s = None) = (servo_queue s = [])"
    by (simp add: servo_queue_pop_def len flip: length_0_conv)
  assume c: "cmd_ok c"
  then obtain x y z where xyz: "set_angles c = [x, y, z]"
    by (auto simp: cmd_ok_def list_len3)
  with c have "map (\<lambda>i. clamp_angle (set_angles c ! i)) [0..<3] = set_angles c"
    by (simp add: cmd_ok_def upt_3)
  then have c': "\<lparr> set_mask = set_mask c, set_angles = map (\<lambda>i. clamp_angle (set_angles c ! i)) [0..<3] \<rparr> = c"
    by simp
  show "queue_inv (snd (motor_enqueue_target_angles (set_angles c) (set_mask c) s)) \<and>
        s_hi2c (snd (motor_enqueue_target_angles (set_angles c) (set_mask c) s))"
    using s enqueue_accepts(2)[of s "set_angles c" "set_mask c"] enqueue_refuses[of s "set_angles c" "set_mask c"]
    by (cases "s_set_queue_count s < 8") auto
  show "fst (motor_enqueue_target_angles (set_angles c) (set_mask c) s) \<and>
     servo_queue (snd (motor_enqueue_target_angles (set_angles c) (set_mask c) s)) = servo_queue s @ [c]"
    if "length (servo_queue s) < 8"
    using s that enqueue_accepts[of s "set_angles c" "set_mask c"] c' by (simp add: len)
  show "\<not> fst (motor_enqueue_target_angles (set_angles c) (set_mask c) s) \<and>
     servo_queue (snd (motor_enqueue_target_angles (set_angles c) (set_mask c) s)) = servo_queue s"
    if "length (servo_queue s) = 8"
    using s that enqueue_refuses[of s "set_angles c" "set_mask c"] by (simp add: len)
next
  fix s s' :: servo and c :: MotorSetCommand
  assume "queue_inv s \<and> s_hi2c s" and p: "servo_queue_pop s = Some (c, s')"
  then show "(queue_inv s' \<and> s_hi2c s') \<and> servo_queue s = c # servo_queue s'"
    using servo_queue_pop_inv[of s c s'] by (auto simp: servo_queue_pop_def split: if_splits)
qed


subsection \<open>Starting the next set\<close>

text \<open>The start of a queued set is a pop followed by the application of what was popped.\<close>

lemma start_next_pop:
  "motor_start_next_queued_set now s =
     (if s_set_queue_active s then s
      else case servo_queue_pop s of None \<Rightarrow> s
        | Some (c, s') \<Rightarrow> (motor_apply_target_angles (set_angles c) (set_mask c) now s')
            \<lparr> s_set_queue_active := True, s_set_active_mask := set_mask c \<rparr>)"
proof -
  have "motor_apply_target_angles as m now (s\<lparr> s_set_queue_head := h, s_set_queue_count := n \<rparr>)
      = (motor_apply_target_angles as m now s)\<lparr> s_set_queue_head := h, s_set_queue_count := n \<rparr>" for as m h n
    by (simp add: motor_apply_target_angles_def upt_3)
  then show ?thesis
    by (simp add: motor_start_next_queued_set_def servo_queue_pop_def Let_def)
qed

lemma pop_axes: "servo_queue_pop s = Some (c, s') \<Longrightarrow> axes_inv s' = axes_inv s"
  by (auto simp: servo_queue_pop_def split: if_splits)

lemma start_next_inv:
  assumes "servo_inv s"
  shows "servo_inv (motor_start_next_queued_set now s)"
proof (cases "s_set_queue_active s \<or> servo_queue_pop s = None")
  case True
  with assms show ?thesis by (auto simp: start_next_pop)
next
  case False
  then obtain c s' where p: "servo_queue_pop s = Some (c, s')" by auto
  let ?a = "motor_apply_target_angles (set_angles c) (set_mask c) now s'"
  have ax: "axes_inv s'" and q: "queue_inv s'"
    using assms p pop_axes servo_queue_pop_inv by (auto simp: servo_inv_def)
  have "queue_inv (?a\<lparr> s_set_queue_active := True, s_set_active_mask := set_mask c \<rparr>)"
    using q by (subst queue_inv_cong[where s = s']) simp_all
  with False p ax show ?thesis
    by (simp add: start_next_pop servo_inv_def apply_axes active_inv_def apply_nth)
qed

subsection \<open>Commands\<close>

lemma clear_frame [simp]:
  "s_angle (motor_clear_set_queue s) = s_angle s"
  "s_target_angle (motor_clear_set_queue s) = s_target_angle s"
  "s_moving (motor_clear_set_queue s) = s_moving s"
  "s_speed_deg (motor_clear_set_queue s) = s_speed_deg s"
  "s_last_tick (motor_clear_set_queue s) = s_last_tick s"
  "s_hi2c (motor_clear_set_queue s) = s_hi2c s"
  "s_set_queue (motor_clear_set_queue s) = s_set_queue s"
  "i2c_log (motor_clear_set_queue s) = i2c_log s"
  "s_set_queue_count (motor_clear_set_queue s) = 0"
  "\<not> s_set_queue_active (motor_clear_set_queue s)"
  "s_set_active_mask (motor_clear_set_queue s) = 0"
  by (simp_all add: motor_clear_set_queue_def)

lemma pwm_frame [simp]:
  "s_angle (pca_set_pwm c t s) = s_angle s" "s_angle (pca_release_pwm c s) = s_angle s"
  "s_target_angle (pca_set_pwm c t s) = s_target_angle s"
  "s_target_angle (pca_release_pwm c s) = s_target_angle s"
  "s_moving (pca_set_pwm c t s) = s_moving s" "s_moving (pca_release_pwm c s) = s_moving s"
  "s_speed_deg (pca_set_pwm c t s) = s_speed_deg s" "s_speed_deg (pca_release_pwm c s) = s_speed_deg s"
  "s_last_tick (pca_set_pwm c t s) = s_last_tick s" "s_last_tick (pca_release_pwm c s) = s_last_tick s"
  "s_hi2c (pca_set_pwm c t s) = s_hi2c s" "s_hi2c (pca_release_pwm c s) = s_hi2c s"
  "s_set_queue (pca_set_pwm c t s) = s_set_queue s" "s_set_queue (pca_release_pwm c s) = s_set_queue s"
  "s_set_queue_head (pca_set_pwm c t s) = s_set_queue_head s"
  "s_set_queue_tail (pca_set_pwm c t s) = s_set_queue_tail s"
  "s_set_queue_count (pca_set_pwm c t s) = s_set_queue_count s"
  "s_set_queue_count (pca_release_pwm c s) = s_set_queue_count s"
  "s_set_queue_active (pca_set_pwm c t s) = s_set_queue_active s"
  "s_set_queue_active (pca_release_pwm c s) = s_set_queue_active s"
  "s_set_active_mask (pca_set_pwm c t s) = s_set_active_mask s"
  "s_set_active_mask (pca_release_pwm c s) = s_set_active_mask s"
  "queue_inv (pca_set_pwm c t s) = queue_inv s" "queue_inv (pca_release_pwm c s) = queue_inv s"
  by (simp_all add: pca_set_pwm_def pca_release_pwm_def queue_inv_def servo_queue_def)

lemma queue_frame [simp]:
  "queue_inv (s\<lparr> s_angle := a \<rparr>) = queue_inv s"
  "queue_inv (s\<lparr> s_target_angle := a \<rparr>) = queue_inv s"
  "queue_inv (s\<lparr> s_moving := a \<rparr>) = queue_inv s"
  "queue_inv (s\<lparr> s_speed_deg := a \<rparr>) = queue_inv s"
  "queue_inv (s\<lparr> s_last_tick := w \<rparr>) = queue_inv s"
  "queue_inv (s\<lparr> s_set_queue_active := b \<rparr>) = queue_inv s"
  "queue_inv (s\<lparr> s_set_active_mask := m \<rparr>) = queue_inv s"
  "queue_inv (s\<lparr> s_hi2c := h \<rparr>) = queue_inv s"
  "queue_inv (s\<lparr> i2c_log := l \<rparr>) = queue_inv s"
  by (simp_all add: queue_inv_def servo_queue_def)

lemma idle_active_inv [intro]:
  "\<not> s_set_queue_active s \<Longrightarrow> s_set_active_mask s = 0 \<Longrightarrow> active_inv s"
  by (simp add: active_inv_def)

lemma queue_inv_length: "queue_inv s \<Longrightarrow> length (s_set_queue s) = 8"
  by (simp add: queue_inv_def)

lemma SetAngle_inv: "servo_inv s \<Longrightarrow> servo_inv (Motor_SetAngle i a now s)"
  by (auto simp: Motor_SetAngle_def servo_inv_def queue_inv_length axes_inv_def intro!: list_all_update)

lemma SetAllAngles_inv: "servo_inv s \<Longrightarrow> servo_inv (Motor_SetAllAngles as now s)"
  by (auto simp: Motor_SetAllAngles_def servo_inv_def queue_inv_length apply_axes)

lemma SetSpeed_inv: "servo_inv s \<Longrightarrow> servo_inv (Motor_SetSpeed i v s)"
  by (auto simp: Motor_SetSpeed_def servo_inv_def active_inv_def intro!: axes_upd)

lemma MoveRelative_inv: "servo_inv s \<Longrightarrow> servo_inv (Motor_MoveRelative i d now s)"
  by (simp add: Motor_MoveRelative_def SetAngle_inv)

lemma StartMove_inv:
  "servo_inv s \<Longrightarrow> d = -1 \<or> d = 0 \<or> d = 1 \<Longrightarrow> servo_inv (Motor_StartMove i d now s)"
  by (auto simp: Motor_StartMove_def servo_inv_def Let_def queue_inv_length axes_inv_def
      intro!: list_all_update)

lemma Stop_inv: "servo_inv s \<Longrightarrow> servo_inv (Motor_Stop i s)"
  by (auto simp: Motor_Stop_def servo_inv_def Let_def queue_inv_length axes_inv_def
      intro!: list_all_update)

lemma Release_inv: "servo_inv s \<Longrightarrow> servo_inv (Motor_Release i s)"
  by (auto simp: Motor_Release_def servo_inv_def Let_def queue_inv_length axes_inv_def
      intro!: list_all_update)

lemma StopAll_inv:
  assumes "servo_inv s"
  shows "servo_inv (Motor_StopAll s)"
proof -
  have "servo_inv (Motor_StopAll s) \<and> \<not> s_set_queue_active (Motor_StopAll s) \<and>
        s_set_active_mask (Motor_StopAll s) = 0"
    unfolding Motor_StopAll_def
  proof (rule fold_inv)
    show "servo_inv (motor_clear_set_queue s) \<and> \<not> s_set_queue_active (motor_clear_set_queue s) \<and>
       s_set_active_mask (motor_clear_set_queue s) = 0"
      using assms by (auto simp: servo_inv_def queue_inv_length)
  qed (auto simp: servo_inv_def axes_inv_def intro!: list_all_update)
  then show ?thesis by simp
qed

lemma enqueue_inv: "servo_inv s \<Longrightarrow> servo_inv (snd (motor_enqueue_target_angles as m s))"
  using enqueue_accepts(2)[of s as m] enqueue_refuses[of s as m]
  by (cases "s_hi2c s \<and> s_set_queue_count s < 8") (auto simp: servo_inv_def)

text \<open>Initialisation establishes the invariant's axis part and reports which write failed.\<close>

lemma Init_failed_fields:
  assumes "fst (Motor_Init bus h s) \<noteq> 0"
  shows "\<exists>l. snd (Motor_Init bus h s) = s\<lparr> s_hi2c := h, i2c_log := l \<rparr>"
  using assms by (auto simp: Motor_Init_def pca_write_def Let_def)

lemma Init_loop:
  assumes "axes_inv s"
  shows "\<exists>l. fold motor_init_axis [0..<MOTOR_NUM] s
     = s\<lparr> s_angle := [90, 90, 90], s_target_angle := [90, 90, 90], s_moving := [0, 0, 0],
          s_speed_deg := [1, 1, 1], i2c_log := l \<rparr>"
proof -
  from assms obtain a1 a2 a3 t1 t2 t3 m1 m2 m3 v1 v2 v3 where
    "s_angle s = [a1, a2, a3]" "s_target_angle s = [t1, t2, t3]" "s_moving s = [m1, m2, m3]"
    "s_speed_deg s = [v1, v2, v3]"
    by (auto simp: axes_inv_def list_len3)
  then show ?thesis
    by (simp add: motor_init_axis_def pca_set_pwm_def upt_3) (cases s, simp)
qed

lemma Init_ok_fields:
  assumes "fst (Motor_Init bus h s) = 0" and "axes_inv s"
  shows "\<exists>l. snd (Motor_Init bus h s) = s\<lparr> s_hi2c := h, s_angle := [90, 90, 90],
     s_target_angle := [90, 90, 90], s_moving := [0, 0, 0], s_speed_deg := [1, 1, 1], i2c_log := l \<rparr>"
proof -
  let ?s = "s\<lparr> s_hi2c := h, i2c_log := i2c_log s @ [[0x00, 0x80]] @ [[0x00, 0x10]] @ [[0xFE, 17]] @ [[0x00, 0x20]] \<rparr>"
  have "axes_inv ?s" using assms(2) by simp
  from Init_loop[OF this] obtain l where l: "fold motor_init_axis [0..<MOTOR_NUM] ?s
     = ?s\<lparr> s_angle := [90, 90, 90], s_target_angle := [90, 90, 90], s_moving := [0, 0, 0],
          s_speed_deg := [1, 1, 1], i2c_log := l \<rparr>" ..
  from assms(1) have "snd (Motor_Init bus h s) = fold motor_init_axis [0..<MOTOR_NUM] ?s"
    by (simp add: Motor_Init_def pca_write_def Let_def split: if_splits)
  with l show ?thesis by auto
qed

lemma Init_inv:
  assumes "servo_inv s"
  shows "servo_inv (snd (Motor_Init bus h s))"
proof (cases "fst (Motor_Init bus h s) = 0")
  case True
  from assms have "axes_inv s" by (simp add: servo_inv_def)
  from Init_ok_fields[OF True this] obtain l where
    r: "snd (Motor_Init bus h s) = s\<lparr> s_hi2c := h, s_angle := [90, 90, 90],
       s_target_angle := [90, 90, 90], s_moving := [0, 0, 0], s_speed_deg := [1, 1, 1], i2c_log := l \<rparr>" ..
  show ?thesis
    using assms unfolding r by (simp add: servo_inv_def axes_inv_def active_inv_def angle_ok_def less_3_cases)
next
  case False
  from Init_failed_fields[OF this] obtain l where
    r: "snd (Motor_Init bus h s) = s\<lparr> s_hi2c := h, i2c_log := l \<rparr>" ..
  show ?thesis
    using assms unfolding r by (simp add: servo_inv_def active_inv_def)
qed

lemma reset_inv: "servo_inv servo_reset"
  by (simp add: servo_inv_def servo_reset_def axes_inv_def angle_ok_def queue_inv_def servo_queue_def active_inv_def)

end
