(* ===== verification/ServoUpdate.thy ===== *)
theory ServoUpdate imports ServoMotion begin

text \<open>
  What \<^verbatim>\<open>Motor_Update\<close> guarantees: it keeps the invariant, every servo moves towards
  its target by at most its speed and never past it, and a queued set that is being executed
  completes. The calibration table maps angles monotonically into the 12-bit range of the
  PCA9685, so no message on the bus drives a servo outside its calibrated pulse range.
\<close>

section \<open>One servo, one step\<close>

lemma Release_fields [simp]:
  "i < 3 \<Longrightarrow> s_angle (Motor_Release i s) = s_angle s"
  "i < 3 \<Longrightarrow> s_last_tick (Motor_Release i s) = s_last_tick s"
  "i < 3 \<Longrightarrow> s_speed_deg (Motor_Release i s) = s_speed_deg s"
  "i < 3 \<Longrightarrow> s_hi2c (Motor_Release i s) = s_hi2c s"
  "i < 3 \<Longrightarrow> s_moving (Motor_Release i s) = (s_moving s)[i := 0]"
  "i < 3 \<Longrightarrow> s_target_angle (Motor_Release i s) = (s_target_angle s)[i := s_angle s ! i]"
  "i < 3 \<Longrightarrow> s_set_queue_count (Motor_Release i s) = 0"
  "i < 3 \<Longrightarrow> \<not> s_set_queue_active (Motor_Release i s)"
  "i < 3 \<Longrightarrow> s_set_active_mask (Motor_Release i s) = 0"
  by (simp_all add: Motor_Release_def)

text \<open>The angle a step goes to.\<close>

definition target_next :: "int \<Rightarrow> int \<Rightarrow> int \<Rightarrow> int" where
  "target_next a t v = (if t > a then min (a + v) t else max (a - v) t)"

lemma step_target_eq:
  assumes "axes_inv s" and "i < 3"
  shows "motor_step_target now i s =
    (let n = target_next (s_angle s ! i) (s_target_angle s ! i) (s_speed_deg s ! i)
     in (pca_set_pwm i (angle_to_tick i n) (s\<lparr> s_angle := (s_angle s)[i := n] \<rparr>))
          \<lparr> s_last_tick := (s_last_tick s)[i := now] \<rparr>)"
  using axes_nth[OF assms]
  by (auto simp: motor_step_target_def target_next_def Let_def angle_ok_def min_def max_def)

lemma target_next_ok:
  "angle_ok a \<Longrightarrow> angle_ok t \<Longrightarrow> 1 \<le> v \<Longrightarrow> angle_ok (target_next a t v)"
  by (auto simp: target_next_def angle_ok_def)

lemma target_next_closer:
  "1 \<le> v \<Longrightarrow> a \<noteq> t \<Longrightarrow> \<bar>t - target_next a t v\<bar> < \<bar>t - a\<bar>"
  by (auto simp: target_next_def)

lemma target_next_between:
  "1 \<le> v \<Longrightarrow> min a t \<le> target_next a t v \<and> target_next a t v \<le> max a t \<and> \<bar>target_next a t v - a\<bar> \<le> v"
  by (auto simp: target_next_def)

lemma moving_next_ok [simp]: "angle_ok (motor_moving_next a d v)"
  by (simp add: motor_moving_next_def angle_ok_def MOTOR_ANGLE_MIN_def MOTOR_ANGLE_MAX_def Let_def)

lemma advance_fields [simp]:
  "s_angle (motor_advance i n s) = (s_angle s)[i := n]"
  "s_moving (motor_advance i n s) = s_moving s"
  "s_speed_deg (motor_advance i n s) = s_speed_deg s"
  "s_last_tick (motor_advance i n s) = s_last_tick s"
  "s_hi2c (motor_advance i n s) = s_hi2c s"
  "s_set_queue (motor_advance i n s) = s_set_queue s"
  "s_set_queue_count (motor_advance i n s) = s_set_queue_count s"
  "s_set_queue_active (motor_advance i n s) = s_set_queue_active s"
  "s_set_active_mask (motor_advance i n s) = s_set_active_mask s"
  "servo_queue (motor_advance i n s) = servo_queue s"
  "queue_inv (motor_advance i n s) = queue_inv s"
  "j \<noteq> i \<Longrightarrow> s_target_angle (motor_advance i n s) ! j = s_target_angle s ! j"
  by (auto simp: motor_advance_def servo_queue_def pca_set_pwm_def queue_inv_def)

lemma advance_axes: "axes_inv s \<Longrightarrow> angle_ok n \<Longrightarrow> axes_inv (motor_advance i n s)"
  by (auto simp: motor_advance_def axes_inv_def intro!: list_all_update)

lemma Release_axes: "axes_inv s \<Longrightarrow> i < 3 \<Longrightarrow> axes_inv (Motor_Release i s)"
  by (auto simp: axes_inv_def intro!: list_all_update)

lemma step_moving_axes:
  assumes "axes_inv s" and "i < 3"
  shows "axes_inv (motor_step_moving now i s)"
proof -
  let ?s = "motor_advance i (motor_moving_next (s_angle s ! i) (s_moving s ! i) (s_speed_deg s ! i)) s"
  have "axes_inv (?s\<lparr> s_last_tick := (s_last_tick ?s)[i := now] \<rparr>)"
    using advance_axes[OF assms(1) moving_next_ok] by (rule axes_upd(5))
  with assms(2) show ?thesis
    unfolding motor_step_moving_def Let_def by (simp only: Release_axes split: if_split) simp
qed

lemma step_target_axes:
  assumes "axes_inv s" and "i < 3"
  shows "axes_inv (motor_step_target now i s)"
proof -
  have "angle_ok (target_next (s_angle s ! i) (s_target_angle s ! i) (s_speed_deg s ! i))"
    using axes_nth[OF assms] by (intro target_next_ok)
  with assms show ?thesis
    unfolding step_target_eq[OF assms] by (auto simp: axes_inv_def Let_def intro!: list_all_update)
qed

lemma step_axes: "axes_inv s \<Longrightarrow> i < 3 \<Longrightarrow> axes_inv (motor_step now i s)"
  by (simp add: motor_step_def step_moving_axes step_target_axes)

text \<open>A step either leaves the set queue alone or, when a pressed servo reaches its limit, empties it.\<close>

lemma servo_queue_frame [simp]:
  "servo_queue (s\<lparr> s_angle := a \<rparr>) = servo_queue s"
  "servo_queue (s\<lparr> s_last_tick := w \<rparr>) = servo_queue s"
  "servo_queue (pca_set_pwm c t s) = servo_queue s"
  by (simp_all add: servo_queue_def)

definition queue_kept :: "servo \<Rightarrow> servo \<Rightarrow> bool" where
  "queue_kept s t \<longleftrightarrow> s_set_queue_active t = s_set_queue_active s \<and>
     s_set_active_mask t = s_set_active_mask s \<and>
     s_set_queue_count t = s_set_queue_count s \<and> servo_queue t = servo_queue s"

definition queue_dropped :: "servo \<Rightarrow> bool" where
  "queue_dropped t \<longleftrightarrow> \<not> s_set_queue_active t \<and> s_set_active_mask t = 0 \<and> s_set_queue_count t = 0"

lemma step_queue:
  assumes "i < 3"
  shows "queue_kept s (motor_step now i s) \<or> queue_dropped (motor_step now i s)"
  using assms
  by (simp add: motor_step_def motor_step_moving_def motor_step_target_def queue_kept_def
      queue_dropped_def Let_def)

lemma Release_queue_inv: "queue_inv s \<Longrightarrow> queue_inv (Motor_Release i s)"
  by (simp add: Motor_Release_def Let_def queue_inv_length)

lemma step_queue_inv: "queue_inv s \<Longrightarrow> i < 3 \<Longrightarrow> queue_inv (motor_step now i s)"
  by (simp add: motor_step_def motor_step_moving_def motor_step_target_def Let_def Release_queue_inv)

lemma step_other:
  assumes "j \<noteq> i" and "i < 3"
  shows "s_angle (motor_step now i s) ! j = s_angle s ! j"
    and "s_target_angle (motor_step now i s) ! j = s_target_angle s ! j"
    and "s_moving (motor_step now i s) ! j = s_moving s ! j"
    and "s_last_tick (motor_step now i s) ! j = s_last_tick s ! j"
  using assms by (simp_all add: motor_step_def motor_step_moving_def motor_step_target_def Let_def)

lemma step_speed [simp]: "i < 3 \<Longrightarrow> s_speed_deg (motor_step now i s) = s_speed_deg s"
  by (simp add: motor_step_def motor_step_moving_def motor_step_target_def Let_def)

lemma step_hi2c [simp]: "i < 3 \<Longrightarrow> s_hi2c (motor_step now i s) = s_hi2c s"
  by (simp add: motor_step_def motor_step_moving_def motor_step_target_def Let_def)

lemma step_idle_own:
  assumes "axes_inv s" and "i < 3" and "s_moving s ! i = 0"
  shows "s_target_angle (motor_step now i s) ! i = s_target_angle s ! i"
    and "s_moving (motor_step now i s) ! i = 0"
    and "s_angle (motor_step now i s) ! i =
      (if s_angle s ! i \<noteq> s_target_angle s ! i \<and> motor_step_due now i s
       then target_next (s_angle s ! i) (s_target_angle s ! i) (s_speed_deg s ! i) else s_angle s ! i)"
    and "s_last_tick (motor_step now i s) ! i =
      (if s_angle s ! i \<noteq> s_target_angle s ! i \<and> motor_step_due now i s then now else s_last_tick s ! i)"
  using assms by (auto simp: motor_step_def step_target_eq Let_def axes_inv_def)

lemma step_moving_zero:
  "i < 3 \<Longrightarrow> j < 3 \<Longrightarrow> axes_inv s \<Longrightarrow> s_moving s ! j = 0 \<Longrightarrow> s_moving (motor_step now i s) ! j = 0"
  using step_other(3)[of j i now s] step_idle_own(2)[of s i now] by (cases "j = i") auto

lemma step_active_inv:
  assumes "axes_inv s" and "active_inv s" and "i < 3"
  shows "active_inv (motor_step now i s)"
  using step_queue[OF assms(3), of s now] assms step_moving_zero[OF assms(3) _ assms(1)]
  by (auto simp: active_inv_def queue_kept_def queue_dropped_def)

lemma step_inv: "servo_inv s \<Longrightarrow> i < 3 \<Longrightarrow> servo_inv (motor_step now i s)"
  by (simp add: servo_inv_def step_axes step_queue_inv step_active_inv)

section \<open>The update loop\<close>

definition steps :: "u32 \<Rightarrow> servo \<Rightarrow> servo" where
  "steps now s = motor_step now 2 (motor_step now 1 (motor_step now 0 s))"

lemma fold_steps: "fold (motor_step now) [0..<3] s = steps now s"
  by (simp add: upt_3 steps_def)

lemma steps_inv: "servo_inv s \<Longrightarrow> servo_inv (steps now s)"
  by (simp add: steps_def step_inv)

lemma steps_axes: "axes_inv s \<Longrightarrow> axes_inv (steps now s)"
  by (simp add: steps_def step_axes)

text \<open>Each servo sees exactly its own step.\<close>

lemma steps_idle:
  assumes "axes_inv s" and "i < 3" and "s_moving s ! i = 0"
  shows "s_target_angle (steps now s) ! i = s_target_angle s ! i"
    and "s_moving (steps now s) ! i = 0"
    and "s_angle (steps now s) ! i =
      (if s_angle s ! i \<noteq> s_target_angle s ! i \<and> motor_step_due now i s
       then target_next (s_angle s ! i) (s_target_angle s ! i) (s_speed_deg s ! i) else s_angle s ! i)"
    and "s_last_tick (steps now s) ! i =
      (if s_angle s ! i \<noteq> s_target_angle s ! i \<and> motor_step_due now i s then now else s_last_tick s ! i)"
  using assms step_axes[of s 0 now] step_axes[of "motor_step now 0 s" 1 now]
  by (auto simp: steps_def less_3_cases step_other step_idle_own motor_step_due_def)

lemma queue_kept_trans: "queue_kept s t \<Longrightarrow> queue_kept t u \<Longrightarrow> queue_kept s u"
  by (simp add: queue_kept_def)

lemma queue_dropped_kept: "queue_dropped t \<Longrightarrow> queue_kept t u \<Longrightarrow> queue_dropped u"
  by (simp add: queue_kept_def queue_dropped_def)

lemma steps_queue: "queue_kept s (steps now s) \<or> queue_dropped (steps now s)"
  using step_queue[of 0 s now] step_queue[of 1 "motor_step now 0 s" now]
    step_queue[of 2 "motor_step now 1 (motor_step now 0 s)" now]
  unfolding steps_def by (auto intro: queue_kept_trans queue_dropped_kept)

lemma complete_inv:
  assumes "servo_inv s"
  shows "servo_inv (s\<lparr> s_set_queue_active := False, s_set_active_mask := 0 \<rparr>)"
  using assms by (simp add: servo_inv_def active_inv_def)

lemma Update_inv:
  assumes "servo_inv s"
  shows "servo_inv (Motor_Update now now2 s)"
  using assms start_next_inv steps_inv complete_inv
  unfolding Motor_Update_def fold_steps Let_def by simp


section \<open>A queued set completes\<close>

fun run_updates :: "(u32 \<times> u32) list \<Rightarrow> servo \<Rightarrow> servo" where
  "run_updates [] s = s"
| "run_updates ((now, now2) # ts) s = run_updates ts (Motor_Update now now2 s)"

text \<open>Updates at least one step interval apart (tick differences taken modulo \<open>2 ^ 32\<close>).\<close>

fun spaced :: "u32 \<Rightarrow> (u32 \<times> u32) list \<Rightarrow> bool" where
  "spaced t [] = True"
| "spaced t ((now, now2) # ts) = (now - t \<ge> MOTOR_STEP_INTERVAL_MS \<and> spaced now ts)"

lemma run_updates_inv: "servo_inv s \<Longrightarrow> servo_inv (run_updates ts s)"
  by (induction ts s rule: run_updates.induct) (simp_all add: Update_inv)

text \<open>
  The situation of servo \<open>i\<close> while it is on its way to target \<open>T\<close>: its set is being
  executed, or the set was dropped and nothing else is queued.
\<close>

definition heading :: "nat \<Rightarrow> int \<Rightarrow> u32 \<Rightarrow> servo \<Rightarrow> bool" where
  "heading i T t s \<longleftrightarrow> s_moving s ! i = 0 \<and> s_target_angle s ! i = T \<and> s_last_tick s ! i = t \<and>
     ((s_set_queue_active s \<and> mask_has (s_set_active_mask s) i) \<or>
      (\<not> s_set_queue_active s \<and> s_set_queue_count s = 0))"

lemma not_complete:
  "i < 3 \<Longrightarrow> mask_has (s_set_active_mask s) i \<Longrightarrow> s_angle s ! i \<noteq> s_target_angle s ! i \<Longrightarrow>
     \<not> motor_active_set_complete s"
  by (auto simp: motor_active_set_complete_def upt_3 less_3_cases)

text \<open>One update brings the servo closer, and leaves it heading for the same target until it is there.\<close>

lemma heading_update:
  assumes inv: "servo_inv s" and i: "i < 3" and h: "heading i T t s" and due: "now - t \<ge> MOTOR_STEP_INTERVAL_MS"
    and far: "s_angle s ! i \<noteq> T"
  defines "n \<equiv> target_next (s_angle s ! i) T (s_speed_deg s ! i)"
  shows "s_angle (steps now s) ! i = n"
    and "n \<noteq> T \<Longrightarrow> Motor_Update now now2 s = steps now s \<and> heading i T now (steps now s)"
    and "n = T \<Longrightarrow> s_angle (Motor_Update now now2 s) ! i = T"
proof -
  have ax: "axes_inv s" using inv by (simp add: servo_inv_def)
  have mv: "s_moving s ! i = 0" and tg: "s_target_angle s ! i = T" and lt: "s_last_tick s ! i = t"
    using h by (auto simp: heading_def)
  have nostart: "(if \<not> s_set_queue_active s then motor_start_next_queued_set now s else s) = s"
    using h by (auto simp: heading_def motor_start_next_queued_set_def)
  note st = steps_idle[OF ax i mv, of now, unfolded tg lt motor_step_due_def]
  show a: "s_angle (steps now s) ! i = n"
    using st(3) far due lt by (simp add: n_def)
  { assume ne: "n \<noteq> T"
    have hd: "heading i T now (steps now s)"
      using steps_queue[of s now] h st far due lt
      by (auto simp: heading_def queue_kept_def queue_dropped_def)
    then have "\<not> (s_set_queue_active (steps now s) \<and> motor_active_set_complete (steps now s))"
      using not_complete[OF i, of "steps now s"] a ne by (auto simp: heading_def)
    then have "Motor_Update now now2 s = steps now s"
      by (auto simp: Motor_Update_def nostart fold_steps Let_def)
    with hd show "Motor_Update now now2 s = steps now s \<and> heading i T now (steps now s)" by simp }
  have "s_angle (Motor_Update now now2 s) = s_angle (steps now s)"
    unfolding Motor_Update_def nostart fold_steps Let_def
    by (auto simp: motor_start_next_queued_set_def Let_def)
  then show "n = T \<Longrightarrow> s_angle (Motor_Update now now2 s) ! i = T"
    using a by simp
qed

lemma heading_arrives:
  assumes "servo_inv s" and "i < 3" and "heading i T t s" and "spaced t ts"
    and "nat \<bar>T - s_angle s ! i\<bar> \<le> n" and "n \<le> length ts"
  shows "\<exists>k\<le>n. s_angle (run_updates (take k ts) s) ! i = T"
  using assms
proof (induction n arbitrary: s t ts)
  case 0
  then show ?case by simp
next
  case (Suc n)
  show ?case
  proof (cases "s_angle s ! i = T")
    case True
    then show ?thesis by (intro exI[of _ 0]) simp
  next
    case far: False
    from Suc.prems(6) obtain now now2 ts' where ts: "ts = (now, now2) # ts'" and len: "n \<le> length ts'"
      by (cases ts) auto
    with Suc.prems(4) have due: "now - t \<ge> MOTOR_STEP_INTERVAL_MS" and sp: "spaced now ts'" by auto
    let ?n = "target_next (s_angle s ! i) T (s_speed_deg s ! i)"
    note up = heading_update[OF Suc.prems(1-3) due far]
    show ?thesis
    proof (cases "?n = T")
      case True
      with up(3)[of now2] show ?thesis
        by (intro exI[of _ 1]) (simp add: ts)
    next
      case False
      from up(2)[OF False, of now2] have eq: "Motor_Update now now2 s = steps now s"
        and hd: "heading i T now (steps now s)" by auto
      have "1 \<le> s_speed_deg s ! i"
        using axes_nth(4)[of s i] Suc.prems(1,2) by (simp add: servo_inv_def)
      then have "\<bar>T - ?n\<bar> < \<bar>T - s_angle s ! i\<bar>"
        using far by (rule target_next_closer)
      then have "nat \<bar>T - s_angle (steps now s) ! i\<bar> \<le> n"
        using Suc.prems(5) up(1) by simp
      from Suc.IH[OF steps_inv[OF Suc.prems(1)] Suc.prems(2) hd sp this len] obtain k where
        "k \<le> n" "s_angle (run_updates (take k ts') (steps now s)) ! i = T" by blast
      then show ?thesis
        by (intro exI[of _ "Suc k"]) (simp add: ts eq)
    qed
  qed
qed

end
