(* ===== verification/ServoBus.thy ===== *)
theory ServoBus imports ServoUpdate begin

text \<open>
  The calibration arithmetic and the messages on the I2C bus. The 32-bit product of
  \<^verbatim>\<open>PULSE_US_TO_TICK\<close> does not overflow on the calibrated pulse widths, ticks grow with
  the angle, and every PWM message the controller sends decodes to a tick between the
  servo's calibrated limits.
\<close>

section \<open>Ticks\<close>

lemma unat_ucast32 [simp]: "unat (ucast (us :: u16) :: u32) = unat us"
  using unsigned_less[of us, where ?'a = nat] by (simp add: unsigned_ucast_eq take_bit_nat_eq_self)

lemma pulse_unat:
  assumes "unat us \<le> 3000"
  shows "unat (PULSE_US_TO_TICK us) = unat us * 1351680 div 1000000"
proof -
  let ?w = "ucast us :: u32"
  have p: "unat (1351680 * ?w) = 1351680 * unat us"
    using assms by (subst unat_mult_lem[THEN iffD1]) simp_all
  have d: "unat (1351680 * ?w div 1000000) = 1351680 * unat us div 1000000"
    by (simp only: unat_div p) simp
  have "1351680 * unat us div 1000000 < 65536"
    using assms by linarith
  then have "unat (ucast (1351680 * ?w div 1000000) :: u16) = 1351680 * unat us div 1000000"
    by (simp only: unsigned_ucast_eq d) (simp add: take_bit_nat_eq_self)
  then show ?thesis
    by (simp add: PULSE_US_TO_TICK_def mult.commute)
qed

text \<open>The pulse width of an angle, in microseconds, as the code computes it.\<close>

definition cal_us :: "nat \<Rightarrow> int \<Rightarrow> nat" where
  "cal_us i a = (let lo = unat (s_cal_min ! i); ce = unat (s_cal_center ! i); hi = unat (s_cal_max ! i)
     in if a \<le> 0 then lo else if a \<ge> 180 then hi else if a = 90 then ce
        else if a < 90 then lo + (ce - lo) * nat a div 90 else ce + (hi - ce) * nat (a - 90) div 90)"

lemma cal_segment:
  fixes lo d :: u16
  assumes "unat d \<le> 2000" and "unat lo \<le> 2000" and "n \<le> 90"
  shows "unat (lo + ucast ((ucast d :: u32) * of_int (int n) div 90)) = unat lo + unat d * n div 90"
proof -
  have "unat d * n \<le> 2000 * 90"
    using assms by (intro mult_le_mono) auto
  moreover have "unat (of_nat n :: u32) = n"
    using assms by (intro unat_of_nat32) simp
  ultimately have p: "unat ((ucast d :: u32) * of_nat n) = unat d * n"
    by (subst unat_mult_lem[THEN iffD1]) simp_all
  have b: "unat d * n div 90 \<le> 2000"
    using \<open>unat d * n \<le> 2000 * 90\<close> by linarith
  then have "unat (ucast ((ucast d :: u32) * of_nat n div 90) :: u16) = unat d * n div 90"
    by (simp add: unsigned_ucast_eq unat_div p take_bit_nat_eq_self)
  with b assms(2) show ?thesis
    by (subst unat_add_lem[THEN iffD1]) simp_all
qed

lemma cal_values:
  "i < 3 \<Longrightarrow> unat (s_cal_min ! i) \<in> {500..600} \<and> unat (s_cal_center ! i) \<in> {1490..1530} \<and>
     unat (s_cal_max ! i) \<in> {2500..2600} \<and>
     unat (s_cal_center ! i - s_cal_min ! i) = unat (s_cal_center ! i) - unat (s_cal_min ! i) \<and>
     unat (s_cal_max ! i - s_cal_center ! i) = unat (s_cal_max ! i) - unat (s_cal_center ! i)"
  by (auto simp: less_3_cases s_cal_min_def s_cal_center_def s_cal_max_def)

text \<open>The tick of an angle, over the natural numbers.\<close>

lemma angle_to_tick_unat:
  assumes "i < 3"
  shows "unat (angle_to_tick i a) = cal_us i a * 1351680 div 1000000"
proof -
  note cv = cal_values[OF assms]
  consider "a \<le> 0" | "a \<ge> 180" | "a = 90" | "0 < a" "a < 90" | "90 < a" "a < 180" by linarith
  then show ?thesis
  proof cases
    case 4
    then have a: "a = int (nat a)" "nat a \<le> 90" by auto
    have "(unat (s_cal_center ! i) - unat (s_cal_min ! i)) * nat a \<le> 1030 * 90" (is "?p \<le> _")
      using cv a(2) by (intro mult_le_mono) auto
    then have "?p div 90 \<le> 1110"
      by linarith
    moreover have "unat (s_cal_min ! i + ucast ((ucast (s_cal_center ! i - s_cal_min ! i) :: u32) * of_int a div 90))
      = unat (s_cal_min ! i) + (unat (s_cal_center ! i) - unat (s_cal_min ! i)) * nat a div 90"
      using cal_segment[of "s_cal_center ! i - s_cal_min ! i" "s_cal_min ! i" "nat a"] cv a by auto
    ultimately have u: "unat (s_cal_min ! i + ucast ((ucast (s_cal_center ! i - s_cal_min ! i) :: u32) * of_int a div 90))
        = cal_us i a" and "cal_us i a \<le> 3000"
      using 4 cv by (auto simp: cal_us_def Let_def)
    with 4 show ?thesis
      by (simp add: angle_to_tick_def Let_def pulse_unat)
  next
    case 5
    then have a: "a - 90 = int (nat (a - 90))" "nat (a - 90) \<le> 90" by auto
    have "(unat (s_cal_max ! i) - unat (s_cal_center ! i)) * nat (a - 90) \<le> 1110 * 90" (is "?p \<le> _")
      using cv a(2) by (intro mult_le_mono) auto
    then have "?p div 90 \<le> 1110"
      by linarith
    moreover have "unat (s_cal_center ! i + ucast ((ucast (s_cal_max ! i - s_cal_center ! i) :: u32) * of_int (a - 90) div 90))
      = unat (s_cal_center ! i) + (unat (s_cal_max ! i) - unat (s_cal_center ! i)) * nat (a - 90) div 90"
      using cal_segment[of "s_cal_max ! i - s_cal_center ! i" "s_cal_center ! i" "nat (a - 90)"] cv a by auto
    ultimately have u: "unat (s_cal_center ! i + ucast ((ucast (s_cal_max ! i - s_cal_center ! i) :: u32) * of_int (a - 90) div 90))
        = cal_us i a" and "cal_us i a \<le> 3000"
      using 5 cv by (auto simp: cal_us_def Let_def)
    with 5 show ?thesis
      by (simp add: angle_to_tick_def Let_def pulse_unat)
  qed (use cv in \<open>simp_all add: angle_to_tick_def cal_us_def Let_def pulse_unat\<close>)
qed

definition segment :: "nat \<Rightarrow> int \<Rightarrow> nat" where
  "segment x c = x * nat c div 90"

lemma segment_mono: "c \<le> d \<Longrightarrow> segment x c \<le> segment x d"
  unfolding segment_def by (intro div_le_mono mult_le_mono2) simp

lemma segment_ends: "c \<le> 0 \<Longrightarrow> segment x c = 0" "segment x 90 = x"
  by (simp_all add: segment_def)

lemma cal_us_segments:
  assumes "i < 3"
  shows "cal_us i a = (let lo = unat (s_cal_min ! i); ce = unat (s_cal_center ! i); hi = unat (s_cal_max ! i)
     in lo + segment (ce - lo) (min a 90) + segment (hi - ce) (min (a - 90) 90))"
proof -
  have le: "unat (s_cal_min ! i) \<le> unat (s_cal_center ! i)" "unat (s_cal_center ! i) \<le> unat (s_cal_max ! i)"
    using cal_values[OF assms] by auto
  consider "a \<le> 0" | "a \<ge> 180" | "a = 90" | "0 < a" "a < 90" | "90 < a" "a < 180" by linarith
  then show ?thesis
    using le by cases (simp_all add: cal_us_def Let_def segment_ends, simp_all add: segment_def)
qed

lemma cal_us_mono:
  assumes "i < 3" and "a \<le> b"
  shows "cal_us i a \<le> cal_us i b"
  unfolding cal_us_segments[OF assms(1)] Let_def
  using assms(2) by (intro add_mono segment_mono order_refl) auto

lemma cal_us_range:
  assumes "i < 3"
  shows "unat (s_cal_min ! i) \<le> cal_us i a" and "cal_us i a \<le> unat (s_cal_max ! i)"
proof -
  have l: "cal_us i (min a 0) = unat (s_cal_min ! i)" and h: "cal_us i (max a 180) = unat (s_cal_max ! i)"
    by (simp_all add: cal_us_def Let_def)
  show "unat (s_cal_min ! i) \<le> cal_us i a"
    unfolding l[symmetric] using assms by (rule cal_us_mono) simp
  show "cal_us i a \<le> unat (s_cal_max ! i)"
    unfolding h[symmetric] using assms by (rule cal_us_mono) simp
qed

section \<open>Messages\<close>

text \<open>
  The messages the controller may send: the four configuration writes of \<^verbatim>\<open>Motor_Init\<close>, and
  for each servo channel a PWM word that is either full-off or a tick between the calibrated
  limits.
\<close>

definition tick_ok :: "nat \<Rightarrow> u16 \<Rightarrow> bool" where
  "tick_ok ch t \<longleftrightarrow> PULSE_US_TO_TICK (s_cal_min ! ch) \<le> t \<and> t \<le> PULSE_US_TO_TICK (s_cal_max ! ch)"

fun bus_msg_ok :: "bytes \<Rightarrow> bool" where
  "bus_msg_ok [reg, val] \<longleftrightarrow> (reg, val) \<in> {(0x00, 0x80), (0x00, 0x10), (0xFE, 17), (0x00, 0x20)}"
| "bus_msg_ok [reg, on_l, on_h, off_l, off_h] \<longleftrightarrow> on_l = 0 \<and> on_h = 0 \<and>
     list_ex (\<lambda>ch. reg = 0x06 + of_nat ch * 4 \<and>
       ((off_l = 0 \<and> off_h = 0x10) \<or> tick_ok ch (be16_join off_h off_l))) [0..<MOTOR_NUM]"
| "bus_msg_ok _ \<longleftrightarrow> False"

definition bus_ok :: "servo \<Rightarrow> bool" where
  "bus_ok s \<longleftrightarrow> list_all bus_msg_ok (i2c_log s)"

lemma bit_below_12:
  fixes t :: u16
  assumes "unat t < 4096" and "bit t j"
  shows "j < 12"
proof -
  have "take_bit 12 (unat t) = unat t"
    using assms(1) by (simp add: take_bit_nat_eq_self)
  moreover have "bit (unat t) j"
    using assms(2) by (simp add: bit_unsigned_iff)
  ultimately show ?thesis
    by (metis bit_take_bit_iff)
qed

text \<open>The two low bytes of a PWM write carry a 12-bit tick and never the full-off bit.\<close>

lemma pwm_split:
  fixes t :: u16
  assumes "unat t < 4096"
  shows "be16_join (ucast (drop_bit 8 t AND 0x1F)) (ucast (t AND 0xFF)) = t"
proof -
  have m: "(0x1F :: u16) = mask 5" by (simp add: mask_eq_decr_exp)
  show ?thesis
  proof (rule bit_eqI)
    fix n :: nat
    assume "possible_bit TYPE(16 word) n"
    then have n: "n < 16" by simp
    show "bit (be16_join (ucast (drop_bit 8 t AND 0x1F)) (ucast (t AND 0xFF))) n = bit t n"
      using n bit_below_12[OF assms, of n]
      by (auto simp: be16_join_def mask_8 m bit_simps)
  qed
qed

lemma pwm_bytes_ok:
  assumes "ch < 3" and "tick_ok ch t" and "unat t < 4096"
  shows "bus_msg_ok (pca_pwm_bytes ch t)"
  using assms pwm_split[of t]
  by (auto simp: pca_pwm_bytes_def upt_3 less_3_cases)

lemma release_bytes_ok: "ch < 3 \<Longrightarrow> bus_msg_ok (pca_release_bytes ch)"
  by (auto simp: pca_release_bytes_def upt_3 less_3_cases)

lemma cal_us_le: "i < 3 \<Longrightarrow> cal_us i a \<le> 2600"
  using cal_us_range(2)[of i a] cal_values[of i] by auto

lemma tick_bounds:
  assumes "i < 3"
  shows "unat (angle_to_tick i a) < 4096" and "tick_ok i (angle_to_tick i a)"
proof -
  from cal_us_le[OF assms, of a] have "cal_us i a * 1351680 div 1000000 < 4096" by linarith
  then show "unat (angle_to_tick i a) < 4096"
    by (simp only: angle_to_tick_unat[OF assms])
  have mono: "unat (angle_to_tick i x) \<le> unat (angle_to_tick i y)" if "x \<le> y" for x y
    unfolding angle_to_tick_unat[OF assms]
    by (intro div_le_mono mult_le_mono1 cal_us_mono assms that)
  have lo: "PULSE_US_TO_TICK (s_cal_min ! i) = angle_to_tick i (min a 0)"
    and hi: "PULSE_US_TO_TICK (s_cal_max ! i) = angle_to_tick i (max a 180)"
    by (simp_all add: angle_to_tick_def)
  show "tick_ok i (angle_to_tick i a)"
    unfolding tick_ok_def word_le_nat_alt lo hi by (intro conjI mono) auto
qed

lemma center_tick: "i < 3 \<Longrightarrow> PULSE_US_TO_TICK (s_cal_center ! i) = angle_to_tick i 90"
  by (simp add: angle_to_tick_def)

section \<open>Every operation keeps the bus safe\<close>

lemma bus_frame [simp]:
  "bus_ok (s\<lparr> s_hi2c := h \<rparr>) = bus_ok s"
  "bus_ok (s\<lparr> s_angle := a \<rparr>) = bus_ok s"
  "bus_ok (s\<lparr> s_target_angle := a \<rparr>) = bus_ok s"
  "bus_ok (s\<lparr> s_moving := a \<rparr>) = bus_ok s"
  "bus_ok (s\<lparr> s_speed_deg := a \<rparr>) = bus_ok s"
  "bus_ok (s\<lparr> s_last_tick := w \<rparr>) = bus_ok s"
  "bus_ok (s\<lparr> s_set_queue_head := n \<rparr>) = bus_ok s"
  "bus_ok (s\<lparr> s_set_queue_count := n \<rparr>) = bus_ok s"
  "bus_ok (s\<lparr> s_set_queue_active := b \<rparr>) = bus_ok s"
  "bus_ok (s\<lparr> s_set_active_mask := m \<rparr>) = bus_ok s"
  "bus_ok (motor_clear_set_queue s) = bus_ok s"
  "bus_ok (motor_apply_target_angles as m now s) = bus_ok s"
  by (simp_all add: bus_ok_def)

lemma bus_pwm: "bus_ok s \<Longrightarrow> i < 3 \<Longrightarrow> bus_ok (pca_set_pwm i (angle_to_tick i a) s)"
  by (simp add: bus_ok_def pca_set_pwm_def pwm_bytes_ok tick_bounds)

lemma bus_release: "bus_ok s \<Longrightarrow> i < 3 \<Longrightarrow> bus_ok (pca_release_pwm i s)"
  by (simp add: bus_ok_def pca_release_pwm_def release_bytes_ok)

lemma bus_start: "bus_ok s \<Longrightarrow> bus_ok (motor_start_next_queued_set now s)"
  by (simp add: motor_start_next_queued_set_def Let_def)

lemma bus_enqueue: "bus_ok s \<Longrightarrow> bus_ok (snd (motor_enqueue_target_angles as m s))"
  by (simp add: motor_enqueue_target_angles_def bus_ok_def)

lemma bus_Release: "bus_ok s \<Longrightarrow> bus_ok (Motor_Release i s)"
  by (simp add: Motor_Release_def Let_def bus_release)

lemma bus_Stop: "bus_ok s \<Longrightarrow> bus_ok (Motor_Stop i s)"
  by (simp add: Motor_Stop_def Let_def bus_pwm)

lemma bus_StartMove: "bus_ok s \<Longrightarrow> bus_ok (Motor_StartMove i d now s)"
  by (simp add: Motor_StartMove_def Let_def bus_pwm)

lemma bus_SetAngle: "bus_ok s \<Longrightarrow> bus_ok (Motor_SetAngle i a now s)"
  by (simp add: Motor_SetAngle_def Let_def)

lemma bus_SetAllAngles: "bus_ok s \<Longrightarrow> bus_ok (Motor_SetAllAngles as now s)"
  by (simp add: Motor_SetAllAngles_def)

lemma bus_SetSpeed: "bus_ok s \<Longrightarrow> bus_ok (Motor_SetSpeed i v s)"
  by (simp add: Motor_SetSpeed_def Let_def)

lemma bus_MoveRelative: "bus_ok s \<Longrightarrow> bus_ok (Motor_MoveRelative i d now s)"
  by (simp add: Motor_MoveRelative_def bus_SetAngle)

lemma bus_StopAll: "bus_ok s \<Longrightarrow> bus_ok (Motor_StopAll s)"
  unfolding Motor_StopAll_def by (rule fold_inv) simp_all

lemma bus_step: "bus_ok s \<Longrightarrow> i < 3 \<Longrightarrow> bus_ok (motor_step now i s)"
  by (simp add: motor_step_def motor_step_moving_def motor_step_target_def motor_advance_def
      Let_def bus_pwm bus_Release)

lemma bus_steps: "bus_ok s \<Longrightarrow> bus_ok (steps now s)"
  by (simp add: steps_def bus_step)

lemma bus_Update: "bus_ok s \<Longrightarrow> bus_ok (Motor_Update now now2 s)"
  unfolding Motor_Update_def fold_steps Let_def
  by (auto intro!: bus_start bus_steps)

lemma bus_ok_log: "bus_ok (s\<lparr> i2c_log := l \<rparr>) = list_all bus_msg_ok l"
  by (simp add: bus_ok_def)

lemma bus_init_axis: "bus_ok s \<Longrightarrow> i < 3 \<Longrightarrow> bus_ok (motor_init_axis i s)"
  by (simp add: motor_init_axis_def center_tick bus_pwm)

lemma bus_Init:
  assumes "bus_ok s"
  shows "bus_ok (snd (Motor_Init bus h s))"
proof -
  have "bus_ok (fold motor_init_axis [0..<3] s)" if "bus_ok s" for s
    by (rule fold_inv[where P = bus_ok]) (simp_all add: that bus_init_axis)
  moreover have "list_all bus_msg_ok (i2c_log s)"
    using assms by (simp add: bus_ok_def)
  ultimately show ?thesis
    by (simp add: Motor_Init_def pca_write_def Let_def bus_ok_log)
qed

end
