(* ===== verification/CStrings.thy ===== *)
theory CStrings imports FwPrelude begin

text \<open>
  The part of the C library the firmware's text protocol rests on: \<^verbatim>\<open>isspace\<close>,
  \<^verbatim>\<open>isdigit\<close>, \<^verbatim>\<open>tolower\<close> (C locale), \<^verbatim>\<open>strtol(s, &end, 10)\<close> and the conversions of
  \<^verbatim>\<open>sscanf(s, " motor%ld %15s %15s", ...)\<close> and \<^verbatim>\<open>snprintf("%d")\<close>. A C string is the list
  of its characters before the terminating NUL; a pointer into it is the suffix it points
  to, so \<^verbatim>\<open>end == text\<close> is equality of suffixes. \<^verbatim>\<open>long\<close> has 32 bits on both ARM targets.
  \<open>split_by\<close> and \<open>strip\<close> are the specifications the two command splitters are checked
  against.
\<close>

section \<open>Character classes\<close>

definition isspace :: "char \<Rightarrow> bool" where
  "isspace c \<longleftrightarrow> c \<in> {CHR '' '', CHR 0x09, CHR 0x0A, CHR 0x0B, CHR 0x0C, CHR 0x0D}"

definition isdigit :: "char \<Rightarrow> bool" where
  "isdigit c \<longleftrightarrow> 48 \<le> (of_char c :: nat) \<and> (of_char c :: nat) \<le> 57"

definition tolower :: "char \<Rightarrow> char" where
  "tolower c = (if 65 \<le> (of_char c :: nat) \<and> (of_char c :: nat) \<le> 90
                then char_of ((of_char c :: nat) + 32) else c)"

definition cstr :: "string \<Rightarrow> string" where
  "cstr buf = takeWhile (\<lambda>c. c \<noteq> CHR 0x00) buf"

lemma isdigit_not_space: "isdigit c \<Longrightarrow> \<not> isspace c"
  by (auto simp: isdigit_def isspace_def)

lemma cstr_append_nul [simp]: "cstr (xs @ CHR 0x00 # ys) = cstr xs"
  by (induction xs) (auto simp: cstr_def)

lemma cstr_id [simp]: "CHR 0x00 \<notin> set xs \<Longrightarrow> cstr xs = xs"
  by (auto simp: cstr_def takeWhile_eq_all_conv)

lemma cstr_no_nul: "CHR 0x00 \<notin> set (cstr xs)"
  by (auto simp: cstr_def dest: set_takeWhileD)

lemma length_cstr_le: "length (cstr xs) \<le> length xs"
  by (simp add: cstr_def length_takeWhile_le)

section \<open>Numbers\<close>

definition digits_val :: "string \<Rightarrow> int" where
  "digits_val ds = foldl (\<lambda>a d. 10 * a + (int (of_char d) - 48)) 0 ds"

definition clamp_long :: "int \<Rightarrow> int" where
  "clamp_long x = max (- 2147483648) (min 2147483647 x)"

definition scan_sign :: "string \<Rightarrow> bool \<times> string" where
  "scan_sign t = (case t of [] \<Rightarrow> (False, [])
     | c # r \<Rightarrow> if c = CHR ''-'' then (True, r) else if c = CHR ''+'' then (False, r) else (False, t))"

text \<open>\<^verbatim>\<open>strtol(s, &end, 10)\<close>: the value and \<^verbatim>\<open>end\<close>; no conversion leaves \<^verbatim>\<open>end == s\<close>.\<close>

definition strtol :: "string \<Rightarrow> int \<times> string" where
  "strtol s =
     (case scan_sign (dropWhile isspace s) of (neg, u) \<Rightarrow>
        let ds = takeWhile isdigit u
        in if ds = [] then (0, s)
           else (clamp_long (if neg then - digits_val ds else digits_val ds), dropWhile isdigit u))"

definition scan_word :: "nat \<Rightarrow> string \<Rightarrow> (string \<times> string) option" where
  "scan_word n s =
     (let t = dropWhile isspace s; w = takeWhile (\<lambda>c. \<not> isspace c) (take n t)
      in if w = [] then None else Some (w, drop (length w) t))"

text \<open>
  \<^verbatim>\<open>sscanf(s, " motor%ld %15s %15s", &num, cmd1, cmd2)\<close>: the number of conversions
  (\<open>-1\<close> for an input that ends before the first one) and the converted values; the
  variables keep their initial values where there is no conversion.
\<close>

definition sscanf_motor :: "string \<Rightarrow> int \<times> int \<times> string \<times> string" where
  "sscanf_motor s =
     (let t = dropWhile isspace s
      in if take 5 t \<noteq> ''motor'' then
           (if length t < 5 \<and> t = take (length t) ''motor'' then (-1, 0, [], []) else (0, 0, [], []))
         else (let u = drop 5 t; (v, r) = strtol u
               in if dropWhile isspace u = [] then (-1, 0, [], [])
                  else if r = u then (0, 0, [], [])
                  else (case scan_word 15 r of None \<Rightarrow> (1, v, [], [])
                        | Some (w1, r1) \<Rightarrow>
                            (case scan_word 15 r1 of None \<Rightarrow> (2, v, w1, [])
                             | Some (w2, r2) \<Rightarrow> (3, v, w1, w2)))))"

definition digit_char :: "nat \<Rightarrow> char" where
  "digit_char n = char_of (48 + n)"

fun show_nat :: "nat \<Rightarrow> string" where
  "show_nat n = (if n < 10 then [digit_char n] else show_nat (n div 10) @ [digit_char (n mod 10)])"

declare show_nat.simps [simp del]

definition show_int :: "int \<Rightarrow> string" where
  "show_int x = (if x < 0 then CHR ''-'' # show_nat (nat (- x)) else show_nat (nat x))"

lemma of_digit_char: "n < 10 \<Longrightarrow> (of_char (digit_char n) :: nat) = 48 + n"
  by (simp add: digit_char_def)

lemma isdigit_digit_char [simp]: "n < 10 \<Longrightarrow> isdigit (digit_char n)"
  by (simp add: isdigit_def of_digit_char)

lemma show_nat_digits: "list_all isdigit (show_nat n)"
proof (induction n rule: show_nat.induct)
  case (1 n)
  then show ?case by (subst show_nat.simps) auto
qed

lemma show_nat_nonempty [simp]: "show_nat n \<noteq> []"
  by (subst show_nat.simps) simp

lemma digits_val_snoc: "digits_val (ds @ [d]) = 10 * digits_val ds + (int (of_char d) - 48)"
  by (simp add: digits_val_def)

lemma digits_val_show_nat [simp]: "digits_val (show_nat n) = int n"
proof (induction n rule: show_nat.induct)
  case (1 n)
  show ?case
  proof (cases "n < 10")
    case True
    then show ?thesis
      by (subst show_nat.simps) (simp add: digits_val_def of_digit_char)
  next
    case False
    with 1 have "digits_val (show_nat (n div 10)) = int (n div 10)" by simp
    with False show ?thesis
      by (subst show_nat.simps) (simp add: digits_val_snoc of_digit_char zdiv_int zmod_int)
  qed
qed

lemma dropWhile_isspace_show_nat [simp]: "dropWhile isspace (show_nat n @ r) = show_nat n @ r"
  using show_nat_digits[of n] show_nat_nonempty[of n]
  by (cases "show_nat n") (auto simp: isdigit_not_space)

lemma takeWhile_show_nat:
  "(r = [] \<or> \<not> isdigit (hd r)) \<Longrightarrow> takeWhile isdigit (show_nat n @ r) = show_nat n"
  using show_nat_digits[of n]
  by (cases r) (auto simp: takeWhile_append list_all_iff)

lemma dropWhile_show_nat:
  "(r = [] \<or> \<not> isdigit (hd r)) \<Longrightarrow> dropWhile isdigit (show_nat n @ r) = r"
  using show_nat_digits[of n]
  by (cases r) (auto simp: dropWhile_append list_all_iff)

lemma scan_sign_show_nat [simp]: "scan_sign (show_nat n @ r) = (False, show_nat n @ r)"
  using show_nat_digits[of n] show_nat_nonempty[of n]
  by (cases "show_nat n") (auto simp: scan_sign_def isdigit_def)

text \<open>Reading back a printed number.\<close>

lemma strtol_show_nat:
  assumes "r = [] \<or> \<not> isdigit (hd r)" and "int n \<le> 2147483647"
  shows "strtol (show_nat n @ r) = (int n, r)"
  using assms
  by (simp add: strtol_def takeWhile_show_nat dropWhile_show_nat clamp_long_def)

lemma strtol_skip: "isspace c \<Longrightarrow> fst (strtol (c # s)) = fst (strtol s)"
  by (simp add: strtol_def split: prod.splits) (simp add: Let_def)

lemma strtol_space_show_nat:
  assumes "r = [] \<or> \<not> isdigit (hd r)" and "int n \<le> 2147483647"
  shows "strtol (CHR '' '' # show_nat n @ r) = (int n, r)"
  using assms strtol_show_nat[OF assms]
  by (simp add: strtol_def isspace_def takeWhile_show_nat)

section \<open>Splitting and trimming\<close>

fun split_by :: "('a \<Rightarrow> bool) \<Rightarrow> 'a list \<Rightarrow> 'a list list" where
  "split_by p [] = [[]]"
| "split_by p (x # xs) =
     (if p x then [] # split_by p xs
      else (case split_by p xs of [] \<Rightarrow> [[x]] | y # ys \<Rightarrow> (x # y) # ys))"

definition strip :: "string \<Rightarrow> string" where
  "strip s = rev (dropWhile isspace (rev (dropWhile isspace s)))"

lemma split_by_nonempty [simp]: "split_by p xs \<noteq> []"
  by (induction xs) (auto split: list.splits)

lemma split_by_append:
  "list_all (\<lambda>x. \<not> p x) xs \<Longrightarrow> split_by p (xs @ ys) = (xs @ hd (split_by p ys)) # tl (split_by p ys)"
  by (induction xs) (auto split: list.splits)

lemma split_by_none: "list_all (\<lambda>x. \<not> p x) xs \<Longrightarrow> split_by p xs = [xs]"
  using split_by_append[of p xs "[]"] by simp

lemma split_by_seg_length: "seg \<in> set (split_by p xs) \<Longrightarrow> length seg \<le> length xs"
  by (induction xs arbitrary: seg) (fastforce split: if_splits list.splits)+

lemma split_by_seg_subset: "seg \<in> set (split_by p xs) \<Longrightarrow> set seg \<subseteq> set xs"
  by (induction xs arbitrary: seg) (fastforce split: if_splits list.splits)+

lemma split_by_seg_none: "seg \<in> set (split_by p xs) \<Longrightarrow> list_all (\<lambda>x. \<not> p x) seg"
  by (induction xs arbitrary: seg) (fastforce split: if_splits list.splits)+

lemma set_dropWhile_subset: "set (dropWhile P xs) \<subseteq> set xs"
  by (auto dest: set_dropWhileD)

lemma set_strip_subset: "set (strip s) \<subseteq> set s"
  using set_dropWhile_subset[of isspace s] set_dropWhile_subset[of isspace "rev (dropWhile isspace s)"]
  by (auto simp: strip_def)

lemma length_strip_le: "length (strip s) \<le> length s"
  using length_dropWhile_le[of isspace s] length_dropWhile_le[of isspace "rev (dropWhile isspace s)"]
  by (simp add: strip_def)

lemma strip_id:
  assumes "s \<noteq> []" and "\<not> isspace (hd s)" and "\<not> isspace (last s)"
  shows "strip s = s"
proof -
  from assms(1,2) have "dropWhile isspace s = s" by (cases s) auto
  moreover from assms(1,3) have "dropWhile isspace (rev s) = rev s"
    by (cases "rev s") (auto simp: last_conv_nth hd_rev[symmetric])
  ultimately show ?thesis by (simp add: strip_def)
qed

lemma strip_Nil [simp]: "strip [] = []"
  by (simp add: strip_def)

lemma strip_empty_iff: "strip s = [] \<longleftrightarrow> list_all isspace s"
proof -
  have "strip s = [] \<longleftrightarrow> list_all isspace (dropWhile isspace s)"
    by (simp add: strip_def dropWhile_eq_Nil_conv list_all_iff)
  also have "\<dots> \<longleftrightarrow> list_all isspace s"
    by (induction s) auto
  finally show ?thesis .
qed

lemma strip_last: "strip s \<noteq> [] \<Longrightarrow> \<not> isspace (last (strip s))"
  by (metis hd_dropWhile last_rev rev_is_Nil_conv strip_def)

lemma strip_hd: "strip s \<noteq> [] \<Longrightarrow> \<not> isspace (hd (strip s))"
proof -
  assume a: "strip s \<noteq> []"
  let ?t = "dropWhile isspace s"
  have "\<exists>zs. ?t = strip s @ zs"
    by (metis dropWhile_eq_drop rev_append rev_rev_ident strip_def takeWhile_dropWhile_id)
  then obtain zs where t: "?t = strip s @ zs" by blast
  with a have "?t \<noteq> []" "hd ?t = hd (strip s)" by (cases "strip s", auto)+
  then show ?thesis by (metis hd_dropWhile)
qed

lemma strip_idem [simp]: "strip (strip s) = strip s"
  by (metis strip_Nil strip_hd strip_id strip_last)

end
