(* ===== verification/ServoCommand.thy ===== *)
theory ServoCommand imports ServoBus CStrings begin

text \<open>
  The text commands of the servo controller: \<^verbatim>\<open>Motor_ParseAndRun\<close> of motor.c with its
  parsers, the step relation of the whole controller (every public call, in any order),
  and the properties of the component: the reachability invariant, the command grammar,
  the set queue, the update.
\<close>

section \<open>Parsers\<close>

definition skip_space :: "string \<Rightarrow> string" where
  "skip_space p = dropWhile isspace p"

definition parse_strict_int16 :: "string \<Rightarrow> int \<Rightarrow> int \<Rightarrow> int option" where
  "parse_strict_int16 text min_val max_val =
     (let text = skip_space text
      in if text = [] then None
      else let (parsed, end_ptr) = strtol text
        in if end_ptr = text \<or> skip_space end_ptr \<noteq> [] then None
        else if parsed < min_val \<or> parsed > max_val \<or> parsed < -32768 \<or> parsed > 32767 then None
        else Some (to_i16 parsed))"

text \<open>The loop over the three angles of \<^verbatim>\<open>setall\<close>: \<open>n\<close> angles are still to be read.\<close>

fun parse_setall_loop :: "nat \<Rightarrow> string \<Rightarrow> (int list \<times> string) option" where
  "parse_setall_loop 0 ptr = Some ([], ptr)"
| "parse_setall_loop (Suc n) ptr =
     (let (parsed, end_ptr) = strtol ptr
      in if end_ptr = ptr \<or> parsed < MOTOR_ANGLE_MIN \<or> parsed > MOTOR_ANGLE_MAX then None
      else case parse_setall_loop n (skip_space end_ptr) of None \<Rightarrow> None
        | Some (as, p) \<Rightarrow> Some (to_i16 parsed # as, p))"

definition parse_setall_command :: "string \<Rightarrow> int list option" where
  "parse_setall_command text =
     (let ptr = skip_space text
      in if take 6 ptr \<noteq> ''setall'' then None
      else case parse_setall_loop MOTOR_NUM (skip_space (drop 6 ptr)) of None \<Rightarrow> None
        | Some (as, p) \<Rightarrow> if p = [] then Some as else None)"

section \<open>Dispatch\<close>

text \<open>The return value \<^verbatim>\<open>ok ? 0 : -1\<close> of an enqueue.\<close>

definition ret_code :: "bool \<times> servo \<Rightarrow> int \<times> servo" where
  "ret_code r = (if fst r then 0 else -1, snd r)"

lemma snd_ret_code [simp]: "snd (ret_code r) = snd r"
  by (simp add: ret_code_def)

text \<open>The two branches of the command switch: lines 572-585 and 587-638 of motor.c.\<close>

definition run_motor_cmd2 :: "nat \<Rightarrow> string \<Rightarrow> servo \<Rightarrow> int \<times> servo" where
  "run_motor_cmd2 motor_id cmd1 s =
     (if cmd1 = ''release'' then (0, Motor_Release motor_id s)
      else if cmd1 = ''stop'' then (0, Motor_Stop motor_id s)
      else (-1, s))"

definition run_motor_cmd3 :: "nat \<Rightarrow> string \<Rightarrow> string \<Rightarrow> u32 \<Rightarrow> servo \<Rightarrow> int \<times> servo" where
  "run_motor_cmd3 motor_id cmd1 cmd2 now s =
     (if cmd2 = ''press'' then
        (if cmd1 = ''left'' then (0, Motor_StartMove motor_id (-1) now s)
         else if cmd1 = ''right'' then (0, Motor_StartMove motor_id 1 now s)
         else (-1, s))
      else if cmd2 = ''release'' then (0, Motor_Release motor_id s)
      else case (if cmd1 = ''set'' then parse_strict_int16 cmd2 MOTOR_ANGLE_MIN MOTOR_ANGLE_MAX else None) of
        Some value \<Rightarrow>
          ret_code (motor_enqueue_target_angles ([0, 0, 0][motor_id := value]) (push_bit motor_id 1) s)
      | None \<Rightarrow>
      case (if cmd1 = ''speed'' then parse_strict_int16 cmd2 1 10 else None) of
        Some value \<Rightarrow> (0, Motor_SetSpeed motor_id value s)
      | None \<Rightarrow>
      case (if cmd1 = ''left'' then parse_strict_int16 cmd2 0 MOTOR_ANGLE_MAX else None) of
        Some value \<Rightarrow> (0, Motor_MoveRelative motor_id (to_i16 (- value)) now s)
      | None \<Rightarrow>
      case (if cmd1 = ''right'' then parse_strict_int16 cmd2 0 MOTOR_ANGLE_MAX else None) of
        Some value \<Rightarrow> (0, Motor_MoveRelative motor_id value now s)
      | None \<Rightarrow> (-1, s))"

definition Motor_ParseAndRun :: "string \<Rightarrow> u32 \<Rightarrow> servo \<Rightarrow> int \<times> servo" where
  "Motor_ParseAndRun data now s =
     (case parse_setall_command data of
        Some sync_angles \<Rightarrow>
          ret_code (motor_enqueue_target_angles sync_angles 7 s)
      | None \<Rightarrow>
          case sscanf_motor data of (n, motor_num, cmd1, cmd2) \<Rightarrow>
            if n \<ge> 2 \<and> motor_num \<ge> 1 \<and> motor_num \<le> int MOTOR_NUM then
              let motor_id = nat (motor_num - 1);
                  cmd1 = map tolower cmd1;
                  cmd2 = map tolower cmd2
              in if n = 2 then run_motor_cmd2 motor_id cmd1 s
                 else if n = 3 then run_motor_cmd3 motor_id cmd1 cmd2 now s
                 else (-1, s)
            else (-1, s))"

section \<open>The controller as a step relation\<close>

inductive servo_step :: "servo \<Rightarrow> servo \<Rightarrow> bool" where
  init: "servo_step s (snd (Motor_Init bus h s))"
| set_angle: "servo_step s (Motor_SetAngle i a now s)"
| set_all: "servo_step s (Motor_SetAllAngles as now s)"
| set_speed: "servo_step s (Motor_SetSpeed i v s)"
| move_relative: "servo_step s (Motor_MoveRelative i d now s)"
| start_move: "d = -1 \<or> d = 0 \<or> d = 1 \<Longrightarrow> servo_step s (Motor_StartMove i d now s)"
| stop: "servo_step s (Motor_Stop i s)"
| release: "servo_step s (Motor_Release i s)"
| stop_all: "servo_step s (Motor_StopAll s)"
| enqueue: "servo_step s (snd (motor_enqueue_target_angles as m s))"
| parse_and_run: "servo_step s (snd (Motor_ParseAndRun data now s))"
| update: "servo_step s (Motor_Update now now2 s)"

inductive servo_reachable :: "servo \<Rightarrow> bool" where
  start: "servo_reachable servo_reset"
| step: "servo_reachable s \<Longrightarrow> servo_step s t \<Longrightarrow> servo_reachable t"

inductive_cases servo_stepE: "servo_step s t"

definition servo_safe :: "servo \<Rightarrow> bool" where
  "servo_safe s \<longleftrightarrow> servo_inv s \<and> bus_ok s"

lemma cmd2_safe: "servo_safe s \<Longrightarrow> servo_safe (snd (run_motor_cmd2 i c s))"
  by (simp add: run_motor_cmd2_def servo_safe_def Release_inv Stop_inv bus_Release bus_Stop)

lemma enqueue_safe: "servo_safe s \<Longrightarrow> servo_safe (snd (motor_enqueue_target_angles as m s))"
  by (simp add: servo_safe_def enqueue_inv bus_enqueue)

lemma cmd3_safe: "servo_safe s \<Longrightarrow> servo_safe (snd (run_motor_cmd3 i c1 c2 now s))"
  using enqueue_safe[of s]
  by (simp add: run_motor_cmd3_def servo_safe_def Release_inv StartMove_inv SetSpeed_inv MoveRelative_inv
      bus_Release bus_StartMove bus_SetSpeed bus_MoveRelative split: option.split)

lemma ParseAndRun_safe: "servo_safe s \<Longrightarrow> servo_safe (snd (Motor_ParseAndRun data now s))"
  using enqueue_safe[of s] cmd2_safe[of s] cmd3_safe[of s]
  by (simp add: Motor_ParseAndRun_def Let_def split: option.split prod.split)

lemma servo_step_safe: "servo_step s t \<Longrightarrow> servo_safe s \<Longrightarrow> servo_safe t"
  by (induction rule: servo_step.induct)
    (simp_all add: enqueue_safe ParseAndRun_safe,
     simp_all add: servo_safe_def Init_inv bus_Init SetAngle_inv bus_SetAngle SetAllAngles_inv
      bus_SetAllAngles SetSpeed_inv bus_SetSpeed MoveRelative_inv bus_MoveRelative StartMove_inv
      bus_StartMove Stop_inv bus_Stop Release_inv bus_Release StopAll_inv bus_StopAll Update_inv bus_Update)

lemma reset_safe: "servo_safe servo_reset"
  by (simp add: servo_safe_def reset_inv) (simp add: bus_ok_def servo_reset_def)

lemma servo_reachable_safe: "servo_reachable s \<Longrightarrow> servo_safe s"
  by (induction rule: servo_reachable.induct) (auto intro: reset_safe servo_step_safe)


section \<open>Rejected commands\<close>

lemma enqueue_rejected: "\<not> fst (motor_enqueue_target_angles as m s) \<Longrightarrow> snd (motor_enqueue_target_angles as m s) = s"
  by (simp add: motor_enqueue_target_angles_def split: if_splits)

lemma ret_code_cases: "fst (ret_code r) = 0 \<or> fst (ret_code r) = -1"
  by (simp add: ret_code_def)

lemma cmd2_code: "fst (run_motor_cmd2 i c s) = 0 \<or> run_motor_cmd2 i c s = (-1, s)"
  by (simp add: run_motor_cmd2_def)

lemma enqueue_code: "fst (ret_code (motor_enqueue_target_angles as m s)) = 0 \<or>
   ret_code (motor_enqueue_target_angles as m s) = (-1, s)"
  using enqueue_rejected[of as m s] by (auto simp: ret_code_def)

lemma cmd3_code: "fst (run_motor_cmd3 i c1 c2 now s) = 0 \<or> run_motor_cmd3 i c1 c2 now s = (-1, s)"
  using enqueue_code[of _ _ s] by (simp add: run_motor_cmd3_def split: option.split)

lemma ParseAndRun_code:
  "fst (Motor_ParseAndRun data now s) = 0 \<or> Motor_ParseAndRun data now s = (-1, s)"
  using enqueue_code[of _ _ s] cmd2_code[of _ _ s] cmd3_code[of _ _ _ now s]
  by (simp add: Motor_ParseAndRun_def Let_def split: option.split prod.split)

section \<open>Reading back printed commands\<close>

lemma not_digit_space: "\<not> isdigit (CHR '' '')"
  by (simp add: isdigit_def)

lemma show_nat_not_space: "dropWhile isspace (show_nat n) = show_nat n"
  using dropWhile_isspace_show_nat[of n "[]"] by simp

lemma strtol_show_nat_end: "int n \<le> 2147483647 \<Longrightarrow> strtol (show_nat n) = (int n, [])"
  using strtol_show_nat[of "[]" n] by simp

lemma isspace_space [simp]: "isspace (CHR '' '')"
  by (simp add: isspace_def)

lemma setall_loop_cons:
  assumes "n \<le> 180" and "r = [] \<or> (\<exists>r'. r = CHR '' '' # r')"
  shows "parse_setall_loop (Suc k) (show_nat n @ r) =
    (case parse_setall_loop k (skip_space r) of None \<Rightarrow> None | Some (as, p) \<Rightarrow> Some (int n # as, p))"
proof -
  have "strtol (show_nat n @ r) = (int n, r)"
    using assms by (intro strtol_show_nat) (auto simp: not_digit_space)
  moreover have "r \<noteq> show_nat n @ r"
    by (metis append_self_conv2 show_nat_nonempty)
  moreover have "to_i16 (int n) = int n"
    using assms(1) by simp
  ultimately show ?thesis
    using assms(1) by (simp add: Let_def MOTOR_ANGLE_MIN_def MOTOR_ANGLE_MAX_def split: option.split)
qed

definition print_setall :: "nat \<Rightarrow> nat \<Rightarrow> nat \<Rightarrow> string" where
  "print_setall a b c = ''setall '' @ show_nat a @ '' '' @ show_nat b @ '' '' @ show_nat c"

lemma setall_roundtrip:
  assumes "a \<le> 180" "b \<le> 180" "c \<le> 180"
  shows "parse_setall_command (print_setall a b c) = Some [int a, int b, int c]"
proof -
  have c: "parse_setall_loop (Suc 0) (show_nat c) = Some ([int c], [])"
    using setall_loop_cons[of c "[]" 0] assms by (simp add: skip_space_def)
  have b: "parse_setall_loop (Suc (Suc 0)) (show_nat b @ '' '' @ show_nat c) = Some ([int b, int c], [])"
    using setall_loop_cons[of b "'' '' @ show_nat c" "Suc 0"] assms c
    by (simp add: skip_space_def show_nat_not_space del: parse_setall_loop.simps)
  have "parse_setall_loop 3 (show_nat a @ '' '' @ show_nat b @ '' '' @ show_nat c) = Some ([int a, int b, int c], [])"
    using setall_loop_cons[of a "'' '' @ show_nat b @ '' '' @ show_nat c" "Suc (Suc 0)"] assms b
    by (simp add: skip_space_def show_nat_not_space numeral_3_eq_3 del: parse_setall_loop.simps)
  then show ?thesis
    by (simp add: parse_setall_command_def print_setall_def skip_space_def isspace_def)
qed

lemma strict_int_roundtrip:
  assumes "int n \<le> hi" and "lo \<le> int n" and "hi \<le> 32767"
  shows "parse_strict_int16 (show_nat n) lo hi = Some (int n)"
  using assms show_nat_nonempty[of n]
  by (simp add: parse_strict_int16_def skip_space_def show_nat_not_space strtol_show_nat_end not_sym
      del: show_nat.simps)

lemma strict_int_bounds:
  assumes "parse_strict_int16 t lo hi = Some v"
  shows "lo \<le> v \<and> v \<le> hi"
  using assms by (auto simp: parse_strict_int16_def Let_def split: prod.splits if_splits)

text \<open>A word of digits survives the \<^verbatim>\<open>%15s\<close> conversion and the lower-casing.\<close>

lemma isdigit_lower: "isdigit c \<Longrightarrow> tolower c = c"
  by (simp add: isdigit_def tolower_def)

lemma digits_lower: "list_all isdigit ds \<Longrightarrow> map tolower ds = ds"
  by (induction ds) (auto simp: isdigit_lower)

lemma scan_digits:
  assumes "list_all isdigit ds" and "ds \<noteq> []" and "length ds \<le> n"
  shows "scan_word n (CHR '' '' # ds) = Some (ds, [])"
proof -
  have t: "takeWhile (\<lambda>c. \<not> isspace c) ds = ds"
    using assms(1) by (auto simp: list_all_iff isdigit_not_space)
  have d: "dropWhile isspace ds = ds"
    using assms(1,2) by (cases ds) (auto simp: isdigit_not_space)
  show ?thesis
    using assms(2,3) by (simp add: scan_word_def d t)
qed

lemma length_show_nat_180: "n \<le> 999 \<Longrightarrow> length (show_nat n) \<le> 3"
  by (subst show_nat.simps, simp, subst show_nat.simps, simp, subst show_nat.simps, simp)

definition print_set :: "nat \<Rightarrow> nat \<Rightarrow> string" where
  "print_set i a = ''motor'' @ show_nat (Suc i) @ '' set '' @ show_nat a"

lemma sscanf_set:
  assumes "i < 3" and "a \<le> 180"
  shows "sscanf_motor (print_set i a) = (3, int (Suc i), ''set'', show_nat a)"
proof -
  have n: "strtol (show_nat (Suc i) @ '' set '' @ show_nat a) = (int (Suc i), '' set '' @ show_nat a)"
    using assms(1) by (intro strtol_show_nat) (auto simp: not_digit_space)
  have w1: "scan_word 15 ('' set '' @ show_nat a) = Some (''set'', '' '' @ show_nat a)"
    by (simp add: scan_word_def isspace_def)
  have w2: "scan_word 15 ('' '' @ show_nat a) = Some (show_nat a, [])"
    using scan_digits[of "show_nat a" 15] length_show_nat_180[of a] assms(2)
    by (simp add: show_nat_digits)
  have ne: "'' set '' @ show_nat a \<noteq> show_nat (Suc i) @ '' set '' @ show_nat a"
    by (metis append_self_conv2 show_nat_nonempty)
  show ?thesis
    using n w1 w2 ne
    by (simp add: sscanf_motor_def print_set_def isspace_def)
qed

lemma set_not_setall: "i < 3 \<Longrightarrow> parse_setall_command (print_set i a) = None"
  by (simp add: parse_setall_command_def print_set_def skip_space_def isspace_def)

lemma show_nat_not_word: "\<not> isdigit c \<Longrightarrow> show_nat n \<noteq> c # cs"
  using show_nat_digits[of n] by (auto simp del: show_nat.simps)

lemma ParseAndRun_set:
  assumes "i < 3" and "a \<le> 180"
  shows "Motor_ParseAndRun (print_set i a) now s =
    ret_code (motor_enqueue_target_angles ([0, 0, 0][i := int a]) (push_bit i 1) s)"
  using assms
  by (simp add: Motor_ParseAndRun_def set_not_setall sscanf_set run_motor_cmd3_def digits_lower
      show_nat_digits strict_int_roundtrip[of a 180 0] tolower_def Let_def show_nat_not_word isdigit_def
      MOTOR_ANGLE_MIN_def MOTOR_ANGLE_MAX_def del: show_nat.simps)

end
