(* ===== verification/ServoSpec.thy ===== *)
theory ServoSpec imports ServoCommand begin

text \<open>
  What the servo controller guarantees as a whole: safety of every reachable state and of
  every byte on the bus, the order of queued set commands, the slew rate, and that an
  accepted \<^verbatim>\<open>set\<close> command reaches its angle.
\<close>

section \<open>Slew rate\<close>

lemma moving_next_slew:
  "angle_ok a \<Longrightarrow> d = -1 \<or> d = 0 \<or> d = 1 \<Longrightarrow> 1 \<le> v \<Longrightarrow> v \<le> 10 \<Longrightarrow> \<bar>motor_moving_next a d v - a\<bar> \<le> v"
  by (auto simp: motor_moving_next_def angle_ok_def MOTOR_ANGLE_MIN_def MOTOR_ANGLE_MAX_def Let_def)

lemma step_own_angle:
  assumes "axes_inv s" and "i < 3"
  shows "\<bar>s_angle (motor_step now i s) ! i - s_angle s ! i\<bar> \<le> s_speed_deg s ! i"
    and "\<not> motor_step_due now i s \<Longrightarrow> s_angle (motor_step now i s) ! i = s_angle s ! i"
proof -
  have l: "length (s_angle s) = 3"
    using assms(1) by (simp add: axes_inv_def)
  note ax = axes_nth[OF assms]
  show "\<bar>s_angle (motor_step now i s) ! i - s_angle s ! i\<bar> \<le> s_speed_deg s ! i"
    using moving_next_slew[OF ax(1,3,4,5)] ax(4) l assms(2)
      target_next_between[OF ax(4), of "s_angle s ! i" "s_target_angle s ! i"]
    by (auto simp: motor_step_def motor_step_moving_def step_target_eq[OF assms] Let_def)
  show "s_angle (motor_step now i s) ! i = s_angle s ! i" if "\<not> motor_step_due now i s"
    using that by (simp add: motor_step_def)
qed

lemma steps_own:
  assumes "axes_inv s" and "i < 3"
  shows "\<bar>s_angle (steps now s) ! i - s_angle s ! i\<bar> \<le> s_speed_deg s ! i"
    and "\<not> motor_step_due now i s \<Longrightarrow> s_angle (steps now s) ! i = s_angle s ! i"
proof -
  have a1: "axes_inv (motor_step now 0 s)" and a2: "axes_inv (motor_step now 1 (motor_step now 0 s))"
    using assms(1) by (simp_all add: step_axes)
  have "\<bar>s_angle (steps now s) ! i - s_angle s ! i\<bar> \<le> s_speed_deg s ! i \<and>
    (\<not> motor_step_due now i s \<longrightarrow> s_angle (steps now s) ! i = s_angle s ! i)"
    using step_own_angle[OF assms(1), of 0 now] step_own_angle[OF a1, of 1 now] step_own_angle[OF a2, of 2 now] assms(2)
    by (auto simp: steps_def less_3_cases step_other motor_step_due_def)
  then show "\<bar>s_angle (steps now s) ! i - s_angle s ! i\<bar> \<le> s_speed_deg s ! i"
    and "\<not> motor_step_due now i s \<Longrightarrow> s_angle (steps now s) ! i = s_angle s ! i"
    by auto
qed

lemma start_next_frame [simp]:
  "s_angle (motor_start_next_queued_set now s) = s_angle s"
  "s_speed_deg (motor_start_next_queued_set now s) = s_speed_deg s"
  "s_hi2c (motor_start_next_queued_set now s) = s_hi2c s"
  by (simp_all add: motor_start_next_queued_set_def Let_def)

lemma Update_angle:
  "s_angle (Motor_Update now now2 s) =
     s_angle (steps now (if s_set_queue_active s then s else motor_start_next_queued_set now s))"
  by (simp add: Motor_Update_def fold_steps Let_def)

lemma Update_slew:
  assumes "servo_inv s" and "i < 3"
  shows "\<bar>s_angle (Motor_Update now now2 s) ! i - s_angle s ! i\<bar> \<le> s_speed_deg s ! i"
  using assms steps_own(1)[of s i now] steps_own(1)[of "motor_start_next_queued_set now s" i now]
    start_next_inv[of s now]
  by (auto simp: Update_angle servo_inv_def)

section \<open>A set command from an idle controller\<close>

text \<open>The first update takes the set off the queue; no servo of the set moves in it.\<close>

lemma start_single:
  fixes now :: u32
  assumes inv: "servo_inv s" and idle: "\<not> s_set_queue_active s" and q: "servo_queue s = [c]"
    and i: "i < 3" and m: "mask_has (set_mask c) i"
  defines "s1 \<equiv> motor_start_next_queued_set now s"
  shows "servo_inv s1" and "heading i (set_angles c ! i) now s1" and "s_set_queue_count s1 = 0"
proof -
  have qi: "queue_inv s" and ax: "axes_inv s"
    using inv by (simp_all add: servo_inv_def)
  have n: "s_set_queue_count s = 1"
    using q length_ring_list[of "s_set_queue s" "s_set_queue_head s" "s_set_queue_count s"]
    by (simp add: servo_queue_def)
  obtain s' where p: "servo_queue_pop s = Some (c, s')" and c0: "s_set_queue_count s' = 0"
    using servo_queue_pop_inv[OF qi] q n by (auto simp: servo_queue_pop_def)
  have ax': "axes_inv s'"
    using pop_axes[OF p] ax by simp
  have "angle_ok (set_angles c ! i)"
    using qi q i by (simp add: queue_inv_def cmd_ok_def)
  then show "heading i (set_angles c ! i) now s1" and "s_set_queue_count s1 = 0"
    using idle m apply_nth[OF ax' i] c0
    by (simp_all add: s1_def start_next_pop p heading_def)
  show "servo_inv s1"
    unfolding s1_def using inv by (rule start_next_inv)
qed

text \<open>A servo that is not due keeps its angle and its heading through the loop and the completion check.\<close>

lemma heading_wait:
  assumes inv: "servo_inv s" and i: "i < 3" and h: "heading i T now s" and n: "s_set_queue_count s = 0"
    and act: "s_set_queue_active s"
  shows "heading i T now (Motor_Update now now2 s)"
    and "s_angle (Motor_Update now now2 s) ! i = s_angle s ! i"
proof -
  have ax: "axes_inv s" using inv by (simp add: servo_inv_def)
  have mv: "s_moving s ! i = 0" and lt: "s_last_tick s ! i = now"
    using h by (auto simp: heading_def)
  have nd: "\<not> motor_step_due now i s"
    by (simp add: motor_step_due_def lt MOTOR_STEP_INTERVAL_MS_def)
  note st = steps_idle[OF ax i mv, of now]
  have cnt: "s_set_queue_count (steps now s) = 0"
    using steps_queue[of s now] n by (auto simp: queue_kept_def queue_dropped_def)
  have hd: "heading i T now (steps now s)"
    using steps_queue[of s now] h st nd cnt by (auto simp: heading_def queue_kept_def queue_dropped_def)
  show "heading i T now (Motor_Update now now2 s)"
    using hd cnt act by (simp add: Motor_Update_def fold_steps heading_def Let_def)
  show "s_angle (Motor_Update now now2 s) ! i = s_angle s ! i"
    using steps_own(2)[OF ax i nd] act by (simp add: Update_angle)
qed

lemma Update_start:
  assumes "\<not> s_set_queue_active s" and "s_set_queue_active (motor_start_next_queued_set now s)"
  shows "Motor_Update now now2 s = Motor_Update now now2 (motor_start_next_queued_set now s)"
  using assms by (simp add: Motor_Update_def)

lemma start_single_arrives:
  assumes inv: "servo_inv s" and idle: "\<not> s_set_queue_active s" and q: "servo_queue s = [c]"
    and i: "i < 3" and m: "mask_has (set_mask c) i" and sp: "spaced now ts" and len: "180 \<le> length ts"
  shows "\<exists>k\<le>181. s_angle (run_updates (take k ((now, now2) # ts)) s) ! i = set_angles c ! i"
proof -
  let ?s1 = "motor_start_next_queued_set now s" and ?T = "set_angles c ! i"
  note st = start_single[OF inv idle q i m, of now]
  have act: "s_set_queue_active ?s1"
    using idle q by (cases "servo_queue_pop s") (auto simp: start_next_pop servo_queue_pop_def servo_queue_def split: if_splits)
  note w = heading_wait[OF st(1) i st(2,3) act, of now2]
  let ?s2 = "Motor_Update now now2 ?s1"
  have i2: "servo_inv ?s2"
    using st(1) by (rule Update_inv)
  then have "angle_ok (s_angle ?s2 ! i)" and "angle_ok ?T"
    using axes_nth[of ?s2 i] w(1) i by (auto simp: servo_inv_def heading_def)
  then have "nat \<bar>?T - s_angle ?s2 ! i\<bar> \<le> 180"
    by (auto simp: angle_ok_def)
  from heading_arrives[OF i2 i w(1) sp this len] obtain k where
    "k \<le> 180" "s_angle (run_updates (take k ts) ?s2) ! i = ?T" by blast
  moreover have "Motor_Update now now2 s = ?s2"
    using idle act by (rule Update_start)
  ultimately show ?thesis
    by (intro exI[of _ "Suc k"]) simp
qed

text \<open>What an accepted command leaves in an empty queue.\<close>

lemma enqueue_single:
  fixes as :: "int list" and m :: u8
  assumes "servo_inv s" and "s_hi2c s" and "s_set_queue_count s = 0" and "\<not> s_set_queue_active s"
  defines "t \<equiv> snd (motor_enqueue_target_angles as m s)"
  shows "servo_inv t" and "\<not> s_set_queue_active t"
    and "servo_queue t = [\<lparr> set_mask = m, set_angles = map (\<lambda>i. clamp_angle (as ! i)) [0..<3] \<rparr>]"
    and "fst (motor_enqueue_target_angles as m s)" and "s_angle t = s_angle s"
proof -
  have q: "queue_inv s" using assms(1) by (simp add: servo_inv_def)
  note e = enqueue_accepts[OF q assms(2), of as m]
  show "fst (motor_enqueue_target_angles as m s)" using e assms by simp
  show "servo_inv t" unfolding t_def using assms(1) by (rule enqueue_inv)
  show "servo_queue t = [\<lparr> set_mask = m, set_angles = map (\<lambda>i. clamp_angle (as ! i)) [0..<3] \<rparr>]"
    using e(3) assms(3) by (simp add: t_def servo_queue_def)
  show "\<not> s_set_queue_active t" "s_angle t = s_angle s"
    using assms(4) by (simp_all add: t_def motor_enqueue_target_angles_def)
qed

section \<open>Properties\<close>



text \<open>A burst of set commands on an initialised controller is queued in order: the queue keeps what
  fits in its eight slots and refuses the rest.\<close>

theorem set_queue_keeps_order:
  assumes "servo_reachable s" and "s_hi2c s" and "list_all cmd_ok cs"
  shows "servo_queue (fold (\<lambda>c. snd \<circ> motor_enqueue_target_angles (set_angles c) (set_mask c)) cs s)
    = take 8 (servo_queue s @ cs)"
proof -
  have "queue_inv s \<and> s_hi2c s"
    using servo_reachable_safe[OF assms(1)] assms(2) by (simp add: servo_safe_def servo_inv_def)
  from set_fifo.push_all[OF this assms(3)] show ?thesis by (simp add: comp_def)
qed

theorem set_queue_keeps_order_witness:
  "servo_queue (fold (\<lambda>c. snd \<circ> motor_enqueue_target_angles (set_angles c) (set_mask c))
      (map (\<lambda>k. \<lparr> set_mask = 7, set_angles = [int k, 10, 20] \<rparr>) [0..<10])
      (snd (Motor_Init (\<lambda>_ _. True) True servo_reset)))
    = map (\<lambda>k. \<lparr> set_mask = 7, set_angles = [int k, 10, 20] \<rparr>) [0..<8]"
proof -
  let ?s = "snd (Motor_Init (\<lambda>_ _. True) True servo_reset)"
  let ?cs = "map (\<lambda>k. \<lparr> set_mask = 7, set_angles = [int k, 10, 20] \<rparr>) [0..<10]"
  have r: "servo_reachable ?s"
    by (intro servo_reachable.step[OF _ servo_step.init] servo_reachable.start)
  have "s_hi2c ?s" and "servo_queue ?s = []"
    by (simp_all add: Motor_Init_def pca_write_def servo_reset_def motor_init_axis_def upt_3 servo_queue_def)
  moreover have "list_all cmd_ok ?cs"
    by (simp add: cmd_ok_def angle_ok_def list_all_iff)
  ultimately show ?thesis
    using set_queue_keeps_order[OF r] by (simp add: take_map)
qed

text \<open>C27: The text command \<^verbatim>\<open>motor<i> set <a>\<close>, sent to an initialised controller with an empty set
  queue, is acknowledged with 0, and within 181 updates, each but the first at least 20 ms after the
  one before, the servo has reached angle \<open>a\<close>, whatever the other servos are doing and wherever the
  32-bit tick wraps.\<close>

theorem set_command_arrives:
  assumes "servo_reachable s" and "s_hi2c s" and "s_set_queue_count s = 0" and "\<not> s_set_queue_active s"
    and "i < 3" and "a \<le> 180" and "spaced now ts" and "180 \<le> length ts"
  shows "fst (Motor_ParseAndRun (print_set i a) t0 s) = 0 \<and>
    (\<exists>k\<le>181. s_angle (run_updates (take k ((now, now2) # ts))
       (snd (Motor_ParseAndRun (print_set i a) t0 s))) ! i = int a)"
proof -
  have inv: "servo_inv s"
    using servo_reachable_safe[OF assms(1)] by (simp add: servo_safe_def)
  let ?as = "[0, 0, 0][i := int a]"
  note e = enqueue_single[OF inv assms(2,3,4), of ?as "push_bit i 1"]
  have m: "mask_has (set_mask \<lparr> set_mask = push_bit i 1, set_angles = map (\<lambda>j. clamp_angle (?as ! j)) [0..<3] \<rparr>) i"
    using assms(5) mask_has_single[of i i] by simp
  have "map (\<lambda>j. clamp_angle (?as ! j)) [0..<3] ! i = int a"
    using assms(5,6) by (auto simp: angle_ok_def less_3_cases)
  with start_single_arrives[OF e(1,2,3) assms(5) m assms(7,8), of now2] e(4) show ?thesis
    by (simp add: ParseAndRun_set[OF assms(5,6)] ret_code_def)
qed

theorem set_command_arrives_witness:
  "\<exists>k\<le>181. s_angle (run_updates (take k ((0, 0) # map (\<lambda>k. (of_nat (20 * Suc k), 0)) [0..<180]))
     (snd (Motor_ParseAndRun ''motor2 set 10'' 0 (snd (Motor_Init (\<lambda>_ _. True) True servo_reset))))) ! 1 = 10"
proof -
  let ?s = "snd (Motor_Init (\<lambda>_ _. True) True servo_reset)"
  have r: "servo_reachable ?s"
    by (intro servo_reachable.step[OF _ servo_step.init] servo_reachable.start)
  have f: "s_hi2c ?s" "s_set_queue_count ?s = 0" "\<not> s_set_queue_active ?s"
    by (simp_all add: Motor_Init_def pca_write_def servo_reset_def motor_init_axis_def upt_3 pca_set_pwm_def)
  have "spaced (of_nat (20 * n)) (map (\<lambda>k. (of_nat (20 * Suc k), 0)) [n..<n + m])" for n m
  proof (induction m arbitrary: n)
    case (Suc m)
    have "[n..<n + Suc m] = n # [Suc n..<Suc n + m]"
      by (simp add: upt_conv_Cons del: upt_Suc)
    with Suc[of "Suc n"] show ?case
      by (simp only: list.map spaced.simps) (simp add: MOTOR_STEP_INTERVAL_MS_def algebra_simps)
  qed simp
  from this[of 0 180] have sp: "spaced 0 (map (\<lambda>k. (of_nat (20 * Suc k), 0)) [0..<180])"
    by simp
  have p: "print_set 1 10 = ''motor2 set 10''"
    by code_simp
  show ?thesis
    using set_command_arrives[OF r f, of 1 10, OF _ _ sp, of 0 0] unfolding p by simp
qed

text \<open>The text command \<^verbatim>\<open>setall a b c\<close> with angles up to 180 is parsed back to exactly those
  angles and queued as one set for all three servos; on a full queue, or before initialisation, it is
  refused with -1 and nothing changes.\<close>

theorem setall_command_queued:
  assumes "servo_reachable s" and "a \<le> 180" and "b \<le> 180" and "c \<le> 180"
  shows "if s_hi2c s \<and> s_set_queue_count s < 8
     then fst (Motor_ParseAndRun (print_setall a b c) now s) = 0 \<and>
       servo_queue (snd (Motor_ParseAndRun (print_setall a b c) now s)) =
         servo_queue s @ [\<lparr> set_mask = 7, set_angles = [int a, int b, int c] \<rparr>]
     else Motor_ParseAndRun (print_setall a b c) now s = (-1, s)"
proof -
  have q: "queue_inv s"
    using servo_reachable_safe[OF assms(1)] by (simp add: servo_safe_def servo_inv_def)
  have "map (\<lambda>i. clamp_angle ([int a, int b, int c] ! i)) [0..<3] = [int a, int b, int c]"
    using assms by (simp add: upt_3 angle_ok_def)
  then show ?thesis
    using enqueue_accepts[OF q, of "[int a, int b, int c]" 7] enqueue_refuses[OF q, of "[int a, int b, int c]" 7]
    by (auto simp: Motor_ParseAndRun_def setall_roundtrip[OF assms(2-4)] ret_code_def)
qed

theorem setall_command_queued_witness:
  "servo_queue (snd (Motor_ParseAndRun ''setall 10 170 90'' 0 (snd (Motor_Init (\<lambda>_ _. True) True servo_reset))))
     = [\<lparr> set_mask = 7, set_angles = [10, 170, 90] \<rparr>] \<and>
   Motor_ParseAndRun ''setall 10 170 90'' 0 servo_reset = (-1, servo_reset)"
proof -
  let ?s = "snd (Motor_Init (\<lambda>_ _. True) True servo_reset)"
  have r: "servo_reachable ?s"
    by (intro servo_reachable.step[OF _ servo_step.init] servo_reachable.start)
  have f: "s_hi2c ?s" "s_set_queue_count ?s = 0" "servo_queue ?s = []"
    by (simp_all add: Motor_Init_def pca_write_def servo_reset_def motor_init_axis_def upt_3 pca_set_pwm_def
        servo_queue_def)
  have p: "print_setall 10 170 90 = ''setall 10 170 90''"
    by code_simp
  show ?thesis
    using setall_command_queued[OF r, of 10 170 90 0] setall_command_queued[OF servo_reachable.start, of 10 170 90 0]
    unfolding p by (simp add: f) (simp add: servo_reset_def)
qed

text \<open>A text command is answered 0 or -1, and a command answered -1, whatever its bytes, leaves the
  whole state of the controller and the bus untouched.\<close>

theorem rejected_command_no_effect:
  "fst (Motor_ParseAndRun data now s) = 0 \<or> Motor_ParseAndRun data now s = (-1, s)"
  by (rule ParseAndRun_code)

text \<open>One update moves a servo by at most its configured speed, so by at most ten degrees, in every
  reachable state, whether it follows a target or a press command.\<close>

theorem update_slew_rate:
  assumes "servo_reachable s" and "i < 3"
  shows "\<bar>s_angle (Motor_Update now now2 s) ! i - s_angle s ! i\<bar> \<le> s_speed_deg s ! i \<and> s_speed_deg s ! i \<le> 10"
proof -
  have "servo_inv s"
    using servo_reachable_safe[OF assms(1)] by (simp add: servo_safe_def)
  then show ?thesis
    using Update_slew[OF _ assms(2)] axes_nth(5)[OF _ assms(2)] by (simp add: servo_inv_def)
qed

theorem update_slew_rate_witness:
  "s_angle (Motor_Update 30 30 (Motor_SetAngle 1 20 0 (snd (Motor_Init (\<lambda>_ _. True) True servo_reset)))) ! 1 = 89 \<and>
   \<bar>s_angle (Motor_Update 30 30 (Motor_SetAngle 1 20 0 (snd (Motor_Init (\<lambda>_ _. True) True servo_reset)))) ! 1 -
    s_angle (Motor_SetAngle 1 20 0 (snd (Motor_Init (\<lambda>_ _. True) True servo_reset))) ! 1\<bar> \<le> 1"
proof -
  let ?s = "Motor_SetAngle 1 20 0 (snd (Motor_Init (\<lambda>_ _. True) True servo_reset))"
  have r: "servo_reachable ?s"
    by (intro servo_reachable.step[OF _ servo_step.set_angle] servo_reachable.step[OF _ servo_step.init]
        servo_reachable.start)
  have i0: "servo_inv ?s"
    using servo_reachable_safe[OF r] by (simp add: servo_safe_def)
  have f: "s_speed_deg ?s ! 1 = 1" "s_angle ?s ! 1 = 90" "s_target_angle ?s ! 1 = 20" "s_moving ?s ! 1 = 0"
    "s_last_tick ?s ! 1 = 0" "\<not> s_set_queue_active ?s" "s_set_queue_count ?s = 0"
    by (simp_all add: Motor_Init_def Motor_SetAngle_def motor_clear_set_queue_def pca_write_def servo_reset_def
        motor_init_axis_def upt_3 pca_set_pwm_def clamp_angle_def MOTOR_ANGLE_MIN_def MOTOR_ANGLE_MAX_def)
  have "s_angle (Motor_Update 30 30 ?s) ! 1 = 89"
    using steps_idle(3)[of ?s 1 30] i0 f
    by (simp add: Update_angle motor_start_next_queued_set_def servo_inv_def target_next_def
        motor_step_due_def MOTOR_STEP_INTERVAL_MS_def)
  with update_slew_rate[OF r, of 1 30 30] f show ?thesis by simp
qed

text \<open>The calibration is monotone and calibrated at its three points: a larger angle never gives a
  smaller tick, and every angle, in range or not, gives a 12-bit tick between the servo's minimum and
  maximum pulse, computed without overflow of the 32-bit products.\<close>

theorem calibration_monotone:
  assumes "i < 3" and "a \<le> b"
  shows "angle_to_tick i a \<le> angle_to_tick i b \<and>
    PULSE_US_TO_TICK (s_cal_min ! i) \<le> angle_to_tick i a \<and>
    angle_to_tick i b \<le> PULSE_US_TO_TICK (s_cal_max ! i) \<and>
    unat (angle_to_tick i b) < 4096 \<and>
    unat (angle_to_tick i a) = cal_us i a * 1351680 div 1000000"
proof -
  have "angle_to_tick i a \<le> angle_to_tick i b"
    unfolding word_le_nat_alt angle_to_tick_unat[OF assms(1)]
    by (intro div_le_mono mult_le_mono1 cal_us_mono assms)
  then show ?thesis
    using tick_bounds[OF assms(1)] angle_to_tick_unat[OF assms(1)] unfolding tick_ok_def by blast
qed

theorem calibration_monotone_witness:
  "angle_to_tick 0 45 \<le> angle_to_tick 0 135 \<and> unat (angle_to_tick 0 45) = 1035 * 1351680 div 1000000"
  using calibration_monotone[of 0 45 135]
  by (simp add: cal_us_def s_cal_min_def s_cal_center_def)

end
