(* ===== verification/Stm32Uart.thy ===== *)
theory Stm32Uart imports CStrings RingFifo begin

text \<open>
  The serial receiver of the STM32 (main.c): the line buffer the receive interrupt fills,
  the splitting of a line into commands, and the ring of sixteen command buffers between
  the interrupt and the main loop. \<^verbatim>\<open>char\<close> buffers keep their 256 bytes, NUL included; a C
  string is read out of one with \<open>cstr\<close>. The \<^verbatim>\<open>uint8_t\<close> counters are natural numbers that
  the invariant keeps below 256.
\<close>

section \<open>State\<close>

abbreviation (input) UART_RX_BUF_SIZE :: nat where "UART_RX_BUF_SIZE \<equiv> 256"
abbreviation (input) UART_CMD_QUEUE_LEN :: nat where "UART_CMD_QUEUE_LEN \<equiv> 16"
abbreviation (input) NUL :: char where "NUL \<equiv> CHR 0x00"

definition zero_row :: string where
  "zero_row = replicate UART_RX_BUF_SIZE NUL"

lemma length_zero_row [simp]: "length zero_row = 256"
  by (simp add: zero_row_def)

record uart =
  uart_cmd_buf :: string
  uart_cmd_len :: nat
  uart_cmd_queue :: "string list"
  uart_queue_head :: nat
  uart_queue_tail :: nat
  uart_queue_count :: nat
  uart_cmd_overflow :: bool
  uart_rx_armed :: bool

definition uart_reset :: uart where
  "uart_reset = \<lparr> uart_cmd_buf = zero_row, uart_cmd_len = 0,
     uart_cmd_queue = replicate UART_CMD_QUEUE_LEN zero_row,
     uart_queue_head = 0, uart_queue_tail = 0, uart_queue_count = 0,
     uart_cmd_overflow = False, uart_rx_armed = False \<rparr>"

section \<open>Trimming\<close>

text \<open>The loop that moves \<open>end\<close> back over trailing white space.\<close>

fun trim_end :: "string \<Rightarrow> nat \<Rightarrow> nat" where
  "trim_end start 0 = 0"
| "trim_end start (Suc n) = (if isspace (start ! n) then trim_end start n else Suc n)"

definition trimCommand :: "string \<Rightarrow> string" where
  "trimCommand text =
     (let start = dropWhile (\<lambda>c. c \<noteq> NUL \<and> isspace c) text
      in take (trim_end start (length start)) start)"

lemma isspace_NUL [simp]: "\<not> isspace NUL"
  by (simp add: isspace_def)

lemma trim_end_take: "n \<le> length s \<Longrightarrow>
   take (trim_end s n) s = rev (dropWhile isspace (rev (take n s)))"
  by (induction n) (simp_all add: take_Suc_conv_app_nth)

lemma trimCommand_strip: "trimCommand s = strip s"
proof -
  have "(\<lambda>c. c \<noteq> NUL \<and> isspace c) = isspace"
    by (auto simp: isspace_def)
  then show ?thesis
    using trim_end_take[of "length (dropWhile isspace s)" "dropWhile isspace s"]
    by (simp add: trimCommand_def strip_def)
qed

section \<open>The command queue\<close>

text \<open>Lines 384-399: copy the trimmed segment into the slot at the tail.\<close>

definition uart_queue_cmd :: "string \<Rightarrow> uart \<Rightarrow> bool \<times> uart" where
  "uart_queue_cmd cmd s =
     (if uart_queue_count s < UART_CMD_QUEUE_LEN then
        let cmd_len = min (length cmd) (UART_RX_BUF_SIZE - 1)
        in (True, s\<lparr> uart_cmd_queue := (uart_cmd_queue s)[uart_queue_tail s :=
              memcpy_at (uart_cmd_queue s ! uart_queue_tail s) 0 (take (cmd_len + 1) (cmd @ [NUL]))],
            uart_queue_tail := ring_succ UART_CMD_QUEUE_LEN (uart_queue_tail s),
            uart_queue_count := uart_queue_count s + 1 \<rparr>)
      else (False, s\<lparr> uart_cmd_overflow := True \<rparr>))"

definition uart_queue_segment :: "string \<Rightarrow> uart \<Rightarrow> uart" where
  "uart_queue_segment seg s =
     (let cmd = trimCommand seg in if cmd \<noteq> [] then snd (uart_queue_cmd cmd s) else s)"

text \<open>The loop over the characters of the line; the empty list is the terminating NUL.\<close>

fun uart_split_loop :: "string \<Rightarrow> string \<Rightarrow> bool \<Rightarrow> uart \<Rightarrow> uart" where
  "uart_split_loop [] seg ovf s = (if ovf then s else uart_queue_segment seg s)"
| "uart_split_loop (ch # rest) seg ovf s =
     (if ch \<noteq> CHR '';'' then
        (if ovf then uart_split_loop rest seg ovf s
         else if length seg < UART_RX_BUF_SIZE - 1 then uart_split_loop rest (seg @ [ch]) ovf s
         else uart_split_loop rest seg True (s\<lparr> uart_cmd_overflow := True \<rparr>))
      else uart_split_loop rest [] False (if ovf then s else uart_queue_segment seg s))"

definition uartQueueSplitCommands :: "string \<Rightarrow> uart \<Rightarrow> uart" where
  "uartQueueSplitCommands line s = uart_split_loop (cstr line) [] False s"

definition uartStartReceiveIT :: "uart \<Rightarrow> uart" where
  "uartStartReceiveIT s = s\<lparr> uart_rx_armed := True \<rparr>"

definition uart_clear_line :: "uart \<Rightarrow> uart" where
  "uart_clear_line s = s\<lparr> uart_cmd_len := 0, uart_cmd_buf := zero_row \<rparr>"

text \<open>The receive-complete callback for one byte of USART1.\<close>

definition HAL_UART_RxCpltCallback :: "char \<Rightarrow> uart \<Rightarrow> uart" where
  "HAL_UART_RxCpltCallback rx s = uartStartReceiveIT
     (if rx = CHR 0x0D \<or> rx = CHR 0x0A then
        (if uart_cmd_len s > 0 then
           let s = s\<lparr> uart_cmd_buf := (uart_cmd_buf s)[uart_cmd_len s := NUL] \<rparr>
           in uart_clear_line (uartQueueSplitCommands (uart_cmd_buf s) s)
         else s)
      else if uart_cmd_len s < UART_RX_BUF_SIZE - 1 then
        s\<lparr> uart_cmd_buf := (uart_cmd_buf s)[uart_cmd_len s := rx],
           uart_cmd_len := uart_cmd_len s + 1 \<rparr>
      else (uart_clear_line s)\<lparr> uart_cmd_overflow := True \<rparr>)"

text \<open>The main loop's side: the oldest command and its length.\<close>

definition uartPopCommand :: "uart \<Rightarrow> bool \<times> string \<times> nat \<times> uart" where
  "uartPopCommand s =
     (if uart_queue_count s > 0 then
        let row = uart_cmd_queue s ! uart_queue_head s;
            local_len = length (cstr row) mod 256;
            local_len = (if local_len \<ge> UART_RX_BUF_SIZE then UART_RX_BUF_SIZE - 1 else local_len)
        in (True, take local_len row, local_len,
            s\<lparr> uart_cmd_queue := (uart_cmd_queue s)[uart_queue_head s := zero_row],
               uart_queue_head := ring_succ UART_CMD_QUEUE_LEN (uart_queue_head s),
               uart_queue_count := uart_queue_count s - 1 \<rparr>)
      else (False, [], 0, s))"

section \<open>Invariant and abstraction\<close>

definition uart_cmd_ok :: "string \<Rightarrow> bool" where
  "uart_cmd_ok c \<longleftrightarrow> c \<noteq> [] \<and> length c \<le> 255 \<and> strip c = c \<and> NUL \<notin> set c"

definition uart_cmds :: "uart \<Rightarrow> string list" where
  "uart_cmds s = map cstr (ring_list (uart_cmd_queue s) (uart_queue_head s) (uart_queue_count s))"

definition uart_inv :: "uart \<Rightarrow> bool" where
  "uart_inv s \<longleftrightarrow> length (uart_cmd_buf s) = 256 \<and> uart_cmd_len s \<le> 255 \<and>
     length (uart_cmd_queue s) = 16 \<and> list_all (\<lambda>row. length row = 256) (uart_cmd_queue s) \<and>
     uart_queue_head s < 16 \<and> uart_queue_count s \<le> 16 \<and>
     uart_queue_tail s = (uart_queue_head s + uart_queue_count s) mod 16 \<and>
     list_all uart_cmd_ok (uart_cmds s)"

lemma uart_cmds_frame [simp]:
  "uart_cmds (s\<lparr> uart_cmd_overflow := b \<rparr>) = uart_cmds s"
  "uart_cmds (s\<lparr> uart_cmd_buf := l \<rparr>) = uart_cmds s"
  "uart_cmds (s\<lparr> uart_cmd_len := n \<rparr>) = uart_cmds s"
  "uart_cmds (s\<lparr> uart_rx_armed := b \<rparr>) = uart_cmds s"
  by (simp_all add: uart_cmds_def)

lemma uart_inv_frame [simp]:
  "uart_inv (s\<lparr> uart_cmd_overflow := b \<rparr>) = uart_inv s"
  "uart_inv (s\<lparr> uart_rx_armed := b \<rparr>) = uart_inv s"
  by (simp_all add: uart_inv_def)

lemma uart_inv_line:
  "uart_inv s \<Longrightarrow> length b = 256 \<Longrightarrow> n \<le> 255 \<Longrightarrow> uart_inv (s\<lparr> uart_cmd_buf := b, uart_cmd_len := n \<rparr>)"
  "uart_inv s \<Longrightarrow> length b = 256 \<Longrightarrow> uart_inv (s\<lparr> uart_cmd_buf := b \<rparr>)"
  "uart_inv s \<Longrightarrow> n \<le> 255 \<Longrightarrow> uart_inv (s\<lparr> uart_cmd_len := n \<rparr>)"
  by (simp_all add: uart_inv_def)

lemma uart_clear_line [simp]:
  "uart_cmds (uart_clear_line s) = uart_cmds s"
  "uart_cmd_overflow (uart_clear_line s) = uart_cmd_overflow s"
  "uart_cmd_len (uart_clear_line s) = 0"
  "uart_inv s \<Longrightarrow> uart_inv (uart_clear_line s)"
  by (simp_all add: uart_clear_line_def uart_inv_def uart_cmds_def)

lemma length_uart_cmds [simp]: "length (uart_cmds s) = uart_queue_count s"
  by (simp add: uart_cmds_def)

lemma uart_row_write:
  assumes "uart_cmd_ok c" and "length row = 256"
  shows "cstr (memcpy_at row 0 (take (min (length c) 255 + 1) (c @ [NUL]))) = c"
    and "length (memcpy_at row 0 (take (min (length c) 255 + 1) (c @ [NUL]))) = 256"
  using assms by (auto simp: uart_cmd_ok_def memcpy_at_def)

lemma uart_push_room:
  assumes "uart_inv s" and "uart_cmd_ok c" and "uart_queue_count s < 16"
  shows "fst (uart_queue_cmd c s)" and "uart_cmds (snd (uart_queue_cmd c s)) = uart_cmds s @ [c]"
    and "uart_inv (snd (uart_queue_cmd c s))"
proof -
  let ?row = "memcpy_at (uart_cmd_queue s ! uart_queue_tail s) 0 (take (min (length c) 255 + 1) (c @ [NUL]))"
  have t: "uart_queue_tail s < 16" and l: "length (uart_cmd_queue s ! uart_queue_tail s) = 256"
    using assms(1) by (auto simp: uart_inv_def list_all_length)
  note row = uart_row_write[OF assms(2) l]
  show "fst (uart_queue_cmd c s)" using assms(3) by (simp add: uart_queue_cmd_def Let_def)
  show q: "uart_cmds (snd (uart_queue_cmd c s)) = uart_cmds s @ [c]"
    using assms(1,3) row(1) ring_push[of "uart_queue_count s" "uart_cmd_queue s" "uart_queue_tail s" "uart_queue_head s" ?row]
    by (simp add: uart_cmds_def uart_queue_cmd_def Let_def uart_inv_def)
  have "ring_succ 16 (uart_queue_tail s) = (uart_queue_head s + Suc (uart_queue_count s)) mod 16"
    using assms(1) by (simp add: uart_inv_def ring_succ_mod mod_simps)
  then show "uart_inv (snd (uart_queue_cmd c s))"
    using assms q row(2) by (auto simp: uart_inv_def uart_queue_cmd_def Let_def intro!: list_all_update)
qed

lemma uart_push_full:
  "\<not> uart_queue_count s < 16 \<Longrightarrow> uart_queue_cmd c s = (False, s\<lparr> uart_cmd_overflow := True \<rparr>)"
  by (simp add: uart_queue_cmd_def)

text \<open>The pop seen as an operation of a queue.\<close>

definition uart_pop :: "uart \<Rightarrow> (string \<times> uart) option" where
  "uart_pop s = (case uartPopCommand s of (ok, c, n, s') \<Rightarrow> if ok then Some (c, s') else None)"

lemma uart_pop_inv:
  assumes "uart_inv s" and "uart_pop s = Some (c, s')"
  shows "uart_inv s' \<and> uart_cmds s = c # uart_cmds s'"
proof -
  let ?h = "uart_queue_head s" and ?n = "uart_queue_count s" and ?q = "uart_cmd_queue s"
  let ?row = "?q ! ?h" and ?z = zero_row
  have n: "0 < ?n"
    using assms(2) by (auto simp: uart_pop_def uartPopCommand_def split: if_splits)
  have h: "?h < length ?q" and lq: "length ?q = 16" and n16: "?n \<le> 16"
    using assms(1) by (auto simp: uart_inv_def)
  have cs: "uart_cmds s = cstr ?row # map cstr (ring_list ?q (ring_succ 16 ?h) (?n - 1))"
    using ring_pop[OF n h] lq by (simp add: uart_cmds_def)
  then have "uart_cmd_ok (cstr ?row)"
    using assms(1) by (simp add: uart_inv_def)
  then have "length (cstr ?row) \<le> 255" by (simp add: uart_cmd_ok_def)
  moreover have "take (length (cstr ?row)) ?row = cstr ?row"
    by (simp add: cstr_def flip: takeWhile_eq_take)
  moreover from n have "uart_pop s = Some (take (length (cstr ?row) mod 256) ?row,
      s\<lparr> uart_cmd_queue := ?q[?h := ?z], uart_queue_head := ring_succ 16 ?h, uart_queue_count := ?n - 1 \<rparr>)"
    if "length (cstr ?row) \<le> 255"
    using that by (simp add: uart_pop_def uartPopCommand_def Let_def)
  ultimately have c: "c = cstr ?row"
    and s': "s' = s\<lparr> uart_cmd_queue := ?q[?h := ?z], uart_queue_head := ring_succ 16 ?h, uart_queue_count := ?n - 1 \<rparr>"
    using assms(2) by simp_all
  have e: "uart_cmds s' = map cstr (ring_list ?q (ring_succ 16 ?h) (?n - 1))"
    using ring_pop_erase[OF n _ h, of ?z] lq n16 by (simp add: uart_cmds_def s')
  have "(ring_succ 16 ?h + (?n - 1)) mod 16 = (?h + ?n) mod 16"
  proof -
    from n obtain m where "?n = Suc m" by (cases ?n) auto
    with h lq show ?thesis by (simp add: ring_succ_mod mod_simps)
  qed
  then have "uart_inv s'"
    using assms(1) cs e by (auto simp: uart_inv_def s' ring_succ_less intro!: list_all_update)
  then show ?thesis using cs e c by simp
qed

text \<open>The command ring keeps the contract of a bounded queue of sixteen trimmed commands.\<close>

interpretation cmd_fifo: bounded_fifo uart_inv uart_cmds 16 uart_cmd_ok uart_queue_cmd uart_pop
proof
  fix s s' :: uart and c :: string
  assume s: "uart_inv s"
  show "length (uart_cmds s) \<le> 16"
    using s by (simp add: uart_inv_def)
  show "(uart_pop s = None) = (uart_cmds s = [])"
    by (auto simp: uart_pop_def uartPopCommand_def Let_def simp flip: length_0_conv)
  show "uart_pop s = Some (c, s') \<Longrightarrow> uart_inv s' \<and> uart_cmds s = c # uart_cmds s'"
    using s by (rule uart_pop_inv)
  assume c: "uart_cmd_ok c"
  show "uart_inv (snd (uart_queue_cmd c s))"
    using uart_push_room(3)[OF s c] uart_push_full[of s c] s by (cases "uart_queue_count s < 16") auto
  show "fst (uart_queue_cmd c s) \<and> uart_cmds (snd (uart_queue_cmd c s)) = uart_cmds s @ [c]"
    if "length (uart_cmds s) < 16"
    using uart_push_room[OF s c] that by simp
  show "\<not> fst (uart_queue_cmd c s) \<and> uart_cmds (snd (uart_queue_cmd c s)) = uart_cmds s"
    if "length (uart_cmds s) = 16"
    using uart_push_full[of s c] that by simp
qed

end
