(* ===== verification/Stm32Line.thy ===== *)
theory Stm32Line imports Stm32Uart begin

text \<open>
  From bytes on the serial line to commands in the queue: the splitter loop computes the
  trimmed non-empty segments between semicolons, and the receive callback, fed a line
  byte by byte, queues exactly those.
\<close>

section \<open>The splitter\<close>

definition line_commands :: "string \<Rightarrow> string list" where
  "line_commands line = filter (\<lambda>c. c \<noteq> []) (map strip (split_by (\<lambda>c. c = CHR '';'') line))"

definition uart_push_all :: "string list \<Rightarrow> uart \<Rightarrow> uart" where
  "uart_push_all cs s = fold (\<lambda>c. snd \<circ> uart_queue_cmd c) cs s"

lemma uart_push_all_simps [simp]:
  "uart_push_all [] s = s"
  "uart_push_all (c # cs) s = uart_push_all cs (snd (uart_queue_cmd c s))"
  by (simp_all add: uart_push_all_def)

text \<open>No segment overflows when the line fits the buffer, and the loop is a fold over the segments.\<close>

lemma split_loop_fold:
  assumes "length seg + length rest \<le> 255" and "CHR '';'' \<notin> set seg"
  shows "uart_split_loop rest seg False s =
    fold uart_queue_segment (split_by (\<lambda>c. c = CHR '';'') (seg @ rest)) s"
  using assms
proof (induction rest arbitrary: seg s)
  case Nil
  then have "split_by (\<lambda>c. c = CHR '';'') seg = [seg]"
    by (intro split_by_none) (auto simp: list_all_iff)
  then show ?case by simp
next
  case (Cons c rest)
  show ?case
  proof (cases "c = CHR '';''")
    case True
    have "split_by (\<lambda>c. c = CHR '';'') (seg @ c # rest) = seg # split_by (\<lambda>c. c = CHR '';'') rest"
      using Cons.prems(2) True by (subst split_by_append) (auto simp: list_all_iff)
    with True Cons.prems Cons.IH[of "[]"] show ?thesis by simp
  next
    case False
    with Cons.prems Cons.IH[of "seg @ [c]"] show ?thesis by simp
  qed
qed

lemma fold_segments:
  "fold uart_queue_segment segs s = uart_push_all (filter (\<lambda>c. c \<noteq> []) (map strip segs)) s"
  by (induction segs arbitrary: s) (simp_all add: uart_queue_segment_def trimCommand_strip)

lemma split_commands:
  assumes "length (cstr line) \<le> 255"
  shows "uartQueueSplitCommands line s = uart_push_all (line_commands (cstr line)) s"
  using split_loop_fold[of "[]" "cstr line" s] assms
  by (simp add: uartQueueSplitCommands_def fold_segments line_commands_def)

lemma line_commands_ok:
  assumes "length line \<le> 255" and "NUL \<notin> set line"
  shows "list_all uart_cmd_ok (line_commands line)"
proof -
  have "uart_cmd_ok (strip seg)" if "seg \<in> set (split_by (\<lambda>c. c = CHR '';'') line)" "strip seg \<noteq> []" for seg
    using that assms split_by_seg_length[OF that(1)] length_strip_le[of seg]
      split_by_seg_subset[OF that(1)] set_strip_subset[of seg]
    by (auto simp: uart_cmd_ok_def)
  then show ?thesis
    by (auto simp: line_commands_def list_all_iff)
qed

lemma queue_cmd_fields [simp]:
  "uart_cmd_overflow (snd (uart_queue_cmd c s)) \<longleftrightarrow> uart_cmd_overflow s \<or> \<not> uart_queue_count s < 16"
  "uart_queue_count (snd (uart_queue_cmd c s)) = (if uart_queue_count s < 16 then Suc (uart_queue_count s) else uart_queue_count s)"
  "uart_cmd_len (snd (uart_queue_cmd c s)) = uart_cmd_len s"
  "uart_cmd_buf (snd (uart_queue_cmd c s)) = uart_cmd_buf s"
  "uart_rx_armed (snd (uart_queue_cmd c s)) = uart_rx_armed s"
  by (simp_all add: uart_queue_cmd_def Let_def)

lemma push_overflow:
  "uart_cmd_overflow (uart_push_all cs s) \<longleftrightarrow> uart_cmd_overflow s \<or> (cs \<noteq> [] \<and> uart_queue_count s + length cs > 16)"
proof (induction cs arbitrary: s)
  case (Cons c cs)
  show ?case
    unfolding uart_push_all_simps Cons.IH by (cases cs) auto
qed simp

lemma push_all_frame [simp]:
  "uart_cmd_len (uart_push_all cs s) = uart_cmd_len s"
  "uart_cmd_buf (uart_push_all cs s) = uart_cmd_buf s"
  "uart_rx_armed (uart_push_all cs s) = uart_rx_armed s"
  by (induction cs arbitrary: s) simp_all

section \<open>The receive callback\<close>

definition uart_rx :: "string \<Rightarrow> uart \<Rightarrow> uart" where
  "uart_rx bs s = fold HAL_UART_RxCpltCallback bs s"

lemma uart_rx_simps [simp]:
  "uart_rx [] s = s"
  "uart_rx (b # bs) s = uart_rx bs (HAL_UART_RxCpltCallback b s)"
  "uart_rx (bs @ cs) s = uart_rx cs (uart_rx bs s)"
  by (simp_all add: uart_rx_def)

definition eol :: "char \<Rightarrow> bool" where
  "eol c \<longleftrightarrow> c = CHR 0x0D \<or> c = CHR 0x0A"

text \<open>The characters of the line received so far.\<close>

definition uart_line :: "uart \<Rightarrow> string" where
  "uart_line s = take (uart_cmd_len s) (uart_cmd_buf s)"

lemma uart_line_frame [simp]:
  "uart_line (s\<lparr> uart_cmd_overflow := b \<rparr>) = uart_line s"
  "uart_line (s\<lparr> uart_rx_armed := b \<rparr>) = uart_line s"
  by (simp_all add: uart_line_def)

lemma rx_char:
  assumes "uart_inv s" and "\<not> eol c" and "uart_cmd_len s < 255"
  defines "t \<equiv> HAL_UART_RxCpltCallback c s"
  shows "uart_inv t" and "uart_line t = uart_line s @ [c]" and "uart_cmd_len t = Suc (uart_cmd_len s)"
    and "uart_cmds t = uart_cmds s" and "uart_cmd_overflow t = uart_cmd_overflow s" and "uart_rx_armed t"
proof -
  have t: "t = s\<lparr> uart_cmd_buf := (uart_cmd_buf s)[uart_cmd_len s := c], uart_cmd_len := uart_cmd_len s + 1,
      uart_rx_armed := True \<rparr>"
    using assms(2,3) by (simp add: t_def HAL_UART_RxCpltCallback_def uartStartReceiveIT_def eol_def)
  show "uart_line t = uart_line s @ [c]"
    using assms(1,3) by (simp add: t uart_line_def uart_inv_def take_Suc_conv_app_nth)
  show "uart_inv t"
    using uart_inv_line(1)[OF assms(1), of "(uart_cmd_buf s)[uart_cmd_len s := c]"] assms(1,3)
    by (simp add: t uart_inv_def)
  show "uart_cmd_len t = Suc (uart_cmd_len s)" and "uart_cmds t = uart_cmds s"
    and "uart_cmd_overflow t = uart_cmd_overflow s" and "uart_rx_armed t"
    by (simp_all add: t)
qed

lemma rx_chars:
  assumes "uart_inv s" and "list_all (\<lambda>c. \<not> eol c) l" and "uart_cmd_len s + length l \<le> 255"
  shows "uart_inv (uart_rx l s) \<and> uart_line (uart_rx l s) = uart_line s @ l \<and>
    uart_cmd_len (uart_rx l s) = uart_cmd_len s + length l \<and> uart_cmds (uart_rx l s) = uart_cmds s \<and>
    uart_cmd_overflow (uart_rx l s) = uart_cmd_overflow s"
  using assms
proof (induction l arbitrary: s)
  case (Cons c l)
  then have c: "\<not> eol c" "uart_cmd_len s < 255" by simp_all
  note r = rx_char[OF Cons.prems(1) c]
  show ?case
    using Cons.IH[OF r(1)] Cons.prems r by simp
qed simp

lemma rx_eol:
  assumes "uart_inv s" and "eol c"
  defines "t \<equiv> HAL_UART_RxCpltCallback c s"
  shows "t = (if uart_cmd_len s = 0 then s\<lparr> uart_rx_armed := True \<rparr>
     else (uart_clear_line (uart_push_all (line_commands (cstr (uart_line s)))
       (s\<lparr> uart_cmd_buf := (uart_cmd_buf s)[uart_cmd_len s := NUL] \<rparr>)))\<lparr> uart_rx_armed := True \<rparr>)"
proof -
  have "uart_cmd_len s < length (uart_cmd_buf s)"
    using assms(1) by (simp add: uart_inv_def)
  then have b: "(uart_cmd_buf s)[uart_cmd_len s := NUL] = uart_line s @ NUL # drop (Suc (uart_cmd_len s)) (uart_cmd_buf s)"
    by (simp add: uart_line_def upd_conv_take_nth_drop)
  have "length (cstr (uart_line s)) \<le> 255"
    using length_cstr_le[of "uart_line s"] assms(1) by (simp add: uart_line_def uart_inv_def)
  then show ?thesis
    using assms(2) by (auto simp: t_def HAL_UART_RxCpltCallback_def uartStartReceiveIT_def eol_def split_commands b)
qed

lemma rx_eol_effect:
  assumes "uart_inv s" and "eol c"
  defines "t \<equiv> HAL_UART_RxCpltCallback c s" and "cs \<equiv> line_commands (cstr (uart_line s))"
  shows "uart_inv t" and "uart_cmds t = take 16 (uart_cmds s @ cs)" and "uart_cmd_len t = 0"
    and "uart_cmd_overflow t \<longleftrightarrow> uart_cmd_overflow s \<or> 16 < length (uart_cmds s @ cs)"
proof -
  let ?s = "s\<lparr> uart_cmd_buf := (uart_cmd_buf s)[uart_cmd_len s := NUL] \<rparr>"
  have i: "uart_inv ?s"
    using assms(1) by (auto intro: uart_inv_line(2) simp: uart_inv_def)
  have l: "length (cstr (uart_line s)) \<le> 255"
    using length_cstr_le[of "uart_line s"] assms(1) by (simp add: uart_line_def uart_inv_def)
  have ok: "list_all uart_cmd_ok cs"
    unfolding cs_def using l cstr_no_nul by (rule line_commands_ok)
  have le: "uart_queue_count s \<le> 16" using assms(1) by (simp add: uart_inv_def)
  note pa = cmd_fifo.push_all[OF i ok, folded uart_push_all_def]
  have z: "cs = []" if "uart_cmd_len s = 0"
    using that by (simp add: cs_def uart_line_def line_commands_def cstr_def)
  note e = rx_eol[OF assms(1,2), folded t_def cs_def]
  show "uart_inv t"
    using assms(1) pa by (simp add: e)
  show "uart_cmds t = take 16 (uart_cmds s @ cs)"
    using pa z le by (simp add: e)
  show "uart_cmd_len t = 0" by (simp add: e)
  show "uart_cmd_overflow t \<longleftrightarrow> uart_cmd_overflow s \<or> 16 < length (uart_cmds s @ cs)"
    using z le push_overflow[of cs ?s] by (auto simp: e)
qed

text \<open>A full buffer: the byte and the line so far are dropped and the overflow is noted.\<close>

lemma rx_full:
  assumes "uart_inv s" and "\<not> eol c" and "uart_cmd_len s = 255"
  shows "HAL_UART_RxCpltCallback c s = (uart_clear_line s)\<lparr> uart_cmd_overflow := True, uart_rx_armed := True \<rparr>"
  using assms by (simp add: HAL_UART_RxCpltCallback_def uartStartReceiveIT_def eol_def)

lemma rx_inv:
  assumes "uart_inv s"
  shows "uart_inv (HAL_UART_RxCpltCallback c s)"
proof -
  have "uart_cmd_len s \<le> 255" using assms by (simp add: uart_inv_def)
  then consider "eol c" | "\<not> eol c" "uart_cmd_len s < 255" | "\<not> eol c" "uart_cmd_len s = 255"
    by linarith
  then show ?thesis
    using rx_eol_effect(1)[OF assms] rx_char(1)[OF assms] rx_full[OF assms] assms by cases simp_all
qed

lemma rx_armed: "uart_rx_armed (HAL_UART_RxCpltCallback c s)"
  by (simp add: HAL_UART_RxCpltCallback_def uartStartReceiveIT_def)

lemma reset_uart_inv: "uart_inv uart_reset" "uart_cmds uart_reset = []"
  by (simp_all add: uart_inv_def uart_reset_def uart_cmds_def list_all_iff)

text \<open>A whole line, from an empty buffer.\<close>

lemma rx_line:
  assumes "uart_inv s" and "uart_cmd_len s = 0" and "list_all (\<lambda>c. \<not> eol c \<and> c \<noteq> NUL) l"
    and "length l \<le> 255" and "eol e"
  defines "t \<equiv> uart_rx (l @ [e]) s"
  shows "uart_inv t" and "uart_cmds t = take 16 (uart_cmds s @ line_commands l)" and "uart_cmd_len t = 0"
    and "uart_cmd_overflow t \<longleftrightarrow> uart_cmd_overflow s \<or> 16 < length (uart_cmds s @ line_commands l)"
proof -
  have "list_all (\<lambda>c. \<not> eol c) l" "NUL \<notin> set l"
    using assms(3) by (auto simp: list_all_iff)
  with rx_chars[OF assms(1), of l] assms(2,4) have r: "uart_inv (uart_rx l s)" "uart_line (uart_rx l s) = l"
    "uart_cmds (uart_rx l s) = uart_cmds s" "uart_cmd_overflow (uart_rx l s) = uart_cmd_overflow s"
    by simp_all (simp add: uart_line_def)
  have c: "cstr (uart_line (uart_rx l s)) = l"
    using r(2) \<open>NUL \<notin> set l\<close> by simp
  note e = rx_eol_effect[OF r(1) assms(5), unfolded c r(3,4)]
  show "uart_inv t" and "uart_cmds t = take 16 (uart_cmds s @ line_commands l)" and "uart_cmd_len t = 0"
    and "uart_cmd_overflow t \<longleftrightarrow> uart_cmd_overflow s \<or> 16 < length (uart_cmds s @ line_commands l)"
    using e by (simp_all add: t_def)
qed

end
