(* ===== verification/Stm32Main.thy ===== *)
theory Stm32Main imports Stm32Line ServoSpec begin

text \<open>
  The STM32 program (main.c): boot, the main loop and the command interpreter on top of
  the serial receiver and the servo controller. \<^verbatim>\<open>processUartCommand\<close> is the composition of
  three phases, so that the step relation can interleave the receive interrupt between
  them. Texts handed to \<^verbatim>\<open>HAL_UART_Transmit\<close> are appended to \<open>stm_tx\<close>; the laser is the level
  of its GPIO pin.
\<close>

section \<open>State and output\<close>

record stm =
  stm_uart :: uart
  stm_motor :: servo
  stm_laser :: bool
  stm_tx :: "string list"

definition stm_reset :: stm where
  "stm_reset = \<lparr> stm_uart = uart_reset, stm_motor = servo_reset, stm_laser = False, stm_tx = [] \<rparr>"

abbreviation (input) CRLF :: string where "CRLF \<equiv> [CHR 0x0D, CHR 0x0A]"

text \<open>\<^verbatim>\<open>snprintf(buf, n, ...)\<close>: at most \<open>n - 1\<close> characters.\<close>

definition snprintf :: "nat \<Rightarrow> string \<Rightarrow> string" where
  "snprintf n s = take (n - 1) s"

definition uartSendText :: "string \<Rightarrow> stm \<Rightarrow> stm" where
  "uartSendText text s = (if length text > 0 then s\<lparr> stm_tx := stm_tx s @ [text] \<rparr> else s)"

definition angles_text :: "string \<Rightarrow> servo \<Rightarrow> string" where
  "angles_text tag m = tag @ '' '' @ show_int (Motor_GetAngle 0 m) @ '' '' @ show_int (Motor_GetAngle 1 m) @ '' ''
     @ show_int (Motor_GetAngle 2 m) @ CRLF"

definition uartSendAngles :: "stm \<Rightarrow> stm" where
  "uartSendAngles s = uartSendText (snprintf 48 (angles_text ''ANGLES'' (stm_motor s))) s"

definition uartSendOkWithAngles :: "stm \<Rightarrow> stm" where
  "uartSendOkWithAngles s = uartSendText (snprintf 56 (angles_text ''OK'' (stm_motor s))) s"

definition laserInit :: "stm \<Rightarrow> stm" where
  "laserInit s = s\<lparr> stm_laser := False \<rparr>"

definition laserSet :: "bool \<Rightarrow> stm \<Rightarrow> stm" where
  "laserSet enabled s = s\<lparr> stm_laser := enabled \<rparr>"

section \<open>Boot\<close>

definition hex_digit :: "nat \<Rightarrow> char" where
  "hex_digit n = (if n < 10 then char_of (48 + n) else char_of (55 + n))"

definition show_hex2 :: "nat \<Rightarrow> string" where
  "show_hex2 n = [hex_digit (n div 16), hex_digit (n mod 16)]"

definition scan_i2c_addr :: "(nat \<Rightarrow> bool) \<Rightarrow> nat \<Rightarrow> bool \<times> stm \<Rightarrow> bool \<times> stm" where
  "scan_i2c_addr ready addr = (\<lambda>(found, s).
     if ready (2 * addr) then (True, uartSendText (snprintf 48 (''I2C 0x'' @ show_hex2 addr @ CRLF)) s)
     else (found, s))"

text \<open>The scanned addresses: \<^verbatim>\<open>0x01\<close> up to but not including \<^verbatim>\<open>0x7F\<close>.\<close>

definition i2c_addrs :: "nat list" where
  "i2c_addrs = [0x01..<0x7F]"

definition uartSendBootDiagnostics :: "(nat \<Rightarrow> bool) \<Rightarrow> stm \<Rightarrow> stm" where
  "uartSendBootDiagnostics ready s =
     (let s = uartSendText (''BOOT USART1 PA9/PA10'' @ CRLF) s;
          s = uartSendText (''I2C scan start'' @ CRLF) s;
          (found, s) = fold (scan_i2c_addr ready) i2c_addrs (False, s)
      in if \<not> found then uartSendText (''I2C none'' @ CRLF) s else s)"

text \<open>\<^verbatim>\<open>main\<close> up to its loop: \<open>bus\<close> and \<open>ready\<close> are the I2C devices' answers.\<close>

definition stm_boot :: "i2c_bus \<Rightarrow> (nat \<Rightarrow> bool) \<Rightarrow> stm \<Rightarrow> stm" where
  "stm_boot bus ready s =
     (let s = uartSendBootDiagnostics ready (laserInit s);
          (init_result, m) = Motor_Init bus True (stm_motor s);
          s = s\<lparr> stm_motor := m \<rparr>;
          s = (if init_result \<noteq> 0
               then uartSendText (snprintf 48 (''ERR PCA9685 '' @ show_int init_result @ CRLF)) s
               else uartSendText (''READY'' @ CRLF) s)
      in s\<lparr> stm_uart := uartStartReceiveIT (stm_uart s) \<rparr>)"

section \<open>Commands\<close>

definition help_lines :: "string list" where
  "help_lines = map (\<lambda>t. t @ CRLF)
     [''CMD motor<N> left press'', ''CMD motor<N> right press'', ''CMD motor<N> release'',
      ''CMD motor<N> set <deg>  (queued)'', ''CMD motor<N> speed <1-10>'',
      ''CMD setall <deg1> <deg2> <deg3>  (queued)'', ''CMD batch: cmd1; cmd2; cmd3'',
      ''CMD read | ping | stopall | LED ON | LED OFF'']"

text \<open>Lines 249-296: the dispatch of one trimmed command.\<close>

definition run_uart_command :: "string \<Rightarrow> u32 \<Rightarrow> stm \<Rightarrow> stm" where
  "run_uart_command cmd now s =
     (if cmd = ''read'' \<or> cmd = ''READ'' then uartSendAngles s
      else if cmd = ''ping'' \<or> cmd = ''PING'' then uartSendText (''PONG'' @ CRLF) s
      else if cmd = ''stopall'' \<or> cmd = ''STOPALL'' then
        uartSendOkWithAngles (s\<lparr> stm_motor := Motor_StopAll (stm_motor s) \<rparr>)
      else if cmd = ''LED ON'' \<or> cmd = ''led on'' \<or> cmd = ''LASER ON'' \<or> cmd = ''laser on'' then
        uartSendText (''LED ON'' @ CRLF) (laserSet True s)
      else if cmd = ''LED OFF'' \<or> cmd = ''led off'' \<or> cmd = ''LASER OFF'' \<or> cmd = ''laser off'' then
        uartSendText (''LED OFF'' @ CRLF) (laserSet False s)
      else if cmd = ''help'' \<or> cmd = ''HELP'' then fold uartSendText help_lines s
      else let (result, m) = Motor_ParseAndRun cmd now (stm_motor s);
               s = s\<lparr> stm_motor := m \<rparr>
           in if result = 0 then uartSendOkWithAngles s else uartSendText (''ERR'' @ CRLF) s)"

definition report_overflow :: "stm \<Rightarrow> stm" where
  "report_overflow s =
     (if uart_cmd_overflow (stm_uart s)
      then uartSendText (''ERR overflow'' @ CRLF) (s\<lparr> stm_uart := (stm_uart s)\<lparr> uart_cmd_overflow := False \<rparr> \<rparr>)
      else s)"

text \<open>The three phases: fetch (with interrupts disabled), execute, finish.\<close>

definition uart_fetch :: "stm \<Rightarrow> string option \<times> stm" where
  "uart_fetch s =
     (let (popped, buf, len, u) = uartPopCommand (stm_uart s);
          s = s\<lparr> stm_uart := u \<rparr>;
          local_len = (if popped then len else 0)
      in if local_len = 0 then (None, report_overflow s) else (Some (trimCommand (cstr buf)), s))"

definition uart_finish :: "stm \<Rightarrow> stm" where
  "uart_finish s = (let s = report_overflow s in s\<lparr> stm_uart := (stm_uart s)\<lparr> uart_cmd_len := 0 \<rparr> \<rparr>)"

definition processUartCommand :: "u32 \<Rightarrow> stm \<Rightarrow> stm" where
  "processUartCommand now s =
     (case uart_fetch s of (None, s) \<Rightarrow> s | (Some cmd, s) \<Rightarrow> uart_finish (run_uart_command cmd now s))"

definition uart_work :: "stm \<Rightarrow> bool" where
  "uart_work s \<longleftrightarrow> uart_queue_count (stm_uart s) > 0 \<or> uart_cmd_overflow (stm_uart s)"

text \<open>One round of the main loop.\<close>

definition main_loop_body :: "u32 \<Rightarrow> u32 \<Rightarrow> u32 \<Rightarrow> stm \<Rightarrow> stm" where
  "main_loop_body now now2 now3 s =
     (let s = s\<lparr> stm_motor := Motor_Update now now2 (stm_motor s) \<rparr>
      in if uart_work s then processUartCommand now3 s else s)"

definition stm_rx :: "string \<Rightarrow> stm \<Rightarrow> stm" where
  "stm_rx bs s = s\<lparr> stm_uart := uart_rx bs (stm_uart s) \<rparr>"

section \<open>Interrupts between the phases\<close>

datatype stm_pc = Loop | Exec string | Finish

inductive stm_step :: "stm_pc \<times> stm \<Rightarrow> stm_pc \<times> stm \<Rightarrow> bool" where
  rx: "uart_rx_armed (stm_uart s) \<Longrightarrow>
     stm_step (pc, s) (pc, s\<lparr> stm_uart := HAL_UART_RxCpltCallback c (stm_uart s) \<rparr>)"
| update: "stm_step (Loop, s) (Loop, s\<lparr> stm_motor := Motor_Update now now2 (stm_motor s) \<rparr>)"
| fetch_none: "uart_work s \<Longrightarrow> uart_fetch s = (None, t) \<Longrightarrow> stm_step (Loop, s) (Loop, t)"
| fetch: "uart_work s \<Longrightarrow> uart_fetch s = (Some cmd, t) \<Longrightarrow> stm_step (Loop, s) (Exec cmd, t)"
| exec: "stm_step (Exec cmd, s) (Finish, run_uart_command cmd now s)"
| finish: "stm_step (Finish, s) (Loop, uart_finish s)"

inductive stm_reachable :: "stm_pc \<times> stm \<Rightarrow> bool" where
  boot: "stm_reachable (Loop, stm_boot bus ready stm_reset)"
| step: "stm_reachable p \<Longrightarrow> stm_step p q \<Longrightarrow> stm_reachable q"

definition stm_inv :: "stm \<Rightarrow> bool" where
  "stm_inv s \<longleftrightarrow> uart_inv (stm_uart s) \<and> uart_rx_armed (stm_uart s) \<and> servo_safe (stm_motor s)"

lemma send_frame [simp]:
  "stm_uart (uartSendText t s) = stm_uart s" "stm_motor (uartSendText t s) = stm_motor s"
  "stm_laser (uartSendText t s) = stm_laser s"
  "stm_tx (uartSendText t s) = (if t = [] then stm_tx s else stm_tx s @ [t])"
  "stm_uart (uartSendAngles s) = stm_uart s" "stm_motor (uartSendAngles s) = stm_motor s"
  "stm_uart (uartSendOkWithAngles s) = stm_uart s" "stm_motor (uartSendOkWithAngles s) = stm_motor s"
  "stm_uart (laserSet b s) = stm_uart s" "stm_motor (laserSet b s) = stm_motor s"
  "stm_laser (uartSendOkWithAngles s) = stm_laser s"
  by (simp_all add: uartSendText_def uartSendAngles_def uartSendOkWithAngles_def laserSet_def)

lemma send_all_frame [simp]:
  "stm_uart (fold uartSendText ts s) = stm_uart s" "stm_motor (fold uartSendText ts s) = stm_motor s"
  by (induction ts arbitrary: s) simp_all

lemma run_command_uart [simp]: "stm_uart (run_uart_command cmd now s) = stm_uart s"
  by (simp add: run_uart_command_def Let_def split: prod.split)

lemma run_command_safe:
  "servo_safe (stm_motor s) \<Longrightarrow> servo_safe (stm_motor (run_uart_command cmd now s))"
  using ParseAndRun_safe[of "stm_motor s" cmd now] servo_step_safe[OF servo_step.stop_all, of "stm_motor s"]
  by (cases "Motor_ParseAndRun cmd now (stm_motor s)") (simp add: run_uart_command_def Let_def)

lemma report_frame [simp]:
  "stm_motor (report_overflow s) = stm_motor s"
  "uart_inv (stm_uart (report_overflow s)) = uart_inv (stm_uart s)"
  "uart_rx_armed (stm_uart (report_overflow s)) = uart_rx_armed (stm_uart s)"
  "uart_cmds (stm_uart (report_overflow s)) = uart_cmds (stm_uart s)"
  "uart_cmd_len (stm_uart (report_overflow s)) = uart_cmd_len (stm_uart s)"
  "\<not> uart_cmd_overflow (stm_uart (report_overflow s))"
  by (simp_all add: report_overflow_def)

lemma pop_none [simp]: "\<not> 0 < uart_queue_count u \<Longrightarrow> uartPopCommand u = (False, [], 0, u)"
  by (simp add: uartPopCommand_def)

text \<open>The main loop sees the queue through its contract: what it fetches is the oldest command.\<close>

lemma fetch_cases:
  assumes "uart_inv (stm_uart s)"
  obtains (empty) "uart_cmds (stm_uart s) = []" "uart_fetch s = (None, report_overflow s)"
  | (cmd) c u where "uart_cmds (stm_uart s) = c # uart_cmds u" "uart_inv u" "uart_pop (stm_uart s) = Some (c, u)"
      "uart_fetch s = (Some c, s\<lparr> stm_uart := u \<rparr>)"
proof (cases "uart_pop (stm_uart s)")
  case None
  then have "uart_cmds (stm_uart s) = []"
    using cmd_fifo.pop_none[OF assms] by simp
  moreover from this have "uart_queue_count (stm_uart s) = 0"
    by (metis length_uart_cmds list.size(3))
  ultimately show ?thesis
    by (intro empty) (simp_all add: uart_fetch_def)
next
  case (Some p)
  obtain c u where p: "p = (c, u)" by (cases p)
  note pop = uart_pop_inv[OF assms Some[unfolded p]]
  then have "uart_cmd_ok c"
    using assms by (simp add: uart_inv_def)
  moreover obtain n where "uartPopCommand (stm_uart s) = (True, c, n, u)"
    using Some by (auto simp: p uart_pop_def split: prod.splits if_splits)
  moreover from this have "n = length c mod 256 \<or> length c < n" "n \<le> 255"
    by (auto simp: uartPopCommand_def Let_def split: if_splits)
  ultimately have "uart_fetch s = (Some c, s\<lparr> stm_uart := u \<rparr>)"
    by (auto simp: uart_fetch_def Let_def uart_cmd_ok_def trimCommand_strip)
  with pop Some show ?thesis by (intro cmd) (simp_all add: p)
qed

section \<open>The invariant\<close>

lemma fetch_inv:
  assumes "stm_inv s"
  shows "stm_inv (snd (uart_fetch s))"
proof -
  have i: "uart_inv (stm_uart s)" using assms by (simp add: stm_inv_def)
  have armed: "uart_rx_armed u" if "uart_pop (stm_uart s) = Some (c, u)" for c u
    using that assms by (auto simp: uart_pop_def uartPopCommand_def Let_def stm_inv_def split: if_splits)
  show ?thesis
    using i by (cases rule: fetch_cases) (use assms armed in \<open>auto simp: stm_inv_def\<close>)
qed

lemma finish_inv: "stm_inv s \<Longrightarrow> stm_inv (uart_finish s)"
  by (simp add: stm_inv_def uart_finish_def uart_inv_line Let_def)

lemma run_command_inv: "stm_inv s \<Longrightarrow> stm_inv (run_uart_command cmd now s)"
  by (simp add: stm_inv_def run_command_safe)

lemma process_inv: "stm_inv s \<Longrightarrow> stm_inv (processUartCommand now s)"
  using fetch_inv[of s]
  by (cases "uart_fetch s") (auto simp: processUartCommand_def finish_inv run_command_inv split: option.split)

lemma update_inv: "stm_inv s \<Longrightarrow> stm_inv (s\<lparr> stm_motor := Motor_Update now now2 (stm_motor s) \<rparr>)"
  by (simp add: stm_inv_def servo_step_safe[OF servo_step.update])

lemma rx_byte_inv: "stm_inv s \<Longrightarrow> stm_inv (s\<lparr> stm_uart := HAL_UART_RxCpltCallback c (stm_uart s) \<rparr>)"
  by (simp add: stm_inv_def rx_inv rx_armed)

lemma scan_frame:
  "stm_uart (snd (fold (scan_i2c_addr ready) as (b, s))) = stm_uart s \<and>
   stm_motor (snd (fold (scan_i2c_addr ready) as (b, s))) = stm_motor s"
  by (induction as arbitrary: b s) (simp_all add: scan_i2c_addr_def)

lemma diagnostics_frame [simp]:
  "stm_uart (uartSendBootDiagnostics ready s) = stm_uart s"
  "stm_motor (uartSendBootDiagnostics ready s) = stm_motor s"
proof -
  let ?s = "uartSendText (''I2C scan start'' @ CRLF) (uartSendText (''BOOT USART1 PA9/PA10'' @ CRLF) s)"
  obtain f t where ft: "fold (scan_i2c_addr ready) i2c_addrs (False, ?s) = (f, t)"
    by (cases "fold (scan_i2c_addr ready) i2c_addrs (False, ?s)")
  then have "stm_uart t = stm_uart s" "stm_motor t = stm_motor s"
    using scan_frame[of ready i2c_addrs False ?s] by simp_all
  with ft show "stm_uart (uartSendBootDiagnostics ready s) = stm_uart s"
    "stm_motor (uartSendBootDiagnostics ready s) = stm_motor s"
    by (simp_all add: uartSendBootDiagnostics_def)
qed

lemma boot_fields:
  "stm_motor (stm_boot bus ready s) = snd (Motor_Init bus True (stm_motor s))"
  "stm_uart (stm_boot bus ready s) = uartStartReceiveIT (stm_uart s)"
  by (simp_all add: stm_boot_def laserInit_def Let_def split: prod.split)

lemma boot_inv: "stm_inv (stm_boot bus ready stm_reset)"
  using reset_uart_inv(1) servo_step_safe[OF servo_step.init reset_safe]
  by (simp add: stm_inv_def boot_fields stm_reset_def uartStartReceiveIT_def)

lemma stm_step_inv: "stm_step p q \<Longrightarrow> stm_inv (snd p) \<Longrightarrow> stm_inv (snd q)"
proof (induction rule: stm_step.induct)
  case (fetch_none s t) then show ?case using fetch_inv[of s] by simp
next
  case (fetch s cmd t) then show ?case using fetch_inv[of s] by simp
qed (simp_all add: rx_byte_inv update_inv run_command_inv finish_inv)

lemma stm_reachable_inv: "stm_reachable p \<Longrightarrow> stm_inv (snd p)"
  by (induction rule: stm_reachable.induct) (use boot_inv stm_step_inv in auto)

text \<open>The sequential main loop is one of the schedules of the step relation.\<close>

lemma process_reachable:
  assumes "stm_reachable (Loop, s)" and "uart_work s"
  shows "stm_reachable (Loop, processUartCommand now s)"
proof (cases "uart_fetch s")
  case (Pair r t)
  show ?thesis
  proof (cases r)
    case None
    with Pair assms show ?thesis
      by (auto simp: processUartCommand_def intro: stm_reachable.step stm_step.fetch_none)
  next
    case (Some cmd)
    with Pair assms have "stm_reachable (Exec cmd, t)"
      by (auto intro: stm_reachable.step stm_step.fetch)
    then have "stm_reachable (Loop, uart_finish (run_uart_command cmd now t))"
      by (meson stm_reachable.step stm_step.exec stm_step.finish)
    with Pair Some show ?thesis by (simp add: processUartCommand_def)
  qed
qed

end
