(* ===== verification/Stm32Spec.thy ===== *)
theory Stm32Spec imports Stm32Main begin

text \<open>
  Properties of the STM32 program: safety under every interleaving of receive interrupts
  with the main loop, the translation of lines into commands, the answers, and two defects
  of the receiver.
\<close>

section \<open>Answers\<close>

lemma length_show_int_angle: "angle_ok a \<Longrightarrow> length (show_int a) \<le> 3"
  by (auto simp: show_int_def angle_ok_def intro: length_show_nat_180)

lemma GetAngle_ok: "servo_safe m \<Longrightarrow> angle_ok (Motor_GetAngle i m)"
  by (cases "i < 3") (simp_all add: Motor_GetAngle_def servo_safe_def servo_inv_def axes_nth(1), simp add: angle_ok_def)

text \<open>The answers fit the buffers of the code: \<^verbatim>\<open>snprintf\<close> does not truncate them.\<close>

lemma answer_fits:
  assumes "servo_safe m"
  shows "snprintf 56 (angles_text ''OK'' m) = angles_text ''OK'' m"
    and "snprintf 48 (angles_text ''ANGLES'' m) = angles_text ''ANGLES'' m"
  using length_show_int_angle[OF GetAngle_ok[OF assms, of 0]] length_show_int_angle[OF GetAngle_ok[OF assms, of 1]]
    length_show_int_angle[OF GetAngle_ok[OF assms, of 2]]
  by (simp_all add: snprintf_def angles_text_def)

lemma enqueue_angles [simp]: "Motor_GetAngle i (snd (motor_enqueue_target_angles as m s)) = Motor_GetAngle i s"
  by (simp add: Motor_GetAngle_def motor_enqueue_target_angles_def)

lemma send_OK:
  "servo_safe (stm_motor s) \<Longrightarrow> stm_tx (uartSendOkWithAngles s) = stm_tx s @ [angles_text ''OK'' (stm_motor s)]"
  by (simp add: uartSendOkWithAngles_def answer_fits(1)) (simp add: angles_text_def)

lemma send_ANGLES:
  "servo_safe (stm_motor s) \<Longrightarrow> stm_tx (uartSendAngles s) = stm_tx s @ [angles_text ''ANGLES'' (stm_motor s)]"
  by (simp add: uartSendAngles_def answer_fits(2)) (simp add: angles_text_def)

lemma send_all_tx: "list_all (\<lambda>t. t \<noteq> []) ts \<Longrightarrow> stm_tx (fold uartSendText ts s) = stm_tx s @ ts"
  by (induction ts arbitrary: s) simp_all

lemma boot_uart:
  fixes bus :: i2c_bus and ready :: "nat \<Rightarrow> bool"
  defines "u \<equiv> stm_uart (stm_boot bus ready stm_reset)"
  shows "uart_inv u" and "uart_cmds u = []" and "uart_cmd_len u = 0" and "\<not> uart_cmd_overflow u"
proof -
  have u: "u = uart_reset\<lparr> uart_rx_armed := True \<rparr>"
    by (simp add: u_def boot_fields stm_reset_def uartStartReceiveIT_def)
  show "uart_inv u" and "uart_cmds u = []"
    using reset_uart_inv unfolding u by simp_all
  show "uart_cmd_len u = 0" and "\<not> uart_cmd_overflow u"
    by (simp_all add: u uart_reset_def)
qed

text \<open>How a command may be answered, proved branch by branch.\<close>

definition answered :: "stm \<Rightarrow> stm \<Rightarrow> bool" where
  "answered s t \<longleftrightarrow> (stm_tx t = stm_tx s @ help_lines \<or> (\<exists>r. stm_tx t = stm_tx s @ [r])) \<and>
     (stm_tx t = stm_tx s @ [''ERR'' @ CRLF] \<longrightarrow> stm_motor t = stm_motor s \<and> stm_laser t = stm_laser s)"

lemma tx_O: "\<exists>r. stm_tx (uartSendOkWithAngles t) = stm_tx t @ [CHR ''O'' # r]"
  by (simp add: uartSendOkWithAngles_def snprintf_def angles_text_def)

lemma tx_A: "\<exists>r. stm_tx (uartSendAngles t) = stm_tx t @ [CHR ''A'' # r]"
  by (simp add: uartSendAngles_def snprintf_def angles_text_def)

lemma answered_help: "answered s (fold uartSendText help_lines s)"
proof -
  have "stm_tx (fold uartSendText help_lines s) = stm_tx s @ help_lines"
    by (rule send_all_tx) (simp add: help_lines_def)
  then show ?thesis by (simp add: answered_def help_lines_def)
qed

lemma answered_ok: "answered s (uartSendOkWithAngles (s\<lparr> stm_motor := m \<rparr>))"
  using tx_O[of "s\<lparr> stm_motor := m \<rparr>"] by (auto simp: answered_def)

lemma answered_angles: "answered s (uartSendAngles s)"
  using tx_A[of s] by (auto simp: answered_def)

lemma answered_text: "t \<noteq> [] \<Longrightarrow> t \<noteq> ''ERR'' @ CRLF \<Longrightarrow> answered s (uartSendText t (laserSet b s))"
  "t \<noteq> [] \<Longrightarrow> answered s (uartSendText t s)"
  by (simp_all add: answered_def) (simp add: laserSet_def)

lemma run_command_answered: "answered s (run_uart_command cmd now s)"
proof -
  obtain r m where pr: "Motor_ParseAndRun cmd now (stm_motor s) = (r, m)"
    by (cases "Motor_ParseAndRun cmd now (stm_motor s)")
  have "answered s (uartSendText (''ERR'' @ CRLF) (s\<lparr> stm_motor := m \<rparr>))" if "r \<noteq> 0"
    using that ParseAndRun_code[of cmd now "stm_motor s"] pr by (simp add: answered_text)
  then show ?thesis
    unfolding run_uart_command_def pr Let_def prod.case
    by (simp add: answered_help answered_ok answered_angles answered_text del: append.simps)
qed

section \<open>A printed command as a line\<close>

lemma print_set_line:
  assumes "i < 3" and "a \<le> 180"
  shows "line_commands (print_set i a) = [print_set i a]"
    and "list_all (\<lambda>c. \<not> eol c \<and> c \<noteq> NUL) (print_set i a)" and "length (print_set i a) \<le> 255"
proof -
  have d: "isdigit c" if "c \<in> set (show_nat n)" for c n
    using that show_nat_digits[of n] by (simp add: list_all_iff)
  have nd: "\<not> eol c \<and> c \<noteq> NUL \<and> c \<noteq> CHR '';''" if "c \<in> set (show_nat n)" for c n
    using d[OF that] by (auto simp: isdigit_def eol_def)
  show "list_all (\<lambda>c. \<not> eol c \<and> c \<noteq> NUL) (print_set i a)"
    unfolding print_set_def list_all_append
    by (intro conjI) (auto simp: list_all_iff eol_def dest!: nd)
  have "list_all (\<lambda>c. \<not> c = CHR '';'') (print_set i a)"
    unfolding print_set_def list_all_append
    by (intro conjI) (auto simp: list_all_iff dest: nd)
  then have "split_by (\<lambda>c. c = CHR '';'') (print_set i a) = [print_set i a]"
    by (rule split_by_none)
  moreover have "isdigit (last (show_nat a))"
    using d[of "last (show_nat a)" a] by simp
  then have "strip (print_set i a) = print_set i a"
    by (intro strip_id) (auto simp: print_set_def isspace_def isdigit_def)
  ultimately show "line_commands (print_set i a) = [print_set i a]"
    by (simp add: line_commands_def) (simp add: print_set_def)
  show "length (print_set i a) \<le> 255"
    using length_show_nat_180[of "Suc i"] length_show_nat_180[of a] assms by (simp add: print_set_def)
qed

lemma run_set:
  fixes now :: u32
  assumes "i < 3" and "a \<le> 180" and "servo_safe (stm_motor s)"
    and "s_hi2c (stm_motor s)" and "s_set_queue_count (stm_motor s) < 8"
  defines "t \<equiv> run_uart_command (print_set i a) now s"
  shows "stm_tx t = stm_tx s @ [angles_text ''OK'' (stm_motor s)]"
    and "servo_queue (stm_motor t) =
      servo_queue (stm_motor s) @ [\<lparr> set_mask = push_bit i 1, set_angles = [0, 0, 0][i := int a] \<rparr>]"
proof -
  let ?e = "motor_enqueue_target_angles ([0, 0, 0][i := int a]) (push_bit i 1) (stm_motor s)"
  have q: "queue_inv (stm_motor s)" using assms(3) by (simp add: servo_safe_def servo_inv_def)
  note e = enqueue_accepts[OF q assms(4,5), of "[0, 0, 0][i := int a]" "push_bit i 1"]
  have t: "t = uartSendOkWithAngles (s\<lparr> stm_motor := snd ?e \<rparr>)"
    using e(1) unfolding t_def run_uart_command_def ParseAndRun_set[OF assms(1,2)]
    by (simp add: print_set_def ret_code_def)
  have "angles_text ''OK'' (snd ?e) = angles_text ''OK'' (stm_motor s)"
    by (simp add: angles_text_def)
  then show "stm_tx t = stm_tx s @ [angles_text ''OK'' (stm_motor s)]"
    using enqueue_safe[OF assms(3)] by (simp add: t send_OK)
  have "map (\<lambda>k. clamp_angle ([0, 0, 0][i := int a] ! k)) [0..<3] = [0, 0, 0][i := int a]"
    using assms(1,2) by (auto simp: upt_3 angle_ok_def less_3_cases)
  then show "servo_queue (stm_motor t) =
      servo_queue (stm_motor s) @ [\<lparr> set_mask = push_bit i 1, set_angles = [0, 0, 0][i := int a] \<rparr>]"
    using e(3) by (simp add: t)
qed

section \<open>Processing\<close>

text \<open>Processing with a command in the queue.\<close>

lemma process_command:
  assumes "uart_inv (stm_uart s)" and "uart_cmds (stm_uart s) = c # cs"
  obtains u where "uart_inv u" "uart_cmds u = cs" "uart_cmd_overflow u = uart_cmd_overflow (stm_uart s)"
    "processUartCommand now s = uart_finish (run_uart_command c now (s\<lparr> stm_uart := u \<rparr>))"
  using assms(1)
proof (cases rule: fetch_cases)
  case (cmd d u)
  have "uart_cmd_overflow u = uart_cmd_overflow (stm_uart s)"
    using cmd(3) by (auto simp: uart_pop_def uartPopCommand_def Let_def split: if_splits)
  with cmd assms(2) show ?thesis
    by (intro that) (auto simp: processUartCommand_def)
qed (use assms(2) in simp)

lemma finish_fields [simp]:
  "stm_motor (uart_finish s) = stm_motor s"
  "uart_cmd_len (stm_uart (uart_finish s)) = 0"
  "uart_cmds (stm_uart (uart_finish s)) = uart_cmds (stm_uart s)"
  "\<not> uart_cmd_overflow (stm_uart (uart_finish s))"
  "\<not> uart_cmd_overflow (stm_uart s) \<Longrightarrow> stm_tx (uart_finish s) = stm_tx s"
  by (simp_all add: uart_finish_def Let_def) (simp add: report_overflow_def)

lemma stm_rx_fields [simp]:
  "stm_motor (stm_rx bs s) = stm_motor s" "stm_tx (stm_rx bs s) = stm_tx s"
  "stm_uart (stm_rx bs s) = uart_rx bs (stm_uart s)"
  by (simp_all add: stm_rx_def)

section \<open>Properties\<close>





text \<open>A \<^verbatim>\<open>motor<i> set <a>\<close> line received byte by byte on an idle receiver is, in one pass of the
  command processor, answered with one OK line carrying the current angles, and its set command is
  appended to the servo queue.\<close>

theorem serial_set_command:
  fixes now :: u32
  assumes "stm_reachable (Loop, s)" and "uart_cmds (stm_uart s) = []" and "uart_cmd_len (stm_uart s) = 0"
    and "\<not> uart_cmd_overflow (stm_uart s)" and "s_hi2c (stm_motor s)"
    and "s_set_queue_count (stm_motor s) < 8" and "i < 3" and "a \<le> 180"
  defines "t \<equiv> processUartCommand now (stm_rx (print_set i a @ [CHR 0x0A]) s)"
  shows "stm_tx t = stm_tx s @ [angles_text ''OK'' (stm_motor s)] \<and> uart_cmds (stm_uart t) = [] \<and>
    servo_queue (stm_motor t) =
      servo_queue (stm_motor s) @ [\<lparr> set_mask = push_bit i 1, set_angles = [0, 0, 0][i := int a] \<rparr>]"
proof -
  have inv: "uart_inv (stm_uart s)" and safe: "servo_safe (stm_motor s)"
    using stm_reachable_inv[OF assms(1)] by (simp_all add: stm_inv_def)
  let ?s = "stm_rx (print_set i a @ [CHR 0x0A]) s"
  note p = print_set_line[OF assms(7,8)]
  have e: "eol (CHR 0x0A)" by (simp add: eol_def)
  note l = rx_line[OF inv assms(3) p(2,3) e, unfolded p(1) assms(2)]
  have "uart_inv (stm_uart ?s)" and "uart_cmds (stm_uart ?s) = [print_set i a]"
    and ov: "\<not> uart_cmd_overflow (stm_uart ?s)"
    using l assms(4) by (simp_all add: stm_rx_def)
  from process_command[OF this(1,2), of now] obtain u where u: "uart_cmds u = []" "\<not> uart_cmd_overflow u"
    and t: "t = uart_finish (run_uart_command (print_set i a) now (?s\<lparr> stm_uart := u \<rparr>))"
    using ov unfolding t_def by metis
  show ?thesis
    using run_set[OF assms(7,8), of "?s\<lparr> stm_uart := u \<rparr>" now] safe assms(5,6) u by (simp add: t)
qed

theorem serial_set_command_witness:
  "let s = stm_boot (\<lambda>_ _. True) (\<lambda>_. False) stm_reset;
       t = processUartCommand 5 (stm_rx (''motor2 set 10'' @ [CHR 0x0A]) s)
   in stm_tx t = stm_tx s @ [''OK 90 90 90'' @ [CHR 0x0D, CHR 0x0A]] \<and>
      servo_queue (stm_motor t) = [\<lparr> set_mask = 2, set_angles = [0, 10, 0] \<rparr>]"
proof -
  let ?s = "stm_boot (\<lambda>_ _. True) (\<lambda>_. False) stm_reset"
  have r: "stm_reachable (Loop, ?s)" by (rule stm_reachable.boot)
  have f: "uart_cmds (stm_uart ?s) = []" "uart_cmd_len (stm_uart ?s) = 0" "\<not> uart_cmd_overflow (stm_uart ?s)"
    by (simp_all only: boot_uart not_False_eq_True)
  have m: "s_hi2c (stm_motor ?s)" "s_set_queue_count (stm_motor ?s) = 0" "servo_queue (stm_motor ?s) = []"
    and a: "s_angle (stm_motor ?s) = [90, 90, 90]"
    by (simp_all add: boot_fields stm_reset_def Motor_Init_def pca_write_def servo_reset_def motor_init_axis_def upt_3
        pca_set_pwm_def servo_queue_def)
  have p: "print_set (Suc 0) 10 = ''motor2 set 10''" and n: "show_nat 90 = ''90''"
    by code_simp+
  have "angles_text ''OK'' (stm_motor ?s) = ''OK 90 90 90'' @ [CHR 0x0D, CHR 0x0A]"
    by (simp add: angles_text_def Motor_GetAngle_def a show_int_def n)
  then show ?thesis
    using serial_set_command[OF r f m(1), of "Suc 0" 10 5] m unfolding p by (simp add: Let_def)
qed

text \<open>Every command taken from the queue is answered: by exactly one line, or by the eight lines of
  the help text. A motor command that was refused is answered with ERR and changes neither the servos
  nor the laser.\<close>

theorem every_command_answered:
  "(stm_tx (run_uart_command cmd now s) = stm_tx s @ help_lines \<or>
    (\<exists>r. stm_tx (run_uart_command cmd now s) = stm_tx s @ [r])) \<and>
   (stm_tx (run_uart_command cmd now s) = stm_tx s @ [''ERR'' @ [CHR 0x0D, CHR 0x0A]] \<longrightarrow>
      stm_motor (run_uart_command cmd now s) = stm_motor s \<and>
      stm_laser (run_uart_command cmd now s) = stm_laser s)"
  by (rule run_command_answered[unfolded answered_def])

theorem every_command_answered_witness:
  "stm_tx (run_uart_command ''foo'' 3 stm_reset) = [''ERR'' @ [CHR 0x0D, CHR 0x0A]] \<and>
   stm_motor (run_uart_command ''foo'' 3 stm_reset) = servo_reset"
proof -
  have "fst (Motor_ParseAndRun ''foo'' 3 servo_reset) = -1"
    by (simp add: Motor_ParseAndRun_def parse_setall_command_def skip_space_def sscanf_motor_def isspace_def)
  then have "stm_tx (run_uart_command ''foo'' 3 stm_reset) = stm_tx stm_reset @ [''ERR'' @ [CHR 0x0D, CHR 0x0A]]"
    by (cases "Motor_ParseAndRun ''foo'' 3 servo_reset") (simp add: run_uart_command_def stm_reset_def)
  with every_command_answered[of "''foo''" 3 stm_reset] show ?thesis
    by (simp add: stm_reset_def)
qed

text \<open>A dropped command is reported: when the overflow flag is up, the next pass of the command
  processor sends \<^verbatim>\<open>ERR overflow\<close> as its last line and takes the flag down.\<close>

theorem overflow_reported:
  assumes "uart_inv (stm_uart s)" and "uart_cmd_overflow (stm_uart s)"
  shows "last (stm_tx (processUartCommand now s)) = ''ERR overflow'' @ [CHR 0x0D, CHR 0x0A] \<and>
    \<not> uart_cmd_overflow (stm_uart (processUartCommand now s))"
proof (cases "uart_cmds (stm_uart s)")
  case Nil
  from assms(1) show ?thesis
    by (cases rule: fetch_cases) (use Nil assms(2) in \<open>auto simp: processUartCommand_def report_overflow_def\<close>)
next
  case (Cons c cs)
  then obtain u where "uart_cmd_overflow u"
    "processUartCommand now s = uart_finish (run_uart_command c now (s\<lparr> stm_uart := u \<rparr>))"
    using process_command[OF assms(1) Cons, of now] assms(2) by metis
  then show ?thesis by (simp add: uart_finish_def report_overflow_def Let_def)
qed

theorem overflow_reported_witness:
  "stm_tx (processUartCommand 0 (stm_reset\<lparr> stm_uart := uart_reset\<lparr> uart_cmd_overflow := True \<rparr> \<rparr>))
     = [''ERR overflow'' @ [CHR 0x0D, CHR 0x0A]]"
proof -
  let ?s = "stm_reset\<lparr> stm_uart := uart_reset\<lparr> uart_cmd_overflow := True \<rparr> \<rparr>"
  have "stm_tx (processUartCommand 0 ?s) = [last (stm_tx (processUartCommand 0 ?s))]"
    by (simp add: processUartCommand_def uart_fetch_def report_overflow_def uart_reset_def stm_reset_def)
  then show ?thesis
    using overflow_reported[of ?s 0] reset_uart_inv(1) by simp
qed

text \<open>A partially received line is lost when the main loop processes a queued command: the processor
  resets the line index at its end, so the bytes received before it are dropped and the rest of the
  line is queued as if it were a line of its own.\<close>

theorem partial_line_lost:
  assumes "uart_inv (stm_uart s)" and "uart_cmds (stm_uart s) = c # cs"
    and "list_all (\<lambda>c. \<not> eol c \<and> c \<noteq> NUL) rest" and "length rest \<le> 255" and "eol e"
  shows "uart_cmds (stm_uart (stm_rx (rest @ [e]) (processUartCommand now s))) = take 16 (cs @ line_commands rest)"
proof -
  from process_command[OF assms(1,2), of now] obtain u where u: "uart_inv u" "uart_cmds u = cs"
    and t: "processUartCommand now s = uart_finish (run_uart_command c now (s\<lparr> stm_uart := u \<rparr>))"
    by metis
  have "uart_inv (stm_uart (processUartCommand now s))"
    by (simp add: t uart_finish_def Let_def u(1) uart_inv_line)
  from rx_line(2)[OF this _ assms(3-5)] u(2) t show ?thesis by simp
qed

theorem partial_line_lost_witness:
  "let s = stm_rx (''ping'' @ [CHR 0x0A] @ ''rea'') (stm_boot (\<lambda>_ _. True) (\<lambda>_. False) stm_reset)
   in uart_cmds (stm_uart (stm_rx (''d'' @ [CHR 0x0A]) (processUartCommand 5 s))) = [''d''] \<and>
      uart_cmds (stm_uart (stm_rx (''d'' @ [CHR 0x0A]) s)) = [''ping'', ''read'']"
proof -
  let ?b = "stm_boot (\<lambda>_ _. True) (\<lambda>_. False) stm_reset"
  let ?p = "uart_rx (''ping'' @ [CHR 0x0A]) (stm_uart ?b)"
  let ?s = "stm_rx (''ping'' @ [CHR 0x0A] @ ''rea'') ?b"
  have b: "uart_inv (stm_uart ?b)" "uart_cmds (stm_uart ?b) = []" "uart_cmd_len (stm_uart ?b) = 0"
    by (simp_all only: boot_uart)
  have e: "eol (CHR 0x0A)" by (simp add: eol_def)
  have ls: "line_commands ''ping'' = [''ping'']" "line_commands ''read'' = [''read'']" "line_commands ''d'' = [''d'']"
    by code_simp+
  have p: "uart_inv ?p" "uart_cmds ?p = [''ping'']" "uart_cmd_len ?p = 0"
    using rx_line[OF b(1,3), of "''ping''", OF _ _ e] b(2) ls by (simp_all add: eol_def del: uart_rx_simps)
  have s: "stm_uart ?s = uart_rx ''rea'' ?p"
    by simp
  have q: "uart_inv (stm_uart ?s)" "uart_cmds (stm_uart ?s) = [''ping'']"
    using rx_chars[OF p(1), of "''rea''"] p(2,3) unfolding s by (simp_all add: eol_def del: uart_rx_simps)
  have "uart_cmds (stm_uart (stm_rx (''d'' @ [CHR 0x0A]) ?s)) = [''ping'', ''read'']"
    using rx_line(2)[OF p(1,3), of "''read''", OF _ _ e, unfolded p(2) ls] by (simp add: eol_def)
  with partial_line_lost[OF q, of "''d''" "CHR 0x0A" 5] e ls show ?thesis
    by (simp add: eol_def Let_def del: uart_rx_simps stm_rx_fields)
qed

text \<open>A line longer than the buffer is not skipped up to its end: its first 256 characters are dropped
  with the overflow flag raised, and what follows them on the same line is queued as commands.\<close>

theorem overlong_line_tail_queued:
  assumes "uart_inv s" and "uart_cmd_len s = 0" and "list_all (\<lambda>c. \<not> eol c) x" and "length x = 256"
    and "list_all (\<lambda>c. \<not> eol c \<and> c \<noteq> NUL) l" and "length l \<le> 255" and "eol e"
  shows "uart_cmds (uart_rx (x @ l @ [e]) s) = take 16 (uart_cmds s @ line_commands l) \<and>
    uart_cmd_overflow (uart_rx (x @ l @ [e]) s)"
proof -
  obtain y c where x: "x = y @ [c]" and y: "length y = 255"
    using assms(4) by (cases x rule: rev_cases) auto
  have c: "\<not> eol c" and yl: "list_all (\<lambda>c. \<not> eol c) y"
    using assms(3) by (simp_all add: x)
  note ry = rx_chars[OF assms(1) yl, unfolded assms(2), simplified, unfolded y, simplified]
  let ?u = "uart_rx y s"
  have u: "uart_rx x s = (uart_clear_line ?u)\<lparr> uart_cmd_overflow := True, uart_rx_armed := True \<rparr>"
    using rx_full[of ?u c] ry c by (simp add: x)
  have "uart_inv (uart_rx x s)" "uart_cmd_len (uart_rx x s) = 0" "uart_cmds (uart_rx x s) = uart_cmds s"
    "uart_cmd_overflow (uart_rx x s)"
    using ry by (simp_all add: u)
  with rx_line(2,4)[OF this(1,2) assms(5,6,7)] show ?thesis by simp
qed

theorem overlong_line_tail_queued_witness:
  "uart_cmds (uart_rx (replicate 256 (CHR ''x'') @ ''stopall'' @ [CHR 0x0A]) uart_reset) = [''stopall'']"
proof -
  have l: "line_commands ''stopall'' = [''stopall'']" by code_simp
  have x: "list_all (\<lambda>c. \<not> eol c) (replicate 256 (CHR ''x''))"
    by (simp add: list_all_iff eol_def)
  show ?thesis
    using overlong_line_tail_queued[OF reset_uart_inv(1) _ x, of "''stopall''" "CHR 0x0A"] reset_uart_inv(2)
    by (simp add: l uart_reset_def eol_def)
qed

end
