(* ===== verification/TeensySend.thy ===== *)
theory TeensySend imports FwPrelude begin

text \<open>
  The sending half of the Teensy node (TeensyC/src/main.c): a frame of 19200 16-bit pixels
  is cut into 159 SPI packets of 256 bytes. The packet buffer is written field by field as
  in the code. The answer of \<^verbatim>\<open>spi_write\<close> for each packet is an input; packets handed to the
  driver are collected in order.
\<close>

abbreviation (input) LEP_FRAME_SIZE :: nat where "LEP_FRAME_SIZE \<equiv> 19200"
abbreviation (input) LEP_FRAME_BYTES :: nat where "LEP_FRAME_BYTES \<equiv> 38400"

text \<open>The bytes of a pixel array in memory: the Cortex-M7 is little-endian.\<close>

definition le_bytes :: "u16 list \<Rightarrow> bytes" where
  "le_bytes xs = concat (map (\<lambda>v. [ucast v, ucast (drop_bit 8 v)]) xs)"

definition frameChecksum :: "bytes \<Rightarrow> nat \<Rightarrow> u16" where
  "frameChecksum data len = ucast (foldl (\<lambda>sum b. sum + ucast b) (0 :: u32) (take len data) AND 0xFFFF)"

definition frameWriteU16Be :: "nat \<Rightarrow> u16 \<Rightarrow> bytes \<Rightarrow> bytes" where
  "frameWriteU16Be dst value buf =
     buf[dst := ucast (drop_bit 8 value AND 0xFF), dst + 1 := ucast (value AND 0xFF)]"

definition frame_total_chunks :: u16 where
  "frame_total_chunks = of_nat ((LEP_FRAME_BYTES + 242 - 1) div 242)"

definition chunk_payload_len :: "nat \<Rightarrow> nat" where
  "chunk_payload_len chunk_idx =
     (let offset = chunk_idx * 242
      in if LEP_FRAME_BYTES - offset > 242 then 242 else LEP_FRAME_BYTES - offset)"

text \<open>Lines 273-283: the packet of one chunk.\<close>

definition frame_packet_bytes :: "bytes \<Rightarrow> u16 \<Rightarrow> nat \<Rightarrow> bytes" where
  "frame_packet_bytes frame_bytes frame_id chunk_idx =
     (let offset = chunk_idx * 242;
          payload_len = chunk_payload_len chunk_idx;
          p = replicate 256 0;
          p = p[0 := 0x54, 1 := 0x45, 2 := 0x53, 3 := 0x54];
          p = frameWriteU16Be 4 frame_id p;
          p = frameWriteU16Be 6 (of_nat chunk_idx) p;
          p = frameWriteU16Be 8 frame_total_chunks p;
          p = frameWriteU16Be 10 (of_nat payload_len) p;
          p = memcpy_at p 14 (take payload_len (drop offset frame_bytes))
      in frameWriteU16Be 12 (frameChecksum (drop 14 p) payload_len) p)"

text \<open>The loop over the chunks: the result code and the packets sent.\<close>

fun send_chunks :: "(nat \<Rightarrow> bool) \<Rightarrow> bytes \<Rightarrow> u16 \<Rightarrow> nat list \<Rightarrow> int \<times> bytes list" where
  "send_chunks spi_ok frame_bytes frame_id [] = (0, [])"
| "send_chunks spi_ok frame_bytes frame_id (c # cs) =
     (if \<not> spi_ok c then (-1, [])
      else case send_chunks spi_ok frame_bytes frame_id cs of
        (r, ps) \<Rightarrow> (r, frame_packet_bytes frame_bytes frame_id c # ps))"

definition sendFrameOverSpi :: "bool \<Rightarrow> (nat \<Rightarrow> bool) \<Rightarrow> u16 list \<Rightarrow> u16 \<Rightarrow> int \<times> bytes list" where
  "sendFrameOverSpi frame_spi_ready spi_ok frame_data frame_id =
     (if \<not> frame_spi_ready then (-1, [])
      else send_chunks spi_ok (le_bytes frame_data) frame_id [0..<unat frame_total_chunks])"

section \<open>Shape of the packets\<close>

lemma total_chunks_value [simp]: "unat frame_total_chunks = 159"
  by (simp add: frame_total_chunks_def)

lemma chunk_len_bounds:
  shows "chunk_payload_len c \<le> 242" and "c < 159 \<Longrightarrow> c * 242 + chunk_payload_len c \<le> LEP_FRAME_BYTES"
proof -
  have "chunk_payload_len c = min 242 (LEP_FRAME_BYTES - c * 242)"
    by (simp add: chunk_payload_len_def Let_def)
  then show "chunk_payload_len c \<le> 242" and "c < 159 \<Longrightarrow> c * 242 + chunk_payload_len c \<le> LEP_FRAME_BYTES"
    by linarith+
qed

lemma chunk_len_values: "c < 158 \<Longrightarrow> chunk_payload_len c = 242" "chunk_payload_len 158 = 164"
  by (simp_all add: chunk_payload_len_def Let_def)

lemma length_le_bytes [simp]: "length (le_bytes xs) = 2 * length xs"
  by (induction xs) (simp_all add: le_bytes_def)

lemma length_frameWrite [simp]: "length (frameWriteU16Be i v buf) = length buf"
  by (simp add: frameWriteU16Be_def)

lemma drop_frameWrite: "i + 1 < k \<Longrightarrow> drop k (frameWriteU16Be i v buf) = drop k buf"
  by (simp add: frameWriteU16Be_def drop_update_cancel)

lemma nth_frameWrite:
  "i + 1 < length buf \<Longrightarrow> frameWriteU16Be i v buf ! j =
     (if j = i + 1 then be16_lo v else if j = i then be16_hi v else buf ! j)"
  by (simp add: frameWriteU16Be_def be16_hi_def be16_lo_def nth_list_update)

end
