(* ===== verification/FrameLink.thy ===== *)
theory FrameLink imports RingFifo begin

text \<open>
  The frame link of the ESP32 (device/frame_link.c): 256-byte SPI packets are assembled
  into 38400-byte frames in a ring of up to three buffers, from which the network tasks
  take them. The shared static variables are the record \<open>link\<close>, the local variables of
  the receiving task the record \<open>link_task\<close>. The driver's answers are inputs: what
  \<^verbatim>\<open>spi_slave_transmit\<close> returned, the ticks, and whether the mutex was obtained within its
  20 ms timeout.
\<close>

abbreviation (input) FRAME_BYTES :: nat where "FRAME_BYTES \<equiv> 38400"
abbreviation (input) NUM_BUFFERS :: nat where "NUM_BUFFERS \<equiv> 3"
abbreviation (input) FRAME_SPI_PKT_SIZE :: nat where "FRAME_SPI_PKT_SIZE \<equiv> 256"
abbreviation (input) FRAME_SPI_HEADER_SIZE :: nat where "FRAME_SPI_HEADER_SIZE \<equiv> 14"
abbreviation (input) FRAME_SPI_PAYLOAD_SIZE :: nat where "FRAME_SPI_PAYLOAD_SIZE \<equiv> 242"

section \<open>State\<close>

record link_counters =
  total_packets :: u32
  completed_frames :: u32
  spi_timeouts :: u32
  spi_errors :: u32
  bad_magic :: u32
  bad_checksum :: u32
  bad_payload_len :: u32
  seq_errors :: u32
  queue_full_drops :: u32
  stale_frame_drops :: u32

definition zero_counters :: link_counters where
  "zero_counters = \<lparr> total_packets = 0, completed_frames = 0, spi_timeouts = 0, spi_errors = 0,
     bad_magic = 0, bad_checksum = 0, bad_payload_len = 0, seq_errors = 0,
     queue_full_drops = 0, stale_frame_drops = 0 \<rparr>"

text \<open>What the task prints.\<close>

datatype link_msg =
    SummaryMsg link_counters nat
  | IdleMsg
  | SpiFailedMsg
  | AllocFailedMsg
  | MutexFailedMsg
  | InitOkMsg nat

text \<open>\<open>frame_bufs\<close> lists the buffers that were allocated.\<close>

record link =
  frame_bufs :: "bytes list"
  frame_ids :: "u16 list"
  allocated_buffers :: nat
  frame_ready :: nat
  write_idx :: nat
  read_idx :: int
  frame_mutex :: bool
  rx_buf_ok :: bool
  tx_buf_ok :: bool
  counters :: link_counters
  waiting_logged :: bool
  link_out :: "link_msg list"

record link_task =
  assembly_active :: bool
  expected_frame_id :: u16
  expected_chunk_idx :: u16
  expected_total_chunks :: u16
  assembled_bytes :: u32
  target_idx :: nat
  last_summary_tick :: u32
  last_summary :: link_counters

definition link_reset :: link where
  "link_reset = \<lparr> frame_bufs = [], frame_ids = [0, 0, 0], allocated_buffers = 0, frame_ready = 0,
     write_idx = 0, read_idx = -1, frame_mutex = False, rx_buf_ok = False, tx_buf_ok = False,
     counters = zero_counters, waiting_logged = False, link_out = [] \<rparr>"

definition link_task_start :: "u32 \<Rightarrow> link_task" where
  "link_task_start now = \<lparr> assembly_active = False, expected_frame_id = 0, expected_chunk_idx = 0,
     expected_total_chunks = 0, assembled_bytes = 0, target_idx = 0,
     last_summary_tick = now, last_summary = zero_counters \<rparr>"

definition link_print :: "link_msg \<Rightarrow> link \<Rightarrow> link" where
  "link_print m l = l\<lparr> link_out := link_out l @ [m] \<rparr>"

definition logFrameLinkSummary :: "link \<Rightarrow> link" where
  "logFrameLinkSummary l = link_print (SummaryMsg (counters l) (frame_ready l)) l"

section \<open>Packets\<close>

definition calcChecksum :: "bytes \<Rightarrow> nat \<Rightarrow> u16" where
  "calcChecksum data len = ucast (foldl (\<lambda>sum b. sum + ucast b) (0 :: u32) (take len data) AND 0xFFFF)"

definition readU16Be :: "bytes \<Rightarrow> nat \<Rightarrow> u16" where
  "readU16Be buf off = push_bit 8 (ucast (buf ! off)) OR ucast (buf ! (off + 1))"

definition pkt_magic_ok :: "bytes \<Rightarrow> bool" where
  "pkt_magic_ok rx \<longleftrightarrow> \<not> (rx ! 0 \<noteq> 0x54 \<or> rx ! 1 \<noteq> 0x45 \<or> rx ! 2 \<noteq> 0x53 \<or> rx ! 3 \<noteq> 0x54)"

definition pkt_frame_id :: "bytes \<Rightarrow> u16" where "pkt_frame_id rx = readU16Be rx 4"
definition pkt_chunk_idx :: "bytes \<Rightarrow> u16" where "pkt_chunk_idx rx = readU16Be rx 6"
definition pkt_total_chunks :: "bytes \<Rightarrow> u16" where "pkt_total_chunks rx = readU16Be rx 8"
definition pkt_payload_len :: "bytes \<Rightarrow> nat" where "pkt_payload_len rx = unat (readU16Be rx 10)"
definition pkt_checksum :: "bytes \<Rightarrow> u16" where "pkt_checksum rx = readU16Be rx 12"

text \<open>The payload bytes the packet announces; the length has been checked when it is used.\<close>

definition pkt_payload :: "bytes \<Rightarrow> bytes" where
  "pkt_payload rx = take (pkt_payload_len rx) (drop FRAME_SPI_HEADER_SIZE rx)"

section \<open>The ring of frames\<close>

definition queueIsFull :: "bool \<Rightarrow> link \<Rightarrow> bool" where
  "queueIsFull lock l =
     (if frame_mutex l \<and> lock then frame_ready l \<ge> allocated_buffers l \<and> allocated_buffers l > 0
      else False)"

definition drop_stale :: "link \<Rightarrow> link" where
  "drop_stale l =
     (let dropped_count = frame_ready l - 1
      in l\<lparr> read_idx := (read_idx l + int dropped_count) mod int (allocated_buffers l),
            counters := (counters l)\<lparr> stale_frame_drops := stale_frame_drops (counters l) + of_nat dropped_count \<rparr>,
            frame_ready := 1 \<rparr>)"

definition frameLinkAcquireReadyFrame :: "bool \<Rightarrow> bool \<Rightarrow> link \<Rightarrow> (bytes \<times> u16 \<times> int) option \<times> link" where
  "frameLinkAcquireReadyFrame lock drop_stale_frames l =
     (if frame_mutex l \<and> lock \<and> frame_ready l > 0 \<and> read_idx l \<ge> 0 \<and> read_idx l < int (allocated_buffers l) then
        let l = (if drop_stale_frames \<and> allocated_buffers l > 0 \<and> frame_ready l > 1 then drop_stale l else l)
        in (Some (frame_bufs l ! nat (read_idx l), frame_ids l ! nat (read_idx l), read_idx l), l)
      else (None, l))"

definition frameLinkReleaseReadyFrame :: "bool \<Rightarrow> int \<Rightarrow> link \<Rightarrow> link" where
  "frameLinkReleaseReadyFrame lock buffer_idx l =
     (if \<not> frame_mutex l \<or> buffer_idx < 0 then l
      else if lock \<and> frame_ready l > 0 \<and> read_idx l = buffer_idx \<and> allocated_buffers l > 0 then
        let l = l\<lparr> frame_ready := frame_ready l - 1 \<rparr>
        in if frame_ready l > 0 then l\<lparr> read_idx := (read_idx l + 1) mod int (allocated_buffers l) \<rparr>
           else l\<lparr> read_idx := -1 \<rparr>
      else l)"

definition frameLinkGetStats :: "link \<Rightarrow> link_counters \<times> nat" where
  "frameLinkGetStats l = (counters l, frame_ready l)"

section \<open>Initialisation\<close>

text \<open>\<open>mallocs\<close> are the answers of the three allocations: the content of the buffer, or failure.\<close>

fun alloc_frames :: "bytes option list \<Rightarrow> link \<Rightarrow> link" where
  "alloc_frames [] l = l"
| "alloc_frames (None # ms) l = l"
| "alloc_frames (Some b # ms) l =
     alloc_frames ms (l\<lparr> frame_bufs := frame_bufs l @ [b], allocated_buffers := allocated_buffers l + 1 \<rparr>)"

definition frameLinkInit :: "bytes option list \<Rightarrow> bool \<Rightarrow> bool \<Rightarrow> bool \<Rightarrow> link \<Rightarrow> link" where
  "frameLinkInit mallocs rx tx mutex_ok l =
     (let l = (alloc_frames (take NUM_BUFFERS mallocs) l)\<lparr> rx_buf_ok := rx, tx_buf_ok := tx \<rparr>
      in if allocated_buffers l = 0 \<or> \<not> rx \<or> \<not> tx then link_print AllocFailedMsg l
      else let l = l\<lparr> frame_mutex := mutex_ok \<rparr>
        in if \<not> mutex_ok then link_print MutexFailedMsg l
           else link_print (InitOkMsg (allocated_buffers l)) l)"

section \<open>The receiving task\<close>

definition drop_assembly :: "link_task \<Rightarrow> link_task" where
  "drop_assembly t = t\<lparr> assembly_active := False, expected_chunk_idx := 0 \<rparr>"

text \<open>Lines 260-305: a transaction that failed.\<close>

definition idle_so_far :: "link_counters \<Rightarrow> bool" where
  "idle_so_far c \<longleftrightarrow> total_packets c = 0 \<and> spi_errors c = 0 \<and> bad_magic c = 0 \<and> bad_checksum c = 0 \<and>
     bad_payload_len c = 0 \<and> seq_errors c = 0 \<and> queue_full_drops c = 0 \<and> stale_frame_drops c = 0"

definition summary_if_changed :: "link \<Rightarrow> link_task \<Rightarrow> link \<times> link_task" where
  "summary_if_changed l t =
     (if counters l \<noteq> last_summary t then (logFrameLinkSummary l, t\<lparr> last_summary := counters l \<rparr>) else (l, t))"

definition frame_spi_failed :: "bool \<Rightarrow> u32 \<Rightarrow> u32 \<Rightarrow> link \<Rightarrow> link_task \<Rightarrow> link \<times> link_task" where
  "frame_spi_failed timeout now now2 l t =
     (let c = counters l;
          l = (if timeout then l\<lparr> counters := c\<lparr> spi_timeouts := spi_timeouts c + 1 \<rparr> \<rparr>
               else link_print SpiFailedMsg (l\<lparr> counters := c\<lparr> spi_errors := spi_errors c + 1 \<rparr> \<rparr>))
      in if now - last_summary_tick t \<ge> pdMS_TO_TICKS 2000 then
           let (l, t) = (if idle_so_far (counters l) then
                (if \<not> waiting_logged l then ((link_print IdleMsg l)\<lparr> waiting_logged := True \<rparr>, t) else (l, t))
              else summary_if_changed l t)
           in (l, t\<lparr> last_summary_tick := now2 \<rparr>)
         else (l, t))"

text \<open>Lines 341-355: the first chunk of a frame. \<open>None\<close> is the drop on a full ring.\<close>

definition frame_begin :: "bool \<Rightarrow> bytes \<Rightarrow> link \<Rightarrow> link_task \<Rightarrow> link_task option" where
  "frame_begin lock rx l t =
     (if pkt_chunk_idx rx = 0 then
        (if queueIsFull lock l then None
         else Some (t\<lparr> target_idx := write_idx l, expected_frame_id := pkt_frame_id rx,
           expected_total_chunks := pkt_total_chunks rx, expected_chunk_idx := 0,
           assembled_bytes := 0, assembly_active := True \<rparr>))
      else Some t)"

definition in_sequence :: "bytes \<Rightarrow> link_task \<Rightarrow> bool" where
  "in_sequence rx t \<longleftrightarrow> \<not> (\<not> assembly_active t \<or> pkt_frame_id rx \<noteq> expected_frame_id t \<or>
     pkt_chunk_idx rx \<noteq> expected_chunk_idx t \<or> pkt_total_chunks rx \<noteq> expected_total_chunks t)"

text \<open>Lines 382-393: publication of the assembled frame.\<close>

definition frame_publish :: "u16 \<Rightarrow> nat \<Rightarrow> link \<Rightarrow> link" where
  "frame_publish fid target l =
     (let c = counters l;
          l = l\<lparr> frame_ids := (frame_ids l)[target := fid],
                 counters := c\<lparr> completed_frames := completed_frames c + 1 \<rparr> \<rparr>;
          l = (if frame_ready l = 0 then l\<lparr> read_idx := int target \<rparr> else l);
          l = (if frame_ready l < allocated_buffers l then l\<lparr> frame_ready := frame_ready l + 1 \<rparr> else l)
      in l\<lparr> write_idx := (target + 1) mod allocated_buffers l \<rparr>)"

text \<open>Lines 375-400: the chunk is copied and, when it is the last one, the frame published.\<close>

definition frame_store :: "bool \<Rightarrow> bytes \<Rightarrow> link \<Rightarrow> link_task \<Rightarrow> link \<times> link_task" where
  "frame_store lock rx l t =
     (let offset = unat (pkt_chunk_idx rx) * FRAME_SPI_PAYLOAD_SIZE;
          l = l\<lparr> frame_bufs := (frame_bufs l)[target_idx t :=
                   memcpy_at (frame_bufs l ! target_idx t) offset (pkt_payload rx)] \<rparr>;
          t = t\<lparr> assembled_bytes := assembled_bytes t + of_nat (pkt_payload_len rx),
                 expected_chunk_idx := expected_chunk_idx t + 1 \<rparr>
      in if expected_chunk_idx t \<ge> expected_total_chunks t then
           ((if assembled_bytes t = of_nat FRAME_BYTES \<and> lock
             then frame_publish (expected_frame_id t) (target_idx t) l else l), drop_assembly t)
         else (l, t))"

definition count_bad :: "(link_counters \<Rightarrow> link_counters) \<Rightarrow> link \<Rightarrow> link" where
  "count_bad f l = l\<lparr> counters := f (counters l) \<rparr>"

text \<open>Lines 307-400: one received packet. The boolean tells whether the summary code is reached.\<close>

definition frame_packet :: "bool \<Rightarrow> bool \<Rightarrow> bytes \<Rightarrow> link \<Rightarrow> link_task \<Rightarrow> bool \<times> link \<times> link_task" where
  "frame_packet lock1 lock2 rx l t =
     (let c = counters l;
          l = l\<lparr> counters := c\<lparr> total_packets := total_packets c + 1 \<rparr>, waiting_logged := False \<rparr>
      in if \<not> pkt_magic_ok rx then
           (False, count_bad (\<lambda>c. c\<lparr> bad_magic := bad_magic c + 1 \<rparr>) l, drop_assembly t)
      else if pkt_payload_len rx > FRAME_SPI_PAYLOAD_SIZE then
           (False, count_bad (\<lambda>c. c\<lparr> bad_payload_len := bad_payload_len c + 1 \<rparr>) l, drop_assembly t)
      else if calcChecksum (drop FRAME_SPI_HEADER_SIZE rx) (pkt_payload_len rx) \<noteq> pkt_checksum rx then
           (False, count_bad (\<lambda>c. c\<lparr> bad_checksum := bad_checksum c + 1 \<rparr>) l, drop_assembly t)
      else case frame_begin lock1 rx l t of
        None \<Rightarrow> (False, count_bad (\<lambda>c. c\<lparr> queue_full_drops := queue_full_drops c + 1 \<rparr>) l, drop_assembly t)
      | Some t \<Rightarrow>
          if \<not> in_sequence rx t then
            (False, count_bad (\<lambda>c. c\<lparr> seq_errors := seq_errors c + 1 \<rparr>) l, drop_assembly t)
          else if unat (pkt_chunk_idx rx) * FRAME_SPI_PAYLOAD_SIZE + pkt_payload_len rx > FRAME_BYTES then
            (False, count_bad (\<lambda>c. c\<lparr> bad_payload_len := bad_payload_len c + 1 \<rparr>) l, drop_assembly t)
          else (True, frame_store lock2 rx l t))"

datatype spi_result = SpiOk bytes | SpiTimeout | SpiError

text \<open>One round of the task's loop; \<open>now\<close> and \<open>now2\<close> are the two reads of the tick.\<close>

definition frameLinkTask :: "spi_result \<Rightarrow> bool \<Rightarrow> bool \<Rightarrow> u32 \<Rightarrow> u32 \<Rightarrow> link \<Rightarrow> link_task \<Rightarrow> link \<times> link_task" where
  "frameLinkTask res lock1 lock2 now now2 l t =
     (if allocated_buffers l = 0 \<or> \<not> rx_buf_ok l \<or> \<not> tx_buf_ok l then (l, t)
      else case res of
        SpiTimeout \<Rightarrow> frame_spi_failed True now now2 l t
      | SpiError \<Rightarrow> frame_spi_failed False now now2 l t
      | SpiOk rx \<Rightarrow>
          (case frame_packet lock1 lock2 rx l t of (stored, l, t) \<Rightarrow>
             if stored \<and> now - last_summary_tick t \<ge> pdMS_TO_TICKS 2000 then
               let (l, t) = summary_if_changed l t in (l, t\<lparr> last_summary_tick := now2 \<rparr>)
             else (l, t)))"

end
