(* ===== verification/FrameLinkInv.thy ===== *)
theory FrameLinkInv imports FrameLink begin

text \<open>
  The two-task system of the frame link: the receiving task and one consumer that acquires
  and releases frames, interleaved in any order. The invariant says which slots the tasks
  own; the payloads received since the first chunk of the frame under assembly are kept as
  a history variable.
\<close>

section \<open>Contents of the ring\<close>

definition link_frames :: "link \<Rightarrow> (u16 \<times> bytes) list" where
  "link_frames l = ring_list (zip (frame_ids l) (frame_bufs l)) (nat (read_idx l)) (frame_ready l)"

definition link_ring :: "link \<Rightarrow> bool" where
  "link_ring l \<longleftrightarrow> length (frame_bufs l) = allocated_buffers l \<and> length (frame_ids l) = 3 \<and>
     0 < allocated_buffers l \<and> allocated_buffers l \<le> 3 \<and>
     list_all (\<lambda>b. length b = FRAME_BYTES) (frame_bufs l) \<and>
     frame_ready l \<le> allocated_buffers l \<and> write_idx l < allocated_buffers l \<and>
     (if frame_ready l = 0 then read_idx l = -1
      else 0 \<le> read_idx l \<and> read_idx l < int (allocated_buffers l) \<and>
        write_idx l = (nat (read_idx l) + frame_ready l) mod allocated_buffers l)"

text \<open>The payloads of the current frame and what they left in the buffer.\<close>

definition chunks_at :: "bytes \<Rightarrow> bytes list \<Rightarrow> bool" where
  "chunks_at buf ps \<longleftrightarrow>
     (\<forall>k<length ps. length (ps ! k) \<le> 242 \<and> 242 * k + length (ps ! k) \<le> FRAME_BYTES \<and>
        take (length (ps ! k)) (drop (242 * k) buf) = ps ! k)"

definition assembling :: "link \<Rightarrow> link_task \<Rightarrow> bytes list \<Rightarrow> bool" where
  "assembling l t ps \<longleftrightarrow> (assembly_active t \<longrightarrow>
     target_idx t = write_idx l \<and> frame_ready l < allocated_buffers l \<and>
     length ps = unat (expected_chunk_idx t) \<and> length ps \<le> 159 \<and>
     unat (assembled_bytes t) = sum_list (map length ps) \<and>
     chunks_at (frame_bufs l ! target_idx t) ps)"

text \<open>The frame a consumer holds is the oldest of the ring, with the content it was given.\<close>

definition held_ok :: "link \<Rightarrow> (bytes \<times> u16 \<times> int) option \<Rightarrow> bool" where
  "held_ok l h \<longleftrightarrow> (case h of None \<Rightarrow> True | Some (b, i, k) \<Rightarrow>
     frame_ready l > 0 \<and> read_idx l = k \<and> hd (link_frames l) = (i, b))"

section \<open>Ring lemmas\<close>

lemma link_zip_length: "link_ring l \<Longrightarrow> length (zip (frame_ids l) (frame_bufs l)) = allocated_buffers l"
  by (simp add: link_ring_def)

lemma length_link_frames [simp]: "length (link_frames l) = frame_ready l"
  by (simp add: link_frames_def)

lemma link_frames_frame [simp]:
  "link_frames (l\<lparr> counters := c \<rparr>) = link_frames l"
  "link_frames (l\<lparr> waiting_logged := b \<rparr>) = link_frames l"
  "link_frames (l\<lparr> link_out := ms \<rparr>) = link_frames l"
  "link_ring (l\<lparr> counters := c \<rparr>) = link_ring l"
  "link_ring (l\<lparr> waiting_logged := b \<rparr>) = link_ring l"
  "link_ring (l\<lparr> link_out := ms \<rparr>) = link_ring l"
  by (simp_all add: link_frames_def link_ring_def)

text \<open>The slot under assembly is not one of the ready frames.\<close>

lemma target_free:
  assumes "link_ring l" and "frame_ready l < allocated_buffers l" and "k < frame_ready l"
  shows "(nat (read_idx l) + k) mod allocated_buffers l \<noteq> write_idx l"
proof
  assume "(nat (read_idx l) + k) mod allocated_buffers l = write_idx l"
  moreover have "write_idx l = (nat (read_idx l) + frame_ready l) mod allocated_buffers l"
    using assms(1,3) by (simp add: link_ring_def split: if_splits)
  ultimately have "k = frame_ready l"
    using assms(2,3) by (intro mod_add_inj[of k "allocated_buffers l" "frame_ready l" "nat (read_idx l)"]) simp_all
  with assms(3) show False by simp
qed

lemma zip_update_snd: "i < length xs \<Longrightarrow> zip xs (ys[i := y]) = (zip xs ys)[i := (xs ! i, y)]"
  by (metis list_update_id zip_update)

lemma write_target:
  fixes b :: bytes
  assumes "link_ring l" and "frame_ready l < allocated_buffers l" and "length b = FRAME_BYTES"
  defines "m \<equiv> l\<lparr> frame_bufs := (frame_bufs l)[write_idx l := b] \<rparr>"
  shows "link_ring m" and "link_frames m = link_frames l"
proof -
  show "link_ring m"
    using assms(1,3) by (auto simp: link_ring_def m_def intro: list_all_update)
  have "write_idx l < length (frame_ids l)"
    using assms(1) by (simp add: link_ring_def)
  then show "link_frames m = link_frames l"
    using target_free[OF assms(1,2)] link_zip_length[OF assms(1)]
    by (simp add: link_frames_def m_def zip_update_snd ring_list_update_other)
qed

text \<open>Publishing the slot under assembly appends it to the ring.\<close>

lemma publish_ring:
  fixes i :: u16
  assumes "link_ring l" and "frame_ready l < allocated_buffers l"
  defines "m \<equiv> frame_publish i (write_idx l) l"
  shows "link_ring m" and "link_frames m = link_frames l @ [(i, frame_bufs l ! write_idx l)]"
    and "frame_ready m = Suc (frame_ready l)" and "0 < frame_ready l \<Longrightarrow> read_idx m = read_idx l"
    and "counters m = (counters l)\<lparr> completed_frames := completed_frames (counters l) + 1 \<rparr>"
proof -
  let ?A = "allocated_buffers l" and ?w = "write_idx l"
  have fields: "frame_ready m = Suc (frame_ready l)" "frame_bufs m = frame_bufs l"
    "frame_ids m = (frame_ids l)[?w := i]" "allocated_buffers m = ?A" "write_idx m = Suc ?w mod ?A"
    "read_idx m = (if frame_ready l = 0 then int ?w else read_idx l)"
    "counters m = (counters l)\<lparr> completed_frames := completed_frames (counters l) + 1 \<rparr>"
    using assms(2) by (simp_all add: m_def frame_publish_def Let_def)
  have w: "?w < ?A" "?w < length (frame_ids l)" "?w < length (frame_bufs l)"
    using assms(1) by (simp_all add: link_ring_def)
  have wm: "?w = (nat (read_idx m) + frame_ready l) mod ?A"
    using assms(1) w(1) by (simp add: link_ring_def fields split: if_splits)
  then have "Suc ?w mod ?A = (nat (read_idx m) + Suc (frame_ready l)) mod ?A"
    by (simp add: mod_Suc_eq)
  then show "link_ring m"
    using assms(1,2) w(1) unfolding link_ring_def fields by (simp split: if_splits)
  have z: "zip (frame_ids m) (frame_bufs m) = (zip (frame_ids l) (frame_bufs l))[?w := (i, frame_bufs l ! ?w)]"
    using w by (simp add: fields) (metis list_update_id zip_update)
  have "ring_list (zip (frame_ids l) (frame_bufs l)) (nat (read_idx m)) (frame_ready l) = link_frames l"
    by (cases "frame_ready l = 0") (simp_all add: link_frames_def fields)
  then show "link_frames m = link_frames l @ [(i, frame_bufs l ! ?w)]"
    unfolding link_frames_def[of m] fields(1) z
    using ring_push[of "frame_ready l" "zip (frame_ids l) (frame_bufs l)" ?w "nat (read_idx m)",
        unfolded link_zip_length[OF assms(1)], OF assms(2) wm] by simp
  show "frame_ready m = Suc (frame_ready l)" "0 < frame_ready l \<Longrightarrow> read_idx m = read_idx l"
    "counters m = (counters l)\<lparr> completed_frames := completed_frames (counters l) + 1 \<rparr>"
    by (simp_all add: fields)
qed

text \<open>Dropping the stale frames leaves the newest one.\<close>

lemma drop_stale_ring:
  assumes "link_ring l" and "1 < frame_ready l"
  shows "link_ring (drop_stale l)" and "link_frames (drop_stale l) = [last (link_frames l)]"
    and "frame_ready (drop_stale l) = 1"
proof -
  let ?A = "allocated_buffers l" and ?r = "nat (read_idx l)"
  obtain n where n: "frame_ready l = Suc n" using assms(2) by (cases "frame_ready l") auto
  have r: "0 \<le> read_idx l" "read_idx l < int ?A" "write_idx l = (?r + Suc n) mod ?A" "Suc n \<le> ?A"
    using assms n by (auto simp: link_ring_def split: if_splits)
  have f: "read_idx (drop_stale l) = (read_idx l + int n) mod int ?A" "frame_ready (drop_stale l) = 1"
    "frame_bufs (drop_stale l) = frame_bufs l" "frame_ids (drop_stale l) = frame_ids l"
    "allocated_buffers (drop_stale l) = ?A" "write_idx (drop_stale l) = write_idx l"
    by (simp_all add: drop_stale_def Let_def n)
  have nr: "nat ((read_idx l + int n) mod int ?A) = (?r + n) mod ?A"
    using r(1) by (simp add: nat_mod_distrib nat_add_distrib)
  have "write_idx l = ((?r + n) mod ?A + 1) mod ?A"
    by (simp add: r(3) mod_Suc_eq)
  then show "link_ring (drop_stale l)"
    using assms(1) r(2,4) unfolding link_ring_def f nr by simp
  show "frame_ready (drop_stale l) = 1" by (rule f(2))
  have z: "length (zip (frame_ids l) (frame_bufs l)) = ?A"
    using assms(1) by (rule link_zip_length)
  have "link_frames (drop_stale l) = [zip (frame_ids l) (frame_bufs l) ! ((?r + n) mod ?A)]"
    unfolding link_frames_def f nr ring_list_def z by simp
  moreover have "last (link_frames l) = zip (frame_ids l) (frame_bufs l) ! ((?r + n) mod ?A)"
    unfolding link_frames_def n ring_list_def z by simp
  ultimately show "link_frames (drop_stale l) = [last (link_frames l)]" by simp
qed

lemma link_hd:
  assumes "link_ring l" and "0 < frame_ready l"
  shows "hd (link_frames l) = (frame_ids l ! nat (read_idx l), frame_bufs l ! nat (read_idx l))"
    and "0 \<le> read_idx l" and "read_idx l < int (allocated_buffers l)" and "link_frames l \<noteq> []"
proof -
  show r: "0 \<le> read_idx l" "read_idx l < int (allocated_buffers l)"
    using assms by (auto simp: link_ring_def split: if_splits)
  show "link_frames l \<noteq> []"
    using assms(2) by (metis length_link_frames list.size(3) less_not_refl)
  moreover have "nat (read_idx l) < length (frame_ids l)" "nat (read_idx l) < length (frame_bufs l)"
    using r assms(1) by (auto simp: link_ring_def)
  ultimately show "hd (link_frames l) = (frame_ids l ! nat (read_idx l), frame_bufs l ! nat (read_idx l))"
    using assms r link_zip_length[OF assms(1)]
    by (simp add: hd_conv_nth link_frames_def nth_ring_list)
qed

text \<open>Releasing the oldest frame removes it.\<close>

lemma release_ring:
  fixes k :: int and lock :: bool
  assumes "link_ring l"
  defines "m \<equiv> frameLinkReleaseReadyFrame lock k l"
  shows "link_ring m" and "link_frames m =
      (if frame_mutex l \<and> lock \<and> frame_ready l > 0 \<and> read_idx l = k then tl (link_frames l) else link_frames l)"
proof -
  let ?A = "allocated_buffers l" and ?n = "frame_ready l" and ?r = "nat (read_idx l)"
  have "link_ring m \<and> link_frames m = tl (link_frames l)"
    if c: "frame_mutex l \<and> lock \<and> ?n > 0 \<and> read_idx l = k"
  proof -
    have r: "0 \<le> read_idx l" "read_idx l < int ?A" "write_idx l = (?r + ?n) mod ?A" "?n \<le> ?A"
      using assms(1) c by (auto simp: link_ring_def split: if_splits)
    obtain n where n: "?n = Suc n" using c by (cases ?n) auto
    have nr: "nat ((read_idx l + 1) mod int ?A) = ring_succ ?A ?r"
      using r by (simp add: nat_mod_distrib nat_add_distrib ring_succ_mod)
    have "(ring_succ ?A ?r + n) mod ?A = (?r + ?n) mod ?A"
      using r by (simp add: n ring_succ_mod mod_simps)
    moreover have "tl (link_frames l) = ring_list (zip (frame_ids l) (frame_bufs l)) (ring_succ ?A ?r) n"
    proof -
      have "?r < ?A" using r by simp
      from ring_pop[of ?n ?r "zip (frame_ids l) (frame_bufs l)", unfolded link_zip_length[OF assms(1)], OF _ this] n
      show ?thesis unfolding link_frames_def by (simp only: list.sel) simp
    qed
    ultimately show ?thesis
      using c r assms(1) n
      by (cases "n = 0")
        (auto simp: m_def frameLinkReleaseReadyFrame_def Let_def link_ring_def link_frames_def nr split: if_splits)
  qed
  moreover have "m = l" if "\<not> (frame_mutex l \<and> lock \<and> ?n > 0 \<and> read_idx l = k)"
    using that by (auto simp: m_def frameLinkReleaseReadyFrame_def)
  ultimately show "link_ring m" and "link_frames m =
      (if frame_mutex l \<and> lock \<and> frame_ready l > 0 \<and> read_idx l = k then tl (link_frames l) else link_frames l)"
    using assms(1) by metis+
qed

lemma acquire_ring:
  assumes "link_ring l" and "frameLinkAcquireReadyFrame lock stale l = (r, m)"
  shows "link_ring m" and "held_ok m r"
    and "link_frames m = (if r \<noteq> None \<and> stale then [last (link_frames l)] else link_frames l)"
    and "r \<noteq> None \<longleftrightarrow> frame_mutex l \<and> lock \<and> frame_ready l > 0"
proof -
  note h = link_hd[OF assms(1)]
  have some: "r \<noteq> None \<longleftrightarrow> frame_mutex l \<and> lock \<and> frame_ready l > 0"
    using assms(2) h by (auto simp: frameLinkAcquireReadyFrame_def Let_def split: if_splits)
  then show "r \<noteq> None \<longleftrightarrow> frame_mutex l \<and> lock \<and> frame_ready l > 0" .
  show "link_ring m" and "held_ok m r"
    and "link_frames m = (if r \<noteq> None \<and> stale then [last (link_frames l)] else link_frames l)"
  proof (atomize (full), cases r)
    case None
    then have "m = l" using assms(2) some h by (auto simp: frameLinkAcquireReadyFrame_def Let_def split: if_splits)
    with None assms(1) show "link_ring m \<and> held_ok m r \<and>
       link_frames m = (if r \<noteq> None \<and> stale then [last (link_frames l)] else link_frames l)"
      by (simp add: held_ok_def)
  next
    case (Some p)
    then have n: "frame_ready l > 0" using some by simp
    have m: "m = (if stale \<and> frame_ready l > 1 then drop_stale l else l)"
      and r: "r = Some (frame_bufs m ! nat (read_idx m), frame_ids m ! nat (read_idx m), read_idx m)"
      using assms Some n h by (auto simp: frameLinkAcquireReadyFrame_def Let_def link_ring_def split: if_splits)
    have ring: "link_ring m" and rdy: "frame_ready m > 0"
      using assms(1) drop_stale_ring[OF assms(1)] n by (auto simp: m)
    moreover have "link_frames m = (if stale then [last (link_frames l)] else link_frames l)"
    proof (cases "frame_ready l > 1")
      case True
      then show ?thesis using drop_stale_ring[OF assms(1)] by (simp add: m)
    next
      case False
      then have "length (link_frames l) = 1" using n by simp
      then have "link_frames l = [last (link_frames l)]"
        by (cases "link_frames l") auto
      then show ?thesis using False m by simp
    qed
    ultimately show "link_ring m \<and> held_ok m r \<and>
       link_frames m = (if r \<noteq> None \<and> stale then [last (link_frames l)] else link_frames l)"
      using link_hd(1)[OF ring rdy] Some by (auto simp: held_ok_def r)
  qed
qed

end
