(* ===== verification/FrameLinkStep.thy ===== *)
theory FrameLinkStep imports FrameLinkInv begin

text \<open>
  One packet through the receiving task: what was assembled in the target buffer, and why
  a published frame consists of exactly the payloads received for it. Then the step
  relation of receiver and consumer and its invariant.
\<close>

section \<open>Chunks in the buffer\<close>

lemma take_memcpy:
  assumes "off + length p \<le> length buf" and "m \<le> off"
  shows "take m (memcpy_at buf off p) = take m buf"
  using assms by (simp add: memcpy_at_def min_def)

lemma sum_length_bound: "list_all (\<lambda>p. length p \<le> 242) ps \<Longrightarrow> sum_list (map length ps) \<le> 242 * length ps"
  by (induction ps) auto

lemma sum_length_full:
  "list_all (\<lambda>p. length p \<le> 242) ps \<Longrightarrow> sum_list (map length ps) = 242 * length ps \<Longrightarrow>
     list_all (\<lambda>p. length p = 242) ps"
proof (induction ps)
  case (Cons p ps)
  then have "sum_list (map length ps) \<le> 242 * length ps"
    by (intro sum_length_bound) simp
  with Cons.prems have "length p = 242" "sum_list (map length ps) = 242 * length ps"
    by auto
  with Cons show ?case by simp
qed simp

lemma chunks_snoc:
  "chunks_at buf (ps @ [p]) \<longleftrightarrow> chunks_at buf ps \<and> length p \<le> 242 \<and>
     242 * length ps + length p \<le> FRAME_BYTES \<and> take (length p) (drop (242 * length ps) buf) = p"
proof -
  have *: "(\<forall>k<length (ps @ [p]). P k ((ps @ [p]) ! k)) \<longleftrightarrow> (\<forall>k<length ps. P k (ps ! k)) \<and> P (length ps) p"
    for P :: "nat \<Rightarrow> bytes \<Rightarrow> bool"
    by (auto simp: nth_append less_Suc_eq)
  show ?thesis
    unfolding chunks_at_def by (rule *)
qed

lemma chunks_keep:
  assumes "chunks_at buf ps" and "length buf = FRAME_BYTES" and "242 * length ps + length p \<le> FRAME_BYTES"
  shows "chunks_at (memcpy_at buf (242 * length ps) p) ps"
  unfolding chunks_at_def
proof (intro allI impI)
  fix k assume k: "k < length ps"
  let ?b = "memcpy_at buf (242 * length ps) p" and ?n = "length (ps ! k)"
  have c: "?n \<le> 242" "242 * k + ?n \<le> FRAME_BYTES" "take ?n (drop (242 * k) buf) = ps ! k"
    using assms(1) k by (auto simp: chunks_at_def)
  have "?n + 242 * k \<le> 242 * length ps"
    using c(1) k by linarith
  then have "take (?n + 242 * k) ?b = take (?n + 242 * k) buf"
    using assms(2,3) by (intro take_memcpy) simp_all
  then have "take ?n (drop (242 * k) ?b) = take ?n (drop (242 * k) buf)"
    by (simp only: take_drop)
  with c show "?n \<le> 242 \<and> 242 * k + ?n \<le> FRAME_BYTES \<and> take ?n (drop (242 * k) ?b) = ps ! k" by simp
qed

lemma chunks_extend:
  assumes "chunks_at buf ps" and "length buf = FRAME_BYTES" and "length p \<le> 242"
    and "242 * length ps + length p \<le> FRAME_BYTES"
  shows "chunks_at (memcpy_at buf (242 * length ps) p) (ps @ [p])"
  using chunks_keep[OF assms(1,2,4)] assms by (simp add: chunks_snoc memcpy_at_def)

lemma chunks_concat:
  "chunks_at buf ps \<Longrightarrow> list_all (\<lambda>p. length p = 242) ps \<Longrightarrow> concat ps = take (242 * length ps) buf"
proof (induction ps rule: rev_induct)
  case (snoc p ps)
  have "take (length p) (drop (242 * length ps) buf) = p"
    using snoc.prems(1) by (simp add: chunks_snoc)
  moreover have "concat ps = take (242 * length ps) buf"
    using snoc.IH snoc.prems(1)[unfolded chunks_snoc] snoc.prems(2) by simp
  moreover have "take (242 * length (ps @ [p])) buf = take (242 * length ps) buf @ take 242 (drop (242 * length ps) buf)"
    using take_add[of "242 * length ps" 242 buf] by (simp add: add.commute)
  ultimately show ?case
    using snoc.prems(2) by simp
qed simp

text \<open>A frame whose byte count is complete is exactly the sequence of its payloads.\<close>

lemma frame_complete:
  assumes "chunks_at buf ps" and "length buf = FRAME_BYTES" and "sum_list (map length ps) = FRAME_BYTES"
    and "length ps \<le> 159"
  shows "concat ps = buf" and "length ps = 159"
proof -
  have le: "list_all (\<lambda>p. length p \<le> 242) ps"
    using assms(1) by (auto simp: chunks_at_def list_all_length)
  have "38400 \<le> 242 * length ps"
    using sum_length_bound[OF le] assms(3) by simp
  with assms(4) show n: "length ps = 159" by linarith
  then obtain qs p where ps: "ps = qs @ [p]" and nq: "length qs = 158"
    by (cases ps rule: rev_cases) auto
  have p: "242 * 158 + length p \<le> 38400" "take (length p) (drop (242 * 158) buf) = p" and cq: "chunks_at buf qs"
    using assms(1) nq by (simp_all add: chunks_snoc ps)
  have lq: "list_all (\<lambda>p. length p \<le> 242) qs"
    using le by (simp add: ps)
  have "sum_list (map length qs) \<le> 242 * 158"
    using sum_length_bound[OF lq] nq by simp
  with p(1) assms(3) have "sum_list (map length qs) = 242 * length qs" and lp: "length p = 164"
    by (simp_all add: ps nq)
  from sum_length_full[OF lq this(1)] have "concat qs = take (242 * 158) buf"
    using chunks_concat[OF cq] nq by simp
  moreover have "p = drop (242 * 158) buf"
    using p(2) lp assms(2) by simp
  ultimately show "concat ps = buf"
    by (simp add: ps)
qed

section \<open>Storing a chunk\<close>

lemma length_pkt_payload:
  "length rx = 256 \<Longrightarrow> pkt_payload_len rx \<le> 242 \<Longrightarrow> length (pkt_payload rx) = pkt_payload_len rx"
  by (simp add: pkt_payload_def)

text \<open>The outcome of storing a chunk that continues the payloads \<open>ps\<close>.\<close>

lemma frame_store_effect:
  assumes ring: "link_ring l" and asm: "assembling l t ps" and act: "assembly_active t"
    and seq: "in_sequence rx t" and len: "length rx = 256" and pl: "pkt_payload_len rx \<le> 242"
    and fit: "unat (pkt_chunk_idx rx) * 242 + pkt_payload_len rx \<le> FRAME_BYTES"
    and st: "frame_store lock rx l t = (l', t')"
  shows "link_ring l'" and "assembling l' t' (ps @ [pkt_payload rx])"
    and "link_frames l' = link_frames l \<and> counters l' = counters l \<or>
      link_frames l' = link_frames l @ [(pkt_frame_id rx, concat (ps @ [pkt_payload rx]))] \<and>
      length ps = 158 \<and> length (concat (ps @ [pkt_payload rx])) = FRAME_BYTES \<and>
      counters l' = (counters l)\<lparr> completed_frames := completed_frames (counters l) + 1 \<rparr>"
    and "0 < frame_ready l \<Longrightarrow> read_idx l' = read_idx l" and "frame_ready l \<le> frame_ready l'"
    and "frame_mutex l' = frame_mutex l"
proof -
  let ?p = "pkt_payload rx" and ?n = "length ps" and ?A = "allocated_buffers l"
  have a: "target_idx t = write_idx l" "frame_ready l < ?A" "?n = unat (expected_chunk_idx t)"
    "unat (assembled_bytes t) = sum_list (map length ps)" "chunks_at (frame_bufs l ! target_idx t) ps"
    using asm act by (auto simp: assembling_def)
  have ci: "unat (pkt_chunk_idx rx) = ?n" and fid: "pkt_frame_id rx = expected_frame_id t"
    using seq a(3) by (auto simp: in_sequence_def)
  have lp: "length ?p = pkt_payload_len rx" by (rule length_pkt_payload[OF len pl])
  have n: "?n \<le> 158" and fit': "242 * ?n + length ?p \<le> FRAME_BYTES"
    using fit ci lp by (simp_all add: mult.commute)
  let ?b = "memcpy_at (frame_bufs l ! write_idx l) (242 * ?n) ?p"
  have lb: "length (frame_bufs l ! write_idx l) = FRAME_BYTES"
    using ring by (auto simp: link_ring_def list_all_length)
  then have lb': "length ?b = FRAME_BYTES"
    using fit' by simp
  let ?l = "l\<lparr> frame_bufs := (frame_bufs l)[write_idx l := ?b] \<rparr>"
  note wt = write_target[OF ring a(2) lb']
  have chunks: "chunks_at ?b (ps @ [?p])"
    using chunks_extend[OF a(5)[unfolded a(1)] lb] lp pl fit' by simp
  have wi: "write_idx l < length (frame_bufs l)" using ring by (simp add: link_ring_def)
  let ?t = "t\<lparr> assembled_bytes := assembled_bytes t + of_nat (pkt_payload_len rx),
               expected_chunk_idx := expected_chunk_idx t + 1 \<rparr>"
  have ple: "list_all (\<lambda>p. length p \<le> 242) (ps @ [?p])"
    using chunks by (auto simp: chunks_at_def list_all_length)
  have sum: "sum_list (map length ps) + length ?p \<le> 242 * 159"
    using sum_length_bound[OF ple] n by simp
  have ab: "unat (assembled_bytes ?t) = sum_list (map length (ps @ [?p]))"
    using sum a(4) lp pl by (simp add: unat_of_nat32) (subst unat_add_lem[THEN iffD1], simp_all add: unat_of_nat32)
  have ce: "unat (expected_chunk_idx ?t) = length (ps @ [?p])"
    using n a(3) by (simp add: ) (subst unat_add_lem[THEN iffD1], simp_all)
  have "assembled_bytes ?t = of_nat FRAME_BYTES \<longleftrightarrow> unat (assembled_bytes ?t) = unat (of_nat FRAME_BYTES :: u32)"
    by (simp only: word_unat_eq_iff)
  then have "assembled_bytes ?t = of_nat FRAME_BYTES \<longleftrightarrow> unat (assembled_bytes ?t) = FRAME_BYTES"
    by simp
  then have full: "assembled_bytes ?t = of_nat FRAME_BYTES \<longleftrightarrow> sum_list (map length (ps @ [?p])) = FRAME_BYTES"
    using ab by simp
  have st': "frame_store lock rx l t =
     (if expected_chunk_idx ?t \<ge> expected_total_chunks ?t then
        ((if assembled_bytes ?t = of_nat FRAME_BYTES \<and> lock
          then frame_publish (expected_frame_id t) (write_idx l) ?l else ?l), drop_assembly ?t)
      else (?l, ?t))"
    using ci by (simp add: frame_store_def Let_def a(1) mult.commute)
  consider (more) "l' = ?l" "t' = ?t" | (dropped) "l' = ?l" "t' = drop_assembly ?t"
    | (publish) "l' = frame_publish (expected_frame_id t) (write_idx ?l) ?l" "t' = drop_assembly ?t"
      "sum_list (map length (ps @ [?p])) = FRAME_BYTES"
    using st unfolding st' full by (auto split: if_splits)
  then have "link_ring l' \<and> assembling l' t' (ps @ [?p]) \<and>
     (link_frames l' = link_frames l \<and> counters l' = counters l \<or>
      link_frames l' = link_frames l @ [(pkt_frame_id rx, concat (ps @ [?p]))] \<and>
      length ps = 158 \<and> length (concat (ps @ [?p])) = FRAME_BYTES \<and>
      counters l' = (counters l)\<lparr> completed_frames := completed_frames (counters l) + 1 \<rparr>) \<and>
     (0 < frame_ready l \<longrightarrow> read_idx l' = read_idx l) \<and> frame_ready l \<le> frame_ready l' \<and>
     frame_mutex l' = frame_mutex l"
  proof cases
    case more
    then show ?thesis
      using wt a(1,2) n ab ce chunks wi by (simp add: assembling_def)
  next
    case dropped
    then show ?thesis using wt by (simp add: assembling_def drop_assembly_def)
  next
    case publish
    note fc = frame_complete[OF chunks lb' publish(3)]
    have rl: "frame_ready ?l < allocated_buffers ?l" using a(2) by simp
    note pr = publish_ring[OF wt(1) rl, of "expected_frame_id t"]
    have "concat (ps @ [?p]) = ?b" "length ps = 158"
      using fc n by simp_all
    moreover have "frame_mutex l' = frame_mutex l"
      by (simp add: publish(1) frame_publish_def Let_def)
    ultimately show ?thesis
      using pr wt(2) lb' wi fid publish(1,2) by (simp add: assembling_def drop_assembly_def)
  qed
  then show "link_ring l'" and "assembling l' t' (ps @ [pkt_payload rx])"
    and "link_frames l' = link_frames l \<and> counters l' = counters l \<or>
      link_frames l' = link_frames l @ [(pkt_frame_id rx, concat (ps @ [pkt_payload rx]))] \<and>
      length ps = 158 \<and> length (concat (ps @ [pkt_payload rx])) = FRAME_BYTES \<and>
      counters l' = (counters l)\<lparr> completed_frames := completed_frames (counters l) + 1 \<rparr>"
    and "0 < frame_ready l \<Longrightarrow> read_idx l' = read_idx l" and "frame_ready l \<le> frame_ready l'"
    and "frame_mutex l' = frame_mutex l"
    by blast+
qed

end
