(* ===== verification/FrameLinkSpec.thy ===== *)
theory FrameLinkSpec imports FrameLinkStep begin

text \<open>
  The system of the receiving task and one consumer, and what it guarantees: the ring
  refines a list of frames, a published frame is exactly the payloads of its 159 packets,
  and a frame held by the consumer is not written to.
\<close>

section \<open>One packet\<close>

text \<open>The payloads of the current frame after a packet.\<close>

definition next_history :: "bytes \<Rightarrow> bytes list \<Rightarrow> bytes list" where
  "next_history rx ps = (if pkt_chunk_idx rx = 0 then [] else ps) @ [pkt_payload rx]"

definition pkt_valid :: "bytes \<Rightarrow> bool" where
  "pkt_valid rx \<longleftrightarrow> pkt_magic_ok rx \<and> pkt_payload_len rx \<le> 242 \<and>
     calcChecksum (drop 14 rx) (pkt_payload_len rx) = pkt_checksum rx"

lemma count_bad_frame [simp]:
  "link_ring (count_bad f l) = link_ring l" "link_frames (count_bad f l) = link_frames l"
  "frame_ready (count_bad f l) = frame_ready l" "read_idx (count_bad f l) = read_idx l"
  "frame_mutex (count_bad f l) = frame_mutex l"
  by (simp_all add: count_bad_def)

lemma drop_assembling [simp]: "assembling l (drop_assembly t) ps"
  by (simp add: assembling_def drop_assembly_def)

lemma assembling_frame [simp]:
  "assembling (l\<lparr> counters := c \<rparr>) t ps = assembling l t ps"
  "assembling (l\<lparr> waiting_logged := b \<rparr>) t ps = assembling l t ps"
  "assembling (l\<lparr> link_out := ms \<rparr>) t ps = assembling l t ps"
  "assembling l (t\<lparr> last_summary := c \<rparr>) ps = assembling l t ps"
  "assembling l (t\<lparr> last_summary_tick := w \<rparr>) ps = assembling l t ps"
  by (simp_all add: assembling_def)

lemma held_ok_frame [simp]:
  "held_ok (l\<lparr> counters := c \<rparr>) h = held_ok l h"
  "held_ok (l\<lparr> waiting_logged := b \<rparr>) h = held_ok l h"
  "held_ok (l\<lparr> link_out := ms \<rparr>) h = held_ok l h"
  "held_ok (count_bad f l) h = held_ok l h"
  by (cases h; auto simp: held_ok_def)+

lemma held_frame:
  "link_frames m = link_frames l @ fs \<Longrightarrow> frame_ready l \<le> frame_ready m \<Longrightarrow>
   (0 < frame_ready l \<Longrightarrow> read_idx m = read_idx l) \<Longrightarrow> held_ok l h \<Longrightarrow> held_ok m h"
  unfolding held_ok_def
  by (cases h) (auto, metis hd_append2 length_link_frames list.size(3) less_numeral_extra(3))

lemma begin_effect:
  assumes ring: "link_ring l" and asm: "assembling l t ps" and mtx: "frame_mutex l"
    and lock: "lock \<or> frame_ready l < allocated_buffers l"
    and b: "frame_begin lock rx l t = Some t1" and seq: "in_sequence rx t1"
  shows "assembling l t1 (if pkt_chunk_idx rx = 0 then [] else ps)" and "assembly_active t1"
proof -
  have "assembling l t1 (if pkt_chunk_idx rx = 0 then [] else ps)"
  proof (cases "pkt_chunk_idx rx = 0")
    case True
    then have "\<not> queueIsFull lock l"
      and t1: "t1 = t\<lparr> target_idx := write_idx l, expected_frame_id := pkt_frame_id rx,
           expected_total_chunks := pkt_total_chunks rx, expected_chunk_idx := 0,
           assembled_bytes := 0, assembly_active := True \<rparr>"
      using b by (auto simp: frame_begin_def split: if_splits)
    then have "frame_ready l < allocated_buffers l"
      using lock mtx ring by (auto simp: queueIsFull_def link_ring_def split: if_splits)
    then show ?thesis
      using True by (simp add: t1 assembling_def chunks_at_def)
  next
    case False
    then show ?thesis using b asm by (simp add: frame_begin_def)
  qed
  then show "assembling l t1 (if pkt_chunk_idx rx = 0 then [] else ps)" .
  show "assembly_active t1" using seq by (simp add: in_sequence_def)
qed

lemma packet_effect:
  assumes ring: "link_ring l" and asm: "assembling l t ps" and mtx: "frame_mutex l" and held: "held_ok l h"
    and lock: "lock1 \<or> frame_ready l < allocated_buffers l" and len: "length rx = 256"
    and pkt: "frame_packet lock1 lock2 rx l t = (stored, l', t')"
  shows "link_ring l'" and "assembling l' t' (next_history rx ps)" and "held_ok l' h"
    and "frame_mutex l'"
    and "link_frames l' = link_frames l \<or>
      pkt_valid rx \<and> link_frames l' = link_frames l @ [(pkt_frame_id rx, concat (next_history rx ps))] \<and>
      length (next_history rx ps) = 159 \<and> length (concat (next_history rx ps)) = FRAME_BYTES"
proof -
  let ?l = "l\<lparr> counters := (counters l)\<lparr> total_packets := total_packets (counters l) + 1 \<rparr>, waiting_logged := False \<rparr>"
  have base: "link_ring ?l" "link_frames ?l = link_frames l" "held_ok ?l h" "frame_mutex ?l"
    using ring held mtx by simp_all
  consider (rejected) f where "l' = count_bad f ?l" "t' = drop_assembly t \<or> (\<exists>t1. t' = drop_assembly t1)"
    | (stored) t1 where "pkt_valid rx" "frame_begin lock1 rx ?l t = Some t1" "in_sequence rx t1"
      "unat (pkt_chunk_idx rx) * 242 + pkt_payload_len rx \<le> FRAME_BYTES"
      "frame_store lock2 rx ?l t1 = (l', t')"
    using pkt unfolding frame_packet_def Let_def pkt_valid_def
    by (auto split: if_splits option.splits)
  then have "link_ring l' \<and> assembling l' t' (next_history rx ps) \<and> held_ok l' h \<and> frame_mutex l' \<and>
    (link_frames l' = link_frames l \<or>
      pkt_valid rx \<and> link_frames l' = link_frames l @ [(pkt_frame_id rx, concat (next_history rx ps))] \<and>
      length (next_history rx ps) = 159 \<and> length (concat (next_history rx ps)) = FRAME_BYTES)"
  proof cases
    case rejected
    then show ?thesis
      using base by auto
  next
    case stored
    have asm': "assembling ?l t ps" using asm by simp
    have lock': "lock1 \<or> frame_ready ?l < allocated_buffers ?l" using lock by simp
    note be = begin_effect[OF base(1) asm' base(4) lock' stored(2,3)]
    have pl: "pkt_payload_len rx \<le> 242" using stored(1) by (simp add: pkt_valid_def)
    note se = frame_store_effect[OF base(1) be(1,2) stored(3) len pl stored(4,5), folded next_history_def]
    have "link_frames l' = link_frames l @ [] \<or> (\<exists>f. link_frames l' = link_frames l @ [f])"
      using se(3) base(2) by auto
    then have "held_ok l' h"
      using held_frame[of l' ?l _ h] se(4,5) base by auto
    then show ?thesis
      using se base stored(1) by (auto simp: next_history_def)
  qed
  then show "link_ring l'" and "assembling l' t' (next_history rx ps)" and "held_ok l' h" and "frame_mutex l'"
    and "link_frames l' = link_frames l \<or>
      pkt_valid rx \<and> link_frames l' = link_frames l @ [(pkt_frame_id rx, concat (next_history rx ps))] \<and>
      length (next_history rx ps) = 159 \<and> length (concat (next_history rx ps)) = FRAME_BYTES"
    by blast+
qed

section \<open>The two tasks\<close>

text \<open>
  A state of the system: the shared variables, the receiver's local variables, the frame
  the consumer holds, and the payloads of the frame under assembly. The receiver's check
  for a full ring is assumed to get the mutex within its timeout, or the ring not to be
  full: the code takes a timed-out check for \<open>not full\<close>.
\<close>

type_synonym link_sys = "link \<times> link_task \<times> (bytes \<times> u16 \<times> int) option \<times> bytes list"

definition task_history :: "link \<Rightarrow> spi_result \<Rightarrow> bytes list \<Rightarrow> bytes list" where
  "task_history l res ps = (if allocated_buffers l = 0 \<or> \<not> rx_buf_ok l \<or> \<not> tx_buf_ok l then ps
     else case res of SpiOk rx \<Rightarrow> next_history rx ps | _ \<Rightarrow> ps)"

inductive link_step :: "link_sys \<Rightarrow> link_sys \<Rightarrow> bool" where
  receive: "lock1 \<or> frame_ready l < allocated_buffers l \<Longrightarrow> (\<And>rx. res = SpiOk rx \<Longrightarrow> length rx = 256) \<Longrightarrow>
     frameLinkTask res lock1 lock2 now now2 l t = (l', t') \<Longrightarrow>
     link_step (l, t, h, ps) (l', t', h, task_history l res ps)"
| acquire: "frameLinkAcquireReadyFrame lock stale l = (r, l') \<Longrightarrow> link_step (l, t, None, ps) (l', t, r, ps)"
| release: "link_step (l, t, Some (b, i, k), ps) (frameLinkReleaseReadyFrame lock k l, t, None, ps)"

inductive link_reachable :: "link_sys \<Rightarrow> bool" where
  init: "list_all (\<lambda>m. case m of None \<Rightarrow> True | Some b \<Rightarrow> length b = FRAME_BYTES) ms \<Longrightarrow>
     l = frameLinkInit ms True True True link_reset \<Longrightarrow> 0 < allocated_buffers l \<Longrightarrow>
     link_reachable (l, link_task_start now, None, [])"
| step: "link_reachable x \<Longrightarrow> link_step x y \<Longrightarrow> link_reachable y"

inductive_cases link_stepE: "link_step x y"

definition link_inv :: "link_sys \<Rightarrow> bool" where
  "link_inv x = (case x of (l, t, h, ps) \<Rightarrow>
     link_ring l \<and> frame_mutex l \<and> assembling l t ps \<and> held_ok l h)"

lemma print_frame [simp]:
  "link_frames (link_print m l) = link_frames l" "link_ring (link_print m l) = link_ring l"
  "frame_mutex (link_print m l) = frame_mutex l" "held_ok (link_print m l) h = held_ok l h"
  "assembling (link_print m l) t ps = assembling l t ps" "counters (link_print m l) = counters l"
  "frame_ready (link_print m l) = frame_ready l" "allocated_buffers (link_print m l) = allocated_buffers l"
  by (simp_all add: link_print_def)

text \<open>What failed transactions and summaries leave alone.\<close>

definition same_frames :: "link \<Rightarrow> link \<Rightarrow> bool" where
  "same_frames l m \<longleftrightarrow> link_ring m = link_ring l \<and> link_frames m = link_frames l \<and>
     frame_mutex m = frame_mutex l \<and> (\<forall>h. held_ok m h = held_ok l h) \<and>
     (\<forall>t ps. assembling m t ps = assembling l t ps)"

lemma same_frames_intros [wf_intros]:
  "same_frames l l" "same_frames l m \<Longrightarrow> same_frames l (m\<lparr> counters := c \<rparr>)"
  "same_frames l m \<Longrightarrow> same_frames l (m\<lparr> waiting_logged := b \<rparr>)" "same_frames l m \<Longrightarrow> same_frames l (link_print x m)"
  by (simp_all add: same_frames_def)

lemma summary_same:
  assumes "summary_if_changed l t = (l', t')"
  shows "same_frames l l'" and "assembling l' t' ps = assembling l t ps"
proof -
  have "same_frames l l' \<and> (t' = t \<or> (\<exists>c. t' = t\<lparr> last_summary := c \<rparr>))"
    using assms by (auto simp: summary_if_changed_def logFrameLinkSummary_def intro!: wf_intros split: if_splits)
  then show "same_frames l l'" and "assembling l' t' ps = assembling l t ps"
    by (auto simp: same_frames_def)
qed

lemma spi_failed_same:
  assumes "frame_spi_failed timeout now now2 l t = (l', t')"
  shows "same_frames l l' \<and> assembling l' t' ps = assembling l t ps"
proof -
  let ?c = "counters l"
  define m where "m = (if timeout then l\<lparr> counters := ?c\<lparr> spi_timeouts := spi_timeouts ?c + 1 \<rparr> \<rparr>
               else link_print SpiFailedMsg (l\<lparr> counters := ?c\<lparr> spi_errors := spi_errors ?c + 1 \<rparr> \<rparr>))"
  have m: "same_frames l m"
    by (auto simp: m_def intro!: wf_intros)
  obtain l2 t2 where s2: "summary_if_changed m t = (l2, t2)" by (cases "summary_if_changed m t")
  have r: "(l', t') = (if now - last_summary_tick t \<ge> pdMS_TO_TICKS 2000 then
       (if idle_so_far (counters m) then
          (if \<not> waiting_logged m then ((link_print IdleMsg m)\<lparr> waiting_logged := True \<rparr>, t\<lparr> last_summary_tick := now2 \<rparr>)
           else (m, t\<lparr> last_summary_tick := now2 \<rparr>))
        else (l2, t2\<lparr> last_summary_tick := now2 \<rparr>)) else (m, t))"
    using assms s2 unfolding frame_spi_failed_def Let_def m_def[symmetric] by (auto split: if_splits)
  show ?thesis
    using m summary_same[OF s2] r by (auto simp: same_frames_def split: if_splits)
qed

lemma task_effect:
  assumes inv: "link_inv (l, t, h, ps)" and lock: "lock1 \<or> frame_ready l < allocated_buffers l"
    and len: "\<And>rx. res = SpiOk rx \<Longrightarrow> length rx = 256"
    and task: "frameLinkTask res lock1 lock2 now now2 l t = (l', t')"
  shows "link_inv (l', t', h, task_history l res ps)"
    and "link_frames l' = link_frames l \<or>
      (\<exists>rx. res = SpiOk rx \<and> pkt_valid rx \<and>
        link_frames l' = link_frames l @ [(pkt_frame_id rx, concat (next_history rx ps))] \<and>
        length (next_history rx ps) = 159 \<and> length (concat (next_history rx ps)) = FRAME_BYTES)"
proof -
  have i: "link_ring l" "frame_mutex l" "assembling l t ps" "held_ok l h"
    using inv by (simp_all add: link_inv_def)
  have "link_inv (l', t', h, task_history l res ps) \<and> (link_frames l' = link_frames l \<or>
      (\<exists>rx. res = SpiOk rx \<and> pkt_valid rx \<and>
        link_frames l' = link_frames l @ [(pkt_frame_id rx, concat (next_history rx ps))] \<and>
        length (next_history rx ps) = 159 \<and> length (concat (next_history rx ps)) = FRAME_BYTES))"
  proof (cases "\<exists>rx. res = SpiOk rx \<and> allocated_buffers l \<noteq> 0 \<and> rx_buf_ok l \<and> tx_buf_ok l")
    case True
    then obtain rx where rx: "res = SpiOk rx" by auto
    obtain st l1 t1 where p: "frame_packet lock1 lock2 rx l t = (st, l1, t1)" by (cases "frame_packet lock1 lock2 rx l t")
    note pe = packet_effect[OF i(1,3,2,4) lock len[OF rx] p]
    obtain l2 t2 where s2: "summary_if_changed l1 t1 = (l2, t2)" by (cases "summary_if_changed l1 t1")
    have "(l', t') = (if st \<and> now - last_summary_tick t1 \<ge> pdMS_TO_TICKS 2000
        then (l2, t2\<lparr> last_summary_tick := now2 \<rparr>) else (l1, t1))"
      using task True rx p s2 by (auto simp: frameLinkTask_def split: if_splits)
    then have "same_frames l1 l' \<and> assembling l' t' (next_history rx ps)"
      using summary_same[OF s2] pe(2) by (auto simp: same_frames_def split: if_splits)
    then show ?thesis
      using pe rx True by (auto simp: link_inv_def same_frames_def task_history_def)
  next
    case False
    then have "task_history l res ps = ps" and
      "(l', t') = (l, t) \<or> (\<exists>b. frame_spi_failed b now now2 l t = (l', t'))"
      using task by (auto simp: frameLinkTask_def task_history_def split: if_splits spi_result.splits)
    then show ?thesis
      using i spi_failed_same[of _ now now2 l t l' t' ps] by (auto simp: link_inv_def same_frames_def)
  qed
  then show "link_inv (l', t', h, task_history l res ps)" and "link_frames l' = link_frames l \<or>
      (\<exists>rx. res = SpiOk rx \<and> pkt_valid rx \<and>
        link_frames l' = link_frames l @ [(pkt_frame_id rx, concat (next_history rx ps))] \<and>
        length (next_history rx ps) = 159 \<and> length (concat (next_history rx ps)) = FRAME_BYTES)"
    by blast+
qed

lemma release_same [simp]:
  "frame_mutex (frameLinkReleaseReadyFrame lock k l) = frame_mutex l"
  "frame_bufs (frameLinkReleaseReadyFrame lock k l) = frame_bufs l"
  "write_idx (frameLinkReleaseReadyFrame lock k l) = write_idx l"
  "allocated_buffers (frameLinkReleaseReadyFrame lock k l) = allocated_buffers l"
  "frame_ready (frameLinkReleaseReadyFrame lock k l) \<le> frame_ready l"
  by (auto simp: frameLinkReleaseReadyFrame_def Let_def)

lemma acquire_same:
  assumes "frameLinkAcquireReadyFrame lock stale l = (r, m)"
  shows "frame_mutex m = frame_mutex l" "frame_bufs m = frame_bufs l" "write_idx m = write_idx l"
    "allocated_buffers m = allocated_buffers l" "frame_ready m \<le> frame_ready l"
  using assms by (auto simp: frameLinkAcquireReadyFrame_def drop_stale_def Let_def split: if_splits)

lemma assembling_shrink:
  "assembling l t ps \<Longrightarrow> frame_bufs m = frame_bufs l \<Longrightarrow> write_idx m = write_idx l \<Longrightarrow>
   allocated_buffers m = allocated_buffers l \<Longrightarrow> frame_ready m \<le> frame_ready l \<Longrightarrow> assembling m t ps"
  by (auto simp: assembling_def)

lemma link_step_inv:
  assumes "link_step x y" and "link_inv x"
  shows "link_inv y"
  using assms
proof cases
  case (receive lock1 l res lock2 now now2 t l' t' h ps)
  then show ?thesis using task_effect(1)[of l t h ps lock1 res lock2 now now2 l' t'] assms(2) by simp
next
  case (acquire lock stale l r l' t ps)
  then have i: "link_ring l" "frame_mutex l" "assembling l t ps"
    using assms(2) by (simp_all add: link_inv_def)
  then show ?thesis
    using acquire_ring[OF i(1) acquire(3)] acquire_same[OF acquire(3)] acquire
    by (simp add: link_inv_def assembling_shrink)
next
  case (release l t b i k ps lock)
  then show ?thesis
    using assms(2) release_ring(1)[of l lock k]
    by (auto simp: link_inv_def held_ok_def intro: assembling_shrink)
qed

lemma alloc_frames_effect:
  assumes "list_all (\<lambda>m. case m of None \<Rightarrow> True | Some b \<Rightarrow> length b = FRAME_BYTES) ms"
    and "length (frame_bufs l) = allocated_buffers l"
    and "list_all (\<lambda>b. length b = FRAME_BYTES) (frame_bufs l)"
  shows "\<exists>bs. alloc_frames ms l = l\<lparr> frame_bufs := bs, allocated_buffers := length bs \<rparr> \<and>
    length bs \<le> allocated_buffers l + length ms \<and> list_all (\<lambda>b. length b = FRAME_BYTES) bs"
  using assms
proof (induction ms l rule: alloc_frames.induct)
  case (1 l)
  then show ?case by (intro exI[of _ "frame_bufs l"]) simp
next
  case (2 ms l)
  then show ?case by (intro exI[of _ "frame_bufs l"]) simp
next
  case (3 b ms l)
  then show ?case by auto
qed

lemma init_inv:
  assumes "list_all (\<lambda>m. case m of None \<Rightarrow> True | Some b \<Rightarrow> length b = FRAME_BYTES) ms"
    and "l = frameLinkInit ms True True True link_reset" and "0 < allocated_buffers l"
  shows "link_inv (l, link_task_start now, None, [])" and "link_frames l = []"
proof -
  have "list_all (\<lambda>m. case m of None \<Rightarrow> True | Some b \<Rightarrow> length b = FRAME_BYTES) (take 3 ms)"
    using assms(1) by (auto simp: list_all_iff dest: in_set_takeD)
  from alloc_frames_effect[OF this, of link_reset] obtain bs where
    bs: "alloc_frames (take 3 ms) link_reset = link_reset\<lparr> frame_bufs := bs, allocated_buffers := length bs \<rparr>"
    "length bs \<le> 3" "list_all (\<lambda>b. length b = FRAME_BYTES) bs"
    by (auto simp: link_reset_def)
  have l: "l = link_print (InitOkMsg (length bs)) (link_reset\<lparr> frame_bufs := bs, allocated_buffers := length bs,
      rx_buf_ok := True, tx_buf_ok := True, frame_mutex := True \<rparr>)" and "0 < length bs"
    using assms(2,3) by (auto simp: frameLinkInit_def bs(1) Let_def split: if_splits)
  then show "link_inv (l, link_task_start now, None, [])" "link_frames l = []"
    using bs(2,3) by (auto simp: link_inv_def link_ring_def link_reset_def assembling_def link_task_start_def
        held_ok_def link_frames_def link_print_def)
qed

lemma link_reachable_inv: "link_reachable x \<Longrightarrow> link_inv x"
proof (induction rule: link_reachable.induct)
  case (init ms l now)
  then show ?case by (rule init_inv(1))
next
  case (step x y)
  then show ?case using link_step_inv by blast
qed

section \<open>The ring as a bounded queue\<close>

text \<open>
  Seen from outside the assembly, the ring is a queue: \<open>frame_offer\<close> writes a complete frame
  into the free slot and publishes it, as the receiver does; \<open>frame_take\<close> acquires the
  oldest frame and releases it, as a consumer does.
\<close>

definition frame_offer :: "u16 \<times> bytes \<Rightarrow> link \<Rightarrow> bool \<times> link" where
  "frame_offer f l =
     (if queueIsFull True l then (False, l)
      else (True, frame_publish (fst f) (write_idx l) (l\<lparr> frame_bufs := (frame_bufs l)[write_idx l := snd f] \<rparr>)))"

definition frame_take :: "link \<Rightarrow> ((u16 \<times> bytes) \<times> link) option" where
  "frame_take l = (case frameLinkAcquireReadyFrame True False l of
     (None, m) \<Rightarrow> None | (Some (b, i, k), m) \<Rightarrow> Some ((i, b), frameLinkReleaseReadyFrame True k m))"

interpretation frame_fifo: bounded_fifo
  "\<lambda>l. link_ring l \<and> frame_mutex l \<and> allocated_buffers l = n" link_frames n
  "\<lambda>f. length (snd f) = FRAME_BYTES" frame_offer frame_take for n
proof
  fix l m :: link and f :: "u16 \<times> bytes"
  assume l: "link_ring l \<and> frame_mutex l \<and> allocated_buffers l = n"
  show "length (link_frames l) \<le> n"
    using l by (simp add: link_ring_def)
  show "(frame_take l = None) = (link_frames l = [])"
  proof -
    obtain r m where a: "frameLinkAcquireReadyFrame True False l = (r, m)" by (cases "frameLinkAcquireReadyFrame True False l")
    have "r \<noteq> None \<longleftrightarrow> frame_ready l > 0"
      using acquire_ring(4)[OF _ a] l by simp
    then show ?thesis
      using length_link_frames[of l] by (cases r) (auto simp: frame_take_def a simp flip: length_0_conv)
  qed
  show "(link_ring m \<and> frame_mutex m \<and> allocated_buffers m = n) \<and> link_frames l = f # link_frames m"
    if t: "frame_take l = Some (f, m)"
  proof -
    obtain b i k q where a: "frameLinkAcquireReadyFrame True False l = (Some (b, i, k), q)"
      and f: "f = (i, b)" and m: "m = frameLinkReleaseReadyFrame True k q"
      using t by (auto simp: frame_take_def split: prod.splits option.splits)
    have lr: "link_ring l" using l by simp
    note ar = acquire_ring[OF lr a] and as = acquire_same[OF a]
    have h: "frame_ready q > 0" "read_idx q = k" "hd (link_frames q) = (i, b)"
      using ar(2) by (simp_all add: held_ok_def)
    have "link_frames m = tl (link_frames l)"
      using release_ring(2)[OF ar(1), of True k] ar(3) h l as by (simp add: m)
    moreover have "link_frames l \<noteq> []" "hd (link_frames l) = f"
      using link_hd(4)[OF ar(1) h(1)] h(3) ar(3) f by auto
    ultimately show ?thesis
      using release_ring(1)[OF ar(1), of True k] l as by (simp add: m) (metis list.collapse)
  qed
  assume f: "length (snd f) = FRAME_BYTES"
  let ?l = "l\<lparr> frame_bufs := (frame_bufs l)[write_idx l := snd f] \<rparr>"
  have room: "link_ring (snd (frame_offer f l)) \<and> link_frames (snd (frame_offer f l)) = link_frames l @ [f] \<and>
     fst (frame_offer f l) \<and> frame_mutex (snd (frame_offer f l)) \<and> allocated_buffers (snd (frame_offer f l)) = n"
    if r: "frame_ready l < allocated_buffers l"
  proof -
    have lr: "link_ring l" using l by simp
    note wt = write_target[OF lr r f]
    have "frame_ready ?l < allocated_buffers ?l" using r by simp
    note pr = publish_ring(1,2)[OF wt(1) this, of "fst f"]
    have "write_idx l < length (frame_bufs l)" using lr by (simp add: link_ring_def)
    then show ?thesis
      using pr wt(2) r l by (auto simp: frame_offer_def queueIsFull_def) (simp_all add: frame_publish_def Let_def)
  qed
  have full: "frame_offer f l = (False, l)" if "\<not> frame_ready l < allocated_buffers l"
    using that l by (auto simp: frame_offer_def queueIsFull_def link_ring_def)
  show "link_ring (snd (frame_offer f l)) \<and> frame_mutex (snd (frame_offer f l)) \<and>
      allocated_buffers (snd (frame_offer f l)) = n"
    using room full l by (cases "frame_ready l < allocated_buffers l") auto
  show "fst (frame_offer f l) \<and> link_frames (snd (frame_offer f l)) = link_frames l @ [f]"
    if "length (link_frames l) < n"
    using that room l by simp
  show "\<not> fst (frame_offer f l) \<and> link_frames (snd (frame_offer f l)) = link_frames l"
    if "length (link_frames l) = n"
    using that full l by simp
qed

end
