(* ===== verification/LinkTransport.thy ===== *)
theory LinkTransport imports TeensySend FrameLinkSpec begin

text \<open>
  Sender and receiver together: the packets the Teensy builds for a frame, received in
  order by the ESP32 with room in its ring, end up as that frame in the ring.
\<close>

section \<open>The fields of a packet as the receiver reads them\<close>

lemma nth_memcpy_low: "j < off \<Longrightarrow> off \<le> length buf \<Longrightarrow> memcpy_at buf off xs ! j = buf ! j"
  by (simp add: memcpy_at_def nth_append)

definition chunk_payload :: "bytes \<Rightarrow> nat \<Rightarrow> bytes" where
  "chunk_payload fb c = take (chunk_payload_len c) (drop (c * 242) fb)"

lemma length_chunk_payload: "length fb = 38400 \<Longrightarrow> c < 159 \<Longrightarrow> length (chunk_payload fb c) = chunk_payload_len c"
  using chunk_len_bounds(2)[of c] by (simp add: chunk_payload_def)

lemma packet_fields:
  fixes fid :: u16
  assumes "length fb = 38400" and "c < 159"
  defines "rx \<equiv> frame_packet_bytes fb fid c"
  shows "length rx = 256" and "pkt_magic_ok rx" and "pkt_frame_id rx = fid" and "pkt_chunk_idx rx = of_nat c"
    and "pkt_total_chunks rx = frame_total_chunks" and "pkt_payload_len rx = chunk_payload_len c"
    and "pkt_payload rx = chunk_payload fb c" and "pkt_valid rx"
proof -
  let ?n = "chunk_payload_len c" and ?p = "chunk_payload fb c"
  have n: "?n \<le> 242" by (rule chunk_len_bounds(1))
  have lp: "length ?p = ?n" using assms by (intro length_chunk_payload)
  define h where "h = frameWriteU16Be 10 (of_nat ?n) (frameWriteU16Be 8 frame_total_chunks (frameWriteU16Be 6 (of_nat c)
      (frameWriteU16Be 4 fid ((replicate 256 0)[0 := 0x54, 1 := 0x45, 2 := 0x53, 3 := 0x54]))))"
  have lh: "length h = 256" by (simp add: h_def)
  define m where "m = memcpy_at h 14 ?p"
  have lm: "length m = 256" using lh lp n by (simp add: m_def)
  have rx: "rx = frameWriteU16Be 12 (frameChecksum (drop 14 m) ?n) m"
    by (simp add: rx_def frame_packet_bytes_def Let_def h_def m_def chunk_payload_def)
  show len: "length rx = 256" by (simp add: rx lm)
  have hd: "rx ! j = h ! j" if "j < 12" for j
    using that lm lh by (simp add: rx nth_frameWrite m_def nth_memcpy_low)
  have h4: "h ! 0 = 0x54" "h ! 1 = 0x45" "h ! 2 = 0x53" "h ! 3 = 0x54"
    by (simp_all add: h_def nth_frameWrite nth_list_update)
  show "pkt_magic_ok rx"
    using hd[of 0] hd[of 1] hd[of 2] hd[of 3] h4 by (simp add: pkt_magic_ok_def)
  have rd: "readU16Be rx i = be16_join (rx ! i) (rx ! (i + 1))" for i
    by (simp add: readU16Be_def be16_join_def)
  show "pkt_frame_id rx = fid"
    by (simp add: pkt_frame_id_def rd hd) (simp add: h_def nth_frameWrite)
  show "pkt_chunk_idx rx = of_nat c"
    by (simp add: pkt_chunk_idx_def rd hd) (simp add: h_def nth_frameWrite)
  show "pkt_total_chunks rx = frame_total_chunks"
    by (simp add: pkt_total_chunks_def rd hd) (simp add: h_def nth_frameWrite)
  have "readU16Be rx 10 = of_nat ?n"
    by (simp add: rd hd) (simp add: h_def nth_frameWrite)
  then show pl: "pkt_payload_len rx = ?n"
    using n by (simp add: pkt_payload_len_def unat_of_nat16)
  have d14: "drop 14 rx = drop 14 m" by (simp add: rx drop_frameWrite)
  have "take ?n (drop 14 m) = ?p"
    using lp lh by (simp add: m_def memcpy_at_def)
  then show "pkt_payload rx = chunk_payload fb c"
    by (simp add: pkt_payload_def pl d14)
  have "readU16Be rx 12 = frameChecksum (drop 14 m) ?n"
    using lm by (simp add: rd) (simp add: rx nth_frameWrite)
  then have "calcChecksum (drop 14 rx) (pkt_payload_len rx) = pkt_checksum rx"
    by (simp add: pkt_checksum_def pl d14 calcChecksum_def frameChecksum_def)
  then show "pkt_valid rx"
    using \<open>pkt_magic_ok rx\<close> n by (simp add: pkt_valid_def pl)
qed

text \<open>The payloads of the 159 chunks are the frame.\<close>

lemma chunk_payloads_concat:
  assumes "length fb = 38400" and "n \<le> 158"
  shows "concat (map (chunk_payload fb) [0..<n]) = take (n * 242) fb"
  using assms(2)
proof (induction n)
  case (Suc n)
  then have "chunk_payload fb n = take 242 (drop (n * 242) fb)"
    by (simp add: chunk_payload_def chunk_len_values)
  moreover have "take (Suc n * 242) fb = take (n * 242) fb @ take 242 (drop (n * 242) fb)"
    using take_add[of "n * 242" 242 fb] by (simp add: add.commute)
  ultimately show ?case using Suc by simp
qed simp

lemma chunk_payloads_frame:
  assumes "length fb = 38400"
  shows "concat (map (chunk_payload fb) [0..<159]) = fb"
proof -
  have "[0..<159] = [0..<158] @ [158::nat]"
    using upt_Suc_append[of 0 158] by (simp del: upt_Suc upt_rec_numeral)
  moreover have "chunk_payload fb 158 = drop (158 * 242) fb"
    using assms by (simp add: chunk_payload_def chunk_len_values)
  ultimately show ?thesis
    using chunk_payloads_concat[OF assms, of 158] by (simp only: map_append concat_append) simp
qed

section \<open>Receiving the packets in order\<close>

definition link_receive :: "u32 \<Rightarrow> u32 \<Rightarrow> bytes list \<Rightarrow> link \<times> link_task \<Rightarrow> link \<times> link_task" where
  "link_receive now now2 rxs lt = fold (\<lambda>rx (l, t). frameLinkTask (SpiOk rx) True True now now2 l t) rxs lt"

definition link_ready :: "link \<Rightarrow> bool" where
  "link_ready l \<longleftrightarrow> link_ring l \<and> frame_mutex l \<and> rx_buf_ok l \<and> tx_buf_ok l \<and> frame_ready l < allocated_buffers l"

text \<open>The state after the first \<open>c\<close> packets of the frame.\<close>

definition receiving :: "bytes \<Rightarrow> u16 \<Rightarrow> nat \<Rightarrow> (u16 \<times> bytes) list \<Rightarrow> link \<times> link_task \<Rightarrow> bool" where
  "receiving fb fid c fs = (\<lambda>(l, t). link_ready l \<and> link_frames l = fs \<and>
     (\<exists>ps. assembling l t ps \<and> (0 < c \<longrightarrow> ps = map (chunk_payload fb) [0..<c])) \<and>
     (0 < c \<longrightarrow> assembly_active t \<and> expected_frame_id t = fid \<and> expected_chunk_idx t = of_nat c \<and>
        expected_total_chunks t = frame_total_chunks))"

lemma store_more:
  assumes "expected_chunk_idx t + 1 < expected_total_chunks t"
  shows "\<exists>bs. frame_store lock rx l t = (l\<lparr> frame_bufs := bs \<rparr>,
     t\<lparr> assembled_bytes := assembled_bytes t + of_nat (pkt_payload_len rx), expected_chunk_idx := expected_chunk_idx t + 1 \<rparr>)"
  using assms by (auto simp: frame_store_def Let_def)

lemma of_nat16_less: "a < 65536 \<Longrightarrow> b < 65536 \<Longrightarrow> (of_nat a :: u16) < of_nat b \<longleftrightarrow> a < b"
  by (simp add: word_less_nat_alt unat_of_nat16)

lemma of_nat16_eq_0: "(of_nat c :: u16) = 0 \<longleftrightarrow> c = 0" if c: "c < 65536"
proof
  assume "(of_nat c :: u16) = 0"
  then have "unat (of_nat c :: u16) = 0" by simp
  with c show "c = 0" by (simp add: unat_of_nat16)
qed simp

text \<open>One packet in sequence, up to the store.\<close>

lemma packet_in_sequence:
  assumes fb: "length fb = 38400" and c: "c < 159" and r: "receiving fb fid c fs (l, t)"
  defines "rx \<equiv> frame_packet_bytes fb fid c"
  obtains l1 t1 where "frame_packet True True rx l t = (True, frame_store True rx l1 t1)"
    and "link_ready l1" "link_frames l1 = fs" "allocated_buffers l1 = allocated_buffers l" "frame_ready l1 = frame_ready l"
    and "in_sequence rx t1" and "assembling l1 t1 (map (chunk_payload fb) [0..<c])" and "expected_frame_id t1 = fid"
    and "expected_chunk_idx t1 = of_nat c" and "expected_total_chunks t1 = frame_total_chunks" and "assembly_active t1"
    and "unat (pkt_chunk_idx rx) * 242 + pkt_payload_len rx \<le> FRAME_BYTES"
proof -
  define l1 where "l1 = l\<lparr> counters := (counters l)\<lparr> total_packets := total_packets (counters l) + 1 \<rparr>, waiting_logged := False \<rparr>"
  note f = packet_fields[OF fb c, of fid, folded rx_def]
  obtain ps where rdy: "link_ready l" and asm: "assembling l t ps" and ps: "0 < c \<Longrightarrow> ps = map (chunk_payload fb) [0..<c]"
    using r by (auto simp: receiving_def)
  define t1 where "t1 = (if c = 0 then t\<lparr> target_idx := write_idx l, expected_frame_id := fid,
           expected_total_chunks := frame_total_chunks, expected_chunk_idx := 0,
           assembled_bytes := 0, assembly_active := True \<rparr> else t)"
  have z: "pkt_chunk_idx rx = 0 \<longleftrightarrow> c = 0" using c by (simp add: f(4) of_nat16_eq_0)
  have nf: "\<not> queueIsFull True l1"
    using rdy by (simp add: queueIsFull_def link_ready_def l1_def)
  have wi: "write_idx l1 = write_idx l" by (simp add: l1_def)
  have b: "frame_begin True rx l1 t = Some t1"
    using nf wi by (simp add: frame_begin_def z f(3,5) t1_def)
  have seq: "in_sequence rx t1"
    using r by (simp add: in_sequence_def f t1_def receiving_def)
  have "unat (pkt_chunk_idx rx) = c" using c by (simp add: f(4) unat_of_nat16)
  then have fit: "unat (pkt_chunk_idx rx) * 242 + pkt_payload_len rx \<le> FRAME_BYTES"
    using chunk_len_bounds(2)[OF c] by (simp add: f(6))
  have l1: "link_ready l1" "link_frames l1 = fs" "allocated_buffers l1 = allocated_buffers l" "frame_ready l1 = frame_ready l"
    using r by (simp_all add: l1_def link_ready_def receiving_def)
  have a1: "link_ring l1" "assembling l1 t ps" "frame_mutex l1"
    "True \<or> frame_ready l1 < allocated_buffers l1"
    using rdy asm by (simp_all add: l1_def link_ready_def)
  have "assembling l1 t1 (map (chunk_payload fb) [0..<c])"
    using begin_effect(1)[OF a1 b seq] z ps by (cases "c = 0") auto
  moreover have "frame_packet True True rx l t = (True, frame_store True rx l1 t1)"
    using f(8) b seq fit chunk_len_bounds(1)[of c]
    by (simp add: frame_packet_def pkt_valid_def l1_def[symmetric] Let_def f(6) not_less)
  moreover have "expected_frame_id t1 = fid" "expected_chunk_idx t1 = of_nat c"
    "expected_total_chunks t1 = frame_total_chunks" "assembly_active t1"
    using r by (auto simp: t1_def receiving_def)
  ultimately show ?thesis
    using that[OF _ l1 seq] fit by blast
qed

text \<open>A chunk that is not the last one.\<close>

lemma store_middle:
  assumes fb: "length fb = 38400" and c: "c < 158" and r: "receiving fb fid c fs (l, t)"
  shows "receiving fb fid (Suc c) fs (snd (frame_packet True True (frame_packet_bytes fb fid c) l t))"
proof -
  let ?rx = "frame_packet_bytes fb fid c"
  have c': "c < 159" using c by simp
  note f = packet_fields[OF fb c', of fid]
  obtain l1 t1 where p: "frame_packet True True ?rx l t = (True, frame_store True ?rx l1 t1)"
    and l1: "link_ready l1" "link_frames l1 = fs" "allocated_buffers l1 = allocated_buffers l" "frame_ready l1 = frame_ready l"
    and seq: "in_sequence ?rx t1" and asm: "assembling l1 t1 (map (chunk_payload fb) [0..<c])"
    and t1: "expected_frame_id t1 = fid" "expected_chunk_idx t1 = of_nat c" "expected_total_chunks t1 = frame_total_chunks"
      "assembly_active t1"
    and fit: "unat (pkt_chunk_idx ?rx) * 242 + pkt_payload_len ?rx \<le> FRAME_BYTES"
    by (rule packet_in_sequence[OF fb c' r])
  have "(of_nat c + 1 :: u16) < of_nat 159"
    using c of_nat16_less[of "Suc c" 159] by (simp add: add.commute)
  then have "expected_chunk_idx t1 + 1 < expected_total_chunks t1"
    by (simp add: t1 frame_total_chunks_def)
  from store_more[OF this, of True ?rx l1] obtain bs where
    st: "frame_store True ?rx l1 t1 = (l1\<lparr> frame_bufs := bs \<rparr>,
       t1\<lparr> assembled_bytes := assembled_bytes t1 + of_nat (pkt_payload_len ?rx), expected_chunk_idx := expected_chunk_idx t1 + 1 \<rparr>)"
    by blast
  define l2 where "l2 = l1\<lparr> frame_bufs := bs \<rparr>"
  define t2 where "t2 = t1\<lparr> assembled_bytes := assembled_bytes t1 + of_nat (pkt_payload_len ?rx),
    expected_chunk_idx := expected_chunk_idx t1 + 1 \<rparr>"
  note st' = st[folded l2_def t2_def]
  have ring: "link_ring l1" using l1 by (simp add: link_ready_def)
  have pl: "pkt_payload_len ?rx \<le> 242" by (simp add: f(6) chunk_len_bounds)
  note se = frame_store_effect[OF ring asm t1(4) seq f(1) pl fit st']
  have "link_frames l2 = fs"
    using se(3) c l1(2) by auto
  moreover have "link_ready l2"
    using se(1) l1(1) by (simp add: link_ready_def l2_def)
  moreover have "assembling l2 t2 (map (chunk_payload fb) [0..<Suc c])"
    using se(2) by (simp add: f(7))
  moreover have "assembly_active t2" "expected_frame_id t2 = fid" "expected_chunk_idx t2 = of_nat (Suc c)"
    "expected_total_chunks t2 = frame_total_chunks"
    by (simp_all add: t2_def t1 add.commute)
  ultimately show ?thesis
    by (simp only: receiving_def p st' snd_conv prod.case) blast
qed

text \<open>The last chunk publishes the frame.\<close>

lemma store_last:
  assumes fb: "length fb = 38400" and r: "receiving fb fid 158 fs (l, t)"
  obtains l2 t2 where "frame_packet True True (frame_packet_bytes fb fid 158) l t = (True, l2, t2)"
    and "link_ring l2" and "frame_mutex l2" and "link_frames l2 = fs @ [(fid, fb)]"
    and "\<And>ps. assembling l2 t2 ps" and "rx_buf_ok l2" and "tx_buf_ok l2"
    and "allocated_buffers l2 = allocated_buffers l" and "frame_ready l2 = Suc (frame_ready l)"
proof -
  let ?rx = "frame_packet_bytes fb fid 158" and ?ps = "map (chunk_payload fb) [0..<158]"
  have c': "(158::nat) < 159" by simp
  note f = packet_fields[OF fb c', of fid]
  obtain l1 t1 where p: "frame_packet True True ?rx l t = (True, frame_store True ?rx l1 t1)"
    and l1: "link_ready l1" "link_frames l1 = fs" "allocated_buffers l1 = allocated_buffers l" "frame_ready l1 = frame_ready l"
    and seq: "in_sequence ?rx t1" and asm: "assembling l1 t1 ?ps"
    and t1: "expected_frame_id t1 = fid" "expected_chunk_idx t1 = of_nat 158" "expected_total_chunks t1 = frame_total_chunks"
      "assembly_active t1"
    and fit: "unat (pkt_chunk_idx ?rx) * 242 + pkt_payload_len ?rx \<le> FRAME_BYTES"
    by (rule packet_in_sequence[OF fb c' r])
  have ring: "link_ring l1" using l1(1) by (simp add: link_ready_def)
  have pl: "pkt_payload_len ?rx \<le> 242" by (simp add: f(6) chunk_len_bounds)
  obtain l2 t2 where st: "frame_store True ?rx l1 t1 = (l2, t2)" by (cases "frame_store True ?rx l1 t1")
  note se = frame_store_effect[OF ring asm t1(4) seq f(1) pl fit st]
  have all: "concat (?ps @ [chunk_payload fb 158]) = fb"
    using chunk_payloads_frame[OF fb] upt_Suc_append[of 0 158] by (simp del: upt_Suc upt_rec_numeral)
  have "unat (assembled_bytes t1) = length (concat ?ps)"
    using asm t1(4) by (simp add: assembling_def length_concat)
  also have "\<dots> = 38236"
    using fb by (simp only: chunk_payloads_concat[OF fb order_refl]) simp
  finally have "unat (assembled_bytes t1) = unat (38236 :: u32)" by simp
  then have ab: "assembled_bytes t1 = 38236" by (simp only: word_unat_eq_iff)
  have le: "expected_total_chunks t1 \<le> expected_chunk_idx t1 + 1"
    by (simp add: t1 frame_total_chunks_def)
  obtain bs where d: "l2 = frame_publish fid (target_idx t1) (l1\<lparr> frame_bufs := bs \<rparr>)" and "\<not> assembly_active t2"
    using st le ab by (auto simp: frame_store_def Let_def t1 f(6) chunk_len_values drop_assembly_def)
  then have "completed_frames (counters l2) = completed_frames (counters l1) + 1" and n: "frame_ready l2 = Suc (frame_ready l1)"
    and b: "rx_buf_ok l2 = rx_buf_ok l1" "tx_buf_ok l2 = tx_buf_ok l1" "allocated_buffers l2 = allocated_buffers l1"
    using l1(1) by (simp_all add: frame_publish_def Let_def link_ready_def)
  then have "counters l2 \<noteq> counters l1" by auto
  then have "link_frames l2 = fs @ [(fid, fb)]"
    using se(3) l1(2) by (simp add: f(3,7)) (use all in simp)
  moreover have "assembling l2 t2 ps" for ps
    using \<open>\<not> assembly_active t2\<close> by (simp add: assembling_def)
  ultimately show ?thesis
    using that[of l2 t2] se(1,6) l1 n b p st by (simp add: link_ready_def)
qed

section \<open>A whole frame\<close>

text \<open>After a stored packet the task at most prints a summary.\<close>

lemma summary_shape:
  "\<exists>ms c. summary_if_changed l t = (l\<lparr> link_out := ms \<rparr>, t\<lparr> last_summary := c \<rparr>)"
proof (cases "counters l = last_summary t")
  case True
  then show ?thesis
    by (intro exI[of _ "link_out l"] exI[of _ "last_summary t"]) (simp add: summary_if_changed_def)
next
  case False
  then show ?thesis
    by (intro exI[of _ "link_out l @ [SummaryMsg (counters l) (frame_ready l)]"] exI[of _ "counters l"])
      (simp add: summary_if_changed_def logFrameLinkSummary_def link_print_def)
qed

lemma task_packet:
  assumes "link_ready l" and "frame_packet True True rx l t = (st, l1, t1)"
  obtains ms c w where "frameLinkTask (SpiOk rx) True True now now2 l t =
    (l1\<lparr> link_out := ms \<rparr>, t1\<lparr> last_summary := c, last_summary_tick := w \<rparr>)"
proof (cases "st \<and> now - last_summary_tick t1 \<ge> pdMS_TO_TICKS 2000")
  case True
  obtain ms c where "summary_if_changed l1 t1 = (l1\<lparr> link_out := ms \<rparr>, t1\<lparr> last_summary := c \<rparr>)"
    using summary_shape by blast
  then have "frameLinkTask (SpiOk rx) True True now now2 l t =
    (l1\<lparr> link_out := ms \<rparr>, t1\<lparr> last_summary := c, last_summary_tick := now2 \<rparr>)"
    using assms True by (simp add: frameLinkTask_def link_ready_def link_ring_def)
  then show ?thesis by (rule that)
next
  case False
  have "frameLinkTask (SpiOk rx) True True now now2 l t = (l1, t1)"
    using assms False by (auto simp: frameLinkTask_def link_ready_def link_ring_def)
  also have "\<dots> = (l1\<lparr> link_out := link_out l1 \<rparr>, t1\<lparr> last_summary := last_summary t1, last_summary_tick := last_summary_tick t1 \<rparr>)"
    by simp
  finally show ?thesis by (rule that)
qed

lemma receiving_frame:
  "receiving fb fid c fs (l\<lparr> link_out := ms \<rparr>, t\<lparr> last_summary := cs, last_summary_tick := w \<rparr>) = receiving fb fid c fs (l, t)"
  by (simp add: receiving_def link_ready_def)

lemma receiving_ready: "receiving fb fid c fs (l, t) \<Longrightarrow> link_ready l"
  by (simp add: receiving_def)

lemma link_receive_snoc:
  "link_receive now now2 (rxs @ [rx]) lt =
     (case link_receive now now2 rxs lt of (l, t) \<Rightarrow> frameLinkTask (SpiOk rx) True True now now2 l t)"
  by (simp add: link_receive_def)

lemma receive_middle:
  assumes "length fb = 38400" and "n \<le> 158" and "receiving fb fid 0 fs lt"
  shows "receiving fb fid n fs (link_receive now now2 (map (frame_packet_bytes fb fid) [0..<n]) lt)"
  using assms(2)
proof (induction n)
  case 0
  then show ?case using assms(3) by (simp add: link_receive_def)
next
  case (Suc n)
  obtain l t where lt: "link_receive now now2 (map (frame_packet_bytes fb fid) [0..<n]) lt = (l, t)" by fastforce
  obtain st l1 t1 where p: "frame_packet True True (frame_packet_bytes fb fid n) l t = (st, l1, t1)" by (metis prod_cases3)
  have r: "receiving fb fid n fs (l, t)" using Suc lt by simp
  have m: "receiving fb fid (Suc n) fs (l1, t1)"
    using store_middle[OF assms(1) _ r] Suc.prems p by simp
  obtain ms c w where "frameLinkTask (SpiOk (frame_packet_bytes fb fid n)) True True now now2 l t =
    (l1\<lparr> link_out := ms \<rparr>, t1\<lparr> last_summary := c, last_summary_tick := w \<rparr>)"
    by (rule task_packet[OF receiving_ready[OF r] p])
  then show ?case
    using m by (simp add: link_receive_snoc lt receiving_frame)
qed

lemma receive_frame:
  assumes fb: "length fb = 38400" and r0: "receiving fb fid 0 fs (l0, t0)"
  shows "link_frames (fst (link_receive now now2 (map (frame_packet_bytes fb fid) [0..<159]) (l0, t0))) = fs @ [(fid, fb)]"
proof -
  obtain l t where lt: "link_receive now now2 (map (frame_packet_bytes fb fid) [0..<158]) (l0, t0) = (l, t)" by fastforce
  have r: "receiving fb fid 158 fs (l, t)" using receive_middle[OF fb order_refl r0, of now now2] lt by simp
  obtain l1 t1 where p: "frame_packet True True (frame_packet_bytes fb fid 158) l t = (True, l1, t1)"
    and f: "link_frames l1 = fs @ [(fid, fb)]"
    by (rule store_last[OF fb r])
  obtain ms c w where "frameLinkTask (SpiOk (frame_packet_bytes fb fid 158)) True True now now2 l t =
    (l1\<lparr> link_out := ms \<rparr>, t1\<lparr> last_summary := c, last_summary_tick := w \<rparr>)"
    by (rule task_packet[OF receiving_ready[OF r] p])
  moreover have "map (frame_packet_bytes fb fid) [0..<159] =
      map (frame_packet_bytes fb fid) [0..<158] @ [frame_packet_bytes fb fid 158]"
    using upt_Suc_append[of 0 158] by (simp del: upt_Suc upt_rec_numeral)
  ultimately show ?thesis
    using f by (simp only: link_receive_snoc lt prod.case fst_conv link_frames_frame)
qed

lemma send_chunks_all: "(\<forall>c. spi_ok c) \<Longrightarrow> send_chunks spi_ok fb fid cs = (0, map (frame_packet_bytes fb fid) cs)"
  by (induction cs) auto

lemma send_frame_packets:
  "sendFrameOverSpi True (\<lambda>_. True) frame fid = (0, map (frame_packet_bytes (le_bytes frame) fid) [0..<159])"
  by (simp add: sendFrameOverSpi_def send_chunks_all del: upt_rec_numeral)

section \<open>The receive buffers stay allocated\<close>

definition bufs_ok :: "link \<Rightarrow> bool" where
  "bufs_ok l \<longleftrightarrow> rx_buf_ok l \<and> tx_buf_ok l"

lemma bufs_frame [simp]:
  "bufs_ok (l\<lparr> counters := c \<rparr>) = bufs_ok l" "bufs_ok (l\<lparr> waiting_logged := b \<rparr>) = bufs_ok l"
  "bufs_ok (l\<lparr> frame_bufs := bs \<rparr>) = bufs_ok l" "bufs_ok (link_print m l) = bufs_ok l"
  "bufs_ok (count_bad f l) = bufs_ok l" "bufs_ok (frame_publish fid i l) = bufs_ok l"
  "bufs_ok (fst (frame_store lock rx l t)) = bufs_ok l" "bufs_ok (fst (summary_if_changed l t)) = bufs_ok l"
  "bufs_ok (frameLinkReleaseReadyFrame lock k l) = bufs_ok l"
  "bufs_ok (snd (frameLinkAcquireReadyFrame lock stale l)) = bufs_ok l"
  by (simp_all add: bufs_ok_def link_print_def count_bad_def frame_publish_def frame_store_def
      summary_if_changed_def logFrameLinkSummary_def frameLinkReleaseReadyFrame_def
      frameLinkAcquireReadyFrame_def drop_stale_def Let_def)

lemma bufs_packet [simp]: "bufs_ok (fst (snd (frame_packet lock1 lock2 rx l t))) = bufs_ok l"
  by (simp add: frame_packet_def Let_def split: option.split)

lemma bufs_failed [simp]: "bufs_ok (fst (frame_spi_failed b now now2 l t)) = bufs_ok l"
  by (simp add: frame_spi_failed_def Let_def split_beta)

lemma bufs_task [simp]: "bufs_ok (fst (frameLinkTask res lock1 lock2 now now2 l t)) = bufs_ok l"
  by (simp add: frameLinkTask_def Let_def split_beta split: spi_result.split)

lemma alloc_bufs: "bufs_ok (l\<lparr> rx_buf_ok := True, tx_buf_ok := True \<rparr>)"
  by (simp add: bufs_ok_def)

lemma reachable_bufs: "link_reachable x \<Longrightarrow> bufs_ok (fst x)"
proof (induction rule: link_reachable.induct)
  case (init ms l now)
  then show ?case
    by (auto simp: frameLinkInit_def Let_def) (auto simp: bufs_ok_def)
next
  case (step x y)
  from step(2,3) show ?case
  proof cases
    case (receive lock1 l res lock2 now now2 t l' t' h ps)
    then show ?thesis using step(3) bufs_task[of res lock1 lock2 now now2 l t] by simp
  next
    case (acquire lock stale l r l' t ps)
    then show ?thesis using step(3) bufs_frame(10)[of lock stale l] by simp
  qed simp_all
qed

lemma reachable_receiving:
  assumes "link_reachable (l, t, h, ps)" and "frame_ready l < allocated_buffers l"
  shows "link_ready l"
  using link_reachable_inv[OF assms(1)] reachable_bufs[OF assms(1)] assms(2)
  by (simp add: link_inv_def link_ready_def bufs_ok_def)

end
