(* ===== verification/LinkProps.thy ===== *)
theory LinkProps imports LinkTransport begin

text \<open>
  Properties of the frame link: transport of a whole frame, exactness of what is
  published, ownership of held frames, order of the ring, detection of corrupted
  payloads, and the accounting of packets.
\<close>

section \<open>Checksums and accounting\<close>

lemma calcChecksum_sum: "calcChecksum data len = sum_list (map ucast (take len data))"
  by (simp add: calcChecksum_def ucast_low16 ucast_byte_sum)

lemma checksum_change:
  assumes "i < len" and "i < length data" and "b \<noteq> data ! i"
  shows "calcChecksum (data[i := b]) len \<noteq> calcChecksum data len"
proof -
  have "(ucast b :: u16) \<noteq> ucast (data ! i)"
    using assms(3) by (simp add: ucast_8_16_inj)
  moreover have "take len (data[i := b]) = (take len data)[i := b]"
    by (simp add: take_update_swap)
  ultimately show ?thesis
    using assms(1,2) by (simp add: calcChecksum_sum sum_list_change)
qed

definition error_count :: "link_counters \<Rightarrow> u32" where
  "error_count c = bad_magic c + bad_payload_len c + bad_checksum c + seq_errors c + queue_full_drops c"

lemma publish_errors: "error_count (counters (frame_publish fid k l)) = error_count (counters l)"
  "total_packets (counters (frame_publish fid k l)) = total_packets (counters l)"
  by (simp_all add: frame_publish_def error_count_def Let_def)

lemma store_errors:
  assumes "frame_store lock rx l t = (l', t')"
  shows "error_count (counters l') = error_count (counters l)" and "total_packets (counters l') = total_packets (counters l)"
  using assms by (auto simp: frame_store_def Let_def publish_errors split: if_splits)

lemma drop_inactive [simp]: "\<not> assembly_active (drop_assembly t)"
  by (simp add: drop_assembly_def)

lemma error_count_bump [simp]:
  "error_count (c\<lparr> total_packets := n \<rparr>) = error_count c"
  "error_count (c\<lparr> bad_magic := bad_magic c + 1 \<rparr>) = error_count c + 1"
  "error_count (c\<lparr> bad_payload_len := bad_payload_len c + 1 \<rparr>) = error_count c + 1"
  "error_count (c\<lparr> bad_checksum := bad_checksum c + 1 \<rparr>) = error_count c + 1"
  "error_count (c\<lparr> seq_errors := seq_errors c + 1 \<rparr>) = error_count c + 1"
  "error_count (c\<lparr> queue_full_drops := queue_full_drops c + 1 \<rparr>) = error_count c + 1"
  "error_count (c\<lparr> total_packets := n, bad_magic := bad_magic c + 1 \<rparr>) = error_count c + 1"
  "error_count (c\<lparr> total_packets := n, bad_payload_len := bad_payload_len c + 1 \<rparr>) = error_count c + 1"
  "error_count (c\<lparr> total_packets := n, bad_checksum := bad_checksum c + 1 \<rparr>) = error_count c + 1"
  "error_count (c\<lparr> total_packets := n, seq_errors := seq_errors c + 1 \<rparr>) = error_count c + 1"
  "error_count (c\<lparr> total_packets := n, queue_full_drops := queue_full_drops c + 1 \<rparr>) = error_count c + 1"
  by (simp_all add: error_count_def)

section \<open>Example states\<close>

definition example_buf :: bytes where
  "example_buf = replicate 38400 0"

definition example_link :: link where
  "example_link = frameLinkInit [Some example_buf, None, None] True True True link_reset"

lemma example_alloc: "allocated_buffers example_link = 1" "frame_ready example_link = 0"
  by (simp_all add: example_link_def frameLinkInit_def link_reset_def Let_def link_print_def numeral_3_eq_3)

lemma example_buf_length: "length example_buf = 38400"
  by (simp add: example_buf_def)

lemma example_reachable: "link_reachable (example_link, link_task_start 0, None, [])"
  using example_alloc example_buf_length
  by (intro link_reachable.init[of "[Some example_buf, None, None]"]) (simp_all add: example_link_def)

lemma example_frames: "link_frames example_link = []"
  using example_alloc(2) by (metis length_link_frames list.size(3) length_0_conv)

text \<open>Receiving packets are steps of the system.\<close>

lemma receive_reachable:
  assumes "link_reachable (l, t, h, ps)" and "list_all (\<lambda>rx. length rx = 256) rxs"
  shows "\<exists>ps'. link_reachable (fst (link_receive now now2 rxs (l, t)), snd (link_receive now now2 rxs (l, t)), h, ps')"
  using assms
proof (induction rxs arbitrary: l t ps)
  case Nil
  then show ?case by (auto simp: link_receive_def)
next
  case (Cons rx rxs)
  obtain l1 t1 where lt: "frameLinkTask (SpiOk rx) True True now now2 l t = (l1, t1)" by fastforce
  have "link_step (l, t, h, ps) (l1, t1, h, task_history l (SpiOk rx) ps)"
    using Cons.prems(2) lt by (intro link_step.receive[of True]) auto
  from link_reachable.step[OF Cons.prems(1) this] Cons.IH[of l1 t1] Cons.prems(2) lt
  show ?case by (simp add: link_receive_def)
qed

text \<open>The number of buffers never changes after initialisation.\<close>

lemma alloc_frame [simp]:
  "allocated_buffers (count_bad f l) = allocated_buffers l"
  "allocated_buffers (frame_publish fid k l) = allocated_buffers l"
  "allocated_buffers (fst (frame_store lock rx l t)) = allocated_buffers l"
  "allocated_buffers (fst (summary_if_changed l t)) = allocated_buffers l"
  by (simp_all add: count_bad_def frame_publish_def frame_store_def summary_if_changed_def
      logFrameLinkSummary_def Let_def)

lemma alloc_packet [simp]: "allocated_buffers (fst (snd (frame_packet lock1 lock2 rx l t))) = allocated_buffers l"
  by (simp add: frame_packet_def Let_def split: option.split)

lemma alloc_task: "allocated_buffers (fst (frameLinkTask (SpiOk rx) lock1 lock2 now now2 l t)) = allocated_buffers l"
  using alloc_packet[of lock1 lock2 rx l t] by (simp add: frameLinkTask_def Let_def split_beta del: alloc_packet)

lemma receive_alloc: "allocated_buffers (fst (link_receive now now2 rxs lt)) = allocated_buffers (fst lt)"
proof (induction rxs arbitrary: lt)
  case (Cons rx rxs)
  obtain l t where lt: "lt = (l, t)" by (cases lt)
  from Cons[of "frameLinkTask (SpiOk rx) True True now now2 l t"] show ?case
    using alloc_task[of rx True True now now2 l t] by (simp add: link_receive_def lt)
qed (simp add: link_receive_def)

definition example_packets :: "bytes list" where
  "example_packets = map (frame_packet_bytes (le_bytes (replicate 19200 0)) 7) [0..<159]"

definition example_full :: "link \<times> link_task" where
  "example_full = link_receive 0 0 example_packets (example_link, link_task_start 0)"

lemma packets_length: "length fb = 38400 \<Longrightarrow> list_all (\<lambda>rx. length rx = 256) (map (frame_packet_bytes fb fid) [0..<159])"
  by (auto simp: list_all_iff packet_fields(1) simp del: upt_rec_numeral)

lemma example_full_reachable: "\<exists>ps. link_reachable (fst example_full, snd example_full, None, ps)"
  unfolding example_full_def example_packets_def
  by (intro receive_reachable[OF example_reachable] packets_length) simp

lemma receiving_start:
  assumes "link_reachable (l, t, h, ps)" and "frame_ready l < allocated_buffers l"
  shows "receiving fb fid 0 (link_frames l) (l, t)"
  using reachable_receiving[OF assms(1,2)] link_reachable_inv[OF assms(1)]
  by (auto simp: receiving_def link_inv_def)

lemma example_full_frames: "link_frames (fst example_full) = [(7, le_bytes (replicate 19200 0))]"
proof -
  have "receiving (le_bytes (replicate 19200 0)) 7 0 [] (example_link, link_task_start 0)"
    using receiving_start[OF example_reachable] example_alloc example_frames by simp
  from receive_frame[OF _ this, of 0 0] show ?thesis
    by (simp add: example_full_def example_packets_def del: upt_rec_numeral)
qed

section \<open>Properties\<close>

text \<open>C1: A frame the Teensy sends packet by packet, received in order by the ESP32 while its ring has a
  free slot, is appended to the ring with its id and exactly its bytes, whatever was being assembled
  before.\<close>

theorem frame_transported:
  assumes "link_reachable (l, t, h, ps)" and "frame_ready l < allocated_buffers l"
    and "length frame = 19200" and "sendFrameOverSpi True (\<lambda>_. True) frame fid = (0, pkts)"
  shows "link_frames (fst (link_receive now now2 pkts (l, t))) = link_frames l @ [(fid, le_bytes frame)]"
proof -
  have "pkts = map (frame_packet_bytes (le_bytes frame) fid) [0..<159]"
    using assms(4) by (simp add: send_frame_packets del: upt_rec_numeral)
  then show ?thesis
    using receive_frame[OF _ receiving_start[OF assms(1,2)], of "le_bytes frame" now now2 fid] assms(3) by simp
qed

theorem frame_transported_witness:
  "link_frames (fst (link_receive 0 0 (snd (sendFrameOverSpi True (\<lambda>_. True) (replicate 19200 3000) 7))
     (example_link, link_task_start 0))) = [(7, le_bytes (replicate 19200 3000))]"
proof -
  have "sendFrameOverSpi True (\<lambda>_. True) (replicate 19200 3000) 7 =
    (0, snd (sendFrameOverSpi True (\<lambda>_. True) (replicate 19200 3000) 7))"
    by (simp add: send_frame_packets del: upt_rec_numeral)
  from frame_transported[OF example_reachable _ _ this, of 0 0] show ?thesis
    using example_alloc example_frames by simp
qed





text \<open>The ring of frame buffers behaves as a bounded queue: frames offered to it come out in order,
  and those that find it full are refused.\<close>

theorem frame_ring_keeps_order:
  assumes "link_reachable (l, t, h, ps)" and "list_all (\<lambda>f. length (snd f) = FRAME_BYTES) fs"
  shows "link_frames (fold (\<lambda>f. snd \<circ> frame_offer f) fs l) = take (allocated_buffers l) (link_frames l @ fs)"
  using frame_fifo.push_all[of l "allocated_buffers l" fs] link_reachable_inv[OF assms(1)] assms(2)
  by (simp add: link_inv_def)

theorem frame_ring_keeps_order_witness:
  "link_frames (fold (\<lambda>f. snd \<circ> frame_offer f) [(1, example_buf), (2, example_buf)] example_link) = [(1, example_buf)]"
  using frame_ring_keeps_order[OF example_reachable, of "[(1, example_buf), (2, example_buf)]"]
    example_buf_length example_alloc example_frames by simp

text \<open>A packet with one corrupted payload byte is never stored: the checksum differs, the packet is
  counted as bad, the assembly is abandoned and the ring is unchanged.\<close>

theorem corrupted_byte_detected:
  assumes "pkt_valid rx" and "length rx = 256" and "i < pkt_payload_len rx" and "b \<noteq> rx ! (14 + i)"
    and "frame_packet lock1 lock2 (rx[14 + i := b]) l t = (stored, l', t')"
  shows "\<not> stored \<and> link_frames l' = link_frames l \<and> \<not> assembly_active t' \<and>
    bad_checksum (counters l') = bad_checksum (counters l) + 1"
proof -
  let ?rx = "rx[14 + i := b]"
  have rd: "readU16Be ?rx k = readU16Be rx k" if "k < 13" for k
    using that by (simp add: readU16Be_def)
  have same: "pkt_magic_ok ?rx = pkt_magic_ok rx" "pkt_payload_len ?rx = pkt_payload_len rx" "pkt_checksum ?rx = pkt_checksum rx"
    by (simp_all add: pkt_magic_ok_def pkt_payload_len_def pkt_checksum_def rd)
  have len: "pkt_payload_len rx \<le> 242" using assms(1) by (simp add: pkt_valid_def)
  have "calcChecksum (drop 14 ?rx) (pkt_payload_len rx) \<noteq> calcChecksum (drop 14 rx) (pkt_payload_len rx)"
    using checksum_change[of i "pkt_payload_len rx" "drop 14 rx" b] assms(2-4) len by (simp add: drop_update_swap)
  then show ?thesis
    using assms(1,5) len by (auto simp: frame_packet_def same pkt_valid_def count_bad_def Let_def)
qed

theorem corrupted_byte_detected_witness:
  "\<not> fst (frame_packet True True ((frame_packet_bytes (replicate 38400 5) 1 0)[14 := 6]) example_link (link_task_start 0))"
proof -
  let ?rx = "frame_packet_bytes (replicate 38400 5) 1 0"
  have c: "(0::nat) < 159" by simp
  note f = packet_fields[of "replicate 38400 5" 0 1, OF _ c]
  have "?rx ! 14 = pkt_payload ?rx ! 0"
    using f(1,6) by (simp add: pkt_payload_def chunk_len_values)
  also have "\<dots> = 5"
    using f(7) by (simp add: chunk_payload_def chunk_len_values nth_append)
  finally have n: "6 \<noteq> ?rx ! (14 + 0)" by simp
  obtain st l' t' where p: "frame_packet True True (?rx[14 + 0 := 6]) example_link (link_task_start 0) = (st, l', t')"
    by (metis prod_cases3)
  from corrupted_byte_detected[OF f(8) f(1) _ n p] f(6) p show ?thesis
    by (simp add: chunk_len_values)
qed

text \<open>Every received packet is counted exactly once, and it is either stored with no error counted, or
  exactly one error is counted and the assembly is abandoned.\<close>

theorem packet_accounted:
  "case frame_packet lock1 lock2 rx l t of (stored, l', t') \<Rightarrow>
     total_packets (counters l') = total_packets (counters l) + 1 \<and>
     (if stored then error_count (counters l') = error_count (counters l)
      else error_count (counters l') = error_count (counters l) + 1 \<and> \<not> assembly_active t')"
proof -
  let ?l = "l\<lparr> counters := (counters l)\<lparr> total_packets := total_packets (counters l) + 1 \<rparr>, waiting_logged := False \<rparr>"
  have st: "error_count (counters l') = error_count (counters l) \<and> total_packets (counters l') = total_packets (counters l) + 1"
    if "frame_store lock2 rx ?l t1 = (l', t')" for t1 l' t'
    using store_errors[OF that] by simp
  show ?thesis
    unfolding frame_packet_def Let_def count_bad_def
    by (auto split: option.split prod.split dest: st)
qed

text \<open>C40: The check for a full ring fails open: when the mutex is not obtained in time it answers that the
  ring is not full, and on a full ring the receiver then assembles the next frame into the buffer of
  the oldest frame, the one a consumer may be holding.\<close>

theorem full_check_timeout_overwrites:
  assumes "link_reachable (l, t, Some (buf, fid, k), ps)" and "frame_ready l = allocated_buffers l"
    and "pkt_chunk_idx rx = 0"
  shows "\<exists>t1. frame_begin False rx l t = Some t1 \<and> assembly_active t1 \<and> target_idx t1 = nat k \<and>
    frame_begin True rx l t = None"
proof -
  have ring: "link_ring l" and h: "frame_ready l > 0" "read_idx l = k" and m: "frame_mutex l"
    using link_reachable_inv[OF assms(1)] by (simp_all add: link_inv_def held_ok_def)
  have "write_idx l = (nat k + allocated_buffers l) mod allocated_buffers l" "nat k < allocated_buffers l"
    using ring h assms(2) by (auto simp: link_ring_def)
  then have "write_idx l = nat k" by simp
  then show ?thesis
    using assms(2,3) h(1) m by (simp add: frame_begin_def queueIsFull_def)
qed

theorem full_check_timeout_overwrites_witness:
  "\<exists>buf fid k t1. fst (frameLinkAcquireReadyFrame True True (fst example_full)) = Some (buf, fid, k) \<and>
     frame_begin False (replicate 256 0) (snd (frameLinkAcquireReadyFrame True True (fst example_full)))
       (snd example_full) = Some t1 \<and> target_idx t1 = nat k"
proof -
  obtain ps where r: "link_reachable (fst example_full, snd example_full, None, ps)"
    using example_full_reachable by blast
  obtain a m where a: "frameLinkAcquireReadyFrame True True (fst example_full) = (a, m)" by fastforce
  have i: "link_ring (fst example_full)" "frame_mutex (fst example_full)"
    using link_reachable_inv[OF r] by (simp_all add: link_inv_def)
  have n: "frame_ready (fst example_full) = 1"
    using example_full_frames by (metis length_link_frames length_Cons list.size(3) One_nat_def)
  then obtain buf fid k where s: "a = Some (buf, fid, k)"
    using acquire_ring(4)[OF i(1) a] i(2) by (cases a) auto
  have st: "link_step (fst example_full, snd example_full, None, ps) (m, snd example_full, Some (buf, fid, k), ps)"
    using a s by (intro link_step.acquire) simp
  note r2 = link_reachable.step[OF r st]
  have alloc: "allocated_buffers (fst example_full) = 1"
    unfolding example_full_def by (simp add: receive_alloc example_alloc)
  have "frame_ready m > 0"
    using link_reachable_inv[OF r2] by (simp add: link_inv_def held_ok_def)
  then have "frame_ready m = allocated_buffers m"
    using acquire_same(4,5)[OF a] n alloc by simp
  from full_check_timeout_overwrites[OF r2 this, of "replicate 256 0"] show ?thesis
    using a s by (auto simp: pkt_chunk_idx_def readU16Be_def)
qed

end
