(* ===== verification/TeensyCapture.thy ===== *)
theory TeensyCapture imports TeensySend begin

text \<open>
  The capturing half of the Teensy node: \<^verbatim>\<open>captureFrame\<close> synchronises on the packets of the
  Lepton sensor (VoSPI) and assembles four segments of 60 packets of 80 pixels. Every round
  of its loop reads the elapsed time and one packet; both are inputs.
\<close>

abbreviation (input) PACKET_SIZE :: nat where "PACKET_SIZE \<equiv> 164"
abbreviation (input) PACKETS_PER_SEG :: nat where "PACKETS_PER_SEG \<equiv> 60"
abbreviation (input) PIXELS_PER_PKT :: nat where "PIXELS_PER_PKT \<equiv> 80"
abbreviation (input) NUM_SEGMENTS :: nat where "NUM_SEGMENTS \<equiv> 4"

section \<open>Model\<close>

record capture =
  frame_buffer :: "u16 list"
  segmentBuffer :: "u16 list list"
  current_seg :: nat
  expected_seg :: nat
  expected_packet :: nat
  local_discards :: u32
  frame_started :: bool
  segment_active :: bool

definition zero_frame :: "u16 list" where
  "zero_frame = replicate LEP_FRAME_SIZE 0"

definition capture_start :: "u16 list list \<Rightarrow> capture" where
  "capture_start segbuf = \<lparr> frame_buffer = zero_frame, segmentBuffer = segbuf, current_seg = 0,
     expected_seg = 1, expected_packet = 0, local_discards = 0, frame_started = False, segment_active = False \<rparr>"

text \<open>The pixels of a packet, byte-swapped as they are stored.\<close>

definition packet_pixels :: "bytes \<Rightarrow> u16 list" where
  "packet_pixels raw = map (\<lambda>i. push_bit 8 (ucast (raw ! (5 + i * 2))) OR ucast (raw ! (4 + i * 2))) [0..<PIXELS_PER_PKT]"

definition copySegmentToFrame :: "nat \<Rightarrow> u16 list list \<Rightarrow> u16 list \<Rightarrow> u16 list" where
  "copySegmentToFrame segment_idx segbuf frame =
     fold (\<lambda>packet_idx frame. memcpy_at frame
         ((segment_idx - 1) * PACKETS_PER_SEG * PIXELS_PER_PKT + packet_idx * PIXELS_PER_PKT) (segbuf ! packet_idx))
       [0..<PACKETS_PER_SEG] frame"

definition discard_one :: "capture \<Rightarrow> capture" where
  "discard_one c = c\<lparr> local_discards := local_discards c + 1 \<rparr>"

definition lose_sync :: "capture \<Rightarrow> capture" where
  "lose_sync c = c\<lparr> segment_active := False, expected_packet := 0 \<rparr>"

definition raw_discard :: "bytes \<Rightarrow> bool" where
  "raw_discard raw \<longleftrightarrow> raw ! 0 AND 0x0F = 0x0F"

definition raw_index :: "bytes \<Rightarrow> nat" where
  "raw_index raw = unat (raw ! 1)"

definition raw_segment :: "bytes \<Rightarrow> nat" where
  "raw_segment raw = unat (drop_bit 4 (raw ! 0) AND 0x07)"

text \<open>Lines 433-465: the last packet of a segment. The boolean tells that the frame is complete.\<close>

definition capture_segment_end :: "capture \<Rightarrow> bool \<times> capture" where
  "capture_segment_end c =
     (let c = lose_sync c
      in if current_seg c = 0 then (False, discard_one c)
      else if (\<not> frame_started c \<or> current_seg c \<noteq> expected_seg c) \<and> current_seg c \<noteq> 1 then
        (False, (discard_one c)\<lparr> frame_started := False, expected_seg := 1, current_seg := 0 \<rparr>)
      else
        let c = (if \<not> frame_started c \<or> current_seg c \<noteq> expected_seg c
                 then c\<lparr> frame_buffer := zero_frame, frame_started := True, expected_seg := 1 \<rparr> else c);
            c = c\<lparr> frame_buffer := copySegmentToFrame (current_seg c) (segmentBuffer c) (frame_buffer c) \<rparr>
        in if current_seg c = NUM_SEGMENTS then (True, c)
           else (False, c\<lparr> expected_seg := current_seg c + 1, current_seg := 0 \<rparr>))"

text \<open>Lines 412-431: a packet in sequence is stored, and packet 20 names the segment.\<close>

definition capture_store :: "bytes \<Rightarrow> capture \<Rightarrow> bool \<times> capture" where
  "capture_store raw c =
     (let idx = raw_index raw;
          c = c\<lparr> segmentBuffer := (segmentBuffer c)[idx := packet_pixels raw] \<rparr>
      in if idx = 20 \<and> \<not> (raw_segment raw > 0 \<and> raw_segment raw \<le> NUM_SEGMENTS) then
           (False, (lose_sync (discard_one c))\<lparr> current_seg := 0 \<rparr>)
      else
        let c = (if idx = 20 then c\<lparr> current_seg := raw_segment raw \<rparr> else c);
            c = c\<lparr> expected_packet := expected_packet c + 1 \<rparr>
        in if idx = PACKETS_PER_SEG - 1 then capture_segment_end c else (False, c))"

text \<open>Lines 377-465: one packet read from the sensor.\<close>

definition capture_packet :: "bytes \<Rightarrow> capture \<Rightarrow> bool \<times> capture" where
  "capture_packet raw c =
     (if raw_discard raw then (False, lose_sync (discard_one c))
      else if raw_index raw \<ge> PACKETS_PER_SEG then (False, lose_sync (discard_one c))
      else if \<not> segment_active c \<and> raw_index raw \<noteq> 0 then (False, discard_one c)
      else
        let c = (if \<not> segment_active c
                 then c\<lparr> segment_active := True, expected_packet := 0, current_seg := 0 \<rparr> else c)
        in if raw_index raw \<noteq> expected_packet c
           then (False, (lose_sync (discard_one c))\<lparr> current_seg := 0 \<rparr>)
           else capture_store raw c)"

datatype lepton_read = ReadOk bytes | ReadFailed

text \<open>
  The loop, over the rounds \<open>(elapsed milliseconds, read)\<close>: the result of \<^verbatim>\<open>captureFrame\<close>
  and the state, or \<open>None\<close> when the rounds given are not enough to return.
\<close>

fun capture_loop :: "(u32 \<times> lepton_read) list \<Rightarrow> capture \<Rightarrow> bool option \<times> capture" where
  "capture_loop [] c = (None, c)"
| "capture_loop ((elapsed, r) # rounds) c =
     (if elapsed > 3000 then (Some False, c)
      else case r of
        ReadFailed \<Rightarrow> capture_loop rounds (discard_one c)
      | ReadOk raw \<Rightarrow> (case capture_packet raw c of
          (True, c) \<Rightarrow> (Some True, c)
        | (False, c) \<Rightarrow> capture_loop rounds c))"

definition captureFrame :: "(u32 \<times> lepton_read) list \<Rightarrow> u16 list list \<Rightarrow> bool option \<times> capture" where
  "captureFrame rounds segbuf = capture_loop rounds (capture_start segbuf)"

section \<open>What the buffers hold\<close>

text \<open>
  History variables: the packets stored since packet 0 of the current segment, and the
  packets of the segments copied into the current frame.
\<close>

definition seg_packets_ok :: "nat \<Rightarrow> bytes list \<Rightarrow> bool" where
  "seg_packets_ok j ps \<longleftrightarrow> length ps = 60 \<and> (\<forall>k<60. raw_index (ps ! k) = k \<and> \<not> raw_discard (ps ! k)) \<and>
     raw_segment (ps ! 20) = j"

definition capture_ok :: "capture \<Rightarrow> bytes list \<Rightarrow> bytes list list \<Rightarrow> bool" where
  "capture_ok c ps segs \<longleftrightarrow>
     length (frame_buffer c) = LEP_FRAME_SIZE \<and> length (segmentBuffer c) = 60 \<and>
     list_all (\<lambda>row. length row = 80) (segmentBuffer c) \<and>
     (segment_active c \<longrightarrow> length ps = expected_packet c \<and> length ps < 60 \<and>
        (\<forall>k<length ps. raw_index (ps ! k) = k \<and> \<not> raw_discard (ps ! k) \<and> segmentBuffer c ! k = packet_pixels (ps ! k)) \<and>
        current_seg c = (if length ps > 20 then raw_segment (ps ! 20) else 0) \<and> current_seg c \<le> 4) \<and>
     (frame_started c \<longrightarrow> 1 < expected_seg c \<and> expected_seg c \<le> 4 \<and> length segs = expected_seg c - 1 \<and>
        (\<forall>j<length segs. seg_packets_ok (Suc j) (segs ! j)) \<and>
        take (4800 * length segs) (frame_buffer c) = concat (map (concat \<circ> map packet_pixels) segs))"

lemma length_packet_pixels [simp]: "length (packet_pixels raw) = 80"
  by (simp add: packet_pixels_def)

lemma length_concat_rows: "list_all (\<lambda>row. length row = n) xs \<Longrightarrow> length (concat xs) = n * length xs"
  by (induction xs) auto

text \<open>Copying a segment: the rows of the segment buffer, one after the other.\<close>

lemma copy_rows:
  assumes "length frame = LEP_FRAME_SIZE" and "length segbuf = 60" and "list_all (\<lambda>row. length row = 80) segbuf"
    and "off + 80 * n \<le> LEP_FRAME_SIZE" and "n \<le> 60"
  shows "fold (\<lambda>k frame. memcpy_at frame (off + k * 80) (segbuf ! k)) [0..<n] frame
    = memcpy_at frame off (concat (take n segbuf))"
  using assms(4,5)
proof (induction n)
  case 0
  then show ?case by (simp add: memcpy_at_def)
next
  case (Suc n)
  have row: "length (segbuf ! n) = 80"
    using assms(2,3) Suc.prems by (simp add: list_all_length)
  have len: "length (concat (take n segbuf)) = 80 * n"
  proof -
    have "list_all (\<lambda>row. length row = 80) (take n segbuf)"
      using assms(3) by (auto simp: list_all_iff dest: in_set_takeD)
    from length_concat_rows[OF this] show ?thesis using assms(2) Suc.prems by simp
  qed
  have "memcpy_at (memcpy_at frame off (concat (take n segbuf))) (off + n * 80) (segbuf ! n)
    = memcpy_at frame off (concat (take n segbuf) @ segbuf ! n)"
    using len row assms(1) Suc.prems by (simp add: memcpy_at_def ac_simps)
  moreover have "take (Suc n) segbuf = take n segbuf @ [segbuf ! n]"
    using assms(2) Suc.prems by (simp add: take_Suc_conv_app_nth)
  ultimately show ?case
    using Suc by simp
qed

lemma copy_segment:
  assumes "length frame = LEP_FRAME_SIZE" and "length segbuf = 60" and "list_all (\<lambda>row. length row = 80) segbuf"
    and "1 \<le> j" and "j \<le> 4"
  shows "copySegmentToFrame j segbuf frame = memcpy_at frame (4800 * (j - 1)) (concat segbuf)"
    and "length (copySegmentToFrame j segbuf frame) = LEP_FRAME_SIZE"
    and "take (4800 * j) (copySegmentToFrame j segbuf frame) = take (4800 * (j - 1)) frame @ concat segbuf"
proof -
  have fit: "4800 * (j - 1) + 80 * 60 \<le> LEP_FRAME_SIZE" using assms(4,5) by simp
  have lc: "length (concat segbuf) = 4800"
    using length_concat_rows[OF assms(3)] assms(2) by simp
  show eq: "copySegmentToFrame j segbuf frame = memcpy_at frame (4800 * (j - 1)) (concat segbuf)"
    using copy_rows[OF assms(1,2,3) fit] assms(2)
    by (simp add: copySegmentToFrame_def mult.commute)
  show "length (copySegmentToFrame j segbuf frame) = LEP_FRAME_SIZE"
    using fit lc assms(1) by (simp add: eq)
  have "4800 * j = 4800 * (j - 1) + 4800" using assms(4) by (simp add: algebra_simps)
  then show "take (4800 * j) (copySegmentToFrame j segbuf frame) = take (4800 * (j - 1)) frame @ concat segbuf"
    using fit lc assms(1) by (simp add: eq memcpy_at_def)
qed

end
