(* ===== verification/TeensyPool.thy ===== *)
theory TeensyPool imports TeensyCapture RingFifo "HOL-Library.Multiset" "HOL-Library.Sublist" begin

text \<open>
  The two threads of the Teensy node, \<^verbatim>\<open>main\<close> (after its initialisation) and
  \<^verbatim>\<open>frameSenderThread\<close>: they pass the indices of three frame buffers through two Zephyr message
  queues. Every access to a queue is one step, so that the threads interleave between any two
  of them. The queues are parameters (\<open>put\<close> answers whether the entry was taken, \<open>get\<close> is
  \<open>None\<close> on an empty queue); what is proved assumes that they are bounded queues of capacity
  three. \<open>captured\<close>, \<open>sent\<close> and \<open>wire\<close> are history: the frames put in the ready queue, the
  frames given to \<^verbatim>\<open>sendFrameOverSpi\<close>, and the packets it wrote.
\<close>

abbreviation (input) FRAME_BUFFER_COUNT :: nat where "FRAME_BUFFER_COUNT \<equiv> 3"

section \<open>Model\<close>

datatype main_pc = GetFree | GetReady | Capture nat | PutFree nat | PutReady nat | Requeue nat

datatype sender_pc = AwaitReady | Sending nat | Return nat

type_synonym stamped = "u16 \<times> u16 list"

record 'q pool =
  free_q :: 'q
  ready_q :: 'q
  frameBuffers :: "u16 list list"
  frameIds :: "u16 list"
  segbuf :: "u16 list list"
  next_frame_id :: u16
  consecutive_timeouts :: u32
  dropped_ready_frames :: u32
  sent_frames :: u32
  main_at :: main_pc
  sender_at :: sender_pc
  captured :: "stamped list"
  sent :: "stamped list"
  wire :: "bytes list list"

text \<open>Lines 503-505 before the threads start: the free queue holds all the buffers.\<close>

definition pool_start :: "(nat \<Rightarrow> 'q \<Rightarrow> bool \<times> 'q) \<Rightarrow> 'q \<Rightarrow> 'q pool" where
  "pool_start put q0 = \<lparr> free_q = fold (\<lambda>i. snd \<circ> put i) [0..<FRAME_BUFFER_COUNT] q0, ready_q = q0,
     frameBuffers = replicate FRAME_BUFFER_COUNT zero_frame, frameIds = replicate FRAME_BUFFER_COUNT 0,
     segbuf = replicate PACKETS_PER_SEG (replicate PIXELS_PER_PKT 0), next_frame_id = 1, consecutive_timeouts = 0,
     dropped_ready_frames = 0, sent_frames = 0, main_at = GetFree, sender_at = AwaitReady, captured = [], sent = [], wire = [] \<rparr>"

definition begin_capture :: "nat \<Rightarrow> 'q pool \<Rightarrow> 'q pool" where
  "begin_capture i s = s\<lparr> frameIds := (frameIds s)[i := next_frame_id s], main_at := Capture i \<rparr>"

text \<open>Lines 518-551, one access to a queue or one run of \<^verbatim>\<open>captureFrame\<close> (or a part of it) at a time.\<close>

definition main_step :: "(nat \<Rightarrow> 'q \<Rightarrow> bool \<times> 'q) \<Rightarrow> ('q \<Rightarrow> (nat \<times> 'q) option) \<Rightarrow> (u32 \<times> lepton_read) list \<Rightarrow>
    'q pool \<Rightarrow> 'q pool" where
  "main_step put get rounds s = (case main_at s of
     GetFree \<Rightarrow> (case get (free_q s) of
         Some (i, q) \<Rightarrow> begin_capture i (s\<lparr> free_q := q \<rparr>)
       | None \<Rightarrow> s\<lparr> main_at := GetReady \<rparr>)
   | GetReady \<Rightarrow> (case get (ready_q s) of
         Some (i, q) \<Rightarrow> begin_capture i (s\<lparr> ready_q := q, dropped_ready_frames := dropped_ready_frames s + 1 \<rparr>)
       | None \<Rightarrow> s\<lparr> main_at := GetFree \<rparr>)
   | Capture i \<Rightarrow> (case captureFrame rounds (segbuf s) of (r, c) \<Rightarrow>
       let s' = s\<lparr> frameBuffers := (frameBuffers s)[i := frame_buffer c], segbuf := segmentBuffer c \<rparr>
       in case r of
         None \<Rightarrow> s'
       | Some False \<Rightarrow> s'\<lparr> consecutive_timeouts := consecutive_timeouts s + 1, main_at := PutFree i \<rparr>
       | Some True \<Rightarrow> s'\<lparr> consecutive_timeouts := 0, main_at := PutReady i \<rparr>)
   | PutFree i \<Rightarrow> s\<lparr> free_q := snd (put i (free_q s)), main_at := GetFree,
       consecutive_timeouts := (if consecutive_timeouts s \<ge> 3 then 0 else consecutive_timeouts s) \<rparr>
   | PutReady i \<Rightarrow> (case put i (ready_q s) of
         (True, q) \<Rightarrow> s\<lparr> ready_q := q, next_frame_id := next_frame_id s + 1, main_at := GetFree,
           captured := captured s @ [(frameIds s ! i, frameBuffers s ! i)] \<rparr>
       | (False, q) \<Rightarrow> s\<lparr> ready_q := q, dropped_ready_frames := dropped_ready_frames s + 1, main_at := Requeue i \<rparr>)
   | Requeue i \<Rightarrow> s\<lparr> free_q := snd (put i (free_q s)), next_frame_id := next_frame_id s + 1, main_at := GetFree \<rparr>)"

text \<open>Lines 311-335. A thread that waits (\<^verbatim>\<open>K_FOREVER\<close>) stays where it is.\<close>

definition sender_step :: "(nat \<Rightarrow> 'q \<Rightarrow> bool \<times> 'q) \<Rightarrow> ('q \<Rightarrow> (nat \<times> 'q) option) \<Rightarrow> bool \<Rightarrow> (nat \<Rightarrow> bool) \<Rightarrow>
    'q pool \<Rightarrow> 'q pool" where
  "sender_step put get spi_ready spi_ok s = (case sender_at s of
     AwaitReady \<Rightarrow> (case get (ready_q s) of
         Some (i, q) \<Rightarrow> s\<lparr> ready_q := q, sender_at := Sending i \<rparr>
       | None \<Rightarrow> s)
   | Sending i \<Rightarrow> (case sendFrameOverSpi spi_ready spi_ok (frameBuffers s ! i) (frameIds s ! i) of (r, ps) \<Rightarrow>
       s\<lparr> sent_frames := (if r = 0 then sent_frames s + 1 else sent_frames s), sender_at := Return i,
         sent := sent s @ [(frameIds s ! i, frameBuffers s ! i)], wire := wire s @ [ps] \<rparr>)
   | Return i \<Rightarrow> (case put i (free_q s) of
         (True, q) \<Rightarrow> s\<lparr> free_q := q, sender_at := AwaitReady \<rparr>
       | (False, q) \<Rightarrow> s\<lparr> free_q := q \<rparr>))"

inductive pool_step :: "(nat \<Rightarrow> 'q \<Rightarrow> bool \<times> 'q) \<Rightarrow> ('q \<Rightarrow> (nat \<times> 'q) option) \<Rightarrow> 'q pool \<Rightarrow> 'q pool \<Rightarrow> bool"
  for put :: "nat \<Rightarrow> 'q \<Rightarrow> bool \<times> 'q" and get :: "'q \<Rightarrow> (nat \<times> 'q) option" where
  main_thread: "pool_step put get s (main_step put get rounds s)"
| sender_thread: "pool_step put get s (sender_step put get spi_ready spi_ok s)"

inductive pool_reachable :: "(nat \<Rightarrow> 'q \<Rightarrow> bool \<times> 'q) \<Rightarrow> ('q \<Rightarrow> (nat \<times> 'q) option) \<Rightarrow> 'q \<Rightarrow> 'q pool \<Rightarrow> bool"
  for put :: "nat \<Rightarrow> 'q \<Rightarrow> bool \<times> 'q" and get :: "'q \<Rightarrow> (nat \<times> 'q) option" and q0 :: 'q where
  start: "pool_reachable put get q0 (pool_start put q0)"
| step: "pool_reachable put get q0 s \<Longrightarrow> pool_step put get s s' \<Longrightarrow> pool_reachable put get q0 s'"

section \<open>Who owns a buffer\<close>

fun main_holds :: "main_pc \<Rightarrow> nat list" where
  "main_holds (Capture i) = [i]"
| "main_holds (PutFree i) = [i]"
| "main_holds (PutReady i) = [i]"
| "main_holds (Requeue i) = [i]"
| "main_holds GetFree = []"
| "main_holds GetReady = []"

fun sender_holds :: "sender_pc \<Rightarrow> nat list" where
  "sender_holds (Sending i) = [i]"
| "sender_holds (Return i) = [i]"
| "sender_holds AwaitReady = []"

fun being_sent :: "sender_pc \<Rightarrow> nat list" where
  "being_sent (Sending i) = [i]"
| "being_sent _ = []"

definition stamped_buffer :: "'q pool \<Rightarrow> nat \<Rightarrow> stamped" where
  "stamped_buffer s i = (frameIds s ! i, frameBuffers s ! i)"

definition pool_owned :: "('q \<Rightarrow> bool) \<Rightarrow> ('q \<Rightarrow> nat list) \<Rightarrow> 'q pool \<Rightarrow> bool" where
  "pool_owned qinv contents s \<longleftrightarrow> qinv (free_q s) \<and> qinv (ready_q s) \<and>
     mset (contents (free_q s) @ contents (ready_q s) @ main_holds (main_at s) @ sender_holds (sender_at s)) = mset [0, 1, 2] \<and>
     length (frameBuffers s) = 3 \<and> length (frameIds s) = 3"

text \<open>The frames sent, the one being sent and those ready, in the order of their capture.\<close>

definition pending :: "'q pool \<Rightarrow> nat list \<Rightarrow> stamped list" where
  "pending s ready = sent s @ map (stamped_buffer s) (being_sent (sender_at s) @ ready)"

definition pool_numbered :: "'q pool \<Rightarrow> bool" where
  "pool_numbered s \<longleftrightarrow> map fst (captured s) = map of_nat [1..<Suc (length (captured s))] \<and>
     next_frame_id s = of_nat (Suc (length (captured s))) \<and> (\<forall>i. main_at s \<noteq> Requeue i) \<and>
     (\<forall>i. main_at s = Capture i \<or> main_at s = PutReady i \<longrightarrow> frameIds s ! i = next_frame_id s)"

definition pool_inv :: "('q \<Rightarrow> bool) \<Rightarrow> ('q \<Rightarrow> nat list) \<Rightarrow> 'q pool \<Rightarrow> bool" where
  "pool_inv qinv contents s \<longleftrightarrow> pool_owned qinv contents s \<and>
     subseq (pending s (contents (ready_q s))) (captured s) \<and> pool_numbered s"

lemma stamped_buffer_simps [simp]:
  "stamped_buffer (s\<lparr> free_q := q \<rparr>) = stamped_buffer s" "stamped_buffer (s\<lparr> ready_q := q \<rparr>) = stamped_buffer s"
  "stamped_buffer (s\<lparr> segbuf := b \<rparr>) = stamped_buffer s" "stamped_buffer (s\<lparr> next_frame_id := f \<rparr>) = stamped_buffer s"
  "stamped_buffer (s\<lparr> consecutive_timeouts := n \<rparr>) = stamped_buffer s" "stamped_buffer (s\<lparr> dropped_ready_frames := n \<rparr>) = stamped_buffer s"
  "stamped_buffer (s\<lparr> sent_frames := n \<rparr>) = stamped_buffer s" "stamped_buffer (s\<lparr> main_at := m \<rparr>) = stamped_buffer s"
  "stamped_buffer (s\<lparr> sender_at := p \<rparr>) = stamped_buffer s" "stamped_buffer (s\<lparr> captured := c \<rparr>) = stamped_buffer s"
  "stamped_buffer (s\<lparr> sent := c \<rparr>) = stamped_buffer s" "stamped_buffer (s\<lparr> wire := w \<rparr>) = stamped_buffer s"
  by (simp_all add: stamped_buffer_def fun_eq_iff)

lemma pool_distinct:
  assumes "mset xs = mset [0, 1, 2 :: nat]"
  shows "distinct xs" and "set xs = {0, 1, 2}" and "length xs = 3"
proof -
  have "distinct [0, 1, 2 :: nat]" by simp
  then show "distinct xs" using mset_eq_imp_distinct_iff[OF assms] by simp
  show "set xs = {0, 1, 2}" using mset_eq_setD[OF assms] by simp
  show "length xs = 3" using mset_eq_length[OF assms] by simp
qed

lemma stamp_frame:
  assumes "i \<notin> set xs" and "\<And>k. k \<noteq> i \<Longrightarrow> frameBuffers s' ! k = frameBuffers s ! k \<and> frameIds s' ! k = frameIds s ! k"
  shows "map (stamped_buffer s') xs = map (stamped_buffer s) xs"
  using assms by (induction xs) (auto simp: stamped_buffer_def)

lemma being_sent_held: "set (being_sent p) \<subseteq> set (sender_holds p)"
  by (cases p) auto

lemma subseq_drop_mid:
  assumes "subseq (xs @ ys @ x # zs) ws"
  shows "subseq (xs @ ys @ zs) ws"
proof -
  have "subseq (xs @ ys @ zs) (xs @ ys @ x # zs)"
    by (intro list_emb_append_mono list_emb_Cons subseq_order.refl)
  then show ?thesis using assms subseq_order.order_trans by blast
qed

lemma pending_frame:
  assumes "sent s' = sent s" and "sender_at s' = sender_at s" and "i \<notin> set (sender_holds (sender_at s))" and "i \<notin> set ready"
    and "\<And>k. k \<noteq> i \<Longrightarrow> frameBuffers s' ! k = frameBuffers s ! k \<and> frameIds s' ! k = frameIds s ! k"
  shows "pending s' ready = pending s ready"
  using stamp_frame[of i "being_sent (sender_at s) @ ready" s' s] assms being_sent_held[of "sender_at s"]
  by (auto simp: pending_def)

lemma pool_owns:
  assumes "pool_owned qinv contents s" and "main_holds (main_at s) = [i]"
  shows "i < 3" and "i \<notin> set (contents (free_q s))" and "i \<notin> set (contents (ready_q s))"
    and "i \<notin> set (sender_holds (sender_at s))" and "length (contents (free_q s)) + length (contents (ready_q s)) < 3"
proof -
  note d = pool_distinct[OF assms(1)[unfolded pool_owned_def, THEN conjunct2, THEN conjunct2, THEN conjunct1], unfolded assms(2)]
  have "i \<in> set (contents (free_q s) @ contents (ready_q s) @ [i] @ sender_holds (sender_at s))" by simp
  then show "i < 3" unfolding d(2) by auto
  show "i \<notin> set (contents (free_q s))" and "i \<notin> set (contents (ready_q s))" and "i \<notin> set (sender_holds (sender_at s))"
    using d(1) by auto
  show "length (contents (free_q s)) + length (contents (ready_q s)) < 3" using d(3) by simp
qed

subsection \<open>Each kind of step\<close>

text \<open>A buffer is taken from one of the two queues by \<^verbatim>\<open>main\<close>.\<close>

lemma begin_capture_inv:
  assumes o: "pool_owned qinv contents (begin_capture i s)"
    and ss: "subseq (pending s (contents (ready_q s))) (captured s)"
    and c: "map fst (captured s) = map of_nat [1..<Suc (length (captured s))]" "next_frame_id s = of_nat (Suc (length (captured s)))"
  shows "pool_inv qinv contents (begin_capture i s)"
proof -
  let ?s = "begin_capture i s"
  have f: "ready_q ?s = ready_q s" "sender_at ?s = sender_at s" "sent ?s = sent s" "captured ?s = captured s"
    "frameBuffers ?s = frameBuffers s" "frameIds ?s = (frameIds s)[i := next_frame_id s]" "main_at ?s = Capture i"
    "next_frame_id ?s = next_frame_id s"
    by (simp_all add: begin_capture_def)
  note own = pool_owns[OF o, of i]
  have "pending ?s (contents (ready_q s)) = pending s (contents (ready_q s))"
    using own by (intro pending_frame[of _ _ i]) (simp_all add: f)
  moreover have "pool_numbered ?s"
    using c own(1) o by (simp add: pool_numbered_def f pool_owned_def del: upt_Suc of_nat_Suc)
  ultimately show ?thesis
    using o ss by (simp add: pool_inv_def f)
qed

lemma captureFrame_main_inv:
  assumes "pool_inv qinv contents s" and "main_at s = Capture i"
    and f: "free_q s' = free_q s" "ready_q s' = ready_q s" "sender_at s' = sender_at s" "sent s' = sent s" "captured s' = captured s"
    "frameBuffers s' = (frameBuffers s)[i := x]" "frameIds s' = frameIds s" "next_frame_id s' = next_frame_id s"
    and pc: "main_at s' = Capture i \<or> main_at s' = PutFree i \<or> main_at s' = PutReady i"
  shows "pool_inv qinv contents s'"
proof -
  have o: "pool_owned qinv contents s" and ss: "subseq (pending s (contents (ready_q s))) (captured s)" and n: "pool_numbered s"
    using assms(1) by (simp_all add: pool_inv_def)
  have h: "main_holds (main_at s') = [i]" "main_holds (main_at s) = [i]" using pc assms(2) by auto
  have o': "pool_owned qinv contents s'"
    using o h by (simp add: pool_owned_def f)
  have "pending s' (contents (ready_q s)) = pending s (contents (ready_q s))"
    using pool_owns[OF o h(2)] by (intro pending_frame[of _ _ i]) (simp_all add: f)
  moreover have "pool_numbered s'"
    using n assms(2) pc by (auto simp: pool_numbered_def f simp del: upt_Suc of_nat_Suc)
  ultimately show ?thesis
    using o' ss by (simp add: pool_inv_def f)
qed

lemma sender_owns:
  assumes "pool_owned qinv contents s" and "sender_holds (sender_at s) = [i]"
  shows "i < 3" and "i \<notin> set (main_holds (main_at s))" and "length (contents (free_q s)) < 3"
proof -
  note d = pool_distinct[OF assms(1)[unfolded pool_owned_def, THEN conjunct2, THEN conjunct2, THEN conjunct1], unfolded assms(2)]
  have "i \<in> set (contents (free_q s) @ contents (ready_q s) @ main_holds (main_at s) @ [i])" by simp
  then show "i < 3" unfolding d(2) by auto
  show "i \<notin> set (main_holds (main_at s))" using d(1) by auto
  show "length (contents (free_q s)) < 3" using d(3) by simp
qed

abbreviation (input) msgq :: "('q \<Rightarrow> bool) \<Rightarrow> ('q \<Rightarrow> nat list) \<Rightarrow> (nat \<Rightarrow> 'q \<Rightarrow> bool \<times> 'q) \<Rightarrow> ('q \<Rightarrow> (nat \<times> 'q) option) \<Rightarrow> bool" where
  "msgq qinv contents put get \<equiv> bounded_fifo qinv contents FRAME_BUFFER_COUNT (\<lambda>i. i < FRAME_BUFFER_COUNT) put get"

lemma main_step_inv:
  assumes q: "msgq qinv contents put get" and i: "pool_inv qinv contents s"
  shows "pool_inv qinv contents (main_step put get rounds s)"
proof -
  let ?s = "main_step put get rounds s"
  have o: "pool_owned qinv contents s" and ss: "subseq (pending s (contents (ready_q s))) (captured s)" and n: "pool_numbered s"
    using i by (simp_all add: pool_inv_def)
  have nn: "map fst (captured s) = map of_nat [1..<Suc (length (captured s))]" "next_frame_id s = of_nat (Suc (length (captured s)))"
    using n by (simp_all add: pool_numbered_def del: upt_Suc of_nat_Suc)
  have qi: "qinv (free_q s)" "qinv (ready_q s)" using o by (simp_all add: pool_owned_def)
  have move: "pool_inv qinv contents (s\<lparr> main_at := p \<rparr>)" if "p = GetFree \<or> p = GetReady" "main_at s = GetFree \<or> main_at s = GetReady" for p
    using i that by (auto simp: pool_inv_def pool_owned_def pool_numbered_def pending_def simp del: upt_Suc of_nat_Suc)
  show ?thesis
  proof (cases "main_at s")
    case GetFree
    show ?thesis
    proof (cases "get (free_q s)")
      case None
      then show ?thesis using GetFree move by (simp add: main_step_def)
    next
      case (Some p)
      obtain k fq where p: "p = (k, fq)" by (cases p)
      note pop = bounded_fifo.pop_some[OF q qi(1) Some[unfolded p]]
      let ?t = "s\<lparr> free_q := fq \<rparr>"
      have "pool_owned qinv contents (begin_capture k ?t)"
        using o GetFree pop by (simp add: pool_owned_def begin_capture_def ac_simps)
      moreover have "pending ?t (contents (ready_q ?t)) = pending s (contents (ready_q s))"
        by (simp add: pending_def)
      ultimately have "pool_inv qinv contents (begin_capture k ?t)"
        using ss nn by (intro begin_capture_inv) (simp_all del: upt_Suc of_nat_Suc)
      then show ?thesis using GetFree Some p by (simp add: main_step_def)
    qed
  next
    case GetReady
    show ?thesis
    proof (cases "get (ready_q s)")
      case None
      then show ?thesis using GetReady move by (simp add: main_step_def)
    next
      case (Some p)
      obtain k rq where p: "p = (k, rq)" by (cases p)
      note pop = bounded_fifo.pop_some[OF q qi(2) Some[unfolded p]]
      let ?t = "s\<lparr> ready_q := rq, dropped_ready_frames := dropped_ready_frames s + 1 \<rparr>"
      have "pool_owned qinv contents (begin_capture k ?t)"
        using o GetReady pop by (simp add: pool_owned_def begin_capture_def ac_simps)
      moreover have "subseq (pending ?t (contents (ready_q ?t))) (captured ?t)"
        using subseq_drop_mid[of "sent s" "map (stamped_buffer s) (being_sent (sender_at s))" "stamped_buffer s k"
            "map (stamped_buffer s) (contents rq)" "captured s"] ss pop
        by (simp add: pending_def)
      ultimately have "pool_inv qinv contents (begin_capture k ?t)"
        using nn by (intro begin_capture_inv) (simp_all del: upt_Suc of_nat_Suc)
      then show ?thesis using GetReady Some p by (simp add: main_step_def)
    qed
  next
    case (Capture k)
    obtain r c where c: "captureFrame rounds (segbuf s) = (r, c)" by fastforce
    show ?thesis
      by (rule captureFrame_main_inv[OF i Capture, where x = "frame_buffer c"])
        (auto simp: main_step_def Capture c Let_def split: option.split bool.split)
  next
    case (PutFree k)
    note own = pool_owns[OF o, of k, unfolded PutFree, simplified]
    note push = bounded_fifo.push_inv[OF q qi(1) own(1)] bounded_fifo.push_room[OF q qi(1) own(1)]
    have "pool_owned qinv contents ?s"
      using o push own PutFree by (simp add: pool_owned_def main_step_def)
    moreover have "pending ?s (contents (ready_q ?s)) = pending s (contents (ready_q s))" "captured ?s = captured s" "pool_numbered ?s"
      using n PutFree by (simp_all add: main_step_def pending_def pool_numbered_def del: upt_Suc of_nat_Suc)
    ultimately show ?thesis using ss by (simp add: pool_inv_def)
  next
    case (PutReady k)
    note own = pool_owns[OF o, of k, unfolded PutReady, simplified]
    note push = bounded_fifo.push_inv[OF q qi(2) own(1)] bounded_fifo.push_room[OF q qi(2) own(1)]
    obtain b rq where put: "put k (ready_q s) = (b, rq)" by fastforce
    with push own have b: "b" "qinv rq" "contents rq = contents (ready_q s) @ [k]" by simp_all
    have s: "?s = s\<lparr> ready_q := rq, next_frame_id := next_frame_id s + 1, main_at := GetFree,
        captured := captured s @ [stamped_buffer s k] \<rparr>"
      using PutReady put b(1) by (simp add: main_step_def stamped_buffer_def)
    have "pool_owned qinv contents ?s"
      using o b PutReady by (simp add: pool_owned_def s)
    moreover have "pending ?s (contents (ready_q ?s)) = pending s (contents (ready_q s)) @ [stamped_buffer s k]"
      by (simp add: s b pending_def)
    moreover have "subseq (pending s (contents (ready_q s)) @ [stamped_buffer s k]) (captured ?s)"
      using ss by (simp add: s)
    moreover have "pool_numbered ?s"
    proof -
      have "fst (stamped_buffer s k) = of_nat (Suc (length (captured s)))"
        using n PutReady by (simp add: pool_numbered_def stamped_buffer_def)
      then show ?thesis using nn by (simp add: s pool_numbered_def del: of_nat_Suc) simp
    qed
    ultimately show ?thesis by (simp add: pool_inv_def)
  next
    case (Requeue k)
    then show ?thesis using n by (simp add: pool_numbered_def)
  qed
qed

lemma sender_step_inv:
  assumes q: "msgq qinv contents put get" and i: "pool_inv qinv contents s"
  shows "pool_inv qinv contents (sender_step put get spi_ready spi_ok s)"
proof -
  let ?s = "sender_step put get spi_ready spi_ok s"
  have o: "pool_owned qinv contents s" and ss: "subseq (pending s (contents (ready_q s))) (captured s)" and n: "pool_numbered s"
    using i by (simp_all add: pool_inv_def)
  have qi: "qinv (free_q s)" "qinv (ready_q s)" using o by (simp_all add: pool_owned_def)
  show ?thesis
  proof (cases "sender_at s")
    case AwaitReady
    show ?thesis
    proof (cases "get (ready_q s)")
      case None
      then show ?thesis using AwaitReady i by (simp add: sender_step_def)
    next
      case (Some p)
      obtain k rq where p: "p = (k, rq)" by (cases p)
      note pop = bounded_fifo.pop_some[OF q qi(2) Some[unfolded p]]
      have "?s = s\<lparr> ready_q := rq, sender_at := Sending k \<rparr>"
        using AwaitReady Some p by (simp add: sender_step_def)
      then show ?thesis
        using o ss n pop AwaitReady
        by (simp add: pool_inv_def pool_owned_def pending_def pool_numbered_def ac_simps del: upt_Suc of_nat_Suc)
    qed
  next
    case (Sending k)
    obtain r ps where r: "sendFrameOverSpi spi_ready spi_ok (frameBuffers s ! k) (frameIds s ! k) = (r, ps)" by fastforce
    have "?s = s\<lparr> sent_frames := (if r = 0 then sent_frames s + 1 else sent_frames s), sender_at := Return k,
         sent := sent s @ [stamped_buffer s k], wire := wire s @ [ps] \<rparr>"
      using Sending r by (simp add: sender_step_def stamped_buffer_def)
    then show ?thesis
      using o ss n Sending
      by (simp add: pool_inv_def pool_owned_def pending_def pool_numbered_def del: upt_Suc of_nat_Suc)
  next
    case (Return k)
    note own = sender_owns[OF o, of k, unfolded Return, simplified]
    note push = bounded_fifo.push_inv[OF q qi(1) own(1)] bounded_fifo.push_room[OF q qi(1) own(1) own(3)]
    obtain b fq where put: "put k (free_q s) = (b, fq)" by fastforce
    have "?s = s\<lparr> free_q := fq, sender_at := AwaitReady \<rparr>"
      using Return put push by (simp add: sender_step_def)
    then show ?thesis
      using o ss n Return put push
      by (simp add: pool_inv_def pool_owned_def pending_def pool_numbered_def ac_simps del: upt_Suc of_nat_Suc)
  qed
qed

subsection \<open>Every reachable state\<close>

lemma pool_start_inv:
  assumes q: "msgq qinv contents put get" and e: "qinv q0" "contents q0 = []"
  shows "pool_inv qinv contents (pool_start put q0)"
proof -
  have "list_all (\<lambda>i. i < 3) [0..<3::nat]" by (simp add: list_all_iff)
  from bounded_fifo.push_all[OF q e(1) this] e(2)
  have "qinv (free_q (pool_start put q0))" "contents (free_q (pool_start put q0)) = [0, 1, 2]"
    by (simp_all add: pool_start_def upt_3)
  then show ?thesis
    using e by (simp add: pool_inv_def pool_owned_def pool_numbered_def pending_def pool_start_def)
qed

lemma pool_reachable_inv:
  assumes "pool_reachable put get q0 s" and "msgq qinv contents put get" and "qinv q0" "contents q0 = []"
  shows "pool_inv qinv contents s"
  using assms
  by (induction rule: pool_reachable.induct)
    (auto intro: pool_start_inv main_step_inv sender_step_inv elim!: pool_step.cases)

text \<open>The packets on the wire are those of the frames sent.\<close>

definition sent_by :: "stamped \<Rightarrow> bytes list \<Rightarrow> bool" where
  "sent_by f ps \<longleftrightarrow> (\<exists>spi_ready spi_ok. ps = snd (sendFrameOverSpi spi_ready spi_ok (snd f) (fst f)))"

lemma main_step_sent:
  "sent (main_step put get rounds s) = sent s" "wire (main_step put get rounds s) = wire s"
  "sender_at (main_step put get rounds s) = sender_at s"
  unfolding main_step_def
  by (cases "main_at s"; simp add: begin_capture_def Let_def split_beta split: option.split bool.split)+

lemma pool_wire:
  assumes "pool_reachable put get q0 s"
  shows "list_all2 sent_by (sent s) (wire s)"
  using assms
proof (induction rule: pool_reachable.induct)
  case (step s s')
  from step.hyps(2) show ?case
  proof cases
    case (main_thread rounds)
    then show ?thesis using step.IH by (simp add: main_step_sent)
  next
    case (sender_thread spi_ready spi_ok)
    show ?thesis
    proof (cases "sender_at s")
      case (Sending k)
      obtain r ps where r: "sendFrameOverSpi spi_ready spi_ok (frameBuffers s ! k) (frameIds s ! k) = (r, ps)" by fastforce
      then have "sent_by (frameIds s ! k, frameBuffers s ! k) ps"
        unfolding sent_by_def by (metis fst_conv snd_conv)
      then show ?thesis
        using step.IH r Sending sender_thread by (simp add: sender_step_def list_all2_appendI)
    qed (use step.IH sender_thread in \<open>auto simp: sender_step_def split: option.split prod.split bool.split\<close>)
  qed
qed (simp add: pool_start_def)

end
