(* ===== verification/TeensyCaptureInv.thy ===== *)
theory TeensyCaptureInv imports TeensyCapture begin

text \<open>
  What \<^verbatim>\<open>captureFrame\<close> returns: the invariant of its loop, with the packets of the
  current segment and the segments already copied as history variables, tied to the
  sequence of packets read from the sensor.
\<close>

section \<open>Segments in the stream of packets\<close>

text \<open>\<open>segs\<close> occur one after the other in \<open>rs\<close>, each contiguous, the last one at its end.\<close>

inductive in_stream :: "'a list list \<Rightarrow> 'a list \<Rightarrow> bool" where
  none: "in_stream [] rs"
| snoc: "in_stream segs rs \<Longrightarrow> in_stream (segs @ [ps]) (rs @ gap @ ps)"

definition trace_ok :: "capture \<Rightarrow> bytes list \<Rightarrow> bytes list list \<Rightarrow> bytes list \<Rightarrow> bool" where
  "trace_ok c ps segs rs \<longleftrightarrow>
     (\<exists>r1 g. rs = r1 @ g @ (if segment_active c then ps else []) \<and> (frame_started c \<longrightarrow> in_stream segs r1))"

lemma trace_more: "trace_ok c ps segs rs \<Longrightarrow> frame_started c' = frame_started c \<Longrightarrow> \<not> segment_active c' \<Longrightarrow>
  trace_ok c' ps' segs (rs @ [raw])"
proof -
  assume "trace_ok c ps segs rs" and f: "frame_started c' = frame_started c" "\<not> segment_active c'"
  then obtain r1 g where "rs = r1 @ g @ (if segment_active c then ps else [])" "frame_started c \<longrightarrow> in_stream segs r1"
    unfolding trace_ok_def by blast
  then show "trace_ok c' ps' segs (rs @ [raw])"
    unfolding trace_ok_def using f
    by (intro exI[of _ r1] exI[of _ "g @ (if segment_active c then ps else []) @ [raw]"]) simp
qed

lemma trace_unstarted: "\<not> frame_started c \<Longrightarrow> \<not> segment_active c \<Longrightarrow> trace_ok c ps segs rs"
  unfolding trace_ok_def by (intro exI[of _ rs] exI[of _ "[]"]) simp

definition frame_pixels :: "bytes list list \<Rightarrow> u16 list" where
  "frame_pixels segs = concat (map (concat \<circ> map packet_pixels) segs)"

lemma frame_pixels_snoc: "frame_pixels (segs @ [ps]) = frame_pixels segs @ concat (map packet_pixels ps)"
  by (simp add: frame_pixels_def)

definition frame_captured :: "capture \<Rightarrow> bytes list \<Rightarrow> bool" where
  "frame_captured c rs \<longleftrightarrow> (\<exists>segs. length segs = 4 \<and> (\<forall>j<4. seg_packets_ok (Suc j) (segs ! j)) \<and>
     frame_buffer c = frame_pixels segs \<and> in_stream segs rs)"

definition capture_inv :: "capture \<Rightarrow> bytes list \<Rightarrow> bool" where
  "capture_inv c rs \<longleftrightarrow> (\<exists>ps segs. capture_ok c ps segs \<and> trace_ok c ps segs rs)"

lemma capture_inv_idle:
  assumes "capture_ok c ps segs" and "trace_ok c ps segs rs" and "\<not> segment_active c'"
    and "frame_buffer c' = frame_buffer c" and "segmentBuffer c' = segmentBuffer c \<or>
      length (segmentBuffer c') = 60 \<and> list_all (\<lambda>row. length row = 80) (segmentBuffer c')"
    and "frame_started c' = frame_started c" and "expected_seg c' = expected_seg c"
  shows "capture_inv c' (rs @ [raw])"
proof -
  have "capture_ok c' ps segs"
    using assms(1,3-7) by (auto simp: capture_ok_def)
  moreover have "trace_ok c' ps segs (rs @ [raw])"
    using trace_more[OF assms(2,6,3)] .
  ultimately show ?thesis unfolding capture_inv_def by blast
qed

section \<open>The end of a segment\<close>

lemma segment_rows:
  assumes "length segbuf = 60" and "length ps = 60" and "\<forall>k<60. segbuf ! k = packet_pixels (ps ! k)"
  shows "segbuf = map packet_pixels ps"
  using assms by (intro nth_equalityI) auto

lemma segment_end_inv:
  assumes fb: "length (frame_buffer c) = LEP_FRAME_SIZE" and sb: "segmentBuffer c = map packet_pixels ps"
    and ps: "length ps = 60" "\<forall>k<60. raw_index (ps ! k) = k \<and> \<not> raw_discard (ps ! k)"
    and cur: "current_seg c = raw_segment (ps ! 20)" "current_seg c \<le> 4"
    and st: "frame_started c \<Longrightarrow> 1 < expected_seg c \<and> expected_seg c \<le> 4 \<and> length segs = expected_seg c - 1 \<and>
        (\<forall>j<length segs. seg_packets_ok (Suc j) (segs ! j)) \<and>
        take (4800 * length segs) (frame_buffer c) = frame_pixels segs \<and> in_stream segs r1"
    and e: "capture_segment_end c = (d, c')"
  shows "if d then frame_captured c' (r1 @ g @ ps) else capture_inv c' (r1 @ g @ ps)"
proof -
  let ?j = "current_seg c" and ?rs = "r1 @ g @ ps"
  have rows: "length (segmentBuffer c) = 60" "list_all (\<lambda>row. length row = 80) (segmentBuffer c)"
    using ps(1) by (simp_all add: sb list_all_iff)
  have new: "seg_packets_ok ?j ps"
    using ps cur(1) by (simp add: seg_packets_ok_def)
  have reject: "capture_inv c'' ?rs" if "frame_buffer c'' = frame_buffer c" "segmentBuffer c'' = segmentBuffer c"
    "\<not> segment_active c''" "\<not> frame_started c''" for c''
    unfolding capture_inv_def using that rows fb trace_unstarted[OF that(4,3), of "[]" "[]" ?rs]
    by (intro exI[of _ "[]"]) (auto simp: capture_ok_def)
  have keep: "capture_inv c'' ?rs" if "frame_buffer c'' = frame_buffer c" "segmentBuffer c'' = segmentBuffer c"
    "\<not> segment_active c''" "frame_started c'' = frame_started c" "expected_seg c'' = expected_seg c" for c''
  proof -
    have "capture_ok c'' [] segs"
      using that rows fb st by (auto simp: capture_ok_def frame_pixels_def)
    moreover have "trace_ok c'' [] segs ?rs"
      using that st unfolding trace_ok_def by (intro exI[of _ r1] exI[of _ "g @ ps"]) auto
    ultimately show ?thesis unfolding capture_inv_def by blast
  qed
  text \<open>Segment \<open>j\<close> accepted on top of the segments \<open>old\<close>.\<close>
  have accept: "if ?j = 4 then frame_captured c'' ?rs else capture_inv c'' ?rs"
    if old: "length old = ?j - 1" "\<forall>i<length old. seg_packets_ok (Suc i) (old ! i)"
      "take (4800 * length old) fb0 = frame_pixels old" "length fb0 = LEP_FRAME_SIZE" "in_stream old ro" "\<exists>g'. ?rs = ro @ g' @ ps"
      and j: "1 \<le> ?j" and c'': "frame_buffer c'' = copySegmentToFrame ?j (segmentBuffer c) fb0"
      "segmentBuffer c'' = segmentBuffer c" "\<not> segment_active c''" "frame_started c''" "?j \<noteq> 4 \<Longrightarrow> expected_seg c'' = ?j + 1"
    for old fb0 ro c''
  proof -
    let ?segs = "old @ [ps]"
    note cp = copy_segment[OF old(4) rows j cur(2)]
    have n: "length ?segs = ?j" using old(1) j by simp
    have ok: "\<forall>i<length ?segs. seg_packets_ok (Suc i) (?segs ! i)"
    proof (intro allI impI)
      fix i assume "i < length ?segs"
      then consider "i < length old" | "i = length old" by fastforce
      then show "seg_packets_ok (Suc i) (?segs ! i)"
        using old(1,2) new j by cases (simp_all add: nth_append)
    qed
    have str: "in_stream ?segs ?rs"
      using old(5,6) in_stream.snoc by metis
    have px: "take (4800 * length ?segs) (frame_buffer c'') = frame_pixels ?segs"
      unfolding n c''(1) cp(3) using old(1,3) by (simp add: frame_pixels_snoc sb)
    show ?thesis
    proof (cases "?j = 4")
      case True
      then have "frame_buffer c'' = frame_pixels ?segs"
        using px n cp(2) c''(1) by simp
      with True n ok str show ?thesis unfolding frame_captured_def by (intro if_P[THEN iffD2]) (simp, metis)
    next
      case False
      have "capture_ok c'' [] ?segs"
        using False n ok px rows cp(2) c'' j cur(2) by (auto simp: capture_ok_def frame_pixels_def)
      moreover have "trace_ok c'' [] ?segs ?rs"
        using str c''(3) unfolding trace_ok_def by (intro exI[of _ ?rs] exI[of _ "[]"]) simp
      ultimately show ?thesis using False unfolding capture_inv_def by (simp, blast)
    qed
  qed
  consider (none) "?j = 0" | (bad) "?j \<noteq> 0" "(\<not> frame_started c \<or> ?j \<noteq> expected_seg c) \<and> ?j \<noteq> 1"
    | (first) "?j = 1" "\<not> frame_started c \<or> ?j \<noteq> expected_seg c" | (next_seg) "?j \<noteq> 0" "frame_started c" "?j = expected_seg c"
    by blast
  then show ?thesis
  proof cases
    case none
    then have "d = False" "c' = discard_one (lose_sync c)"
      using e by (simp_all add: capture_segment_end_def Let_def lose_sync_def)
    then show ?thesis by (simp add: keep discard_one_def lose_sync_def)
  next
    case bad
    then have "d = False" "c' = (discard_one (lose_sync c))\<lparr> frame_started := False, expected_seg := 1, current_seg := 0 \<rparr>"
      using e by (auto simp: capture_segment_end_def Let_def lose_sync_def)
    then show ?thesis by (simp add: reject discard_one_def lose_sync_def)
  next
    case first
    have "length zero_frame = LEP_FRAME_SIZE" by (simp add: zero_frame_def)
    moreover have "d = False" and
      c': "frame_buffer c' = copySegmentToFrame ?j (segmentBuffer c) zero_frame" "segmentBuffer c' = segmentBuffer c"
      "\<not> segment_active c'" "frame_started c'" "expected_seg c' = ?j + 1"
      using e first by (auto simp: capture_segment_end_def Let_def lose_sync_def)
    ultimately show ?thesis
      using accept[of "[]" zero_frame "[]" c'] first by (simp add: frame_pixels_def in_stream.none)
  next
    case next_seg
    have old: "length segs = ?j - 1" "\<forall>i<length segs. seg_packets_ok (Suc i) (segs ! i)"
      "take (4800 * length segs) (frame_buffer c) = frame_pixels segs" "in_stream segs r1"
      using st[OF next_seg(2)] next_seg(3) by auto
    have "d = (?j = 4)" and
      c': "frame_buffer c' = copySegmentToFrame ?j (segmentBuffer c) (frame_buffer c)" "segmentBuffer c' = segmentBuffer c"
      "\<not> segment_active c'" "frame_started c'" "?j \<noteq> 4 \<Longrightarrow> expected_seg c' = ?j + 1"
      using e next_seg by (auto simp: capture_segment_end_def Let_def lose_sync_def split: if_splits)
    then show ?thesis
      using accept[OF old(1,2,3) fb old(4) _ _ c'] next_seg(1) by auto
  qed
qed

section \<open>One packet\<close>

lemma store_inv:
  assumes ok: "capture_ok c ps segs" and tr: "trace_ok c ps segs rs" and act: "segment_active c"
    and idx: "raw_index raw = length ps" and good: "\<not> raw_discard raw"
    and e: "capture_store raw c = (d, c')"
  shows "if d then frame_captured c' (rs @ [raw]) else capture_inv c' (rs @ [raw])"
proof -
  let ?ps = "ps @ [raw]" and ?n = "length ps"
  define c1 where "c1 = c\<lparr> segmentBuffer := (segmentBuffer c)[?n := packet_pixels raw] \<rparr>"
  have a: "expected_packet c = ?n" "?n < 60" "current_seg c \<le> 4"
    "current_seg c = (if ?n > 20 then raw_segment (ps ! 20) else 0)"
    "\<forall>k<?n. raw_index (ps ! k) = k \<and> \<not> raw_discard (ps ! k) \<and> segmentBuffer c ! k = packet_pixels (ps ! k)"
    and b: "length (frame_buffer c) = LEP_FRAME_SIZE" "length (segmentBuffer c) = 60"
      "list_all (\<lambda>row. length row = 80) (segmentBuffer c)"
    using ok act by (auto simp: capture_ok_def)
  have rows: "length (segmentBuffer c1) = 60" "list_all (\<lambda>row. length row = 80) (segmentBuffer c1)"
    using b by (auto simp: c1_def intro: list_all_update)
  have hist: "\<forall>k<length ?ps. raw_index (?ps ! k) = k \<and> \<not> raw_discard (?ps ! k) \<and> segmentBuffer c1 ! k = packet_pixels (?ps ! k)"
    using a(2,5) b(2) idx good by (auto simp: c1_def nth_append less_Suc_eq)
  obtain r1 g where rs: "rs = r1 @ g @ ps" and st: "frame_started c \<longrightarrow> in_stream segs r1"
    using tr act by (auto simp: trace_ok_def)
  show ?thesis
  proof (cases "?n = 20 \<and> \<not> (raw_segment raw > 0 \<and> raw_segment raw \<le> 4)")
    case True
    then have d: "d = False" and c': "c' = (lose_sync (discard_one c1))\<lparr> current_seg := 0 \<rparr>"
      using e idx by (auto simp: capture_store_def Let_def c1_def)
    have "capture_inv c' (rs @ [raw])"
      by (rule capture_inv_idle[OF ok tr]) (use rows in \<open>simp_all add: c' c1_def lose_sync_def discard_one_def\<close>)
    then show ?thesis by (simp add: d)
  next
    case False
    define c2 where "c2 = (if ?n = 20 then c1\<lparr> current_seg := raw_segment raw \<rparr> else c1)\<lparr> expected_packet := ?n + 1 \<rparr>"
    have e2: "(d, c') = (if ?n = 59 then capture_segment_end c2 else (False, c2))"
      using e False idx a(1) by (auto simp: capture_store_def Let_def c1_def c2_def)
    have f: "frame_buffer c2 = frame_buffer c" "segmentBuffer c2 = segmentBuffer c1" "expected_packet c2 = length ?ps"
      "frame_started c2 = frame_started c" "expected_seg c2 = expected_seg c" "segment_active c2"
      using act by (simp_all add: c2_def c1_def)
    have cur: "current_seg c2 = (if length ?ps > 20 then raw_segment (?ps ! 20) else 0)" "current_seg c2 \<le> 4"
      using a(3,4) False by (auto simp: c2_def c1_def nth_append)
    show ?thesis
    proof (cases "?n = 59")
      case True
      then have e3: "capture_segment_end c2 = (d, c')" using e2 by simp
      have sb: "segmentBuffer c2 = map packet_pixels ?ps"
        unfolding f(2) using segment_rows[OF rows(1), of ?ps] hist True by simp
      have st2: "frame_started c2 \<Longrightarrow> 1 < expected_seg c2 \<and> expected_seg c2 \<le> 4 \<and> length segs = expected_seg c2 - 1 \<and>
        (\<forall>j<length segs. seg_packets_ok (Suc j) (segs ! j)) \<and>
        take (4800 * length segs) (frame_buffer c2) = frame_pixels segs \<and> in_stream segs r1"
        using ok st by (auto simp: capture_ok_def f frame_pixels_def)
      have "if d then frame_captured c' (r1 @ g @ ?ps) else capture_inv c' (r1 @ g @ ?ps)"
        by (rule segment_end_inv[OF _ sb _ _ _ cur(2) st2 e3]) (use b(1) hist True cur(1) in \<open>simp_all add: f(1)\<close>)
      then show ?thesis by (simp add: rs)
    next
      case False
      then have "d = False" "c' = c2" using e2 by simp_all
      moreover have "capture_ok c2 ?ps segs"
        using ok b rows hist cur a(2) False by (auto simp: capture_ok_def f)
      moreover have "trace_ok c2 ?ps segs (rs @ [raw])"
        unfolding trace_ok_def using st f(4,6) rs by (intro exI[of _ r1] exI[of _ g]) simp
      ultimately show ?thesis unfolding capture_inv_def by auto
    qed
  qed
qed

lemma packet_inv:
  assumes "capture_inv c rs" and e: "capture_packet raw c = (d, c')"
  shows "if d then frame_captured c' (rs @ [raw]) else capture_inv c' (rs @ [raw])"
proof -
  obtain ps segs where ok: "capture_ok c ps segs" and tr: "trace_ok c ps segs rs"
    using assms(1) by (auto simp: capture_inv_def)
  define c1 where "c1 = (if \<not> segment_active c
     then c\<lparr> segment_active := True, expected_packet := 0, current_seg := 0 \<rparr> else c)"
  consider (lost) "d = False" "\<not> segment_active c'" "frame_buffer c' = frame_buffer c" "segmentBuffer c' = segmentBuffer c"
      "frame_started c' = frame_started c" "expected_seg c' = expected_seg c"
    | (store) "\<not> raw_discard raw" "segment_active c \<or> raw_index raw = 0" "raw_index raw = expected_packet c1"
      "capture_store raw c1 = (d, c')"
    using e unfolding capture_packet_def Let_def c1_def[symmetric]
    by (auto simp: lose_sync_def discard_one_def c1_def split: if_splits)
  then show ?thesis
  proof cases
    case lost
    then show ?thesis using capture_inv_idle[OF ok tr, of c' raw] by simp
  next
    case store
    show ?thesis
    proof (cases "segment_active c")
      case True
      then have "c1 = c" "expected_packet c = length ps"
        using ok by (simp_all add: c1_def capture_ok_def)
      with store_inv[OF ok tr True _ store(1)] store(3,4) show ?thesis by simp
    next
      case False
      have ok1: "capture_ok c1 [] segs"
        using ok False unfolding capture_ok_def c1_def by auto
      have "trace_ok c1 [] segs rs"
        using tr False by (simp add: trace_ok_def c1_def)
      with store_inv[OF ok1 _ _ _ store(1,4), of rs] store(3) False show ?thesis
        by (simp add: c1_def)
    qed
  qed
qed

section \<open>The loop\<close>

text \<open>The packets read successfully, in order.\<close>

fun read_packets :: "(u32 \<times> lepton_read) list \<Rightarrow> bytes list" where
  "read_packets [] = []"
| "read_packets ((t, ReadOk raw) # rounds) = raw # read_packets rounds"
| "read_packets ((t, ReadFailed) # rounds) = read_packets rounds"

lemma capture_loop_sound:
  assumes "capture_inv c rs" and "capture_loop rounds c = (Some True, c')"
  shows "\<exists>xs ys. read_packets rounds = xs @ ys \<and> frame_captured c' (rs @ xs)"
  using assms
proof (induction rounds c arbitrary: rs rule: capture_loop.induct)
  case (2 elapsed r rounds c)
  from "2.prems"(2) have t: "\<not> elapsed > 3000" by (auto split: if_splits)
  show ?case
  proof (cases r)
    case ReadFailed
    have "capture_inv (discard_one c) rs"
      using "2.prems"(1) by (simp add: capture_inv_def capture_ok_def trace_ok_def discard_one_def)
    from "2.IH"(2)[OF t ReadFailed this] "2.prems"(2) t ReadFailed show ?thesis by simp
  next
    case (ReadOk raw)
    obtain d c1 where p: "capture_packet raw c = (d, c1)" by fastforce
    note pi = packet_inv[OF "2.prems"(1) p]
    show ?thesis
    proof (cases d)
      case True
      then have "c' = c1" using "2.prems"(2) t ReadOk p by simp
      then show ?thesis using pi True ReadOk by (intro exI[of _ "[raw]"] exI[of _ "read_packets rounds"]) simp
    next
      case False
      then have "capture_inv c1 (rs @ [raw])" using pi by simp
      moreover have "capture_loop rounds c1 = (Some True, c')" using "2.prems"(2) t ReadOk p False by simp
      ultimately obtain xs ys where "read_packets rounds = xs @ ys" "frame_captured c' ((rs @ [raw]) @ xs)"
        using "2.IH"(1)[OF t ReadOk p[symmetric]] False by (metis (full_types))
      then show ?thesis using ReadOk by (intro exI[of _ "raw # xs"] exI[of _ ys]) simp
    qed
  qed
qed simp

lemma capture_start_inv:
  assumes "length segbuf = 60" and "list_all (\<lambda>row. length row = 80) segbuf"
  shows "capture_inv (capture_start segbuf) []"
  using assms unfolding capture_inv_def
  by (intro exI[of _ "[]"]) (simp add: capture_ok_def trace_ok_def capture_start_def zero_frame_def)

text \<open>The loop returns: rounds in which the clock passes three seconds are enough.\<close>

lemma capture_loop_returns:
  assumes "list_ex (\<lambda>(t, r). t > 3000) rounds"
  shows "fst (capture_loop rounds c) \<noteq> None"
  using assms
  by (induction rounds c rule: capture_loop.induct) (auto split: lepton_read.splits prod.splits bool.splits)

lemma capture_loop_gives_up:
  assumes "fst (capture_loop rounds c) = Some False"
  shows "list_ex (\<lambda>(t, r). t > 3000) rounds"
  using assms
  by (induction rounds c rule: capture_loop.induct) (auto split: lepton_read.splits prod.splits bool.splits if_splits)

end
