(* ===== verification/TeensyCaptureSpec.thy ===== *)
theory TeensyCaptureSpec imports TeensyCaptureInv begin

text \<open>
  Properties of the capture loop: what it returns is a coherent frame of the sensor, a clean
  run of four segments is always captured, and the loop ends when three seconds have passed.
\<close>

section \<open>The bytes of a captured frame\<close>

text \<open>
  The code swaps the two bytes of every pixel, so on the little-endian processor the frame
  in memory is the payload of the packets, byte for byte.
\<close>

definition packet_payload :: "bytes \<Rightarrow> bytes" where
  "packet_payload raw = take 160 (drop 4 raw)"

lemma le_bytes_append: "le_bytes (xs @ ys) = le_bytes xs @ le_bytes ys"
  by (simp add: le_bytes_def)

lemma le_bytes_concat: "le_bytes (concat xss) = concat (map le_bytes xss)"
  by (induction xss) (simp_all add: le_bytes_append, simp add: le_bytes_def)

lemma le_bytes_pixel: "[ucast (be16_join b a), ucast (drop_bit 8 (be16_join b a))] = [a, b :: u8]"
  using be16_lo_join[of b a] be16_hi_join[of b a]
  by (simp add: be16_hi_def be16_lo_def) (rule conjI; rule bit_word_eqI; auto simp: be16_join_def mask_8 bit_simps dest: bit_imp_le_length)

lemma pairs_take: "2 * n \<le> length ys \<Longrightarrow> concat (map (\<lambda>i. [ys ! (2 * i), ys ! (2 * i + 1)]) [0..<n]) = take (2 * n) ys"
proof (induction n)
  case (Suc n)
  then have "take (2 * Suc n) ys = take (2 * n) ys @ [ys ! (2 * n), ys ! (2 * n + 1)]"
    by (simp add: take_Suc_conv_app_nth)
  with Suc show ?case by simp
qed simp

lemma le_bytes_packet:
  assumes "length raw = PACKET_SIZE"
  shows "le_bytes (packet_pixels raw) = packet_payload raw"
proof -
  have "packet_pixels raw = map (\<lambda>i. be16_join (raw ! (5 + i * 2)) (raw ! (4 + i * 2))) [0..<80]"
    by (simp add: packet_pixels_def be16_join_def)
  then have "le_bytes (packet_pixels raw) = concat (map (\<lambda>i. [drop 4 raw ! (2 * i), drop 4 raw ! (2 * i + 1)]) [0..<80])"
    using assms by (simp add: le_bytes_def comp_def le_bytes_pixel ac_simps del: upt_rec_numeral)
  also have "\<dots> = packet_payload raw"
    using pairs_take[of 80 "drop 4 raw"] assms by (simp add: packet_payload_def)
  finally show ?thesis .
qed

lemma le_bytes_frame:
  assumes "\<forall>ps\<in>set segs. \<forall>raw\<in>set ps. length raw = PACKET_SIZE"
  shows "le_bytes (frame_pixels segs) = concat (map (concat \<circ> map packet_payload) segs)"
  using assms
  by (induction segs)
    (simp_all add: frame_pixels_def le_bytes_append le_bytes_concat comp_def le_bytes_packet cong: map_cong,
     simp add: le_bytes_def)

section \<open>A clean run is captured\<close>

text \<open>Reads that leave the synchronisation idle: a failed read, a discard packet, an index out of range.\<close>

fun idle_read :: "lepton_read \<Rightarrow> bool" where
  "idle_read ReadFailed \<longleftrightarrow> True"
| "idle_read (ReadOk raw) \<longleftrightarrow> raw_discard raw \<or> raw_index raw \<ge> PACKETS_PER_SEG"

definition in_time :: "(u32 \<times> lepton_read) list \<Rightarrow> bool" where
  "in_time rounds \<longleftrightarrow> list_all (\<lambda>(t, r). t \<le> 3000) rounds"

lemma in_time_Cons [simp]: "in_time ((t, r) # rounds) \<longleftrightarrow> t \<le> 3000 \<and> in_time rounds"
  by (simp add: in_time_def)

lemma in_time_append [simp]: "in_time (xs @ ys) \<longleftrightarrow> in_time xs \<and> in_time ys"
  by (simp add: in_time_def)

definition same_sync :: "capture \<Rightarrow> capture \<Rightarrow> bool" where
  "same_sync c c' \<longleftrightarrow> frame_buffer c' = frame_buffer c \<and> frame_started c' = frame_started c \<and> expected_seg c' = expected_seg c"

lemma same_sync_refl [simp]: "same_sync c c"
  by (simp add: same_sync_def)

lemma same_sync_trans: "same_sync a b \<Longrightarrow> same_sync b c \<Longrightarrow> same_sync a c"
  by (simp add: same_sync_def)

lemma loop_step:
  assumes "t \<le> 3000" and "capture_packet raw c = (False, c')"
  shows "capture_loop ((t, ReadOk raw) # rounds) c = capture_loop rounds c'"
  using assms by (simp add: linorder_not_le[symmetric])

lemma idle_rounds:
  assumes "in_time gap" and "list_all idle_read (map snd gap)" and "\<not> segment_active c"
  shows "\<exists>c'. (\<forall>rounds. capture_loop (gap @ rounds) c = capture_loop rounds c') \<and>
    \<not> segment_active c' \<and> same_sync c c' \<and> segmentBuffer c' = segmentBuffer c"
  using assms
proof (induction gap arbitrary: c)
  case (Cons x gap)
  obtain t r where x: "x = (t, r)" by (cases x)
  define c1 where "c1 = (if r = ReadFailed then discard_one c else lose_sync (discard_one c))"
  have c1: "\<not> segment_active c1" "same_sync c c1" "segmentBuffer c1 = segmentBuffer c"
    using Cons.prems(3) by (auto simp: c1_def discard_one_def lose_sync_def same_sync_def)
  have step: "capture_loop (x # rounds) c = capture_loop rounds c1" for rounds
    using Cons.prems(1,2) x
    by (cases r) (auto simp: c1_def in_time_def capture_packet_def not_less split: if_splits)
  obtain c' where "\<forall>rounds. capture_loop (gap @ rounds) c1 = capture_loop rounds c'"
    "\<not> segment_active c'" "same_sync c1 c'" "segmentBuffer c' = segmentBuffer c1"
    using Cons.IH[of c1] Cons.prems(1,2) x c1(1) by auto
  with step c1(2,3) same_sync_trans show ?case
    by (intro exI[of _ c']) auto
qed auto

text \<open>After \<open>k\<close> packets of segment \<open>j\<close>.\<close>

definition in_segment :: "nat \<Rightarrow> bytes list \<Rightarrow> nat \<Rightarrow> capture \<Rightarrow> capture \<Rightarrow> bool" where
  "in_segment j ps k c c' \<longleftrightarrow> segment_active c' \<and> expected_packet c' = k \<and>
     current_seg c' = (if k > 20 then j else 0) \<and> same_sync c c' \<and>
     length (segmentBuffer c') = 60 \<and> take k (segmentBuffer c') = map packet_pixels (take k ps)"

lemma packet_in_segment:
  assumes ps: "seg_packets_ok j ps" "1 \<le> j" "j \<le> 4" and k: "k < 59"
    and st: "if k = 0 then \<not> segment_active c \<and> c' = c \<and> length (segmentBuffer c) = 60 else in_segment j ps k c c'"
  shows "\<exists>c''. capture_packet (ps ! k) c' = (False, c'') \<and> in_segment j ps (Suc k) c c''"
proof -
  define c1 where "c1 = (if k = 0 then c\<lparr> segment_active := True, expected_packet := 0, current_seg := 0 \<rparr> else c')"
  have c1: "in_segment j ps k c c1"
    using st by (auto simp: c1_def in_segment_def same_sync_def split: if_splits)
  have raw: "raw_index (ps ! k) = k" "\<not> raw_discard (ps ! k)" "k = 20 \<Longrightarrow> raw_segment (ps ! k) = j" "length ps = 60"
    using ps(1) k by (auto simp: seg_packets_ok_def)
  define c2 where "c2 = (if k = 20 then c1\<lparr> segmentBuffer := (segmentBuffer c1)[k := packet_pixels (ps ! k)], current_seg := j \<rparr>
     else c1\<lparr> segmentBuffer := (segmentBuffer c1)[k := packet_pixels (ps ! k)] \<rparr>)\<lparr> expected_packet := k + 1 \<rparr>"
  have act: "segment_active c' = (k \<noteq> 0)" "expected_packet c1 = k"
    using st c1 by (auto simp: in_segment_def split: if_splits)
  have "capture_packet (ps ! k) c' = capture_store (ps ! k) c1"
    using raw k st act by (auto simp: capture_packet_def c1_def Let_def in_segment_def split: if_splits)
  moreover have "capture_store (ps ! k) c1 = (False, c2)"
    using raw k ps(2,3) act(2) by (auto simp: capture_store_def Let_def c2_def)
  moreover have "in_segment j ps (Suc k) c c2"
    using c1 raw k by (auto simp: in_segment_def c2_def same_sync_def take_Suc_conv_app_nth take_update_swap list_update_beyond)
  ultimately show ?thesis by auto
qed

lemma last_packet:
  assumes ps: "seg_packets_ok j ps" and st: "in_segment j ps 59 c c'"
  shows "\<exists>c2. capture_packet (ps ! 59) c' = capture_segment_end c2 \<and> current_seg c2 = j \<and>
    segmentBuffer c2 = map packet_pixels ps \<and> same_sync c c2"
proof -
  have raw: "raw_index (ps ! 59) = 59" "\<not> raw_discard (ps ! 59)" "length ps = 60"
    using ps by (auto simp: seg_packets_ok_def)
  define c2 where "c2 = c'\<lparr> segmentBuffer := (segmentBuffer c')[59 := packet_pixels (ps ! 59)], expected_packet := 60 \<rparr>"
  have "capture_packet (ps ! 59) c' = capture_segment_end c2"
    using raw st by (simp add: capture_packet_def capture_store_def Let_def in_segment_def c2_def)
  moreover have "segmentBuffer c2 = map packet_pixels ps"
  proof -
    have "ps = take 59 ps @ [ps ! 59]" using raw(3) take_Suc_conv_app_nth[of 59 ps] by simp
    then have px: "map packet_pixels ps = map packet_pixels (take 59 ps) @ [packet_pixels (ps ! 59)]"
      by (metis list.simps(8,9) map_append)
    have "segmentBuffer c2 = take 59 (segmentBuffer c') @ [packet_pixels (ps ! 59)]"
      using st take_Suc_conv_app_nth[of 59 "segmentBuffer c2"] by (simp add: c2_def in_segment_def)
    then show ?thesis using st px by (simp add: in_segment_def)
  qed
  ultimately show ?thesis
    using st by (intro exI[of _ c2]) (simp add: c2_def in_segment_def same_sync_def)
qed

lemma segment_run:
  assumes ps: "seg_packets_ok j ps" "1 \<le> j" "j \<le> 4" and rs: "map snd rs = map ReadOk ps" "in_time rs"
    and c: "\<not> segment_active c" "length (segmentBuffer c) = 60"
  shows "\<exists>c2. (\<forall>rest. capture_loop (rs @ rest) c = (case capture_segment_end c2 of
        (True, c') \<Rightarrow> (Some True, c') | (False, c') \<Rightarrow> capture_loop rest c')) \<and>
    current_seg c2 = j \<and> segmentBuffer c2 = map packet_pixels ps \<and> same_sync c c2"
proof -
  have n: "length rs = 60" "length ps = 60"
    using ps(1) map_eq_imp_length_eq[OF rs(1)] by (auto simp: seg_packets_ok_def)
  have nth: "\<exists>t. rs ! k = (t, ReadOk (ps ! k)) \<and> t \<le> 3000" if "k < 60" for k
  proof -
    have "snd (rs ! k) = ReadOk (ps ! k)" using nth_map[of k rs snd] nth_map[of k ps ReadOk] rs(1) n that by simp
    moreover have "(case rs ! k of (t, r) \<Rightarrow> t \<le> 3000)"
      using rs(2) n that list_all_nth unfolding in_time_def by metis
    ultimately show ?thesis by (cases "rs ! k") auto
  qed
  have run: "\<exists>c'. (\<forall>rest. capture_loop (take (Suc k) rs @ rest) c = capture_loop rest c') \<and> in_segment j ps (Suc k) c c'"
    if "k < 59" for k
    using that
  proof (induction k)
    case 0
    obtain t where t: "rs ! 0 = (t, ReadOk (ps ! 0))" "t \<le> 3000" using nth[of 0] by auto
    obtain c'' where p: "capture_packet (ps ! 0) c = (False, c'')" "in_segment j ps (Suc 0) c c''"
      using packet_in_segment[OF ps, of 0 c c] c by auto
    have "take (Suc 0) rs = [(t, ReadOk (ps ! 0))]" using n t by (simp add: take_Suc_conv_app_nth)
    then show ?case using p loop_step[OF t(2) p(1)] by auto
  next
    case (Suc k)
    then obtain c' where c': "\<forall>rest. capture_loop (take (Suc k) rs @ rest) c = capture_loop rest c'" "in_segment j ps (Suc k) c c'"
      by auto
    obtain t where t: "rs ! Suc k = (t, ReadOk (ps ! Suc k))" "t \<le> 3000" using nth[of "Suc k"] Suc.prems by auto
    obtain c'' where p: "capture_packet (ps ! Suc k) c' = (False, c'')" "in_segment j ps (Suc (Suc k)) c c''"
      using packet_in_segment[OF ps, of "Suc k" c c'] Suc.prems c'(2) by auto
    have "take (Suc (Suc k)) rs = take (Suc k) rs @ [(t, ReadOk (ps ! Suc k))]"
      using n t Suc.prems by (simp add: take_Suc_conv_app_nth)
    then show ?case using p c'(1) loop_step[OF t(2) p(1)] by (intro exI[of _ c'']) auto
  qed
  obtain c' where c': "\<forall>rest. capture_loop (take 59 rs @ rest) c = capture_loop rest c'" "in_segment j ps 59 c c'"
    using run[of 58] by auto
  obtain c2 where c2: "capture_packet (ps ! 59) c' = capture_segment_end c2" "current_seg c2 = j"
    "segmentBuffer c2 = map packet_pixels ps" "same_sync c c2"
    using last_packet[OF ps(1) c'(2)] by auto
  obtain t where t: "rs ! 59 = (t, ReadOk (ps ! 59))" "t \<le> 3000" using nth[of 59] by auto
  have rs59: "rs = take 59 rs @ [(t, ReadOk (ps ! 59))]"
    using n t take_Suc_conv_app_nth[of 59 rs] by simp
  have "capture_loop (rs @ rest) c = (case capture_segment_end c2 of
        (True, c') \<Rightarrow> (Some True, c') | (False, c') \<Rightarrow> capture_loop rest c')" for rest
  proof -
    have "capture_loop (rs @ rest) c = capture_loop ((t, ReadOk (ps ! 59)) # rest) c'"
      by (subst rs59) (simp add: c'(1) del: capture_loop.simps)
    then show ?thesis using c2(1) t(2) by (simp add: linorder_not_le[symmetric])
  qed
  then show ?thesis using c2 by (intro exI[of _ c2]) auto
qed

text \<open>Between segments: \<open>segs\<close> are in the frame.\<close>

definition progress :: "bytes list list \<Rightarrow> capture \<Rightarrow> bool" where
  "progress segs c \<longleftrightarrow> \<not> segment_active c \<and> length (segmentBuffer c) = 60 \<and> length (frame_buffer c) = LEP_FRAME_SIZE \<and>
     (segs \<noteq> [] \<longrightarrow> frame_started c \<and> expected_seg c = length segs + 1 \<and>
        take (4800 * length segs) (frame_buffer c) = frame_pixels segs)"

lemma segment_accept:
  assumes c2: "current_seg c2 = j" "segmentBuffer c2 = map packet_pixels ps" "length ps = 60" "length (frame_buffer c2) = LEP_FRAME_SIZE"
    and j: "j = length segs + 1" "j \<le> 4"
    and ok: "segs \<noteq> [] \<Longrightarrow> frame_started c2 \<and> expected_seg c2 = j \<and> take (4800 * length segs) (frame_buffer c2) = frame_pixels segs"
  shows "\<exists>c'. capture_segment_end c2 = (j = 4, c') \<and> (if j = 4 then frame_buffer c' = frame_pixels (segs @ [ps]) else progress (segs @ [ps]) c')"
proof -
  define fb where "fb = (if \<not> frame_started c2 \<or> j \<noteq> expected_seg c2 then zero_frame else frame_buffer c2)"
  have fb: "length fb = LEP_FRAME_SIZE" "take (4800 * length segs) fb = frame_pixels segs"
    using c2(4) ok by (cases "segs = []"; simp add: fb_def zero_frame_def frame_pixels_def)+
  have rows: "length (map packet_pixels ps) = 60" "list_all (\<lambda>row. length row = 80) (map packet_pixels ps)"
    using c2(3) by (simp_all add: list_all_iff)
  note cp = copy_segment[OF fb(1) rows, of j]
  define c' where "c' = snd (capture_segment_end c2)"
  have "capture_segment_end c2 = (j = 4, c') \<and> frame_buffer c' = copySegmentToFrame j (map packet_pixels ps) fb \<and>
    segmentBuffer c' = segmentBuffer c2 \<and> \<not> segment_active c' \<and> frame_started c' \<and> (j \<noteq> 4 \<longrightarrow> expected_seg c' = j + 1)"
  proof (cases "\<not> frame_started c2 \<or> j \<noteq> expected_seg c2")
    case True
    with ok have "segs = []" by auto
    then have "j = 1" using j(1) by simp
    then show ?thesis
      using True c2(1,2) unfolding c'_def capture_segment_end_def by (simp add: Let_def lose_sync_def fb_def)
  next
    case False
    then show ?thesis
      using c2(1,2) j(1) unfolding c'_def capture_segment_end_def by (simp add: Let_def lose_sync_def fb_def)
  qed
  then have e: "capture_segment_end c2 = (j = 4, c')" and f: "frame_buffer c' = copySegmentToFrame j (map packet_pixels ps) fb"
    "segmentBuffer c' = segmentBuffer c2" "\<not> segment_active c'" "frame_started c'" "j \<noteq> 4 \<Longrightarrow> expected_seg c' = j + 1"
    by auto
  have "take (4800 * j) (frame_buffer c') = frame_pixels (segs @ [ps])" "length (frame_buffer c') = LEP_FRAME_SIZE"
    using cp(2,3) j fb(2) by (simp_all add: f(1) frame_pixels_snoc)
  with e f j c2(2,3) show ?thesis by (intro exI[of _ c']) (auto simp: progress_def)
qed

lemma progress_step:
  assumes "progress segs c" and "length segs < 4" and gap: "in_time gap" "list_all idle_read (map snd gap)"
    and ps: "seg_packets_ok (length segs + 1) ps" and rs: "map snd rs = map ReadOk ps" "in_time rs"
  shows "\<exists>c'. if length segs = 3
    then (\<forall>rest. capture_loop (gap @ rs @ rest) c = (Some True, c')) \<and> frame_buffer c' = frame_pixels (segs @ [ps])
    else (\<forall>rest. capture_loop (gap @ rs @ rest) c = capture_loop rest c') \<and> progress (segs @ [ps]) c'"
proof -
  obtain c1 where c1: "\<forall>rounds. capture_loop (gap @ rounds) c = capture_loop rounds c1" "\<not> segment_active c1" "same_sync c c1"
    "segmentBuffer c1 = segmentBuffer c"
    using idle_rounds[OF gap] assms(1) unfolding progress_def by metis
  obtain c2 where c2: "\<forall>rest. capture_loop (rs @ rest) c1 = (case capture_segment_end c2 of
        (True, c') \<Rightarrow> (Some True, c') | (False, c') \<Rightarrow> capture_loop rest c')"
    "current_seg c2 = length segs + 1" "segmentBuffer c2 = map packet_pixels ps" "same_sync c1 c2"
    using segment_run[OF ps _ _ rs c1(2)] assms(1,2) c1(4) unfolding progress_def by auto
  have ss: "same_sync c c2" using c1(3) c2(4) same_sync_trans by blast
  have "length ps = 60" using ps by (simp add: seg_packets_ok_def)
  then obtain c' where "capture_segment_end c2 = (length segs + 1 = 4, c')"
    "if length segs + 1 = 4 then frame_buffer c' = frame_pixels (segs @ [ps]) else progress (segs @ [ps]) c'"
    using segment_accept[OF c2(2,3), of segs] assms(1,2) ss unfolding progress_def same_sync_def by auto
  with c1(1) c2(1) show ?thesis by (intro exI[of _ c']) (auto split: if_splits)
qed

lemma capture_loop_append: "capture_loop xs c = (None, c') \<Longrightarrow> capture_loop (xs @ ys) c = capture_loop ys c'"
  by (induction xs c rule: capture_loop.induct) (auto split: lepton_read.splits prod.splits bool.splits if_splits)

lemma capture_loop_pending:
  assumes "capture_inv c rs" and "capture_loop rounds c = (None, c')"
  shows "\<exists>rs'. capture_inv c' rs'"
  using assms
proof (induction rounds c arbitrary: rs rule: capture_loop.induct)
  case (2 elapsed r rounds c)
  from "2.prems"(2) have t: "\<not> elapsed > 3000" by (auto split: if_splits)
  show ?case
  proof (cases r)
    case ReadFailed
    have "capture_inv (discard_one c) rs"
      using "2.prems"(1) by (simp add: capture_inv_def capture_ok_def trace_ok_def discard_one_def)
    from "2.IH"(2)[OF t ReadFailed this] "2.prems"(2) t ReadFailed show ?thesis by simp
  next
    case (ReadOk raw)
    obtain d c1 where p: "capture_packet raw c = (d, c1)" by fastforce
    then have "d = False" using "2.prems"(2) t ReadOk by (cases d) auto
    with packet_inv[OF "2.prems"(1) p] "2.IH"(1)[OF t ReadOk p[symmetric]] "2.prems"(2) t ReadOk p
    show ?thesis by auto
  qed
qed auto

lemma clean_run_captured:
  assumes "length segbuf = 60" "list_all (\<lambda>row. length row = 80) segbuf"
    and "captureFrame before segbuf = (None, c)" and "\<not> segment_active c"
    and "in_time (g1 @ g2 @ g3 @ g4)" "list_all idle_read (map snd (g1 @ g2 @ g3 @ g4))"
    and "seg_packets_ok 1 p1" "seg_packets_ok 2 p2" "seg_packets_ok 3 p3" "seg_packets_ok 4 p4"
    and "map snd s1 = map ReadOk p1" "map snd s2 = map ReadOk p2" "map snd s3 = map ReadOk p3" "map snd s4 = map ReadOk p4"
    and "in_time (s1 @ s2 @ s3 @ s4)"
  shows "\<exists>c'. captureFrame (before @ g1 @ s1 @ g2 @ s2 @ g3 @ s3 @ g4 @ s4 @ later) segbuf = (Some True, c') \<and>
    frame_buffer c' = frame_pixels [p1, p2, p3, p4]"
proof -
  obtain rs' where "capture_inv c rs'"
    using capture_loop_pending[OF capture_start_inv[OF assms(1,2)]] assms(3) by (auto simp: captureFrame_def)
  then have p0: "progress [] c"
    using assms(4) by (auto simp: progress_def capture_inv_def capture_ok_def)
  obtain c1 where c1: "\<forall>rest. capture_loop (g1 @ s1 @ rest) c = capture_loop rest c1" "progress [p1] c1"
    using progress_step[OF p0, of g1 p1 s1] assms(5-15) by auto
  obtain c2 where c2: "\<forall>rest. capture_loop (g2 @ s2 @ rest) c1 = capture_loop rest c2" "progress [p1, p2] c2"
    using progress_step[OF c1(2), of g2 p2 s2] assms(5-15) by (auto simp: numeral_2_eq_2)
  obtain c3 where c3: "\<forall>rest. capture_loop (g3 @ s3 @ rest) c2 = capture_loop rest c3" "progress [p1, p2, p3] c3"
    using progress_step[OF c2(2), of g3 p3 s3] assms(5-15) by (auto simp: numeral_3_eq_3)
  obtain c4 where "\<forall>rest. capture_loop (g4 @ s4 @ rest) c3 = (Some True, c4)" "frame_buffer c4 = frame_pixels [p1, p2, p3, p4]"
    using progress_step[OF c3(2), of g4 p4 s4] assms(5-15) by (auto simp: eval_nat_numeral)
  with c1(1) c2(1) c3(1) capture_loop_append[OF assms(3)[unfolded captureFrame_def]] show ?thesis
    by (auto simp: captureFrame_def)
qed

lemma in_stream_subset: "in_stream segs rs \<Longrightarrow> set (concat segs) \<subseteq> set rs"
  by (induction rule: in_stream.induct) auto

section \<open>Properties\<close>

text \<open>A sensor that delivers the four segments of a test picture.\<close>

definition test_packet :: "nat \<Rightarrow> nat \<Rightarrow> bytes" where
  "test_packet j k = (if k = 20 then of_nat (16 * j) else 0) # of_nat k # replicate 162 (of_nat j)"

definition test_segment :: "nat \<Rightarrow> bytes list" where
  "test_segment j = map (test_packet j) [0..<60]"

definition test_reads :: "nat \<Rightarrow> (u32 \<times> lepton_read) list" where
  "test_reads j = map (\<lambda>p. (0, ReadOk p)) (test_segment j)"

lemma test_segment_ok:
  assumes "j \<in> {1, 2, 3, 4}"
  shows "seg_packets_ok j (test_segment j)"
proof -
  have n: "length (test_segment j) = 60" by (simp add: test_segment_def)
  have p: "test_segment j ! k = test_packet j k" if "k < 60" for k
    using that by (simp add: test_segment_def del: upt_rec_numeral)
  have "raw_index (test_packet j k) = k" if "k < 60" for k
    using that by (simp add: raw_index_def test_packet_def unat_of_nat8)
  moreover have "\<not> raw_discard (test_packet j k)" for k
    using assms by (auto simp: raw_discard_def test_packet_def)
  moreover have "raw_segment (test_packet j 20) = j"
    using assms by (auto simp: raw_segment_def test_packet_def)
  ultimately show ?thesis
    by (simp add: seg_packets_ok_def n p)
qed

lemma test_reads_ok: "map snd (test_reads j) = map ReadOk (test_segment j)" "in_time (test_reads j)"
  by (simp_all add: test_reads_def in_time_def list_all_iff comp_def)

definition zero_segbuf :: "u16 list list" where
  "zero_segbuf = replicate 60 (replicate 80 0)"

lemma zero_segbuf_ok: "length zero_segbuf = 60" "list_all (\<lambda>row. length row = 80) zero_segbuf"
  by (simp_all add: zero_segbuf_def list_all_iff del: replicate.simps)

lemma capture_start_idle: "captureFrame [] segbuf = (None, capture_start segbuf)" "\<not> segment_active (capture_start segbuf)"
  by (simp_all add: captureFrame_def capture_start_def)

text \<open>C7: When \<^verbatim>\<open>captureFrame\<close> returns true, the frame is coherent: among the packets read there are
  four runs of 60 consecutive packets, in order, with the packet numbers 0 to 59 and the segment
  numbers 1 to 4, and the bytes of the frame are their payloads one after the other. Lost,
  repeated or mixed packets never get into a frame.\<close>

theorem capture_coherent:
  assumes "length segbuf = 60" and "list_all (\<lambda>row. length row = 80) segbuf"
    and "captureFrame rounds segbuf = (Some True, c)"
    and "\<forall>raw\<in>set (read_packets rounds). length raw = PACKET_SIZE"
  shows "\<exists>segs xs ys. read_packets rounds = xs @ ys \<and> in_stream segs xs \<and> length segs = 4 \<and>
    (\<forall>j<4. seg_packets_ok (Suc j) (segs ! j)) \<and>
    le_bytes (frame_buffer c) = concat (map (concat \<circ> map packet_payload) segs)"
proof -
  obtain xs ys where r: "read_packets rounds = xs @ ys" and f: "frame_captured c xs"
    using capture_loop_sound[OF capture_start_inv[OF assms(1,2)] assms(3)[unfolded captureFrame_def]] by auto
  from f obtain segs where segs: "length segs = 4" "\<forall>j<4. seg_packets_ok (Suc j) (segs ! j)"
    "frame_buffer c = frame_pixels segs" "in_stream segs xs"
    by (auto simp: frame_captured_def)
  have "\<forall>ps\<in>set segs. \<forall>raw\<in>set ps. length raw = PACKET_SIZE"
    using in_stream_subset[OF segs(4)] assms(4) r by fastforce
  from le_bytes_frame[OF this] segs r show ?thesis by (intro exI[of _ segs]) auto
qed

lemma capture_coherent_witness:
  "\<exists>c segs xs. captureFrame (concat (map test_reads [1, 2, 3, 4])) zero_segbuf = (Some True, c) \<and>
     in_stream segs xs \<and> length segs = 4 \<and> le_bytes (frame_buffer c) = concat (map (concat \<circ> map packet_payload) segs)"
proof -
  obtain c where c: "captureFrame (concat (map test_reads [1, 2, 3, 4])) zero_segbuf = (Some True, c)"
  proof -
    have "\<exists>c'. captureFrame ([] @ [] @ test_reads 1 @ [] @ test_reads 2 @ [] @ test_reads 3 @ [] @ test_reads 4 @ []) zero_segbuf
       = (Some True, c') \<and> frame_buffer c' = frame_pixels [test_segment 1, test_segment 2, test_segment 3, test_segment 4]"
      by (rule clean_run_captured[OF zero_segbuf_ok capture_start_idle _ _ test_segment_ok test_segment_ok test_segment_ok test_segment_ok
          test_reads_ok(1) test_reads_ok(1) test_reads_ok(1) test_reads_ok(1)]) (simp_all add: test_reads_ok, simp_all add: in_time_def)
    with that show thesis by auto
  qed
  have rd: "read_packets (test_reads j @ rs) = test_segment j @ read_packets rs" for j rs
  proof -
    have "read_packets (map (\<lambda>p. (0, ReadOk p)) ps @ rs) = ps @ read_packets rs" for ps
      by (induction ps) auto
    then show ?thesis by (simp add: test_reads_def)
  qed
  have "length raw = PACKET_SIZE" if "raw \<in> set (test_segment j)" for raw j
    using that by (auto simp: test_segment_def test_packet_def simp del: upt_rec_numeral)
  then have "\<forall>raw\<in>set (read_packets (concat (map test_reads [1, 2, 3, 4]))). length raw = PACKET_SIZE"
    using rd[of 4 "[]"] by (auto simp: rd)
  from capture_coherent[OF zero_segbuf_ok c this] c show ?thesis by auto
qed



text \<open>\<^verbatim>\<open>captureFrame\<close> ends: it has returned once a round finds more than three seconds elapsed, and
  it gives up only then.\<close>

theorem capture_ends:
  "(list_ex (\<lambda>(t, r). t > 3000) rounds \<longrightarrow> fst (captureFrame rounds segbuf) \<noteq> None) \<and>
   (fst (captureFrame rounds segbuf) = Some False \<longrightarrow> list_ex (\<lambda>(t, r). t > 3000) rounds)"
  using capture_loop_returns[of rounds "capture_start segbuf"] capture_loop_gives_up[of rounds "capture_start segbuf"]
  by (simp add: captureFrame_def)

lemma capture_ends_witness: "fst (captureFrame [(10, ReadFailed), (3001, ReadFailed)] zero_segbuf) \<noteq> None"
  using capture_ends[of "[(10, ReadFailed), (3001, ReadFailed)]" zero_segbuf] by simp

end
