(* ===== verification/TeensyPoolSpec.thy ===== *)
theory TeensyPoolSpec imports TeensyPool TeensyCaptureSpec begin

text \<open>
  Properties of the two threads of the Teensy node, for any queue that keeps the contract of a
  bounded queue of capacity three, with a list as an instance of it.
\<close>

section \<open>A run\<close>

abbreviation (input) list_put :: "nat \<Rightarrow> nat list \<Rightarrow> bool \<times> nat list" where
  "list_put \<equiv> fifo_put FRAME_BUFFER_COUNT"

abbreviation (input) list_get :: "nat list \<Rightarrow> (nat \<times> nat list) option" where
  "list_get \<equiv> fifo_get"

lemma list_empty: "length ([] :: nat list) \<le> FRAME_BUFFER_COUNT" "([] :: nat list) = []"
  by simp_all

text \<open>A run: a frame is captured, queued, and taken by the sender while \<^verbatim>\<open>main\<close> captures the next.\<close>

definition test_rounds :: "(u32 \<times> lepton_read) list" where
  "test_rounds = concat (map test_reads [1, 2, 3, 4])"

definition run_main :: "nat list pool \<Rightarrow> nat list pool" where
  "run_main = main_step list_put list_get test_rounds"

definition run_sender :: "nat list pool \<Rightarrow> nat list pool" where
  "run_sender = sender_step list_put list_get True (\<lambda>_. True)"

definition pool_sending :: "nat list pool" where
  "pool_sending = run_main (run_sender (run_main (run_main (run_main (pool_start list_put [])))))"

lemma run_reachable:
  "pool_reachable list_put list_get [] s \<Longrightarrow> pool_reachable list_put list_get [] (run_main s)"
  "pool_reachable list_put list_get [] s \<Longrightarrow> pool_reachable list_put list_get [] (run_sender s)"
  unfolding run_main_def run_sender_def
  by (auto intro: pool_reachable.step pool_step.main_thread pool_step.sender_thread)

lemma pool_sending_reachable: "pool_reachable list_put list_get [] pool_sending"
  unfolding pool_sending_def by (intro run_reachable pool_reachable.start)

lemma test_rounds_captured: "\<exists>c. captureFrame test_rounds zero_segbuf = (Some True, c)"
proof -
  have "\<exists>c'. captureFrame ([] @ [] @ test_reads 1 @ [] @ test_reads 2 @ [] @ test_reads 3 @ [] @ test_reads 4 @ []) zero_segbuf
     = (Some True, c') \<and> frame_buffer c' = frame_pixels [test_segment 1, test_segment 2, test_segment 3, test_segment 4]"
    by (rule clean_run_captured[OF zero_segbuf_ok capture_start_idle _ _ test_segment_ok test_segment_ok test_segment_ok test_segment_ok
        test_reads_ok(1) test_reads_ok(1) test_reads_ok(1) test_reads_ok(1)]) (simp_all add: test_reads_ok, simp_all add: in_time_def)
  then show ?thesis by (auto simp: test_rounds_def)
qed

lemma pool_sending_state:
  "sender_at pool_sending = Sending 0" "main_at pool_sending = Capture 1" "frameIds pool_sending ! 0 = 1"
  "sender_at (run_sender pool_sending) = Return 0" "length (sent (run_sender pool_sending)) = 1"
proof -
  obtain c where c: "captureFrame test_rounds zero_segbuf = (Some True, c)" using test_rounds_captured by blast
  have s0: "free_q (pool_start list_put []) = [0, 1, 2]" "main_at (pool_start list_put []) = GetFree"
    "segbuf (pool_start list_put []) = zero_segbuf" "ready_q (pool_start list_put []) = []"
    "frameIds (pool_start list_put []) = [0, 0, 0]" "next_frame_id (pool_start list_put []) = 1"
    "sender_at (pool_start list_put []) = AwaitReady" "sent (pool_start list_put []) = []"
    by (simp_all add: pool_start_def upt_3 fifo_put_def zero_segbuf_def, simp add: numeral_3_eq_3)
  define s1 where "s1 = run_main (pool_start list_put [])"
  have s1: "free_q s1 = [1, 2]" "main_at s1 = Capture 0" "segbuf s1 = zero_segbuf" "ready_q s1 = []" "frameIds s1 = [1, 0, 0]"
    "next_frame_id s1 = 1" "sender_at s1 = AwaitReady" "sent s1 = []"
    by (simp_all add: s1_def run_main_def main_step_def begin_capture_def s0)
  define s2 where "s2 = run_main s1"
  have s2: "free_q s2 = [1, 2]" "main_at s2 = PutReady 0" "ready_q s2 = []" "frameIds s2 = [1, 0, 0]"
    "next_frame_id s2 = 1" "sender_at s2 = AwaitReady" "sent s2 = []"
    by (simp_all add: s2_def run_main_def main_step_def s1 c Let_def)
  define s3 where "s3 = run_main s2"
  have s3: "free_q s3 = [1, 2]" "main_at s3 = GetFree" "ready_q s3 = [0]" "frameIds s3 = [1, 0, 0]"
    "next_frame_id s3 = 2" "sender_at s3 = AwaitReady" "sent s3 = []"
    by (simp_all add: s3_def run_main_def main_step_def s2 fifo_put_def)
  define s4 where "s4 = run_sender s3"
  have s4: "free_q s4 = [1, 2]" "main_at s4 = GetFree" "ready_q s4 = []" "frameIds s4 = [1, 0, 0]"
    "next_frame_id s4 = 2" "sender_at s4 = Sending 0" "sent s4 = []"
    by (simp_all add: s4_def run_sender_def sender_step_def s3)
  have e: "pool_sending = run_main s4"
    by (simp add: pool_sending_def s4_def s3_def s2_def s1_def)
  show s5: "sender_at pool_sending = Sending 0" "main_at pool_sending = Capture 1" "frameIds pool_sending ! 0 = 1"
    by (simp_all add: e run_main_def main_step_def begin_capture_def s4)
  have "sent pool_sending = []" by (simp add: e run_main_def main_step_sent s4)
  with s5 show "sender_at (run_sender pool_sending) = Return 0" "length (sent (run_sender pool_sending)) = 1"
    by (simp_all add: run_sender_def sender_step_def split_beta)
qed

section \<open>Properties\<close>



text \<open>C28: A frame buffer belongs to one side at a time: whatever \<^verbatim>\<open>main\<close> does while the sender thread holds
  a buffer, it neither works on that buffer nor changes its pixels or its id.\<close>

theorem sent_buffer_untouched:
  assumes "msgq qinv contents put get" and "qinv q0" and "contents q0 = []"
    and "pool_reachable put get q0 s" and "sender_at s = Sending i \<or> sender_at s = Return i"
  shows "i \<notin> set (main_holds (main_at (main_step put get rounds s))) \<and>
    frameBuffers (main_step put get rounds s) ! i = frameBuffers s ! i \<and>
    frameIds (main_step put get rounds s) ! i = frameIds s ! i"
proof -
  let ?s = "main_step put get rounds s"
  have i: "pool_inv qinv contents s" using pool_reachable_inv[OF assms(4,1,2,3)] .
  have i': "pool_inv qinv contents ?s" using main_step_inv[OF assms(1) i] .
  have h: "sender_holds (sender_at s) = [i]" "sender_holds (sender_at ?s) = [i]"
    using assms(5) by (auto simp: main_step_sent)
  have o: "i \<notin> set (main_holds (main_at s))" "i \<notin> set (main_holds (main_at ?s))"
    using sender_owns(2)[OF _ h(1)] sender_owns(2)[OF _ h(2)] i i' unfolding pool_inv_def by blast+
  show ?thesis
    using o by (cases "main_at s") (auto simp: main_step_def begin_capture_def Let_def split_beta split: option.split bool.split)
qed

lemma sent_buffer_untouched_witness:
  "frameBuffers (main_step list_put list_get test_rounds pool_sending) ! 0 = frameBuffers pool_sending ! 0 \<and>
   main_at pool_sending = Capture 1"
  using sent_buffer_untouched[OF list_fifo list_empty pool_sending_reachable, of 0 test_rounds] pool_sending_state(1,2)
  by simp

text \<open>C31: No buffer is lost and no put fails: at any time the three buffers are in the free queue, in the
  ready queue or held by one thread, each exactly once; \<^verbatim>\<open>main\<close> never has to give back a captured
  frame because the ready queue is full; the sender never waits to return a buffer; and when the
  free queue is empty while \<^verbatim>\<open>main\<close> asks for a buffer, at least two frames are ready.\<close>

theorem buffers_conserved:
  assumes "msgq qinv contents put get" and "qinv q0" and "contents q0 = []"
    and "pool_reachable put get q0 s"
  shows "mset (contents (free_q s) @ contents (ready_q s) @ main_holds (main_at s) @ sender_holds (sender_at s)) = mset [0, 1, 2] \<and>
    (\<forall>i. main_at s \<noteq> Requeue i) \<and>
    (sender_at s = Return i \<longrightarrow> sender_at (sender_step put get spi_ready spi_ok s) = AwaitReady) \<and>
    (main_at s = GetFree \<and> get (free_q s) = None \<longrightarrow> length (contents (ready_q s)) \<ge> 2)"
proof -
  have i: "pool_inv qinv contents s" using pool_reachable_inv[OF assms(4,1,2,3)] .
  then have o: "pool_owned qinv contents s" and qi: "qinv (free_q s)" by (simp_all add: pool_inv_def pool_owned_def)
  have ret: "sender_at (sender_step put get spi_ready spi_ok s) = AwaitReady" if "sender_at s = Return i"
  proof -
    note own = sender_owns[OF o, of i, unfolded that, simplified]
    obtain b q where put: "put i (free_q s) = (b, q)" by fastforce
    with bounded_fifo.push_room[OF assms(1) qi own(1) own(3)] have "b" by simp
    then show ?thesis using that put by (simp add: sender_step_def)
  qed
  have two: "length (contents (ready_q s)) \<ge> 2" if "main_at s = GetFree" "get (free_q s) = None"
  proof -
    have "contents (free_q s) = []" using bounded_fifo.pop_none[OF assms(1) qi] that(2) by simp
    then have "length (contents (ready_q s)) + length (sender_holds (sender_at s)) = 3"
      using pool_distinct(3)[of "contents (ready_q s) @ sender_holds (sender_at s)"] o that(1) by (simp add: pool_owned_def)
    moreover have "length (sender_holds (sender_at s)) \<le> 1" by (cases "sender_at s") auto
    ultimately show ?thesis by linarith
  qed
  show ?thesis
    using o i ret two by (simp add: pool_owned_def pool_inv_def pool_numbered_def)
qed

lemma buffers_conserved_witness:
  "sender_at (sender_step list_put list_get True (\<lambda>_. True) (run_sender pool_sending)) = AwaitReady \<and>
   mset (free_q pool_sending @ ready_q pool_sending @ main_holds (main_at pool_sending) @
     sender_holds (sender_at pool_sending)) = mset [0, 1, 2]"
  using buffers_conserved[OF list_fifo list_empty run_reachable(2)[OF pool_sending_reachable], of 0 True "\<lambda>_. True"]
    buffers_conserved[OF list_fifo list_empty pool_sending_reachable] pool_sending_state(4)
  by simp

end
