(* ===== verification/TeensyCci.thy ===== *)
theory TeensyCci imports FwPrelude "HOL-Library.Sublist" begin

text \<open>
  The command interface (CCI) of the Lepton sensor: register accesses over I2C, the wait until
  the sensor is not busy, and the configuration at start. The I2C driver, the clock, the sleep
  and the chip-select pin are parameters acting on a state \<open>'d\<close> of the device; the loop that
  polls the status is a partial function, so that not returning is the value \<open>None\<close>.
\<close>

section \<open>Model\<close>

record 'd lepton_dev =
  i2c_write :: "bytes \<Rightarrow> 'd \<Rightarrow> bool \<times> 'd"
  i2c_write_read :: "bytes \<Rightarrow> 'd \<Rightarrow> bytes option \<times> 'd"
  k_uptime_get_32 :: "'d \<Rightarrow> u32 \<times> 'd"
  k_msleep :: "nat \<Rightarrow> 'd \<Rightarrow> 'd"
  set_lepton_cs :: "bool \<Rightarrow> 'd \<Rightarrow> 'd"

definition LEP_REG_STATUS :: u16 where "LEP_REG_STATUS = 0x0002"
definition LEP_REG_COMMAND :: u16 where "LEP_REG_COMMAND = 0x0004"
definition LEP_REG_LENGTH :: u16 where "LEP_REG_LENGTH = 0x0006"
definition LEP_REG_DATA0 :: u16 where "LEP_REG_DATA0 = 0x0008"
definition LEP_CMD_AGC_ENABLE :: u16 where "LEP_CMD_AGC_ENABLE = 0x0101"
definition LEP_CMD_VID_OUTPUT :: u16 where "LEP_CMD_VID_OUTPUT = 0x0204"

definition cci_write_bytes :: "u16 \<Rightarrow> u16 \<Rightarrow> bytes" where
  "cci_write_bytes reg val = [ucast (drop_bit 8 reg), ucast (reg AND 0xFF), ucast (drop_bit 8 val), ucast (val AND 0xFF)]"

definition cciWriteReg :: "'d lepton_dev \<Rightarrow> u16 \<Rightarrow> u16 \<Rightarrow> 'd \<Rightarrow> bool \<times> 'd" where
  "cciWriteReg dev reg val d = (case i2c_write dev (cci_write_bytes reg val) d of
     (False, d) \<Rightarrow> (False, d)
   | (True, d) \<Rightarrow> (True, k_msleep dev 5 d))"

definition cciReadReg :: "'d lepton_dev \<Rightarrow> u16 \<Rightarrow> 'd \<Rightarrow> u16 option \<times> 'd" where
  "cciReadReg dev reg d = (case i2c_write_read dev [ucast (drop_bit 8 reg), ucast (reg AND 0xFF)] d of
     (None, d) \<Rightarrow> (None, d)
   | (Some data, d) \<Rightarrow> (Some (push_bit 8 (ucast (data ! 0)) OR ucast (data ! 1)), d))"

partial_function (option) cci_poll :: "'d lepton_dev \<Rightarrow> u32 \<Rightarrow> u32 \<Rightarrow> 'd \<Rightarrow> (bool \<times> 'd) option" where
  "cci_poll dev ms start d = (case k_uptime_get_32 dev d of (now, d) \<Rightarrow>
     if \<not> now - start < ms then Some (False, d)
     else case cciReadReg dev LEP_REG_STATUS d of
       (None, d) \<Rightarrow> Some (False, d)
     | (Some status, d) \<Rightarrow> if status AND 1 = 0 then Some (True, d) else cci_poll dev ms start (k_msleep dev 10 d))"

definition cciWaitBusy :: "'d lepton_dev \<Rightarrow> u32 \<Rightarrow> 'd \<Rightarrow> (bool \<times> 'd) option" where
  "cciWaitBusy dev ms d = (case k_uptime_get_32 dev d of (start, d) \<Rightarrow> cci_poll dev ms start d)"

definition cciSet :: "'d lepton_dev \<Rightarrow> u16 \<Rightarrow> u16 \<Rightarrow> 'd \<Rightarrow> (bool \<times> 'd) option" where
  "cciSet dev cmdId value d = (case cciWaitBusy dev 2000 d of
     None \<Rightarrow> None
   | Some (False, d) \<Rightarrow> Some (False, d)
   | Some (True, d) \<Rightarrow> (case cciWriteReg dev LEP_REG_DATA0 value d of
       (False, d) \<Rightarrow> Some (False, d)
     | (True, d) \<Rightarrow> (case cciWriteReg dev LEP_REG_LENGTH 1 d of
         (False, d) \<Rightarrow> Some (False, d)
       | (True, d) \<Rightarrow> (case cciWriteReg dev LEP_REG_COMMAND (cmdId OR 0x02) d of
           (False, d) \<Rightarrow> Some (False, d)
         | (True, d) \<Rightarrow> cciWaitBusy dev 2000 d))))"

definition resetLepton :: "'d lepton_dev \<Rightarrow> 'd \<Rightarrow> 'd" where
  "resetLepton dev d = k_msleep dev 200 (set_lepton_cs dev True d)"

fun configure_attempts :: "nat \<Rightarrow> 'd lepton_dev \<Rightarrow> 'd \<Rightarrow> (bool \<times> 'd) option" where
  "configure_attempts 0 dev d = Some (False, d)"
| "configure_attempts (Suc n) dev d = (case cciSet dev LEP_CMD_AGC_ENABLE 0 d of
     None \<Rightarrow> None
   | Some (True, d) \<Rightarrow> (case cciSet dev LEP_CMD_VID_OUTPUT 7 d of
       None \<Rightarrow> None
     | Some (True, d) \<Rightarrow> Some (True, d)
     | Some (False, d) \<Rightarrow> configure_attempts n dev (k_msleep dev 200 (resetLepton dev d)))
   | Some (False, d) \<Rightarrow> configure_attempts n dev (k_msleep dev 200 (resetLepton dev d)))"

definition configureLepton :: "'d lepton_dev \<Rightarrow> 'd \<Rightarrow> (bool \<times> 'd) option" where
  "configureLepton dev = configure_attempts 3 dev"

section \<open>What the driver is assumed to do\<close>

text \<open>
  \<open>acked d\<close> is the list of register writes the sensor acknowledged. A write appends to it exactly
  when it succeeds; nothing else changes it.
\<close>

definition dev_logs :: "'d lepton_dev \<Rightarrow> ('d \<Rightarrow> bytes list) \<Rightarrow> bool" where
  "dev_logs dev acked \<longleftrightarrow>
     (\<forall>bs d. acked (snd (i2c_write dev bs d)) = (if fst (i2c_write dev bs d) then acked d @ [bs] else acked d)) \<and>
     (\<forall>bs d. acked (snd (i2c_write_read dev bs d)) = acked d) \<and> (\<forall>d. acked (snd (k_uptime_get_32 dev d)) = acked d) \<and>
     (\<forall>n d. acked (k_msleep dev n d) = acked d) \<and> (\<forall>b d. acked (set_lepton_cs dev b d) = acked d)"

text \<open>
  \<open>ms d\<close> is the time in milliseconds. The clock reads it modulo 2^32, it never goes back, a sleep
  takes at least its argument, and no single call takes more than a million milliseconds
  beyond its sleep.
\<close>

definition dev_clock :: "'d lepton_dev \<Rightarrow> ('d \<Rightarrow> nat) \<Rightarrow> bool" where
  "dev_clock dev ms \<longleftrightarrow>
     (\<forall>d. fst (k_uptime_get_32 dev d) = of_nat (ms (snd (k_uptime_get_32 dev d))) \<and>
        ms d \<le> ms (snd (k_uptime_get_32 dev d)) \<and> ms (snd (k_uptime_get_32 dev d)) \<le> ms d + 1000000) \<and>
     (\<forall>bs d. ms d \<le> ms (snd (i2c_write_read dev bs d)) \<and> ms (snd (i2c_write_read dev bs d)) \<le> ms d + 1000000) \<and>
     (\<forall>n d. ms d + n \<le> ms (k_msleep dev n d) \<and> ms (k_msleep dev n d) \<le> ms d + n + 1000000)"

section \<open>The wait ends\<close>

lemma elapsed_value:
  assumes "t0 \<le> t" and "t - t0 < 4294967296"
  shows "unat ((of_nat t :: u32) - of_nat t0) = t - t0"
  using assms unat_of_nat32[of "t - t0"] by (simp add: of_nat_diff)

lemma snd_cciReadReg: "\<exists>bs. snd (cciReadReg dev reg d) = snd (i2c_write_read dev bs d)"
  unfolding cciReadReg_def
  by (rule exI[of _ "[ucast (drop_bit 8 reg), ucast (reg AND 0xFF)]"]) (simp split: prod.split option.split)

lemma clock_read:
  assumes "dev_clock dev ms"
  shows "ms d \<le> ms (snd (cciReadReg dev reg d)) \<and> ms (snd (cciReadReg dev reg d)) \<le> ms d + 1000000"
  using snd_cciReadReg[of dev reg d] assms unfolding dev_clock_def by metis

lemma cci_poll_returns:
  assumes dev: "dev_clock dev ms" and t: "t0 \<le> ms d" "ms d \<le> t0 + 2000 + 3000000" and lim: "limit \<le> 2000"
  shows "\<exists>r. cci_poll dev limit (of_nat t0) d = Some r"
  using t
proof (induction "t0 + 3002000 - ms d" arbitrary: d rule: less_induct)
  case less
  obtain now d1 where u: "k_uptime_get_32 dev d = (now, d1)" by fastforce
  obtain v d2 where r: "cciReadReg dev LEP_REG_STATUS d1 = (v, d2)" by fastforce
  let ?d3 = "k_msleep dev 10 d2"
  have c1: "now = of_nat (ms d1)" "ms d \<le> ms d1" "ms d1 \<le> ms d + 1000000"
    using dev u unfolding dev_clock_def by (metis fst_conv snd_conv)+
  have c2: "ms d1 \<le> ms d2" "ms d2 \<le> ms d1 + 1000000"
    using clock_read[OF dev, of d1 LEP_REG_STATUS] r by simp_all
  have c3: "ms d2 + 10 \<le> ms ?d3" "ms ?d3 \<le> ms d2 + 10 + 1000000"
    using dev unfolding dev_clock_def by blast+
  have el: "unat (now - of_nat t0) = ms d1 - t0"
    using elapsed_value[of t0 "ms d1"] c1 less.prems by simp
  have "\<exists>r. cci_poll dev limit (of_nat t0) ?d3 = Some r" if "now - of_nat t0 < limit"
  proof -
    have "unat (now - of_nat t0) < 2000"
      using that lim by (simp add: word_less_nat_alt word_le_nat_alt)
    then show ?thesis using less.hyps[of ?d3] less.prems c1 c2 c3 el by simp
  qed
  then show ?case
    by (subst cci_poll.simps) (auto simp: u r split: option.split prod.split)
qed

lemma cciWaitBusy_returns:
  assumes "dev_clock dev ms" and "limit \<le> 2000"
  shows "\<exists>r. cciWaitBusy dev limit d = Some r"
proof -
  obtain now d1 where u: "k_uptime_get_32 dev d = (now, d1)" by fastforce
  then have "now = of_nat (ms d1)" using assms(1) unfolding dev_clock_def by (metis fst_conv snd_conv)
  then show ?thesis
    using cci_poll_returns[OF assms(1) _ _ assms(2), of "ms d1" d1] by (simp add: cciWaitBusy_def u)
qed

lemma cciSet_returns: "dev_clock dev ms \<Longrightarrow> \<exists>b d'. cciSet dev cmd v d = Some (b, d')"
  using cciWaitBusy_returns[of dev ms 2000] unfolding cciSet_def
  by (auto split: option.split prod.split bool.split)

lemma configure_returns:
  assumes "dev_clock dev ms"
  shows "configure_attempts n dev d \<noteq> None"
proof (induction n arbitrary: d)
  case (Suc n)
  obtain b d1 where a: "cciSet dev LEP_CMD_AGC_ENABLE 0 d = Some (b, d1)" using cciSet_returns[OF assms] by blast
  obtain b' d2 where v: "cciSet dev LEP_CMD_VID_OUTPUT 7 d1 = Some (b', d2)" using cciSet_returns[OF assms] by blast
  show ?case using Suc by (cases b; cases b') (auto simp: a v)
qed simp

section \<open>What is written\<close>

lemma log_writeReg:
  assumes "dev_logs dev acked" and "cciWriteReg dev reg val d = (b, d')"
  shows "acked d' = (if b then acked d @ [cci_write_bytes reg val] else acked d)"
proof -
  obtain c d1 where w: "i2c_write dev (cci_write_bytes reg val) d = (c, d1)" by fastforce
  have "acked d1 = (if c then acked d @ [cci_write_bytes reg val] else acked d)" "acked (k_msleep dev 5 d1) = acked d1"
    using assms(1) w unfolding dev_logs_def by (metis fst_conv snd_conv)+
  then show ?thesis using assms(2) w by (cases c) (auto simp: cciWriteReg_def)
qed

lemma log_readReg: "dev_logs dev acked \<Longrightarrow> acked (snd (cciReadReg dev reg d)) = acked d"
  using snd_cciReadReg[of dev reg d] unfolding dev_logs_def by metis

lemma log_poll:
  assumes "cci_poll dev limit start (d :: 'a) = Some r"
  shows "dev_logs dev acked \<longrightarrow> acked (snd r) = acked d"
proof (rule cci_poll.raw_induct[OF _ assms])
  fix poll :: "'a lepton_dev \<Rightarrow> u32 \<Rightarrow> u32 \<Rightarrow> 'a \<Rightarrow> (bool \<times> 'a) option" and dev limit start d r
  assume IH: "\<And>dev limit start d r. poll dev limit start d = Some r \<Longrightarrow> dev_logs dev acked \<longrightarrow> acked (snd r) = acked d"
    and s: "(case k_uptime_get_32 dev d of (now, d) \<Rightarrow>
     if \<not> now - start < limit then Some (False, d)
     else case cciReadReg dev LEP_REG_STATUS d of
       (None, d) \<Rightarrow> Some (False, d)
     | (Some status, d) \<Rightarrow> if status AND 1 = 0 then Some (True, d) else poll dev limit start (k_msleep dev 10 d)) = Some r"
  show "dev_logs dev acked \<longrightarrow> acked (snd r) = acked d"
  proof
    assume dl: "dev_logs dev acked"
    obtain now d1 where u: "k_uptime_get_32 dev d = (now, d1)" by fastforce
    obtain v d2 where v: "cciReadReg dev LEP_REG_STATUS d1 = (v, d2)" by fastforce
    have "acked d1 = acked d" using dl u unfolding dev_logs_def by (metis snd_conv)
    moreover have "acked d2 = acked d1" using log_readReg[OF dl, of LEP_REG_STATUS d1] v by simp
    moreover have "acked (k_msleep dev 10 d2) = acked d2" using dl unfolding dev_logs_def by blast
    ultimately show "acked (snd r) = acked d"
      using s IH[of dev limit start "k_msleep dev 10 d2" r] dl by (auto simp: u v split: if_splits option.splits)
  qed
qed

lemma log_wait:
  assumes "dev_logs dev acked" and "cciWaitBusy dev limit d = Some (b, d')"
  shows "acked d' = acked d"
proof -
  obtain now d1 where u: "k_uptime_get_32 dev d = (now, d1)" by fastforce
  have "acked d1 = acked d" using assms(1) u unfolding dev_logs_def by (metis snd_conv)
  then show ?thesis using assms log_poll[of dev limit now d1 "(b, d')" acked] by (simp add: cciWaitBusy_def u)
qed

definition cci_set_writes :: "u16 \<Rightarrow> u16 \<Rightarrow> bytes list" where
  "cci_set_writes cmdId value = [cci_write_bytes LEP_REG_DATA0 value, cci_write_bytes LEP_REG_LENGTH 1,
     cci_write_bytes LEP_REG_COMMAND (cmdId OR 0x02)]"

lemma log_set:
  assumes dl: "dev_logs dev acked" and e: "cciSet dev cmd v d = Some (b, d')"
  shows "prefix (acked d) (acked d') \<and> (b \<longrightarrow> acked d' = acked d @ cci_set_writes cmd v)"
proof -
  obtain b1 d1 where w: "cciWaitBusy dev 2000 d = Some (b1, d1)" and l1: "acked d1 = acked d"
    using e log_wait[OF dl] by (auto simp: cciSet_def split: option.splits)
  obtain b2 d2 where r2: "cciWriteReg dev LEP_REG_DATA0 v d1 = (b2, d2)" by fastforce
  obtain b3 d3 where r3: "cciWriteReg dev LEP_REG_LENGTH 1 d2 = (b3, d3)" by fastforce
  obtain b4 d4 where r4: "cciWriteReg dev LEP_REG_COMMAND (cmd OR 2) d3 = (b4, d4)" by fastforce
  note l = log_writeReg[OF dl r2] log_writeReg[OF dl r3] log_writeReg[OF dl r4]
  show ?thesis
    using e w l1 l log_wait[OF dl, of 2000 d4]
    by (cases b1; cases b2; cases b3; cases b4) (auto simp: cciSet_def r2 r3 r4 cci_set_writes_def)
qed

lemma log_configure:
  assumes dl: "dev_logs dev acked"
  shows "configure_attempts n dev d = Some (True, d') \<Longrightarrow>
    suffix (cci_set_writes LEP_CMD_AGC_ENABLE 0 @ cci_set_writes LEP_CMD_VID_OUTPUT 7) (acked d')"
proof (induction n arbitrary: d)
  case (Suc n)
  then obtain b d1 where a: "cciSet dev LEP_CMD_AGC_ENABLE 0 d = Some (b, d1)" by (auto split: option.splits)
  show ?case
  proof (cases "b \<and> (\<exists>d2. cciSet dev LEP_CMD_VID_OUTPUT 7 d1 = Some (True, d2))")
    case True
    then obtain d2 where v: "cciSet dev LEP_CMD_VID_OUTPUT 7 d1 = Some (True, d2)" by blast
    have "d' = d2" using Suc.prems a v True by simp
    with log_set[OF dl a] log_set[OF dl v] True show ?thesis by (simp add: suffix_def)
  next
    case False
    with Suc.prems a obtain d0 where "configure_attempts n dev d0 = Some (True, d')"
      by (auto split: option.splits bool.splits)
    then show ?thesis by (rule Suc.IH)
  qed
qed simp

section \<open>Properties\<close>

text \<open>A sensor that is busy for one second, acknowledges every write, and answers after a millisecond.\<close>

definition test_dev :: "(nat \<times> bytes list) lepton_dev" where
  "test_dev = \<lparr> i2c_write = (\<lambda>bs (t, l). (True, (t + 1, l @ [bs]))),
     i2c_write_read = (\<lambda>bs (t, l). (Some (if t < 1000 then [0, 1] else [0, 0]), (t + 1, l))),
     k_uptime_get_32 = (\<lambda>(t, l). (of_nat t, (t, l))), k_msleep = (\<lambda>n (t, l). (t + n, l)), set_lepton_cs = (\<lambda>b d. d) \<rparr>"

lemma test_dev_ok: "dev_clock test_dev fst" "dev_logs test_dev snd"
  by (auto simp: dev_clock_def dev_logs_def test_dev_def)

text \<open>The configuration of the sensor returns, whatever the sensor answers, as long as the clock runs;
  and when it returns true, the last six register writes the sensor acknowledged are data, length
  and command of "AGC off" followed by data, length and command of "raw video output", in this
  order.\<close>

theorem lepton_configured:
  assumes "dev_clock dev ms" and "dev_logs dev acked"
  shows "\<exists>b d'. configureLepton dev d = Some (b, d') \<and>
    (b \<longrightarrow> suffix (map (\<lambda>(r, v). cci_write_bytes r v)
       [(LEP_REG_DATA0, 0), (LEP_REG_LENGTH, 1), (LEP_REG_COMMAND, 0x0103),
        (LEP_REG_DATA0, 7), (LEP_REG_LENGTH, 1), (LEP_REG_COMMAND, 0x0206)]) (acked d'))"
proof -
  obtain b d' where e: "configureLepton dev d = Some (b, d')"
    using configure_returns[OF assms(1), of 3 d] by (auto simp: configureLepton_def)
  have "suffix (cci_set_writes LEP_CMD_AGC_ENABLE 0 @ cci_set_writes LEP_CMD_VID_OUTPUT 7) (acked d')" if "b"
    using log_configure[OF assms(2), of 3 d d'] e that by (simp add: configureLepton_def)
  with e show ?thesis
    by (auto simp: cci_set_writes_def LEP_CMD_AGC_ENABLE_def LEP_CMD_VID_OUTPUT_def)
qed

lemma lepton_configured_witness: "\<exists>b d'. configureLepton test_dev (0, []) = Some (b, d')"
  using lepton_configured[OF test_dev_ok, of "(0, [])"] by blast

end
