(* ===== verification/MqttFrame.thy ===== *)
theory MqttFrame imports FrameLink begin

text \<open>
  The frame sender of the ESP32 (\<^verbatim>\<open>mqttFrameTask\<close> of mqtt/mqtt.c and its helpers): a frame of the
  link is cut into messages of a ten-byte header and up to 1200 (MQTT) or 1024 (UDP) bytes,
  either the raw 16-bit pixels or, in the fast UDP mode, 8-bit pixels scaled to the range of the
  picture. The configuration macros are the record \<open>stream_cfg\<close>; the answers of the network
  layers are inputs, the messages handed to them and the waits are recorded as events.
\<close>

abbreviation (input) CHUNK_PAYLOAD_SIZE :: nat where "CHUNK_PAYLOAD_SIZE \<equiv> 1200"
abbreviation (input) UDP_CHUNK_PAYLOAD_SIZE :: nat where "UDP_CHUNK_PAYLOAD_SIZE \<equiv> 1024"
abbreviation (input) CHUNK_HEADER_SIZE :: nat where "CHUNK_HEADER_SIZE \<equiv> 10"
abbreviation (input) CHUNK_MSG_SIZE :: nat where "CHUNK_MSG_SIZE \<equiv> 1210"
abbreviation (input) FRAME_PIXEL_COUNT :: nat where "FRAME_PIXEL_COUNT \<equiv> 19200"

section \<open>Modes\<close>

datatype frame_stream_mode =
    FRAME_STREAM_MODE_MQTT_ONLY
  | FRAME_STREAM_MODE_UDP_ONLY
  | FRAME_STREAM_MODE_BOTH
  | FRAME_STREAM_MODE_UDP_FRAME_MQTT_CONTROL

record stream_cfg =
  APP_FRAME_STREAM_MODE :: frame_stream_mode
  APP_UDP_FRAME_8BIT :: bool
  udp_config_valid :: bool

definition delayTicksAtLeast1 :: "nat \<Rightarrow> u32" where
  "delayTicksAtLeast1 delay_ms = (let ticks = pdMS_TO_TICKS delay_ms in if ticks > 0 then ticks else 1)"

definition frameStreamUseMqtt :: "stream_cfg \<Rightarrow> bool" where
  "frameStreamUseMqtt c \<longleftrightarrow> APP_FRAME_STREAM_MODE c = FRAME_STREAM_MODE_MQTT_ONLY \<or>
     APP_FRAME_STREAM_MODE c = FRAME_STREAM_MODE_BOTH"

definition frameStreamUseUdp :: "stream_cfg \<Rightarrow> bool" where
  "frameStreamUseUdp c \<longleftrightarrow> (APP_FRAME_STREAM_MODE c = FRAME_STREAM_MODE_UDP_ONLY \<or>
     APP_FRAME_STREAM_MODE c = FRAME_STREAM_MODE_BOTH \<or>
     APP_FRAME_STREAM_MODE c = FRAME_STREAM_MODE_UDP_FRAME_MQTT_CONTROL) \<and> udp_config_valid c"

definition frameStreamUseUdpFast8 :: "stream_cfg \<Rightarrow> bool" where
  "frameStreamUseUdpFast8 c \<longleftrightarrow> (APP_FRAME_STREAM_MODE c = FRAME_STREAM_MODE_UDP_ONLY \<or>
     APP_FRAME_STREAM_MODE c = FRAME_STREAM_MODE_UDP_FRAME_MQTT_CONTROL) \<and> APP_UDP_FRAME_8BIT c \<and> udp_config_valid c"

section \<open>Pixels\<close>

definition frameReadPixelBe :: "bytes \<Rightarrow> nat \<Rightarrow> u16" where
  "frameReadPixelBe frame_buf pixel_idx =
     push_bit 8 (ucast (frame_buf ! (pixel_idx * 2))) OR ucast (frame_buf ! (pixel_idx * 2 + 1))"

record range_scan =
  min_pixel :: u16
  max_pixel :: u16
  has_valid_pixel :: bool

definition range_step :: "u16 \<Rightarrow> range_scan \<Rightarrow> range_scan" where
  "range_step pixel r =
     (if pixel \<le> 1000 \<or> pixel \<ge> 30000 then r
      else
        let r = r\<lparr> has_valid_pixel := True \<rparr>;
            r = (if pixel < min_pixel r then r\<lparr> min_pixel := pixel \<rparr> else r)
        in if pixel > max_pixel r then r\<lparr> max_pixel := pixel \<rparr> else r)"

definition frameComputeRange :: "bytes \<Rightarrow> u16 \<times> u16" where
  "frameComputeRange frame_buf =
     (let r = fold (\<lambda>pixel_idx. range_step (frameReadPixelBe frame_buf pixel_idx)) [0..<FRAME_PIXEL_COUNT]
                \<lparr> min_pixel = 0xFFFF, max_pixel = 0, has_valid_pixel = False \<rparr>
      in if \<not> has_valid_pixel r then (7000, 10000)
         else if max_pixel r - min_pixel r < 100 then (min_pixel r, min_pixel r + 100)
         else (min_pixel r, max_pixel r))"

definition pack_pixel :: "u16 \<Rightarrow> u16 \<Rightarrow> u16 \<Rightarrow> u8" where
  "pack_pixel min_val max_val pixel =
     (let range = (if max_val > min_val then ucast (max_val - min_val) else 1) :: u32;
          pixel = (if pixel < min_val then min_val else if pixel > max_val then max_val else pixel)
      in ucast (ucast (pixel - min_val) * 255 div range))"

definition framePack8BitChunk :: "bytes \<Rightarrow> nat \<Rightarrow> nat \<Rightarrow> u16 \<Rightarrow> u16 \<Rightarrow> bytes" where
  "framePack8BitChunk frame_buf pixel_offset pixel_count min_val max_val =
     map (\<lambda>i. pack_pixel min_val max_val (frameReadPixelBe frame_buf (pixel_offset + i))) [0..<pixel_count]"

section \<open>Messages\<close>

definition chunk_payload_size :: "stream_cfg \<Rightarrow> nat" where
  "chunk_payload_size c = (if frameStreamUseUdp c then UDP_CHUNK_PAYLOAD_SIZE else CHUNK_PAYLOAD_SIZE)"

definition frame_payload_bytes :: "stream_cfg \<Rightarrow> nat" where
  "frame_payload_bytes c = (if frameStreamUseUdpFast8 c then FRAME_PIXEL_COUNT else FRAME_BYTES)"

definition stream_total_chunks :: "stream_cfg \<Rightarrow> u16" where
  "stream_total_chunks c = of_nat ((frame_payload_bytes c + chunk_payload_size c - 1) div chunk_payload_size c)"

definition chunk_data_size :: "stream_cfg \<Rightarrow> nat \<Rightarrow> nat" where
  "chunk_data_size c i =
     (let bytes_remaining = frame_payload_bytes c - i * chunk_payload_size c
      in if bytes_remaining > chunk_payload_size c then chunk_payload_size c else bytes_remaining)"

definition be16_bytes :: "u16 \<Rightarrow> bytes" where
  "be16_bytes v = [ucast (drop_bit 8 v AND 0xFF), ucast (v AND 0xFF)]"

text \<open>Lines 529-544: the bytes of \<^verbatim>\<open>msg\<close> that are sent.\<close>

definition frame_chunk_msg :: "stream_cfg \<Rightarrow> bytes \<Rightarrow> u16 \<Rightarrow> u16 \<Rightarrow> u16 \<Rightarrow> nat \<Rightarrow> bytes" where
  "frame_chunk_msg c fb frame_id min_val max_val i =
     be16_bytes frame_id @ be16_bytes (of_nat i) @ be16_bytes (stream_total_chunks c) @
     be16_bytes min_val @ be16_bytes max_val @
     (let offset = i * chunk_payload_size c; data_size = chunk_data_size c i
      in if frameStreamUseUdpFast8 c then framePack8BitChunk fb offset data_size min_val max_val
         else take data_size (drop offset fb))"

section \<open>Sending\<close>

datatype net_event =
    Wait u32
  | MqttChunk bytes bool
  | UdpChunk bytes int
  | FrameDone u16 bool

text \<open>The answers of one round of the task.\<close>

record frame_env =
  wifi_connected :: bool
  udp_congested :: bool
  udp_congested_after :: bool
  client_ready :: bool
  mqtt_connected :: bool
  us_since_connect :: int
  mqtt_connected_at :: "nat \<Rightarrow> bool"
  publish_ret :: "nat \<Rightarrow> nat \<Rightarrow> int"
  udp_connected_once :: "nat \<Rightarrow> bool"
  udp_sent :: "nat \<Rightarrow> int"
  acquire_lock :: bool
  release_lock :: bool

text \<open>Lines 549-571: at most three tries.\<close>

fun publish_tries :: "(nat \<Rightarrow> int) \<Rightarrow> bytes \<Rightarrow> nat list \<Rightarrow> bool \<times> net_event list" where
  "publish_tries ret msg [] = (False, [])"
| "publish_tries ret msg (retry # retries) =
     (if ret retry \<ge> 0 then (True, [MqttChunk msg True])
      else case publish_tries ret msg retries of
        (ok, evs) \<Rightarrow> (ok, MqttChunk msg False # Wait (delayTicksAtLeast1 25) # evs))"

definition mqtt_send :: "bool \<Rightarrow> (nat \<Rightarrow> int) \<Rightarrow> bytes \<Rightarrow> bool \<times> net_event list" where
  "mqtt_send use_mqtt ret msg = (if use_mqtt then publish_tries ret msg [0, 1, 2] else (True, []))"

text \<open>Lines 576-593.\<close>

definition udp_send_chunk :: "stream_cfg \<Rightarrow> frame_env \<Rightarrow> bytes \<Rightarrow> nat \<Rightarrow> bool \<times> net_event list" where
  "udp_send_chunk c e msg i =
     (if \<not> frameStreamUseUdp c then (True, [])
      else if udp_sent e i < 0 \<and> udp_connected_once e i then (False, [UdpChunk msg (udp_sent e i)])
      else
        let interval = (if udp_congested e then 1 else 2 :: nat)
        in (True, UdpChunk msg (udp_sent e i) #
             (if frameStreamUseUdpFast8 c \<and> interval > 0 \<and> (i + 1) mod interval = 0 then [Wait 1] else [])))"

text \<open>Lines 517-605: the result and the events.\<close>

fun stream_chunks :: "stream_cfg \<Rightarrow> frame_env \<Rightarrow> (nat \<Rightarrow> bytes) \<Rightarrow> nat list \<Rightarrow> bool \<times> net_event list" where
  "stream_chunks c e msg [] = (True, [])"
| "stream_chunks c e msg (i # is) =
     (if frameStreamUseMqtt c \<and> \<not> mqtt_connected_at e i then (False, [])
      else case mqtt_send (frameStreamUseMqtt c) (publish_ret e i) (msg i) of
        (False, evs) \<Rightarrow> (False, evs)
      | (True, evs) \<Rightarrow> (case udp_send_chunk c e (msg i) i of
          (False, evs2) \<Rightarrow> (False, evs @ evs2)
        | (True, evs2) \<Rightarrow> (case stream_chunks c e msg is of
            (ok, evs3) \<Rightarrow> (ok, evs @ evs2 @
              (if \<not> frameStreamUseUdpFast8 c then [Wait (delayTicksAtLeast1 2)] else []) @ evs3))))"

definition frame_range :: "stream_cfg \<Rightarrow> bytes \<Rightarrow> u16 \<times> u16" where
  "frame_range c fb = (if frameStreamUseUdpFast8 c then frameComputeRange fb else (7000, 10000))"

definition send_frame :: "stream_cfg \<Rightarrow> frame_env \<Rightarrow> bytes \<Rightarrow> u16 \<Rightarrow> bool \<times> net_event list" where
  "send_frame c e fb frame_id =
     (case frame_range c fb of (min_val, max_val) \<Rightarrow>
        stream_chunks c e (frame_chunk_msg c fb frame_id min_val max_val) [0..<unat (stream_total_chunks c)])"

definition idle_delay_ticks :: "stream_cfg \<Rightarrow> bool \<Rightarrow> u32" where
  "idle_delay_ticks c congested = delayTicksAtLeast1 (if frameStreamUseUdpFast8 c then if congested then 12 else 1 else 10)"

text \<open>Lines 474-497: the conditions under which a round only waits.\<close>

definition stream_blocked :: "stream_cfg \<Rightarrow> frame_env \<Rightarrow> bool" where
  "stream_blocked c e \<longleftrightarrow>
     \<not> frameStreamUseMqtt c \<and> \<not> frameStreamUseUdp c \<or>
     frameStreamUseUdp c \<and> \<not> wifi_connected e \<or>
     frameStreamUseUdpFast8 c \<and> frameStreamUseUdp c \<and> udp_congested e \<or>
     frameStreamUseMqtt c \<and> (\<not> mqtt_connected e \<or> \<not> client_ready e) \<or>
     frameStreamUseMqtt c \<and> us_since_connect e < 1000000"

text \<open>One round of \<^verbatim>\<open>mqttFrameTask\<close>.\<close>

definition mqttFrameTask :: "stream_cfg \<Rightarrow> frame_env \<Rightarrow> link \<Rightarrow> net_event list \<times> link" where
  "mqttFrameTask c e l =
     (if stream_blocked c e then ([Wait (idle_delay_ticks c (frameStreamUseUdp c \<and> udp_congested e))], l)
      else case frameLinkAcquireReadyFrame (acquire_lock e) (frameStreamUseUdpFast8 c) l of
        (None, l) \<Rightarrow> ([Wait (idle_delay_ticks c (frameStreamUseUdp c \<and> udp_congested e))], l)
      | (Some (fb, frame_id, buffer_idx), l) \<Rightarrow> (case send_frame c e fb frame_id of
          (send_ok, evs) \<Rightarrow>
            (evs @ [FrameDone frame_id send_ok] @
              (if frameStreamUseUdpFast8 c then [Wait (if udp_congested_after e then delayTicksAtLeast1 12 else 1)] else []),
             frameLinkReleaseReadyFrame (release_lock e) buffer_idx l)))"

end
