(* ===== verification/MqttFrameSpec.thy ===== *)
theory MqttFrameSpec imports MqttFrame LinkProps "HOL-Library.Sublist" begin

text \<open>
  Properties of the frame sender: the range and the 8-bit scaling of the fast mode, the
  messages a frame is cut into, and what a round of the task does to the ring of frames.
\<close>

section \<open>The range of a picture\<close>

definition valid_pixel :: "u16 \<Rightarrow> bool" where
  "valid_pixel p \<longleftrightarrow> 1000 < p \<and> p < 30000"

definition frame_pixel_list :: "bytes \<Rightarrow> u16 list" where
  "frame_pixel_list fb = map (frameReadPixelBe fb) [0..<FRAME_PIXEL_COUNT]"

definition scan_start :: range_scan where
  "scan_start = \<lparr> min_pixel = 0xFFFF, max_pixel = 0, has_valid_pixel = False \<rparr>"

definition scan_ok :: "u16 set \<Rightarrow> range_scan \<Rightarrow> bool" where
  "scan_ok V r \<longleftrightarrow> (has_valid_pixel r \<longleftrightarrow> V \<noteq> {}) \<and>
     (if V = {} then min_pixel r = 0xFFFF \<and> max_pixel r = 0
      else min_pixel r \<in> V \<and> max_pixel r \<in> V \<and> (\<forall>p\<in>V. min_pixel r \<le> p \<and> p \<le> max_pixel r))"

lemma valid_less_max: "valid_pixel p \<Longrightarrow> p < 0xFFFF" and valid_greater_0: "valid_pixel p \<Longrightarrow> 0 < p"
  unfolding valid_pixel_def by unat_arith+

lemma range_step_ok:
  assumes "scan_ok V r"
  shows "scan_ok (if valid_pixel p then insert p V else V) (range_step p r)"
proof (cases "valid_pixel p")
  case True
  then have step: "range_step p r = r\<lparr> has_valid_pixel := True, min_pixel := (if p < min_pixel r then p else min_pixel r),
      max_pixel := (if p > max_pixel r then p else max_pixel r) \<rparr>"
    by (auto simp: range_step_def valid_pixel_def Let_def not_le)
  show ?thesis
  proof (cases "V = {}")
    case True
    then have "range_step p r = r\<lparr> has_valid_pixel := True, min_pixel := p, max_pixel := p \<rparr>"
      using assms valid_less_max[OF \<open>valid_pixel p\<close>] valid_greater_0[OF \<open>valid_pixel p\<close>]
      unfolding step scan_ok_def by simp
    then show ?thesis using True \<open>valid_pixel p\<close> by (simp add: scan_ok_def)
  next
    case False
    then have "min_pixel r \<in> V" "max_pixel r \<in> V" "\<forall>q\<in>V. min_pixel r \<le> q \<and> q \<le> max_pixel r"
      using assms by (simp_all add: scan_ok_def)
    then show ?thesis using True unfolding step scan_ok_def by (auto intro: order.trans less_imp_le)
  qed
next
  case False
  then have "range_step p r = r" by (auto simp: range_step_def valid_pixel_def not_le)
  then show ?thesis using assms False by simp
qed

lemma scan_fold: "scan_ok {p \<in> set ps. valid_pixel p} (fold range_step ps scan_start)"
proof (induction ps rule: rev_induct)
  case Nil
  then show ?case by (simp add: scan_ok_def scan_start_def)
next
  case (snoc p ps)
  have "{q \<in> set (ps @ [p]). valid_pixel q} =
    (if valid_pixel p then insert p {q \<in> set ps. valid_pixel q} else {q \<in> set ps. valid_pixel q})"
    by auto
  with range_step_ok[OF snoc, of p] show ?case by simp
qed

definition valid_pixels :: "bytes \<Rightarrow> u16 set" where
  "valid_pixels fb = {p \<in> set (frame_pixel_list fb). valid_pixel p}"

lemma computeRange_scan:
  "\<exists>r. scan_ok (valid_pixels fb) r \<and> frameComputeRange fb =
     (if \<not> has_valid_pixel r then (7000, 10000)
      else if max_pixel r - min_pixel r < 100 then (min_pixel r, min_pixel r + 100) else (min_pixel r, max_pixel r))"
proof -
  have "fold range_step (frame_pixel_list fb) scan_start
    = fold (\<lambda>i. range_step (frameReadPixelBe fb i)) [0..<FRAME_PIXEL_COUNT] \<lparr> min_pixel = 0xFFFF, max_pixel = 0, has_valid_pixel = False \<rparr>"
    by (simp add: fold_map comp_def frame_pixel_list_def scan_start_def del: upt_rec_numeral)
  then show ?thesis
    using scan_fold[of "frame_pixel_list fb"]
    by (intro exI[of _ "fold range_step (frame_pixel_list fb) scan_start"])
      (simp add: frameComputeRange_def Let_def valid_pixels_def del: upt_rec_numeral)
qed

lemma add_100: "valid_pixel p \<Longrightarrow> unat (p + 100) = unat p + 100"
  by (simp add: valid_pixel_def unat_word_ariths word_less_nat_alt)

lemma range_span:
  assumes "frameComputeRange fb = (mn, mx)"
  shows "unat mn + 100 \<le> unat mx"
proof -
  obtain r where ok: "scan_ok (valid_pixels fb) r" and e: "(mn, mx) =
     (if \<not> has_valid_pixel r then (7000, 10000)
      else if max_pixel r - min_pixel r < 100 then (min_pixel r, min_pixel r + 100) else (min_pixel r, max_pixel r))"
    using computeRange_scan[of fb] assms by auto
  show ?thesis
  proof (cases "has_valid_pixel r")
    case True
    then have v: "valid_pixel (min_pixel r)" "min_pixel r \<le> max_pixel r"
      using ok by (auto simp: scan_ok_def valid_pixels_def split: if_splits)
    show ?thesis
    proof (cases "max_pixel r - min_pixel r < 100")
      case True
      then show ?thesis using e \<open>has_valid_pixel r\<close> add_100[OF v(1)] by simp
    next
      case False
      then have "100 \<le> unat (max_pixel r - min_pixel r)" by (simp add: word_less_nat_alt)
      then show ?thesis using e \<open>has_valid_pixel r\<close> False v(2) by (simp add: unat_sub word_le_nat_alt)
    qed
  qed (use e in simp)
qed

section \<open>Scaling to 8 bits\<close>

lemma pack_pixel_value:
  assumes "unat mn < unat mx"
  shows "unat (pack_pixel mn mx p) = (max (unat mn) (min (unat p) (unat mx)) - unat mn) * 255 div (unat mx - unat mn)"
proof -
  define q where "q = (if p < mn then mn else if p > mx then mx else p)"
  have q: "unat q = max (unat mn) (min (unat p) (unat mx))" "mn \<le> q" "q \<le> mx"
    using assms by (auto simp: q_def word_less_nat_alt word_le_nat_alt)
  have w: "unat (ucast x :: u32) = unat x" for x :: u16
    using unsigned_less[of x, where ?'a = nat] by (simp add: unsigned_ucast_eq take_bit_nat_eq_self)
  have d: "unat (q - mn) = unat q - unat mn" "unat (mx - mn) = unat mx - unat mn"
    using q(2) assms by (simp_all add: unat_sub word_le_nat_alt)
  have b: "unat (q - mn) < 65536" using unsigned_less[of "q - mn", where ?'a = nat] by simp
  have m: "unat (ucast (q - mn) * 255 :: u32) = (unat q - unat mn) * 255"
    using b by (simp add: unat_word_ariths w d)
  have "(unat q - unat mn) * 255 div (unat mx - unat mn) \<le> (unat mx - unat mn) * 255 div (unat mx - unat mn)"
    using q(3) by (intro div_le_mono mult_le_mono1) (simp add: word_le_nat_alt)
  then have le: "(unat q - unat mn) * 255 div (unat mx - unat mn) \<le> 255" using assms by simp
  have "pack_pixel mn mx p = ucast (ucast (q - mn) * 255 div (ucast (mx - mn)) :: u32)"
    using assms by (simp add: pack_pixel_def Let_def q_def word_less_nat_alt)
  moreover have "unat (ucast (q - mn) * 255 div (ucast (mx - mn)) :: u32) = (unat q - unat mn) * 255 div (unat mx - unat mn)"
    by (simp add: unat_div m w d)
  ultimately have "unat (pack_pixel mn mx p) = (unat q - unat mn) * 255 div (unat mx - unat mn)"
    using le by (simp add: unsigned_ucast_eq take_bit_nat_eq_self)
  then show ?thesis by (simp add: q(1))
qed

section \<open>Messages of a frame\<close>

text \<open>What the messages carry together: the frame, or its pixels scaled to 8 bits.\<close>

definition frame_body :: "stream_cfg \<Rightarrow> bytes \<Rightarrow> u16 \<Rightarrow> u16 \<Rightarrow> bytes" where
  "frame_body c fb mn mx = (if frameStreamUseUdpFast8 c then map (pack_pixel mn mx) (frame_pixel_list fb) else fb)"

lemma fast8_udp: "frameStreamUseUdpFast8 c \<Longrightarrow> frameStreamUseUdp c"
  by (auto simp: frameStreamUseUdpFast8_def frameStreamUseUdp_def)

lemma chunk_sizes:
  shows "\<not> frameStreamUseUdp c \<Longrightarrow> chunk_payload_size c = 1200 \<and> frame_payload_bytes c = 38400 \<and> unat (stream_total_chunks c) = 32"
    and "frameStreamUseUdp c \<Longrightarrow> \<not> frameStreamUseUdpFast8 c \<Longrightarrow>
      chunk_payload_size c = 1024 \<and> frame_payload_bytes c = 38400 \<and> unat (stream_total_chunks c) = 38"
    and "frameStreamUseUdpFast8 c \<Longrightarrow>
      chunk_payload_size c = 1024 \<and> frame_payload_bytes c = 19200 \<and> unat (stream_total_chunks c) = 19"
  using fast8_udp[of c]
  by (auto simp: chunk_payload_size_def frame_payload_bytes_def stream_total_chunks_def)

lemma chunk_cover:
  shows "chunk_payload_size c \<le> CHUNK_PAYLOAD_SIZE"
    and "i < unat (stream_total_chunks c) \<Longrightarrow> i * chunk_payload_size c < frame_payload_bytes c"
    and "frame_payload_bytes c \<le> unat (stream_total_chunks c) * chunk_payload_size c"
    and "unat (stream_total_chunks c) \<le> 38"
  using chunk_sizes[of c] by (cases "frameStreamUseUdp c"; cases "frameStreamUseUdpFast8 c"; simp)+

lemma chunk_data_size_min: "chunk_data_size c i = min (chunk_payload_size c) (frame_payload_bytes c - i * chunk_payload_size c)"
  by (simp add: chunk_data_size_def Let_def)

lemma length_frame_body: "length fb = FRAME_BYTES \<Longrightarrow> length (frame_body c fb mn mx) = frame_payload_bytes c"
  by (simp add: frame_body_def frame_payload_bytes_def frame_pixel_list_def del: upt_rec_numeral)

lemma chunk_msg_parts:
  assumes "length fb = FRAME_BYTES"
  shows "frame_chunk_msg c fb fid mn mx i = be16_bytes fid @ be16_bytes (of_nat i) @ be16_bytes (stream_total_chunks c) @
     be16_bytes mn @ be16_bytes mx @ take (chunk_payload_size c) (drop (i * chunk_payload_size c) (frame_body c fb mn mx))"
proof -
  let ?k = "chunk_payload_size c" and ?n = "frame_payload_bytes c"
  have "take (chunk_data_size c i) (drop (i * ?k) (frame_body c fb mn mx)) = take ?k (drop (i * ?k) (frame_body c fb mn mx))"
    using length_frame_body[OF assms, of c mn mx] by (simp add: chunk_data_size_min min_def)
  moreover have "framePack8BitChunk fb (i * ?k) (chunk_data_size c i) mn mx = take (chunk_data_size c i) (drop (i * ?k) (frame_body c fb mn mx))"
    if "frameStreamUseUdpFast8 c"
    using that by (auto simp: framePack8BitChunk_def frame_body_def frame_pixel_list_def frame_payload_bytes_def
        chunk_data_size_min nth_append list_eq_iff_nth_eq simp del: upt_rec_numeral)
  ultimately show ?thesis
    by (cases "frameStreamUseUdpFast8 c") (simp_all add: frame_chunk_msg_def Let_def frame_body_def)
qed

lemma concat_slices: "concat (map (\<lambda>i. take k (drop (i * k) xs)) [0..<n]) = take (n * k) xs"
proof (induction n)
  case (Suc n)
  then show ?case by (simp add: take_add[symmetric] add.commute)
qed simp

text \<open>The receiver's view of a message.\<close>

definition chunk_fields :: "bytes \<Rightarrow> u16 \<times> u16 \<times> u16 \<times> u16 \<times> u16 \<times> bytes" where
  "chunk_fields m = (be16_join (m ! 0) (m ! 1), be16_join (m ! 2) (m ! 3), be16_join (m ! 4) (m ! 5),
     be16_join (m ! 6) (m ! 7), be16_join (m ! 8) (m ! 9), drop CHUNK_HEADER_SIZE m)"

lemma be16_bytes_join: "be16_bytes v = [be16_hi v, be16_lo v]"
  by (simp add: be16_bytes_def be16_hi_def be16_lo_def)

lemma chunk_msg_fields:
  assumes "length fb = FRAME_BYTES"
  shows "chunk_fields (frame_chunk_msg c fb fid mn mx i) = (fid, of_nat i, stream_total_chunks c, mn, mx,
      take (chunk_payload_size c) (drop (i * chunk_payload_size c) (frame_body c fb mn mx)))"
    and "length (frame_chunk_msg c fb fid mn mx i) \<le> CHUNK_MSG_SIZE"
  using chunk_cover(1)[of c] length_frame_body[OF assms, of c mn mx]
  by (simp_all add: chunk_msg_parts[OF assms] be16_bytes_join chunk_fields_def)

lemma frame_msgs_body:
  assumes "length fb = FRAME_BYTES"
  shows "concat (map (drop CHUNK_HEADER_SIZE) (map (frame_chunk_msg c fb fid mn mx) [0..<unat (stream_total_chunks c)]))
    = frame_body c fb mn mx"
proof -
  have "drop CHUNK_HEADER_SIZE (frame_chunk_msg c fb fid mn mx i) = take (chunk_payload_size c) (drop (i * chunk_payload_size c) (frame_body c fb mn mx))"
    for i using chunk_msg_fields(1)[OF assms, of c fid mn mx i] by (simp add: chunk_fields_def)
  then have m: "map (drop CHUNK_HEADER_SIZE) (map (frame_chunk_msg c fb fid mn mx) is)
     = map (\<lambda>i. take (chunk_payload_size c) (drop (i * chunk_payload_size c) (frame_body c fb mn mx))) is" for "is"
    by simp
  show ?thesis
    unfolding m using concat_slices[of "chunk_payload_size c" "frame_body c fb mn mx" "unat (stream_total_chunks c)"]
      chunk_cover(3)[of c] length_frame_body[OF assms, of c mn mx] by simp
qed

section \<open>What is sent\<close>

fun mqtt_msgs :: "net_event list \<Rightarrow> bytes list" where
  "mqtt_msgs [] = []"
| "mqtt_msgs (MqttChunk m True # evs) = m # mqtt_msgs evs"
| "mqtt_msgs (_ # evs) = mqtt_msgs evs"

fun udp_msgs :: "net_event list \<Rightarrow> bytes list" where
  "udp_msgs [] = []"
| "udp_msgs (UdpChunk m r # evs) = m # udp_msgs evs"
| "udp_msgs (_ # evs) = udp_msgs evs"

lemma mqtt_msgs_append [simp]: "mqtt_msgs (xs @ ys) = mqtt_msgs xs @ mqtt_msgs ys"
  by (induction xs rule: mqtt_msgs.induct) auto

lemma udp_msgs_append [simp]: "udp_msgs (xs @ ys) = udp_msgs xs @ udp_msgs ys"
  by (induction xs rule: udp_msgs.induct) auto

lemma publish_tries_msgs:
  "publish_tries ret msg rs = (ok, evs) \<Longrightarrow> mqtt_msgs evs = (if ok then [msg] else []) \<and> udp_msgs evs = [] \<and>
     (ok \<longleftrightarrow> list_ex (\<lambda>r. ret r \<ge> 0) rs) \<and> length (filter (\<lambda>e. e = MqttChunk msg False) evs) \<le> length rs"
proof (induction rs arbitrary: ok evs)
  case (Cons r rs)
  show ?case
  proof (cases "ret r \<ge> 0")
    case False
    obtain ok' evs' where "publish_tries ret msg rs = (ok', evs')" by fastforce
    with Cons.IH[OF this] Cons.prems False show ?thesis by auto
  qed (use Cons.prems in auto)
qed auto

lemma mqtt_send_msgs:
  "mqtt_send use_mqtt ret msg = (ok, evs) \<Longrightarrow> mqtt_msgs evs = (if ok \<and> use_mqtt then [msg] else []) \<and> udp_msgs evs = []"
  using publish_tries_msgs[of ret msg "[0, 1, 2]"] by (cases use_mqtt) (auto simp: mqtt_send_def)

lemma udp_send_msgs:
  "udp_send_chunk c e msg i = (ok, evs) \<Longrightarrow> mqtt_msgs evs = [] \<and> udp_msgs evs = (if frameStreamUseUdp c then [msg] else [])"
  by (auto simp: udp_send_chunk_def Let_def split: if_splits)

lemma stream_chunks_msgs:
  assumes "stream_chunks c e msg is = (ok, evs)"
  shows "prefix (mqtt_msgs evs) (if frameStreamUseMqtt c then map msg is else []) \<and>
    prefix (udp_msgs evs) (if frameStreamUseUdp c then map msg is else []) \<and>
    (ok \<longrightarrow> mqtt_msgs evs = (if frameStreamUseMqtt c then map msg is else []) \<and>
      udp_msgs evs = (if frameStreamUseUdp c then map msg is else []))"
  using assms
proof (induction "is" arbitrary: ok evs)
  case (Cons i "is")
  obtain ok1 evs1 where m: "mqtt_send (frameStreamUseMqtt c) (publish_ret e i) (msg i) = (ok1, evs1)" by fastforce
  obtain ok2 evs2 where u: "udp_send_chunk c e (msg i) i = (ok2, evs2)" by fastforce
  obtain ok3 evs3 where r: "stream_chunks c e msg is = (ok3, evs3)" by fastforce
  note facts = mqtt_send_msgs[OF m] udp_send_msgs[OF u] Cons.IH[OF r]
  show ?case
  proof (cases "frameStreamUseMqtt c \<and> \<not> mqtt_connected_at e i")
    case False
    then show ?thesis
      using Cons.prems facts m u r by (cases ok1; cases ok2; cases "frameStreamUseMqtt c"; cases "frameStreamUseUdp c") auto
  qed (use Cons.prems in auto)
qed auto

text \<open>When every answer is good the whole frame is sent.\<close>

definition net_up :: "frame_env \<Rightarrow> bool" where
  "net_up e \<longleftrightarrow> (\<forall>i. mqtt_connected_at e i \<and> publish_ret e i 0 \<ge> 0 \<and> udp_sent e i \<ge> 0)"

lemma stream_chunks_ok: "net_up e \<Longrightarrow> fst (stream_chunks c e msg is)"
proof (induction "is")
  case (Cons i "is")
  then have "mqtt_connected_at e i" "publish_ret e i 0 \<ge> 0" "\<not> udp_sent e i < 0"
    by (simp_all add: net_up_def linorder_not_less)
  with Cons show ?case
    by (auto simp: mqtt_send_def udp_send_chunk_def Let_def split: prod.splits)
qed simp

text \<open>
  The configuration of \<^verbatim>\<open>app_secrets.example.h\<close> with a target host (frames over UDP in 8 bits,
  control over MQTT), and an environment without failures.
\<close>

definition default_cfg :: stream_cfg where
  "default_cfg = \<lparr> APP_FRAME_STREAM_MODE = FRAME_STREAM_MODE_UDP_FRAME_MQTT_CONTROL, APP_UDP_FRAME_8BIT = True, udp_config_valid = True \<rparr>"

definition good_env :: frame_env where
  "good_env = \<lparr> wifi_connected = True, udp_congested = False, udp_congested_after = False, client_ready = True,
     mqtt_connected = True, us_since_connect = 2000000, mqtt_connected_at = (\<lambda>_. True), publish_ret = (\<lambda>_ _. 0),
     udp_connected_once = (\<lambda>_. True), udp_sent = (\<lambda>_. 1034), acquire_lock = True, release_lock = True \<rparr>"

lemma good_env_up: "net_up good_env"
  by (simp add: net_up_def good_env_def)

lemma default_cfg_modes: "frameStreamUseUdp default_cfg" "frameStreamUseUdpFast8 default_cfg" "\<not> frameStreamUseMqtt default_cfg"
  by (simp_all add: default_cfg_def frameStreamUseUdp_def frameStreamUseUdpFast8_def frameStreamUseMqtt_def)

section \<open>Properties\<close>

text \<open>The messages of a frame carry it exactly. On whichever of MQTT and UDP the mode uses, the
  messages handed over are a prefix of the messages of the frame, in order, and all of them when
  the frame was sent successfully; message \<open>i\<close> fits the buffer and its header reads as the frame
  id, \<open>i\<close>, the number of messages and the range; and their payloads, one after the other, are the
  frame, or its 19200 pixels scaled to 8 bits.\<close>

theorem frame_chunks_reassemble:
  assumes "length fb = FRAME_BYTES" and "send_frame c e fb fid = (ok, evs)" and "frame_range c fb = (mn, mx)"
    and "msgs = map (frame_chunk_msg c fb fid mn mx) [0..<unat (stream_total_chunks c)]"
  shows "prefix (mqtt_msgs evs) (if frameStreamUseMqtt c then msgs else []) \<and>
    prefix (udp_msgs evs) (if frameStreamUseUdp c then msgs else []) \<and>
    (ok \<longrightarrow> mqtt_msgs evs = (if frameStreamUseMqtt c then msgs else []) \<and> udp_msgs evs = (if frameStreamUseUdp c then msgs else [])) \<and>
    concat (map (drop CHUNK_HEADER_SIZE) msgs) = frame_body c fb mn mx \<and>
    (\<forall>i<length msgs. length (msgs ! i) \<le> CHUNK_MSG_SIZE \<and>
      (\<exists>d. chunk_fields (msgs ! i) = (fid, of_nat i, of_nat (length msgs), mn, mx, d)))"
proof -
  have "stream_chunks c e (frame_chunk_msg c fb fid mn mx) [0..<unat (stream_total_chunks c)] = (ok, evs)"
    using assms(2,3) by (simp add: send_frame_def)
  note sent = stream_chunks_msgs[OF this, folded assms(4)]
  have body: "concat (map (drop CHUNK_HEADER_SIZE) msgs) = frame_body c fb mn mx"
    unfolding assms(4) by (rule frame_msgs_body[OF assms(1)])
  have "length (msgs ! i) \<le> CHUNK_MSG_SIZE \<and> (\<exists>d. chunk_fields (msgs ! i) =
      (fid, of_nat i, of_nat (length msgs), mn, mx, d))" if "i < length msgs" for i
    using chunk_msg_fields[OF assms(1), of c fid mn mx i] that by (simp add: assms(4) del: upt_Suc)
  with sent body show ?thesis by blast
qed

lemma frame_chunks_reassemble_witness:
  "length (udp_msgs (snd (send_frame default_cfg good_env example_buf 7))) = 19"
proof -
  obtain ok evs where s: "send_frame default_cfg good_env example_buf 7 = (ok, evs)" by fastforce
  obtain mn mx where r: "frame_range default_cfg example_buf = (mn, mx)" by fastforce
  have "ok"
    using stream_chunks_ok[OF good_env_up] s r unfolding send_frame_def by (metis fst_conv case_prod_conv)
  with frame_chunks_reassemble[OF example_buf_length s r refl] show ?thesis
    using chunk_sizes(3)[OF default_cfg_modes(2)] by (simp add: default_cfg_modes s del: upt_Suc)
qed

text \<open>The range the fast mode scales to is the range of the plausible pixels: with no pixel strictly
  between 1000 and 30000 it is 7000 to 10000; otherwise its lower end is the smallest such pixel and
  its upper end the largest, moved up, without wrapping, to keep a span of at least 100.\<close>

theorem frame_range_exact:
  assumes "frameComputeRange fb = (mn, mx)"
  shows "unat mx - unat mn \<ge> 100 \<and>
    (if valid_pixels fb = {} then mn = 7000 \<and> mx = 10000
     else mn \<in> valid_pixels fb \<and> (\<forall>p\<in>valid_pixels fb. mn \<le> p \<and> p \<le> mx) \<and>
       (mx \<in> valid_pixels fb \<or> unat mx = unat mn + 100))"
proof -
  obtain r where ok: "scan_ok (valid_pixels fb) r" and e: "(mn, mx) =
     (if \<not> has_valid_pixel r then (7000, 10000)
      else if max_pixel r - min_pixel r < 100 then (min_pixel r, min_pixel r + 100) else (min_pixel r, max_pixel r))"
    using computeRange_scan[of fb] assms by auto
  show ?thesis
  proof (cases "valid_pixels fb = {}")
    case True
    then show ?thesis using ok e by (simp add: scan_ok_def)
  next
    case False
    then have v: "has_valid_pixel r" "min_pixel r \<in> valid_pixels fb" "max_pixel r \<in> valid_pixels fb"
      "\<forall>p\<in>valid_pixels fb. min_pixel r \<le> p \<and> p \<le> max_pixel r"
      using ok by (simp_all add: scan_ok_def)
    have p100: "unat (min_pixel r + 100) = unat (min_pixel r) + 100"
      using v(2) by (intro add_100) (simp add: valid_pixels_def)
    have "p \<le> min_pixel r + 100" if "p \<in> valid_pixels fb" "max_pixel r - min_pixel r < 100" for p
    proof -
      have "min_pixel r \<le> max_pixel r" using v(3,4) by blast
      then have "unat (max_pixel r) - unat (min_pixel r) < 100"
        using that(2) by (simp add: word_less_nat_alt unat_sub)
      moreover have "unat p \<le> unat (max_pixel r)" using v(4) that(1) by (simp add: word_le_nat_alt)
      ultimately show ?thesis using p100 by (simp add: word_le_nat_alt)
    qed
    then show ?thesis
      using False v e p100 range_span[OF assms] by (cases "max_pixel r - min_pixel r < 100") auto
  qed
qed

lemma frame_range_exact_witness: "\<exists>mn mx. frameComputeRange example_buf = (mn, mx) \<and> unat mx - unat mn \<ge> 100"
  using frame_range_exact by (metis surj_pair)

text \<open>Scaling a pixel to 8 bits does not overflow, keeps the order of the pixels, and maps the ends of
  the range (and everything beyond them) to 0 and 255.\<close>

theorem pack_pixel_scales:
  assumes "mn < mx"
  shows "unat (pack_pixel mn mx p) = (max (unat mn) (min (unat p) (unat mx)) - unat mn) * 255 div (unat mx - unat mn) \<and>
    (p \<le> q \<longrightarrow> pack_pixel mn mx p \<le> pack_pixel mn mx q) \<and>
    (p \<le> mn \<longrightarrow> pack_pixel mn mx p = 0) \<and> (mx \<le> p \<longrightarrow> pack_pixel mn mx p = 255)"
proof -
  have lt: "unat mn < unat mx" using assms by (simp add: word_less_nat_alt)
  note v = pack_pixel_value[OF lt]
  have "pack_pixel mn mx p \<le> pack_pixel mn mx q" if "p \<le> q"
    unfolding word_le_nat_alt v using that
    by (intro div_le_mono mult_le_mono1 diff_le_mono) (auto simp: word_le_nat_alt)
  moreover have "pack_pixel mn mx p = 0" if "p \<le> mn"
    using v[of p] that lt by (simp add: word_le_nat_alt word_unat_eq_iff)
  moreover have "pack_pixel mn mx p = 255" if "mx \<le> p"
    using v[of p] that lt by (simp add: word_le_nat_alt word_unat_eq_iff min_absorb2 max_absorb2)
  ultimately show ?thesis using v by blast
qed

lemma pack_pixel_scales_witness: "unat (pack_pixel 7000 10000 8500) = 127 \<and> pack_pixel 7000 10000 12000 = 255"
  using pack_pixel_scales[of 7000 10000 8500] pack_pixel_scales[of 7000 10000 12000] by simp

text \<open>A round of the task takes exactly one frame off the ring, the oldest one, or in the fast mode the
  newest one with the older ones dropped, sends that frame under its id, and gives its buffer back
  whether or not the sending succeeded; when it is blocked or no frame is ready it only waits.\<close>

theorem stream_round:
  assumes "link_reachable (l, t, None, ps)" and "acquire_lock e" and "release_lock e"
  shows "if stream_blocked c e \<or> link_frames l = [] then
      mqttFrameTask c e l = ([Wait (idle_delay_ticks c (frameStreamUseUdp c \<and> udp_congested e))], l)
    else \<exists>ok evs waits l'. send_frame c e (snd (if frameStreamUseUdpFast8 c then last (link_frames l) else hd (link_frames l)))
        (fst (if frameStreamUseUdpFast8 c then last (link_frames l) else hd (link_frames l))) = (ok, evs) \<and>
      mqttFrameTask c e l = (evs @ [FrameDone (fst (if frameStreamUseUdpFast8 c then last (link_frames l) else hd (link_frames l))) ok] @ waits, l') \<and>
      link_frames l' = (if frameStreamUseUdpFast8 c then [] else tl (link_frames l)) \<and> link_ring l'"
proof -
  have ring: "link_ring l" "frame_mutex l"
    using link_reachable_inv[OF assms(1)] by (simp_all add: link_inv_def)
  obtain r m where a: "frameLinkAcquireReadyFrame True (frameStreamUseUdpFast8 c) l = (r, m)" by fastforce
  note acq = acquire_ring[OF ring(1) a]
  have none: "r = None \<longleftrightarrow> link_frames l = []"
    using acq(4) ring(2) by (metis length_greater_0_conv length_link_frames)
  show ?thesis
  proof (cases "stream_blocked c e \<or> link_frames l = []")
    case True
    moreover have "m = l" if "r = None"
      using a that by (auto simp: frameLinkAcquireReadyFrame_def Let_def split: if_splits)
    ultimately show ?thesis using none a assms(2) by (auto simp: mqttFrameTask_def)
  next
    case False
    then obtain fb fid k where r: "r = Some (fb, fid, k)" using none by (cases r) auto
    have h: "frame_ready m > 0" "read_idx m = k" "hd (link_frames m) = (fid, fb)"
      using acq(2) r by (simp_all add: held_ok_def)
    have f: "(fid, fb) = (if frameStreamUseUdpFast8 c then last (link_frames l) else hd (link_frames l))"
      using h(3) acq(3) r by (cases "frameStreamUseUdpFast8 c") simp_all
    obtain ok evs where s: "send_frame c e fb fid = (ok, evs)" by fastforce
    have mm: "frame_mutex m" using acquire_same(1)[OF a] ring(2) by simp
    let ?l' = "frameLinkReleaseReadyFrame True k m"
    have rel: "link_ring ?l'" "link_frames ?l' = tl (link_frames m)"
      using release_ring[OF acq(1), of True k] h mm by simp_all
    have "link_frames ?l' = (if frameStreamUseUdpFast8 c then [] else tl (link_frames l))"
      using rel(2) acq(3) r by simp
    moreover have "\<exists>waits. mqttFrameTask c e l = (evs @ [FrameDone fid ok] @ waits, ?l')"
      using False a r s assms(2,3) by (simp add: mqttFrameTask_def)
    ultimately show ?thesis
      using False s rel(1) unfolding f[symmetric] fst_conv snd_conv by auto
  qed
qed

lemma stream_round_witness:
  "\<exists>evs l'. mqttFrameTask default_cfg good_env (fst example_full) = (evs, l') \<and> link_frames l' = [] \<and>
     FrameDone 7 True \<in> set evs"
proof -
  obtain ps where r: "link_reachable (fst example_full, snd example_full, None, ps)"
    using example_full_reachable by blast
  have ok: "fst (send_frame default_cfg good_env b 7)" for b
    unfolding send_frame_def by (cases "frame_range default_cfg b") (simp add: stream_chunks_ok[OF good_env_up])
  have "\<not> stream_blocked default_cfg good_env"
    by (simp add: stream_blocked_def default_cfg_modes good_env_def)
  then show ?thesis
    using stream_round[OF r, of good_env default_cfg] example_full_frames ok
    by (auto simp: default_cfg_modes good_env_def[THEN arg_cong[of _ _ acquire_lock]] good_env_def[THEN arg_cong[of _ _ release_lock]])
      (metis fst_conv)
qed

end
