(* ===== verification/MqttClient.thy ===== *)
theory MqttClient imports CStrings FrameLink MqttFrame begin

text \<open>
  The control side of the ESP32: the state the MQTT client (mqtt/mqtt.c) and the serial bridge
  to the STM32 (device/cmd_uart.c) share, and the operations on the connection. The queue of
  commands for the STM32 is a FreeRTOS queue, a parameter of the model as for the Zephyr queues:
  \<open>'q\<close> is its state, \<open>None\<close> the null handle. What is handed to the MQTT library is recorded in
  order, and so are the bytes written to the serial line.
\<close>

datatype mqtt_out =
    Subscribe string nat
  | Publish string string nat

record 'q gw =
  s_client :: bool
  s_mqtt_connected :: bool
  s_last_connect_us :: int
  s_next_health_publish_us :: int
  mqtt_out :: "mqtt_out list"
  g_cmd_uart_queue :: "'q option"
  uart_out :: string
  line_buf :: string

definition gw_reset :: "'q gw" where
  "gw_reset = \<lparr> s_client = False, s_mqtt_connected = False, s_last_connect_us = 0, s_next_health_publish_us = 0,
     mqtt_out = [], g_cmd_uart_queue = None, uart_out = [], line_buf = [] \<rparr>"

definition CMD_TOPIC :: string where "CMD_TOPIC = ''motor/control''"
definition LASER_CMD_TOPIC :: string where "LASER_CMD_TOPIC = ''laser/control''"
definition STM32_RESP_TOPIC :: string where "STM32_RESP_TOPIC = ''motor/response''"
definition HEALTH_TOPIC :: string where "HEALTH_TOPIC = ''system/status''"
definition HEALTH_CONTROL_TOPIC :: string where "HEALTH_CONTROL_TOPIC = ''system/control''"
definition HEALTH_CONTROL_CMD :: string where "HEALTH_CONTROL_CMD = ''publish_status_now''"

abbreviation (input) CMD_MAX_LEN :: nat where "CMD_MAX_LEN \<equiv> 64"
abbreviation (input) MQTT_HEALTH_PERIOD_US :: int where "MQTT_HEALTH_PERIOD_US \<equiv> 60000000"

definition mqtt_emit :: "mqtt_out \<Rightarrow> 'q gw \<Rightarrow> 'q gw" where
  "mqtt_emit m s = s\<lparr> mqtt_out := mqtt_out s @ [m] \<rparr>"

definition mqttIsConnected :: "'q gw \<Rightarrow> bool" where
  "mqttIsConnected s = s_mqtt_connected s"

definition mqttPublishText :: "string \<Rightarrow> string \<Rightarrow> nat \<Rightarrow> 'q gw \<Rightarrow> 'q gw" where
  "mqttPublishText topic payload qos s =
     (if s_client s \<and> s_mqtt_connected s then mqtt_emit (Publish topic payload qos) s else s)"

text \<open>
  \<^verbatim>\<open>mqttClient\<close>: the result tells whether a client handle was returned; \<open>init_ok\<close> is the answer
  of \<^verbatim>\<open>esp_mqtt_client_init\<close>. The buffer sizes depend on the streaming mode.
\<close>

definition mqtt_buffer_size :: "stream_cfg \<Rightarrow> nat" where
  "mqtt_buffer_size c = (if frameStreamUseMqtt c then 4096 else 1024)"

definition mqttClient :: "string \<Rightarrow> bool \<Rightarrow> 'q gw \<Rightarrow> bool \<times> 'q gw" where
  "mqttClient uri init_ok s =
     (if s_client s then (True, s)
      else if length uri = 0 then (False, s)
      else (init_ok, s\<lparr> s_client := init_ok \<rparr>))"

text \<open>The messages of the frame sender fit the buffer of the client, when they go over MQTT.\<close>

lemma chunk_fits_mqtt_buffer: "frameStreamUseMqtt c \<Longrightarrow> CHUNK_MSG_SIZE \<le> mqtt_buffer_size c"
  by (simp add: mqtt_buffer_size_def)

end
