(* ===== verification/CmdUart.thy ===== *)
theory CmdUart imports MqttClient begin

text \<open>
  The serial bridge to the STM32 (device/cmd_uart.c): a task that alternately takes a command
  from the queue and writes it to the line, and collects the bytes received into lines that are
  published over MQTT.
\<close>

section \<open>Model\<close>

record cmd_uart_msg =
  msg_len :: u8
  msg_data :: string

definition msg_text :: "cmd_uart_msg \<Rightarrow> string" where
  "msg_text m = take (unat (msg_len m)) (msg_data m)"

definition CMD_EOL :: string where
  "CMD_EOL = [CHR 0x0D, CHR 0x0A]"

datatype esp_err = ESP_OK | ESP_FAIL | ESP_ERR

text \<open>
  \<^verbatim>\<open>cmdUartInit\<close>, over the answers of the driver and of \<^verbatim>\<open>xQueueCreate\<close>; the boolean tells whether
  the driver is installed afterwards.
\<close>

definition cmdUartInit :: "esp_err \<Rightarrow> esp_err \<Rightarrow> esp_err \<Rightarrow> 'q option \<Rightarrow> 'q gw \<Rightarrow> esp_err \<times> bool \<times> 'q gw" where
  "cmdUartInit param_config set_pin driver_install queue s =
     (if param_config \<noteq> ESP_OK then (param_config, False, s)
      else if set_pin \<noteq> ESP_OK then (set_pin, False, s)
      else if driver_install \<noteq> ESP_OK then (driver_install, False, s)
      else case queue of
        None \<Rightarrow> (ESP_FAIL, False, s\<lparr> g_cmd_uart_queue := None \<rparr>)
      | Some q \<Rightarrow> (ESP_OK, True, s\<lparr> g_cmd_uart_queue := Some q \<rparr>))"

definition cmdUartGetQueueDepth :: "('q \<Rightarrow> nat) \<Rightarrow> 'q gw \<Rightarrow> u32" where
  "cmdUartGetQueueDepth waiting s = (case g_cmd_uart_queue s of None \<Rightarrow> 0 | Some q \<Rightarrow> of_nat (waiting q))"

text \<open>Lines 83-90: a command for the STM32.\<close>

definition cmd_uart_transmit :: "('q \<Rightarrow> (cmd_uart_msg \<times> 'q) option) \<Rightarrow> 'q gw \<Rightarrow> 'q gw" where
  "cmd_uart_transmit receive s = (case g_cmd_uart_queue s of
     None \<Rightarrow> s
   | Some q \<Rightarrow> (case receive q of
       None \<Rightarrow> s
     | Some (m, q') \<Rightarrow> s\<lparr> g_cmd_uart_queue := Some q',
         uart_out := (if msg_len m > 0 then uart_out s @ msg_text m @ CMD_EOL else uart_out s) \<rparr>))"

text \<open>Lines 97-121: a byte from the STM32. The line is published as the C string it is.\<close>

definition cmd_uart_receive :: "char \<Rightarrow> 'q gw \<Rightarrow> 'q gw" where
  "cmd_uart_receive ch s =
     (if ch = CHR 0x0D \<or> ch = CHR 0x0A then
        if length (line_buf s) > 0
        then (mqttPublishText STM32_RESP_TOPIC (cstr (line_buf s)) 1 s)\<lparr> line_buf := [] \<rparr>
        else s
      else if length (line_buf s) < 128 - 1 then s\<lparr> line_buf := line_buf s @ [ch] \<rparr>
      else s\<lparr> line_buf := [] \<rparr>)"

text \<open>One round of the task: \<open>rx\<close> are the bytes \<^verbatim>\<open>uart_read_bytes\<close> delivered, at most 127.\<close>

definition cmdUartTask :: "('q \<Rightarrow> (cmd_uart_msg \<times> 'q) option) \<Rightarrow> string \<Rightarrow> 'q gw \<Rightarrow> 'q gw" where
  "cmdUartTask receive rx s = fold cmd_uart_receive rx (cmd_uart_transmit receive s)"

section \<open>Lines from the STM32\<close>

definition eol_char :: "char \<Rightarrow> bool" where
  "eol_char c \<longleftrightarrow> c = CHR 0x0D \<or> c = CHR 0x0A"

definition publish_lines :: "string list \<Rightarrow> mqtt_out list" where
  "publish_lines ls = map (\<lambda>l. Publish STM32_RESP_TOPIC (cstr l) 1) (filter (\<lambda>l. l \<noteq> []) ls)"

lemma publish_lines_simps [simp]:
  "publish_lines [] = []"
  "publish_lines (l # ls) = (if l = [] then [] else [Publish STM32_RESP_TOPIC (cstr l) 1]) @ publish_lines ls"
  "publish_lines (ls @ ms) = publish_lines ls @ publish_lines ms"
  by (simp_all add: publish_lines_def)

lemma receive_fields [simp]:
  "s_client (cmd_uart_receive c s) = s_client s" "s_mqtt_connected (cmd_uart_receive c s) = s_mqtt_connected s"
  "uart_out (cmd_uart_receive c s) = uart_out s" "g_cmd_uart_queue (cmd_uart_receive c s) = g_cmd_uart_queue s"
  by (simp_all add: cmd_uart_receive_def mqttPublishText_def mqtt_emit_def)

lemma receive_all_fields [simp]:
  "s_client (fold cmd_uart_receive cs s) = s_client s" "s_mqtt_connected (fold cmd_uart_receive cs s) = s_mqtt_connected s"
  "uart_out (fold cmd_uart_receive cs s) = uart_out s" "g_cmd_uart_queue (fold cmd_uart_receive cs s) = g_cmd_uart_queue s"
  by (induction cs arbitrary: s) simp_all

text \<open>The bytes split at the line ends; all but the last piece are complete lines.\<close>

lemma receive_lines:
  assumes "s_client s" and "s_mqtt_connected s" and "line_buf s = l"
    and "list_all (\<lambda>x. length x \<le> 127) (split_by eol_char (l @ cs))" and "list_all (\<lambda>c. \<not> eol_char c) l"
  shows "mqtt_out (fold cmd_uart_receive cs s) = mqtt_out s @ publish_lines (butlast (split_by eol_char (l @ cs))) \<and>
    line_buf (fold cmd_uart_receive cs s) = last (split_by eol_char (l @ cs))"
  using assms
proof (induction cs arbitrary: l s)
  case Nil
  then have "split_by eol_char l = [l]" by (intro split_by_none)
  then show ?case using Nil by simp
next
  case (Cons c cs)
  show ?case
  proof (cases "eol_char c")
    case True
    have sp: "split_by eol_char (l @ c # cs) = l # split_by eol_char cs"
      using Cons.prems(5) True by (subst split_by_append) auto
    let ?s = "cmd_uart_receive c s"
    have s: "line_buf ?s = []" "mqtt_out ?s = mqtt_out s @ publish_lines [l]"
      using True Cons.prems(1-3) by (auto simp: cmd_uart_receive_def eol_char_def mqttPublishText_def mqtt_emit_def)
    have "mqtt_out (fold cmd_uart_receive cs ?s) = mqtt_out ?s @ publish_lines (butlast (split_by eol_char ([] @ cs))) \<and>
      line_buf (fold cmd_uart_receive cs ?s) = last (split_by eol_char ([] @ cs))"
      using Cons.prems s by (intro Cons.IH) (simp_all add: sp)
    then show ?thesis using s by (simp add: sp)
  next
    case False
    have len: "length (l @ [c]) \<le> 127"
    proof -
      have "split_by eol_char ((l @ [c]) @ cs) = ((l @ [c]) @ hd (split_by eol_char cs)) # tl (split_by eol_char cs)"
        using Cons.prems(5) False by (intro split_by_append) auto
      then show ?thesis using Cons.prems(4) by simp
    qed
    let ?s = "cmd_uart_receive c s"
    have s: "line_buf ?s = l @ [c]" "mqtt_out ?s = mqtt_out s"
      using False Cons.prems(3) len by (simp_all add: cmd_uart_receive_def eol_char_def)
    have "mqtt_out (fold cmd_uart_receive cs ?s) = mqtt_out ?s @ publish_lines (butlast (split_by eol_char ((l @ [c]) @ cs))) \<and>
      line_buf (fold cmd_uart_receive cs ?s) = last (split_by eol_char ((l @ [c]) @ cs))"
      using Cons.prems s False by (intro Cons.IH) simp_all
    then show ?thesis using s by simp
  qed
qed

lemma receive_bounded: "length (line_buf s) \<le> 127 \<Longrightarrow> length (line_buf (fold cmd_uart_receive cs s)) \<le> 127"
proof (induction cs arbitrary: s)
  case (Cons c cs)
  then show ?case by (auto simp: cmd_uart_receive_def mqttPublishText_def mqtt_emit_def intro!: Cons.IH)
qed simp

end
