(* ===== verification/MqttCommand.thy ===== *)
theory MqttCommand imports CmdUart begin

text \<open>
  The MQTT side of the command path (mqtt/mqtt.c): payloads received on the control topics are
  cut into commands for the STM32 and queued; the status of the gateway is published as a JSON
  text on request and once a minute. \<open>send\<close> is \<^verbatim>\<open>xQueueSend\<close> with its timeout.
\<close>

section \<open>Queueing commands\<close>

text \<open>Lines 155-170: the message for a command.\<close>

definition stm_command_msg :: "string \<Rightarrow> cmd_uart_msg" where
  "stm_command_msg command =
     (let len = (if length command > CMD_MAX_LEN - 1 then CMD_MAX_LEN - 1 else length command)
      in \<lparr> msg_len = of_nat len, msg_data = (memcpy_at (replicate CMD_MAX_LEN (CHR 0x00)) 0 (take len command))[len := CHR 0x00] \<rparr>)"

definition mqttQueueStmCommand :: "(cmd_uart_msg \<Rightarrow> 'q \<Rightarrow> bool \<times> 'q) \<Rightarrow> string \<Rightarrow> 'q gw \<Rightarrow> bool \<times> 'q gw" where
  "mqttQueueStmCommand send command s =
     (if length command = 0 then (False, s)
      else case g_cmd_uart_queue s of
        None \<Rightarrow> (False, s)
      | Some q \<Rightarrow> (case send (stm_command_msg command) q of (ok, q') \<Rightarrow> (ok, s\<lparr> g_cmd_uart_queue := Some q' \<rparr>)))"

definition list_separator :: "char \<Rightarrow> bool" where
  "list_separator ch \<longleftrightarrow> ch = CHR '';'' \<or> ch = CHR 0x0D \<or> ch = CHR 0x0A"

definition trim_tail :: "string \<Rightarrow> string" where
  "trim_tail buf = rev (dropWhile isspace (rev buf))"

text \<open>Lines 214-228: the end of a command; the booleans are \<^verbatim>\<open>queued_any\<close> and \<^verbatim>\<open>all_ok\<close>.\<close>

definition flush_command :: "(cmd_uart_msg \<Rightarrow> 'q \<Rightarrow> bool \<times> 'q) \<Rightarrow> string \<Rightarrow> bool \<times> bool \<times> 'q gw \<Rightarrow> bool \<times> bool \<times> 'q gw" where
  "flush_command send buf r = (case r of (queued_any, all_ok, s) \<Rightarrow>
     let cmd = trim_tail buf
     in if length cmd > 0 then (case mqttQueueStmCommand send cmd s of
          (False, s) \<Rightarrow> (queued_any, False, s)
        | (True, s) \<Rightarrow> (True, all_ok, s))
        else r)"

fun command_loop :: "(cmd_uart_msg \<Rightarrow> 'q \<Rightarrow> bool \<times> 'q) \<Rightarrow> string \<Rightarrow> string \<Rightarrow> bool \<times> bool \<times> 'q gw \<Rightarrow> bool \<times> bool \<times> 'q gw" where
  "command_loop send [] buf r = flush_command send buf r"
| "command_loop send (ch # cs) buf (queued_any, all_ok, s) =
     (if list_separator ch then command_loop send cs [] (flush_command send buf (queued_any, all_ok, s))
      else if length buf = 0 \<and> isspace ch then command_loop send cs buf (queued_any, all_ok, s)
      else if length buf < CMD_MAX_LEN - 1 then command_loop send cs (buf @ [ch]) (queued_any, all_ok, s)
      else command_loop send cs buf (queued_any, False, s))"

definition mqttQueueStmCommandList :: "(cmd_uart_msg \<Rightarrow> 'q \<Rightarrow> bool \<times> 'q) \<Rightarrow> string \<Rightarrow> 'q gw \<Rightarrow> bool \<times> 'q gw" where
  "mqttQueueStmCommandList send commands s =
     (if length commands = 0 then (False, s)
      else case command_loop send commands [] (False, True, s) of
        (queued_any, all_ok, s) \<Rightarrow> (queued_any \<and> all_ok, s))"

definition mqttResolveLaserCommand :: "string \<Rightarrow> string option" where
  "mqttResolveLaserCommand payload =
     (if payload = ''laser on'' \<or> payload = ''LASER ON'' \<or> payload = ''on'' \<or> payload = ''ON'' then Some ''LASER ON''
      else if payload = ''laser off'' \<or> payload = ''LASER OFF'' \<or> payload = ''off'' \<or> payload = ''OFF'' then Some ''LASER OFF''
      else None)"

section \<open>Health\<close>

record health_env =
  time_us :: nat
  wifi_rssi :: "int option"
  free_heap :: nat
  min_heap :: nat
  queue_waiting :: nat
  stats :: link_counters
  ready_frames :: nat

definition json_bool :: "bool \<Rightarrow> string" where
  "json_bool b = (if b then ''true'' else ''false'')"

definition show_u32 :: "u32 \<Rightarrow> string" where
  "show_u32 w = show_nat (unat w)"

text \<open>The text \<^verbatim>\<open>snprintf\<close> would print into a buffer of any size.\<close>

definition health_json :: "health_env \<Rightarrow> 'q gw \<Rightarrow> string" where
  "health_json e s = concat [
     ''{\"uptime_sec\":'', show_nat (time_us e div 1000000),
     '',\"wifi_connected\":'', json_bool (wifi_rssi e \<noteq> None),
     '',\"wifi_rssi\":'', show_int (case wifi_rssi e of Some r \<Rightarrow> r | None \<Rightarrow> -127),
     '',\"mqtt_connected\":'', json_bool (s_mqtt_connected s),
     '',\"free_heap\":'', show_nat (free_heap e), '',\"min_heap\":'', show_nat (min_heap e),
     '',\"cmd_queue_depth\":'', show_u32 (cmdUartGetQueueDepth (\<lambda>_. queue_waiting e) s),
     '',\"frame_packets\":'', show_u32 (total_packets (stats e)), '',\"frame_completed\":'', show_u32 (completed_frames (stats e)),
     '',\"frame_timeouts\":'', show_u32 (spi_timeouts (stats e)), '',\"frame_errors\":'', show_u32 (spi_errors (stats e)),
     '',\"bad_magic\":'', show_u32 (bad_magic (stats e)),
     '',\"bad_checksum\":'', show_u32 (bad_checksum (stats e)), '',\"bad_len\":'', show_u32 (bad_payload_len (stats e)),
     '',\"seq_errors\":'', show_u32 (seq_errors (stats e)),
     '',\"queue_full_drops\":'', show_u32 (queue_full_drops (stats e)),
     '',\"stale_frame_drops\":'', show_u32 (stale_frame_drops (stats e)), '',\"frame_ready\":'', show_nat (ready_frames e), ''}'']"

definition mqttBuildHealthPayload :: "nat \<Rightarrow> health_env \<Rightarrow> 'q gw \<Rightarrow> string option" where
  "mqttBuildHealthPayload payload_size e s =
     (if payload_size = 0 then None else Some (take (payload_size - 1) (health_json e s)))"

definition mqttPublishHealthSnapshot :: "health_env \<Rightarrow> 'q gw \<Rightarrow> 'q gw" where
  "mqttPublishHealthSnapshot e s = (case mqttBuildHealthPayload 320 e s of
     None \<Rightarrow> s
   | Some payload \<Rightarrow> mqttPublishText HEALTH_TOPIC payload 0 s)"

text \<open>One round of \<^verbatim>\<open>mqttHealthTask\<close>; \<open>now\<close> is read by its condition.\<close>

definition mqttHealthTask :: "int \<Rightarrow> health_env \<Rightarrow> 'q gw \<Rightarrow> 'q gw" where
  "mqttHealthTask now e s =
     (if s_mqtt_connected s \<and> s_next_health_publish_us s \<noteq> 0 \<and> now \<ge> s_next_health_publish_us s then
        let s = mqttPublishHealthSnapshot e s
        in s\<lparr> s_next_health_publish_us := s_next_health_publish_us s + MQTT_HEALTH_PERIOD_US \<rparr>
      else s)"

section \<open>Events\<close>

datatype mqtt_event =
    MQTT_EVENT_CONNECTED int
  | MQTT_EVENT_DATA string string
  | MQTT_EVENT_DISCONNECTED
  | MQTT_EVENT_ERROR
  | MQTT_EVENT_OTHER

definition mqtt_on_connected :: "int \<Rightarrow> 'q gw \<Rightarrow> 'q gw" where
  "mqtt_on_connected now s =
     (let s = s\<lparr> s_mqtt_connected := True, s_last_connect_us := now, s_next_health_publish_us := now + MQTT_HEALTH_PERIOD_US \<rparr>
      in mqtt_emit (Publish ''lepton/status'' ''Lepton ready'' 1) (mqtt_emit (Subscribe HEALTH_CONTROL_TOPIC 1)
           (mqtt_emit (Subscribe LASER_CMD_TOPIC 1) (mqtt_emit (Subscribe CMD_TOPIC 1) s))))"

definition mqtt_on_data :: "(cmd_uart_msg \<Rightarrow> 'q \<Rightarrow> bool \<times> 'q) \<Rightarrow> health_env \<Rightarrow> string \<Rightarrow> string \<Rightarrow> 'q gw \<Rightarrow> 'q gw" where
  "mqtt_on_data send e topic payload s =
     (if topic = HEALTH_CONTROL_TOPIC then
        (if payload = HEALTH_CONTROL_CMD \<or> payload = ''cmd=publish_status_now'' then mqttPublishHealthSnapshot e s else s)
      else if topic = LASER_CMD_TOPIC then
        (case mqttResolveLaserCommand payload of
           None \<Rightarrow> s
         | Some laser_cmd \<Rightarrow> snd (mqttQueueStmCommand send laser_cmd s))
      else if topic \<noteq> CMD_TOPIC then s
      else snd (mqttQueueStmCommandList send payload s))"

fun mqttEventHandler :: "(cmd_uart_msg \<Rightarrow> 'q \<Rightarrow> bool \<times> 'q) \<Rightarrow> health_env \<Rightarrow> mqtt_event \<Rightarrow> 'q gw \<Rightarrow> 'q gw" where
  "mqttEventHandler send e (MQTT_EVENT_CONNECTED now) s = mqtt_on_connected now s"
| "mqttEventHandler send e (MQTT_EVENT_DATA topic payload) s = mqtt_on_data send e topic payload s"
| "mqttEventHandler send e MQTT_EVENT_DISCONNECTED s = s\<lparr> s_mqtt_connected := False, s_next_health_publish_us := 0 \<rparr>"
| "mqttEventHandler send e MQTT_EVENT_ERROR s = s"
| "mqttEventHandler send e MQTT_EVENT_OTHER s = s"

section \<open>The commands of a payload\<close>

text \<open>
  Reference: the payload is split at the separators, every piece trimmed, cut to 63 characters
  and trimmed again, and empty pieces are dropped.
\<close>

definition piece_command :: "string \<Rightarrow> string" where
  "piece_command p = trim_tail (take 63 (dropWhile isspace p))"

definition payload_commands :: "string \<Rightarrow> string list" where
  "payload_commands payload = filter (\<lambda>c. c \<noteq> []) (map piece_command (split_by list_separator payload))"

definition piece_fits :: "string \<Rightarrow> bool" where
  "piece_fits p \<longleftrightarrow> length (dropWhile isspace p) \<le> 63"

text \<open>Queue the commands one by one.\<close>

definition queue_commands :: "(cmd_uart_msg \<Rightarrow> 'q \<Rightarrow> bool \<times> 'q) \<Rightarrow> string list \<Rightarrow> bool \<times> bool \<times> 'q gw \<Rightarrow> bool \<times> bool \<times> 'q gw" where
  "queue_commands send cs r = fold (\<lambda>c (queued_any, all_ok, s). case mqttQueueStmCommand send c s of
     (ok, s) \<Rightarrow> (queued_any \<or> ok, all_ok \<and> ok, s)) cs r"

lemma queue_commands_simps [simp]:
  "queue_commands send [] r = r"
  "queue_commands send (c # cs) (a, b, s) = queue_commands send cs
     (a \<or> fst (mqttQueueStmCommand send c s), b \<and> fst (mqttQueueStmCommand send c s), snd (mqttQueueStmCommand send c s))"
  by (simp_all add: queue_commands_def split_beta)

text \<open>A lost character only clears \<open>all_ok\<close>.\<close>

lemma queue_commands_all_ok:
  "queue_commands send cs (a, b, s) = (let r = queue_commands send cs (a, True, s) in (fst r, b \<and> fst (snd r), snd (snd r)))"
proof (induction cs arbitrary: a b s)
  case (Cons c cs)
  show ?case
    unfolding queue_commands_simps
    by (subst Cons.IH, subst (2) Cons.IH) (simp add: Let_def)
qed simp

lemma flush_queue: "flush_command send buf (a, b, s) = queue_commands send (filter (\<lambda>c. c \<noteq> []) [trim_tail buf]) (a, b, s)"
  by (auto simp: flush_command_def Let_def split: prod.split bool.split)

lemma drop_space_snoc:
  "dropWhile isspace (p @ [c]) = (if dropWhile isspace p = [] then (if isspace c then [] else [c]) else dropWhile isspace p @ [c])"
  by (induction p) auto

lemma command_loop_pieces:
  assumes "list_all (\<lambda>c. \<not> list_separator c) p"
  shows "command_loop send cs (take 63 (dropWhile isspace p)) (a, b \<and> piece_fits p, s)
    = queue_commands send (filter (\<lambda>c. c \<noteq> []) (map piece_command (split_by list_separator (p @ cs))))
        (a, b \<and> list_all piece_fits (split_by list_separator (p @ cs)), s)"
  using assms
proof (induction cs arbitrary: p a b s)
  case Nil
  then have "split_by list_separator p = [p]" by (rule split_by_none)
  then show ?case by (simp add: flush_queue piece_command_def)
next
  case (Cons c cs)
  show ?case
  proof (cases "list_separator c")
    case True
    have sp: "split_by list_separator (p @ c # cs) = p # split_by list_separator cs"
      using Cons.prems True by (subst split_by_append) auto
    obtain a1 b1 s1 where f: "flush_command send (take 63 (dropWhile isspace p)) (a, b \<and> piece_fits p, s) = (a1, b1, s1)"
      by (metis prod_cases3)
    have "command_loop send (c # cs) (take 63 (dropWhile isspace p)) (a, b \<and> piece_fits p, s)
      = command_loop send cs (take 63 (dropWhile isspace [])) (a1, b1 \<and> piece_fits [], s1)"
      using True f by (simp add: piece_fits_def)
    also have "\<dots> = queue_commands send (filter (\<lambda>c. c \<noteq> []) (map piece_command (split_by list_separator cs)))
        (a1, b1 \<and> list_all piece_fits (split_by list_separator cs), s1)"
      using Cons.IH[of "[]"] by simp
    finally have loop: "command_loop send (c # cs) (take 63 (dropWhile isspace p)) (a, b \<and> piece_fits p, s)
      = queue_commands send (filter (\<lambda>c. c \<noteq> []) (map piece_command (split_by list_separator cs)))
        (a1, b1 \<and> list_all piece_fits (split_by list_separator cs), s1)" .
    have "queue_commands send (filter (\<lambda>c. c \<noteq> []) [piece_command p]) (a, b \<and> piece_fits p, s) = (a1, b1, s1)"
      using f by (simp add: flush_queue piece_command_def)
    then show ?thesis
      unfolding loop by (cases "piece_command p = []") (auto simp: sp conj_ac)
  next
    case False
    have "command_loop send (c # cs) (take 63 (dropWhile isspace p)) (a, b \<and> piece_fits p, s)
      = command_loop send cs (take 63 (dropWhile isspace (p @ [c]))) (a, b \<and> piece_fits (p @ [c]), s)"
    proof -
      obtain d where d: "dropWhile isspace p = d" by simp
      show ?thesis
        using False unfolding drop_space_snoc piece_fits_def d
        by (cases "d = []"; cases "length d < 63") auto
    qed
    then show ?thesis
      using Cons.IH[of "p @ [c]"] Cons.prems False by simp
  qed
qed

lemma command_list_pieces:
  assumes "payload \<noteq> []"
  shows "mqttQueueStmCommandList send payload s =
    (case queue_commands send (payload_commands payload) (False, list_all piece_fits (split_by list_separator payload), s) of
      (queued_any, all_ok, s) \<Rightarrow> (queued_any \<and> all_ok, s))"
  using command_loop_pieces[of "[]" send payload False True s] assms
  by (simp add: mqttQueueStmCommandList_def payload_commands_def piece_fits_def)

section \<open>The text of a message\<close>

lemma stm_msg_text:
  assumes "length c \<le> 63"
  shows "msg_text (stm_command_msg c) = c" and "msg_len (stm_command_msg c) = 0 \<longleftrightarrow> c = []"
proof -
  have l: "unat (of_nat (length c) :: u8) = length c" using assms by (intro unat_of_nat8) simp
  have m: "msg_len (stm_command_msg c) = of_nat (length c)"
    "msg_data (stm_command_msg c) = (c @ drop (length c) (replicate 64 (CHR 0x00)))[length c := CHR 0x00]"
    using assms by (simp_all add: stm_command_msg_def Let_def memcpy_at_def del: replicate.simps)
  show "msg_text (stm_command_msg c) = c"
    using assms by (simp add: msg_text_def m l)
  show "msg_len (stm_command_msg c) = 0 \<longleftrightarrow> c = []"
    unfolding m by (metis l length_0_conv unat_eq_zero of_nat_0)
qed

lemma length_trim_tail: "length (trim_tail s) \<le> length s"
  using length_dropWhile_le[of isspace "rev s"] by (simp add: trim_tail_def)

lemma piece_command_length: "length (piece_command p) \<le> 63"
  using length_trim_tail[of "take 63 (dropWhile isspace p)"] by (simp add: piece_command_def)

text \<open>A piece that fits is simply trimmed.\<close>

lemma piece_command_strip: "piece_fits p \<Longrightarrow> piece_command p = strip p"
  by (simp add: piece_command_def piece_fits_def strip_def trim_tail_def)

end
