(* ===== verification/CommandPath.thy ===== *)
theory CommandPath imports MqttCommand Stm32Spec begin

text \<open>
  The path of a command from an MQTT payload to the STM32: queueing at the gateway, the bytes
  on the serial line, and the lines the STM32 assembles from them.
\<close>

section \<open>Into the queue\<close>

abbreviation (input) cmd_queue :: "('q \<Rightarrow> bool) \<Rightarrow> ('q \<Rightarrow> cmd_uart_msg list) \<Rightarrow> (cmd_uart_msg \<Rightarrow> 'q \<Rightarrow> bool \<times> 'q) \<Rightarrow>
    ('q \<Rightarrow> (cmd_uart_msg \<times> 'q) option) \<Rightarrow> bool" where
  "cmd_queue qinv contents send receive \<equiv> bounded_fifo qinv contents 16 (\<lambda>_. True) send receive"

lemma queue_commands_fifo:
  assumes q: "cmd_queue qinv contents send receive"
    and s: "g_cmd_uart_queue s = Some q0" "qinv q0" and ne: "list_all (\<lambda>c. c \<noteq> []) cs"
  shows "\<exists>q1. queue_commands send cs (a, b, s) = (a \<or> cs \<noteq> [] \<and> length (contents q0) < 16,
      b \<and> length (contents q0) + length cs \<le> max 16 (length (contents q0)), s\<lparr> g_cmd_uart_queue := Some q1 \<rparr>) \<and>
    qinv q1 \<and> contents q1 = take 16 (contents q0 @ map stm_command_msg cs)"
  using s ne
proof (induction cs arbitrary: a b s q0)
  case Nil
  moreover have "s\<lparr> g_cmd_uart_queue := Some q0 \<rparr> = s" using Nil.prems(1) by (cases s) simp
  ultimately show ?case using bounded_fifo.contents_cap[OF q] by (intro exI[of _ q0]) simp
next
  case (Cons c cs)
  have cap: "length (contents q0) \<le> 16" using bounded_fifo.contents_cap[OF q Cons.prems(2)] .
  obtain ok q1 where p: "send (stm_command_msg c) q0 = (ok, q1)" by fastforce
  have q1: "qinv q1" "contents q1 = take 16 (contents q0 @ [stm_command_msg c])" "ok \<longleftrightarrow> length (contents q0) < 16"
    using bounded_fifo.push_inv[OF q Cons.prems(2), of "stm_command_msg c"] bounded_fifo.push_contents[OF q Cons.prems(2), of "stm_command_msg c"]
      bounded_fifo.push_iff[OF q Cons.prems(2), of "stm_command_msg c"] p by simp_all
  let ?s = "s\<lparr> g_cmd_uart_queue := Some q1 \<rparr>"
  have m: "mqttQueueStmCommand send c s = (ok, ?s)"
    using Cons.prems(1,3) p by (simp add: mqttQueueStmCommand_def)
  have l: "length (contents q1) = (if ok then Suc (length (contents q0)) else length (contents q0))"
    using cap q1 by simp
  obtain q2 where e: "queue_commands send cs (a \<or> ok, b \<and> ok, ?s) = (a \<or> ok \<or> cs \<noteq> [] \<and> length (contents q1) < 16,
      (b \<and> ok) \<and> length (contents q1) + length cs \<le> max 16 (length (contents q1)), ?s\<lparr> g_cmd_uart_queue := Some q2 \<rparr>)"
    and q2: "qinv q2" "contents q2 = take 16 (contents q1 @ map stm_command_msg cs)"
    using Cons.IH[of ?s q1 "a \<or> ok" "b \<and> ok"] Cons.prems(3) q1(1) by auto
  have "contents q2 = take 16 (contents q0 @ map stm_command_msg (c # cs))"
    using q2(2) q1(2) cap by (simp add: take_push del: take_append)
  then show ?case
    using q2(1) e m l q1(3) cap by (intro exI[of _ q2]) auto
qed

section \<open>On the line\<close>

definition line_bytes :: "string list \<Rightarrow> string" where
  "line_bytes cs = concat (map (\<lambda>c. c @ CMD_EOL) cs)"

text \<open>Rounds of the bridge without input from the STM32.\<close>

lemma transmit_rounds:
  assumes q: "cmd_queue qinv contents send receive" and s: "g_cmd_uart_queue s = Some q0" "qinv q0"
    and c: "contents q0 = map stm_command_msg cs" and ok: "list_all (\<lambda>c. c \<noteq> [] \<and> length c \<le> 63) cs" and n: "length cs \<le> n"
  shows "\<exists>q1. ((cmdUartTask receive []) ^^ n) s = s\<lparr> g_cmd_uart_queue := Some q1, uart_out := uart_out s @ line_bytes cs \<rparr> \<and>
    qinv q1 \<and> contents q1 = []"
  using s c ok n
proof (induction n arbitrary: cs s q0)
  case 0
  then show ?case by (intro exI[of _ q0]) (cases s, simp add: line_bytes_def)
next
  case (Suc n)
  show ?case
  proof (cases cs)
    case Nil
    then have "receive q0 = None" using bounded_fifo.pop_none[OF q Suc.prems(2)] Suc.prems(3) by simp
    then have "cmdUartTask receive [] s = s" using Suc.prems(1) by (simp add: cmdUartTask_def cmd_uart_transmit_def)
    then show ?thesis using Suc.IH[of s q0 "[]"] Suc.prems Nil by (simp del: funpow.simps add: funpow_Suc_right)
  next
    case (Cons c cs')
    obtain q1 where r: "receive q0 = Some (stm_command_msg c, q1)" "qinv q1" "contents q1 = map stm_command_msg cs'"
      using bounded_fifo.pop_front[OF q Suc.prems(2)] Suc.prems(3) Cons by auto
    have cc: "msg_text (stm_command_msg c) = c" "msg_len (stm_command_msg c) > 0"
      using stm_msg_text[of c] Suc.prems(4) Cons by (simp_all add: word_gt_0)
    let ?s = "s\<lparr> g_cmd_uart_queue := Some q1, uart_out := uart_out s @ c @ CMD_EOL \<rparr>"
    have "cmdUartTask receive [] s = ?s"
      using Suc.prems(1) r(1) cc by (simp add: cmdUartTask_def cmd_uart_transmit_def)
    then show ?thesis
      using Suc.IH[of ?s q1 cs'] r(2,3) Suc.prems(4,5) Cons
      by (simp del: funpow.simps add: funpow_Suc_right line_bytes_def)
  qed
qed

section \<open>In the STM32\<close>

definition plain_command :: "string \<Rightarrow> bool" where
  "plain_command c \<longleftrightarrow> c \<noteq> [] \<and> length c \<le> 63 \<and> strip c = c \<and> list_all (\<lambda>x. \<not> list_separator x \<and> x \<noteq> NUL) c"

lemma plain_line: "plain_command c \<Longrightarrow> line_commands c = [c]"
proof -
  assume c: "plain_command c"
  then have "split_by (\<lambda>c. c = CHR '';'') c = [c]"
    by (intro split_by_none) (auto simp: plain_command_def list_all_iff list_separator_def)
  with c show ?thesis by (simp add: line_commands_def plain_command_def)
qed

lemma rx_eol_idle: "uart_cmd_len s = 0 \<Longrightarrow> eol e \<Longrightarrow> uart_inv s \<Longrightarrow> HAL_UART_RxCpltCallback e s = s\<lparr> uart_rx_armed := True \<rparr>"
  using rx_eol[of s e] by simp

lemma stm32_receives:
  assumes "uart_inv s" and "uart_cmd_len s = 0" and "list_all plain_command cs"
  shows "uart_inv (uart_rx (line_bytes cs) s) \<and> uart_cmd_len (uart_rx (line_bytes cs) s) = 0 \<and>
    uart_cmds (uart_rx (line_bytes cs) s) = take 16 (uart_cmds s @ cs)"
  using assms
proof (induction cs arbitrary: s)
  case Nil
  have "length (uart_cmds s) \<le> 16" using Nil.prems(1) by (simp add: uart_inv_def uart_cmds_def)
  with Nil show ?case by (simp add: line_bytes_def)
next
  case (Cons c cs)
  have p: "plain_command c" using Cons.prems(3) by simp
  then have "list_all (\<lambda>x. \<not> eol x \<and> x \<noteq> NUL) c" "length c \<le> 255"
    by (auto simp: plain_command_def list_all_iff eol_def list_separator_def)
  note l = rx_line[OF Cons.prems(1,2) this, of "CHR 0x0D", unfolded eol_def plain_line[OF p], simplified]
  let ?s = "uart_rx (c @ [CHR 0x0D]) s"
  let ?t = "?s\<lparr> uart_rx_armed := True \<rparr>"
  have lf: "HAL_UART_RxCpltCallback (CHR 0x0A) ?s = ?t"
    using rx_eol_idle[of ?s "CHR 0x0A"] l by (simp add: eol_def)
  have "uart_rx (line_bytes (c # cs)) s = uart_rx (line_bytes cs) ?t"
    using lf by (simp add: line_bytes_def CMD_EOL_def)
  moreover have "uart_inv ?t" "uart_cmd_len ?t = 0" "uart_cmds ?t = take 16 (uart_cmds s @ [c])"
    using l by simp_all
  moreover have "length (uart_cmds s) \<le> 16" using Cons.prems(1) by (simp add: uart_inv_def uart_cmds_def)
  ultimately show ?case
    using Cons.IH[of ?t] Cons.prems(3) by (simp add: take_push del: length_append take_append)
qed

lemma payload_commands_plain:
  assumes "list_all piece_fits (split_by list_separator payload)" and "NUL \<notin> set payload"
  shows "list_all plain_command (payload_commands payload)"
proof -
  have "plain_command (piece_command p)" if p: "p \<in> set (split_by list_separator payload)" "piece_command p \<noteq> []" for p
  proof -
    have st: "piece_command p = strip p" using assms(1) p(1) by (intro piece_command_strip) (simp add: list_all_iff)
    have "set (strip p) \<subseteq> set p" by (rule set_strip_subset)
    moreover have "set p \<subseteq> set payload" by (rule split_by_seg_subset[OF p(1)])
    moreover have "\<forall>x\<in>set p. \<not> list_separator x" using split_by_seg_none[OF p(1)] by (simp add: list_all_iff)
    ultimately show ?thesis
      using st p(2) piece_command_length[of p] assms(2) unfolding plain_command_def by (auto simp: list_all_iff)
  qed
  then show ?thesis by (auto simp: payload_commands_def list_all_iff)
qed

end
