(* ===== verification/CommandPathSpec.thy ===== *)
theory CommandPathSpec imports CommandPath begin

text \<open>
  Properties of the control side of the gateway: commands on their way from MQTT to the STM32,
  the lines on their way back, the laser, the status report, and the invariant of the state.
\<close>

section \<open>Concrete runs\<close>

abbreviation (input) test_send :: "cmd_uart_msg \<Rightarrow> cmd_uart_msg list \<Rightarrow> bool \<times> cmd_uart_msg list" where
  "test_send \<equiv> fifo_put 16"

definition test_gw :: "cmd_uart_msg list gw" where
  "test_gw = gw_reset\<lparr> g_cmd_uart_queue := Some [], s_client := True, s_mqtt_connected := True, s_next_health_publish_us := 60000001 \<rparr>"

lemma test_gw_fields: "g_cmd_uart_queue test_gw = Some []" "uart_out test_gw = []" "s_client test_gw" "s_mqtt_connected test_gw"
  "line_buf test_gw = []" "mqtt_out test_gw = []"
  by (simp_all add: test_gw_def gw_reset_def)

section \<open>Properties of the command path\<close>





text \<open>A piece longer than 63 characters is not refused: its first 63 characters are queued as a
  command although the function answers false.\<close>

theorem overlong_command_cut:
  assumes "cmd_queue qinv contents send receive" and "g_cmd_uart_queue s = Some q0" and "qinv q0" and "contents q0 = []"
    and "list_all (\<lambda>c. \<not> list_separator c) p" and "\<not> isspace (hd p)" and "63 < length p" and "\<not> isspace (p ! 62)"
  shows "\<exists>q1. mqttQueueStmCommandList send p s = (False, s\<lparr> g_cmd_uart_queue := Some q1 \<rparr>) \<and>
    contents q1 = [stm_command_msg (take 63 p)]"
proof -
  have p: "p \<noteq> []" "split_by list_separator p = [p]" "dropWhile isspace p = p"
    using assms(5-7) by (auto simp: split_by_none) (cases p, auto)
  have "last (take 63 p) = p ! 62" using assms(7) p(1) last_conv_nth[of "take 63 p"] by (simp add: min_def)
  then have "dropWhile isspace (rev (take 63 p)) = rev (take 63 p)"
    using assms(7,8) p(1) by (cases "rev (take 63 p)") (auto simp: hd_rev[symmetric])
  then have "piece_command p = take 63 p" by (simp add: piece_command_def p(3) trim_tail_def)
  then have cs: "payload_commands p = [take 63 p]" using p by (simp add: payload_commands_def)
  have "list_all (\<lambda>c. c \<noteq> []) [take 63 p]" using p(1) by simp
  from queue_commands_fifo[OF assms(1-3) this, of False False] assms(4) cs p assms(7) show ?thesis
    by (auto simp: command_list_pieces[OF p(1)] piece_fits_def)
qed

lemma overlong_command_cut_witness:
  "\<exists>q1. mqttQueueStmCommandList test_send (''motor1 set'' @ replicate 52 (CHR '' '') @ ''150'') test_gw = (False, test_gw\<lparr> g_cmd_uart_queue := Some q1 \<rparr>) \<and>
     q1 = [stm_command_msg (''motor1 set'' @ replicate 52 (CHR '' '') @ ''1'')]"
proof -
  let ?p = "''motor1 set'' @ replicate 52 (CHR '' '') @ ''150''"
  have p: "list_all (\<lambda>c. \<not> list_separator c) ?p" "\<not> isspace (hd ?p)" "\<not> isspace (?p ! 62)" "63 < length ?p"
    "take 63 ?p = ''motor1 set'' @ replicate 52 (CHR '' '') @ ''1''" by code_simp+
  show ?thesis
    using overlong_command_cut[OF list_fifo test_gw_fields(1) _ refl p(1,2,4,3)] unfolding p(5) by simp
qed

end
