(* ===== verification/GatewaySpec.thy ===== *)
theory GatewaySpec imports CommandPathSpec begin

text \<open>
  Properties of the gateway beyond the command path: answers of the STM32, the laser topic, the
  status report, and the invariant of the connection state under all events and tasks.
\<close>

section \<open>Steps of the gateway\<close>

inductive gw_step :: "'q gw \<Rightarrow> 'q gw \<Rightarrow> bool" where
  client: "gw_step s (snd (mqttClient uri init_ok s))"
| event: "(\<And>now. ev = MQTT_EVENT_CONNECTED now \<Longrightarrow> 0 \<le> now) \<Longrightarrow> gw_step s (mqttEventHandler send e ev s)"
| health: "gw_step s (mqttHealthTask now e s)"
| bridge: "gw_step s (cmdUartTask receive rx s)"
| init: "gw_step s (snd (snd (cmdUartInit r1 r2 r3 q s)))"

inductive gw_reachable :: "'q gw \<Rightarrow> bool" where
  reset: "gw_reachable gw_reset"
| step: "gw_reachable s \<Longrightarrow> gw_step s s' \<Longrightarrow> gw_reachable s'"

definition gw_inv :: "'q gw \<Rightarrow> bool" where
  "gw_inv s \<longleftrightarrow> length (line_buf s) \<le> 127 \<and> 0 \<le> s_last_connect_us s \<and>
     (if s_mqtt_connected s
      then \<exists>k>0. s_next_health_publish_us s = s_last_connect_us s + MQTT_HEALTH_PERIOD_US * int k
      else s_next_health_publish_us s = 0)"

definition conn_same :: "'q gw \<Rightarrow> 'q gw \<Rightarrow> bool" where
  "conn_same s t \<longleftrightarrow> line_buf t = line_buf s \<and> s_mqtt_connected t = s_mqtt_connected s \<and>
     s_next_health_publish_us t = s_next_health_publish_us s \<and> s_last_connect_us t = s_last_connect_us s"

lemma conn_same_refl [simp]: "conn_same s s"
  by (simp add: conn_same_def)

lemma conn_same_trans: "conn_same a b \<Longrightarrow> conn_same b c \<Longrightarrow> conn_same a c"
  by (simp add: conn_same_def)

lemma conn_same_inv: "conn_same s t \<Longrightarrow> gw_inv t = gw_inv s"
  by (simp add: conn_same_def gw_inv_def)

lemma publish_conn [simp]: "conn_same s (mqttPublishText topic payload qos s)"
  by (simp add: conn_same_def mqttPublishText_def mqtt_emit_def)

lemma snapshot_conn [simp]: "conn_same s (mqttPublishHealthSnapshot e s)"
  by (auto simp: mqttPublishHealthSnapshot_def split: option.split)

lemma queue_conn [simp]: "conn_same s (snd (mqttQueueStmCommand send c s))"
  by (simp add: conn_same_def mqttQueueStmCommand_def split: option.split prod.split)

lemma flush_conn: "flush_command send buf (a, b, s) = (a', b', s') \<Longrightarrow> conn_same s s'"
  using queue_conn[of s send "trim_tail buf"]
  by (cases "mqttQueueStmCommand send (trim_tail buf) s"; cases "fst (mqttQueueStmCommand send (trim_tail buf) s)")
    (auto simp: flush_command_def Let_def split: if_splits)

lemma loop_conn: "command_loop send cs buf (a, b, s) = (a', b', s') \<Longrightarrow> conn_same s s'"
proof (induction cs arbitrary: buf a b s)
  case Nil
  then show ?case by (auto dest: flush_conn)
next
  case (Cons c cs)
  obtain a1 b1 s1 where f: "flush_command send buf (a, b, s) = (a1, b1, s1)" by (metis prod_cases3)
  have "conn_same s s1" by (rule flush_conn[OF f])
  with Cons f show ?case by (auto split: if_splits intro: conn_same_trans)
qed

lemma list_conn [simp]: "conn_same s (snd (mqttQueueStmCommandList send p s))"
  using loop_conn[of send p "[]" False True s] by (auto simp: mqttQueueStmCommandList_def split: prod.split)

lemma data_conn [simp]: "conn_same s (mqtt_on_data send e topic payload s)"
  by (auto simp: mqtt_on_data_def split: option.split)

lemma receive_inv: "gw_inv s \<Longrightarrow> gw_inv (cmd_uart_receive c s)"
  by (auto simp: gw_inv_def cmd_uart_receive_def mqttPublishText_def mqtt_emit_def)

lemma gw_step_inv:
  assumes "gw_step s s'" and "gw_inv s"
  shows "gw_inv s'"
  using assms
proof cases
  case (client uri init_ok)
  then show ?thesis using assms(2) by (simp add: mqttClient_def gw_inv_def)
next
  case (event ev send e)
  show ?thesis
  proof (cases ev)
    case (MQTT_EVENT_CONNECTED now)
    then show ?thesis
      using event assms(2) by (auto simp: gw_inv_def mqtt_on_connected_def mqtt_emit_def intro!: exI[of _ 1])
  next
    case MQTT_EVENT_DISCONNECTED
    then show ?thesis using event(1) assms(2) by (simp add: gw_inv_def)
  qed (use event(1) assms(2) in \<open>simp_all add: conn_same_inv[OF data_conn]\<close>)
next
  case (health now e)
  define t where "t = mqttPublishHealthSnapshot e s"
  have t: "line_buf t = line_buf s" "s_mqtt_connected t = s_mqtt_connected s"
    "s_next_health_publish_us t = s_next_health_publish_us s" "s_last_connect_us t = s_last_connect_us s"
    using snapshot_conn[of s e] by (simp_all add: conn_same_def t_def)
  have "\<exists>k'>0. s_next_health_publish_us s + MQTT_HEALTH_PERIOD_US = s_last_connect_us s + MQTT_HEALTH_PERIOD_US * int k'" if c: "s_mqtt_connected s"
  proof -
    obtain k where "s_next_health_publish_us s = s_last_connect_us s + MQTT_HEALTH_PERIOD_US * int k"
      using assms(2) c by (auto simp: gw_inv_def)
    then show ?thesis by (intro exI[of _ "Suc k"]) simp
  qed
  then show ?thesis
    using assms(2) by (auto simp: health mqttHealthTask_def Let_def gw_inv_def t t_def[symmetric])
next
  case (bridge receive rx)
  have "gw_inv (cmd_uart_transmit receive s)"
    using assms(2) by (simp add: gw_inv_def cmd_uart_transmit_def split: option.split prod.split)
  then show ?thesis
    unfolding bridge cmdUartTask_def by (rule fold_inv) (rule receive_inv)
next
  case (init r1 r2 r3 q)
  then show ?thesis using assms(2) by (auto simp: cmdUartInit_def gw_inv_def split: option.split)
qed

lemma gw_reset_inv: "gw_inv gw_reset"
  by (simp add: gw_inv_def gw_reset_def)

lemma gw_reachable_inv: "gw_reachable s \<Longrightarrow> gw_inv s"
  by (induction rule: gw_reachable.induct) (auto intro: gw_step_inv gw_reset_inv)

section \<open>Lengths of printed numbers\<close>

lemma length_show_nat: "10 ^ k \<le> n \<Longrightarrow> k < length (show_nat n)"
proof (induction k arbitrary: n)
  case 0
  then show ?case by (subst show_nat.simps) simp
next
  case (Suc k)
  then have "10 ^ k \<le> n div 10" by (simp add: div_le_mono[of "10 * 10 ^ k" n 10, simplified])
  moreover have "\<not> n < 10" using Suc.prems one_le_power[of "10 :: nat" k] unfolding power_Suc by linarith
  ultimately show ?case using Suc.IH[of "n div 10"] by (subst show_nat.simps) simp
qed

lemma length_show_nat_1: "1 \<le> length (show_nat n)"
  by (subst show_nat.simps) simp

lemma no_brace_nat: "CHR ''}'' \<notin> set (show_nat n)"
  using show_nat_digits[of n] by (auto simp: list_all_iff isdigit_def)

lemma no_brace_int: "CHR ''}'' \<notin> set (show_int i)"
  using no_brace_nat by (simp add: show_int_def)

lemma length_show_int_neg: "i \<le> -10 \<Longrightarrow> 3 \<le> length (show_int i)"
proof -
  assume i: "i \<le> -10"
  then have "10 \<le> nat (- i)" by linarith
  then have "1 < length (show_nat (nat (- i)))" by (intro length_show_nat) simp
  then show ?thesis using i by (simp add: show_int_def)
qed

section \<open>Properties\<close>

text \<open>Over every sequence of connection events, incoming messages, health rounds and rounds of the serial
  bridge, the line buffer of the bridge keeps within its 127 characters, and a status report is due
  exactly while the client is connected, a whole number of minutes after the connection.\<close>

theorem gateway_invariant:
  assumes "gw_reachable s"
  shows "length (line_buf s) \<le> 127 \<and>
    (s_next_health_publish_us s \<noteq> 0 \<longleftrightarrow> s_mqtt_connected s) \<and>
    (s_mqtt_connected s \<longrightarrow> (\<exists>k>0. s_next_health_publish_us s = s_last_connect_us s + MQTT_HEALTH_PERIOD_US * int k))"
proof -
  have i: "gw_inv s" using gw_reachable_inv[OF assms] .
  have "s_last_connect_us s + MQTT_HEALTH_PERIOD_US * int k \<noteq> 0" if "0 < k" for k
    using i that by (simp add: gw_inv_def)
  with i show ?thesis by (cases "s_mqtt_connected s") (auto simp: gw_inv_def)
qed

lemma gateway_invariant_witness:
  "s_next_health_publish_us (mqttEventHandler (fifo_put 16) undefined (MQTT_EVENT_CONNECTED 5) (gw_reset :: cmd_uart_msg list gw)) \<noteq> 0"
proof -
  have "gw_reachable (mqttEventHandler (fifo_put 16) undefined (MQTT_EVENT_CONNECTED 5) (gw_reset :: cmd_uart_msg list gw))"
    by (rule gw_reachable.step[OF gw_reachable.reset gw_step.event]) simp
  from gateway_invariant[OF this] show ?thesis
    by (simp add: mqtt_on_connected_def mqtt_emit_def)
qed

text \<open>The answers of the STM32 are published line by line: as long as no line is longer than 127
  characters, the complete non-empty lines received while the client is connected are published
  on the response topic, in order, each once, and the unfinished line is kept.\<close>

theorem responses_published:
  assumes "s_client s" and "s_mqtt_connected s" and "line_buf s = []"
    and "list_all (\<lambda>l. length l \<le> 127) (split_by eol_char rx)" and "g_cmd_uart_queue s = None"
  shows "mqtt_out (cmdUartTask receive rx s) = mqtt_out s @
      map (\<lambda>l. Publish STM32_RESP_TOPIC (cstr l) 1) (filter (\<lambda>l. l \<noteq> []) (butlast (split_by eol_char rx))) \<and>
    line_buf (cmdUartTask receive rx s) = last (split_by eol_char rx)"
  using receive_lines[OF assms(1-3), of rx] assms(4,5)
  by (simp add: cmdUartTask_def cmd_uart_transmit_def publish_lines_def)

lemma responses_published_witness:
  "mqtt_out (cmdUartTask fifo_get (''OK 90 90 90'' @ CMD_EOL @ ''PO'') (test_gw\<lparr> g_cmd_uart_queue := None \<rparr>))
     = [Publish STM32_RESP_TOPIC ''OK 90 90 90'' 1] \<and>
   line_buf (cmdUartTask fifo_get (''OK 90 90 90'' @ CMD_EOL @ ''PO'') (test_gw\<lparr> g_cmd_uart_queue := None \<rparr>)) = ''PO''"
proof -
  have sp: "split_by eol_char (''OK 90 90 90'' @ CMD_EOL @ ''PO'') = [''OK 90 90 90'', [], ''PO'']" "cstr ''OK 90 90 90'' = ''OK 90 90 90''"
    by code_simp+
  show ?thesis
    using responses_published[of "test_gw\<lparr> g_cmd_uart_queue := None \<rparr>" "''OK 90 90 90'' @ CMD_EOL @ ''PO''" fifo_get] test_gw_fields
    unfolding sp by (simp add: sp(2))
qed

lemma laser_commands: "stm_laser (run_uart_command ''LASER ON'' now t)" "\<not> stm_laser (run_uart_command ''LASER OFF'' now t)"
  by (simp_all add: run_uart_command_def laserSet_def uartSendText_def)

text \<open>The laser topic reaches the laser: a message on it queues a command for the STM32 exactly for the
  eight payloads that mean on or off, and that command, executed by the STM32, switches the laser
  accordingly; any other payload changes nothing.\<close>

theorem laser_topic:
  assumes "cmd_queue qinv contents send receive" and "g_cmd_uart_queue s = Some q0" and "qinv q0" and "length (contents q0) < 16"
    and s'_def: "s' = mqttEventHandler send e (MQTT_EVENT_DATA LASER_CMD_TOPIC payload) s"
  shows "case mqttResolveLaserCommand payload of
      None \<Rightarrow> s' = s \<and> payload \<notin> set [''laser on'', ''LASER ON'', ''on'', ''ON'', ''laser off'', ''LASER OFF'', ''off'', ''OFF'']
    | Some cmd \<Rightarrow> (\<exists>q1. s' = s\<lparr> g_cmd_uart_queue := Some q1 \<rparr> \<and> contents q1 = contents q0 @ [stm_command_msg cmd]) \<and>
        msg_text (stm_command_msg cmd) = cmd \<and>
        stm_laser (run_uart_command cmd now t) = (payload \<in> set [''laser on'', ''LASER ON'', ''on'', ''ON''])"
proof (cases "mqttResolveLaserCommand payload")
  case None
  then show ?thesis
    by (auto simp: s'_def mqtt_on_data_def LASER_CMD_TOPIC_def HEALTH_CONTROL_TOPIC_def mqttResolveLaserCommand_def split: if_splits)
next
  case (Some cmd)
  have cmd: "cmd = ''LASER ON'' \<and> payload \<in> set [''laser on'', ''LASER ON'', ''on'', ''ON''] \<or>
      cmd = ''LASER OFF'' \<and> payload \<notin> set [''laser on'', ''LASER ON'', ''on'', ''ON'']"
    using Some by (auto simp: mqttResolveLaserCommand_def split: if_splits)
  then have l: "length cmd \<le> 63" "cmd \<noteq> []" by auto
  have s': "s' = snd (mqttQueueStmCommand send cmd s)"
    using Some by (simp add: s'_def mqtt_on_data_def LASER_CMD_TOPIC_def HEALTH_CONTROL_TOPIC_def)
  obtain ok q1 where p: "send (stm_command_msg cmd) q0 = (ok, q1)" by fastforce
  have "contents q1 = contents q0 @ [stm_command_msg cmd]"
    using bounded_fifo.push_room[OF assms(1,3) _ assms(4), of "stm_command_msg cmd"] p by simp
  moreover have "s' = s\<lparr> g_cmd_uart_queue := Some q1 \<rparr>"
    using assms(2) p l(2) by (simp add: s' mqttQueueStmCommand_def)
  moreover have "stm_laser (run_uart_command cmd now t) = (payload \<in> set [''laser on'', ''LASER ON'', ''on'', ''ON''])"
    using cmd laser_commands[of now t] by (elim disjE conjE) simp_all
  ultimately show ?thesis unfolding Some option.case(2) using stm_msg_text(1)[OF l(1)] by blast
qed

lemma laser_topic_witness:
  "\<exists>q1. mqttEventHandler test_send undefined (MQTT_EVENT_DATA LASER_CMD_TOPIC ''on'') test_gw = test_gw\<lparr> g_cmd_uart_queue := Some q1 \<rparr> \<and>
     q1 = [stm_command_msg ''LASER ON'']"
proof -
  have "mqttResolveLaserCommand ''on'' = Some ''LASER ON''" by code_simp
  then show ?thesis
    using laser_topic[OF list_fifo test_gw_fields(1), where payload = "''on''" and e = undefined, OF _ _ refl] by simp
qed

text \<open>The status report does not fit its buffer in normal operation: with a signal of -10 dBm or less and
  at least 10000 bytes of free heap the published text is cut and lacks its closing brace, so it is
  not the JSON text it is meant to be.\<close>

theorem health_report_cut:
  assumes "wifi_rssi e = Some r" and "r \<le> -10" and "10000 \<le> free_heap e" and "10000 \<le> min_heap e"
  shows "\<exists>payload. mqttBuildHealthPayload 320 e s = Some payload \<and> payload \<noteq> health_json e s \<and>
    CHR ''}'' \<notin> set payload \<and> last (health_json e s) = CHR ''}''"
proof -
  obtain body where j: "health_json e s = body @ ''}''" and nb: "CHR ''}'' \<notin> set body" and len: "320 \<le> length body + 1"
  proof
    let ?body = "butlast (health_json e s)"
    show j: "health_json e s = ?body @ ''}''" by (simp add: health_json_def butlast_append)
    show "CHR ''}'' \<notin> set ?body"
      by (simp add: health_json_def butlast_append no_brace_nat no_brace_int json_bool_def show_u32_def)
    have "320 \<le> length (health_json e s)"
      using length_show_int_neg[OF assms(2)] length_show_nat[of 4 "free_heap e"] length_show_nat[of 4 "min_heap e"] assms
        length_show_nat_1[of "time_us e div 1000000"] length_show_nat_1[of "ready_frames e"]
        length_show_nat_1[of "unat (cmdUartGetQueueDepth (\<lambda>_. queue_waiting e) s)"]
        length_show_nat_1[of "unat (total_packets (stats e))"]
        length_show_nat_1[of "unat (completed_frames (stats e))"]
        length_show_nat_1[of "unat (spi_timeouts (stats e))"]
        length_show_nat_1[of "unat (spi_errors (stats e))"]
        length_show_nat_1[of "unat (bad_magic (stats e))"]
        length_show_nat_1[of "unat (bad_checksum (stats e))"]
        length_show_nat_1[of "unat (bad_payload_len (stats e))"]
        length_show_nat_1[of "unat (seq_errors (stats e))"]
        length_show_nat_1[of "unat (queue_full_drops (stats e))"]
        length_show_nat_1[of "unat (stale_frame_drops (stats e))"]
      by (simp add: health_json_def show_u32_def json_bool_def)
    then show "320 \<le> length ?body + 1" by (subst (asm) j) simp
  qed
  have "mqttBuildHealthPayload 320 e s = Some (take 319 body)"
    using len by (simp add: mqttBuildHealthPayload_def j)
  moreover have "CHR ''}'' \<notin> set (take 319 body)" using nb by (auto dest: in_set_takeD)
  ultimately show ?thesis by (auto simp: j)
qed

definition test_health :: health_env where
  "test_health = \<lparr> time_us = 3600000000, wifi_rssi = Some (-60), free_heap = 150000, min_heap = 120000, queue_waiting = 0,
     stats = zero_counters, ready_frames = 0 \<rparr>"

lemma health_report_cut_witness:
  "\<exists>payload. mqttBuildHealthPayload 320 test_health test_gw = Some payload \<and> payload \<noteq> health_json test_health test_gw"
proof -
  have e: "wifi_rssi test_health = Some (-60)" "10000 \<le> free_heap test_health" "10000 \<le> min_heap test_health"
    by (simp_all add: test_health_def)
  show ?thesis using health_report_cut[OF e(1) _ e(2,3), of test_gw] by simp blast
qed

end
