(* ===== verification/UartLegacy.thy ===== *)
theory UartLegacy imports FrameLink "HOL-Library.Sublist" begin

text \<open>
  The former frame input of the ESP32 (device/uart.c), which the program still contains but no
  longer starts: frames arrive on a serial line as the six letters \<^verbatim>\<open>FSTART\<close>, an offset byte and
  38400 bytes. The static variables are the record \<open>uart_frames\<close>, the local variables of
  \<^verbatim>\<open>uartTask\<close> the record \<open>uart_task\<close>. The bytes the driver delivers before a read times out,
  the number it reports as buffered and the answers of the mutex are inputs of a round.
\<close>

section \<open>State\<close>

definition HEADER :: bytes where
  "HEADER = [0x46, 0x53, 0x54, 0x41, 0x52, 0x54]"

record uart_frames =
  g_frame_ready :: nat
  g_frame_bufs :: "bytes list"
  g_write_idx :: nat
  g_read_idx :: int
  g_offset_packet :: u8
  s_frame_ids :: "u16 list"
  s_offsets :: bytes
  s_allocated_buffers :: nat
  s_next_frame_id :: u16
  g_frame_mutex :: bool

datatype uart_state = ST_FIND_HEADER | ST_READ_OFFSET | ST_READ_FRAME

record uart_task =
  rx_state :: uart_state
  hdr_pos :: nat
  frame_pos :: nat
  offset_byte :: u8
  rx_target_idx :: nat

definition uart_task_start :: uart_task where
  "uart_task_start = \<lparr> rx_state = ST_FIND_HEADER, hdr_pos = 0, frame_pos = 0, offset_byte = 0, rx_target_idx = 0 \<rparr>"

section \<open>The ring of frames\<close>

definition uartQueueIsFull :: "bool \<Rightarrow> uart_frames \<Rightarrow> bool" where
  "uartQueueIsFull lock s =
     (if g_frame_mutex s \<and> lock then g_frame_ready s \<ge> s_allocated_buffers s \<and> s_allocated_buffers s > 0 else False)"

definition uartGetAllocatedBufferCount :: "uart_frames \<Rightarrow> nat" where
  "uartGetAllocatedBufferCount s = s_allocated_buffers s"

definition uartAcquireReadyFrame :: "bool \<Rightarrow> uart_frames \<Rightarrow> (bytes \<times> u16 \<times> u8 \<times> int) option" where
  "uartAcquireReadyFrame lock s =
     (if g_frame_mutex s \<and> lock \<and> g_frame_ready s > 0 \<and> g_read_idx s \<ge> 0 \<and> g_read_idx s < int (s_allocated_buffers s)
      then let i = nat (g_read_idx s) in Some (g_frame_bufs s ! i, s_frame_ids s ! i, s_offsets s ! i, g_read_idx s)
      else None)"

definition uartReleaseReadyFrame :: "bool \<Rightarrow> int \<Rightarrow> uart_frames \<Rightarrow> uart_frames" where
  "uartReleaseReadyFrame lock buffer_idx s =
     (if \<not> g_frame_mutex s \<or> buffer_idx < 0 then s
      else if lock \<and> g_frame_ready s > 0 \<and> g_read_idx s = buffer_idx \<and> s_allocated_buffers s > 0 then
        let s = s\<lparr> g_frame_ready := g_frame_ready s - 1 \<rparr>
        in if g_frame_ready s > 0 then s\<lparr> g_read_idx := (g_read_idx s + 1) mod int (s_allocated_buffers s) \<rparr>
           else s\<lparr> g_read_idx := -1 \<rparr>
      else s)"

text \<open>\<^verbatim>\<open>uartInit\<close>: \<open>allocs\<close> are the buffers \<^verbatim>\<open>malloc\<close> delivered until it first failed, at most two.\<close>

definition uartInit :: "bytes list \<Rightarrow> bool \<Rightarrow> uart_frames \<Rightarrow> uart_frames" where
  "uartInit allocs mutex_ok s =
     (let bufs = take 2 allocs;
          s = s\<lparr> g_frame_bufs := bufs, s_allocated_buffers := s_allocated_buffers s + length bufs \<rparr>
      in if s_allocated_buffers s = 0 then s else s\<lparr> g_frame_mutex := mutex_ok \<rparr>)"

section \<open>One round of the task\<close>

text \<open>Lines 155-163: a byte while the header is searched.\<close>

definition header_byte :: "u8 \<Rightarrow> uart_task \<Rightarrow> uart_task" where
  "header_byte b t =
     (if b = HEADER ! hdr_pos t then
        let t = t\<lparr> hdr_pos := hdr_pos t + 1 \<rparr>
        in if hdr_pos t = 6 then t\<lparr> rx_state := ST_READ_OFFSET, hdr_pos := 0 \<rparr> else t
      else t\<lparr> hdr_pos := if b = HEADER ! 0 then 1 else 0 \<rparr>)"

text \<open>Lines 207-220: a complete frame becomes ready.\<close>

definition uart_publish :: "uart_task \<Rightarrow> uart_frames \<Rightarrow> uart_frames" where
  "uart_publish t s =
     (let i = rx_target_idx t;
          s = s\<lparr> g_offset_packet := offset_byte t, s_offsets := (s_offsets s)[i := offset_byte t],
                 s_frame_ids := (s_frame_ids s)[i := s_next_frame_id s], s_next_frame_id := s_next_frame_id s + 1 \<rparr>;
          s = (if g_frame_ready s = 0 then s\<lparr> g_read_idx := int i \<rparr> else s);
          s = (if g_frame_ready s < s_allocated_buffers s then s\<lparr> g_frame_ready := g_frame_ready s + 1 \<rparr> else s)
      in s\<lparr> g_write_idx := (i + 1) mod s_allocated_buffers s \<rparr>)"

definition bytes_to_read :: "nat \<Rightarrow> uart_task \<Rightarrow> nat" where
  "bytes_to_read available t =
     (let remain = FRAME_BYTES - frame_pos t;
          to_read = (if available > remain then remain else available)
      in if to_read = 0 then 1 else to_read)"

text \<open>Lines 180-232.\<close>

definition read_frame :: "bool \<Rightarrow> bytes \<Rightarrow> uart_frames \<times> uart_task \<Rightarrow> uart_frames \<times> uart_task" where
  "read_frame lock got st =
     (case st of (s, t) \<Rightarrow>
        if got = [] then (s, t\<lparr> rx_state := ST_FIND_HEADER, frame_pos := 0 \<rparr>)
        else
          let i = rx_target_idx t;
              s = s\<lparr> g_frame_bufs := (g_frame_bufs s)[i := memcpy_at (g_frame_bufs s ! i) (frame_pos t) got] \<rparr>;
              t = t\<lparr> frame_pos := frame_pos t + length got \<rparr>
          in if frame_pos t \<ge> FRAME_BYTES then
               (if g_frame_mutex s \<and> lock then uart_publish t s else s, t\<lparr> rx_state := ST_FIND_HEADER, frame_pos := 0 \<rparr>)
             else (s, t))"

text \<open>
  A round: \<open>inp\<close> are the bytes on the line, the result keeps those not read. The first lock answer
  is for \<^verbatim>\<open>uartQueueIsFull\<close>, the second for publishing.
\<close>

definition uartTask :: "bool \<Rightarrow> bool \<Rightarrow> nat \<Rightarrow> bytes \<Rightarrow> uart_frames \<times> uart_task \<Rightarrow> bytes \<times> uart_frames \<times> uart_task" where
  "uartTask lock1 lock2 available inp st =
     (case st of (s, t) \<Rightarrow>
        if s_allocated_buffers s = 0 then (inp, s, t)
        else if rx_state t \<noteq> ST_READ_FRAME \<and> uartQueueIsFull lock1 s then ([], s, t)
        else case rx_state t of
          ST_FIND_HEADER \<Rightarrow> (case inp of [] \<Rightarrow> (inp, s, t) | b # inp \<Rightarrow> (inp, s, header_byte b t))
        | ST_READ_OFFSET \<Rightarrow> (case inp of
              [] \<Rightarrow> (inp, s, t\<lparr> rx_state := ST_FIND_HEADER \<rparr>)
            | b # inp \<Rightarrow> (inp, s, t\<lparr> offset_byte := b, rx_target_idx := g_write_idx s, frame_pos := 0, rx_state := ST_READ_FRAME \<rparr>))
        | ST_READ_FRAME \<Rightarrow>
            (let n = bytes_to_read available t in (drop n inp, read_frame lock2 (take n inp) (s, t))))"

section \<open>Finding the header\<close>

text \<open>The specification: the longest proper beginning of the header that ends the bytes seen.\<close>

definition longest_match :: "bytes \<Rightarrow> nat \<Rightarrow> bool" where
  "longest_match seen k \<longleftrightarrow> k < 6 \<and> suffix (take k HEADER) seen \<and> (\<forall>j<6. suffix (take j HEADER) seen \<longrightarrow> j \<le> k)"

lemma less_6: "(k::nat) < 6 \<longleftrightarrow> k = 0 \<or> k = 1 \<or> k = 2 \<or> k = 3 \<or> k = 4 \<or> k = 5"
  by auto

lemma length_header: "length HEADER = 6"
  by (simp add: HEADER_def)

lemma take_Suc_header: "k < 6 \<Longrightarrow> take (Suc k) HEADER = take k HEADER @ [HEADER ! k]"
  by (simp add: take_Suc_conv_app_nth length_header)

lemma length_take_header: "k < 6 \<Longrightarrow> length (take k HEADER) = k"
  by (simp add: HEADER_def)

lemma header_take: "HEADER = take (Suc 5) HEADER"
  by (simp add: HEADER_def)

text \<open>No beginning of the header ends in a shorter one: its first letter does not occur again.\<close>

lemma no_border:
  assumes "j < k" and "k < 6" and "suffix (take j HEADER) (take k HEADER)"
  shows "j = 0"
proof (rule ccontr)
  assume j: "j \<noteq> 0"
  obtain zs where zs: "take k HEADER = zs @ take j HEADER" using assms(3) by (auto simp: suffix_def)
  have "length (take k HEADER) = length zs + length (take j HEADER)" unfolding zs by simp
  then have "length zs = k - j" using assms(1,2) by (simp add: length_header)
  then have "take k HEADER ! (k - j) = take j HEADER ! 0" using zs by (simp add: nth_append)
  then have "HEADER ! (k - j) = HEADER ! 0" using j assms by simp
  moreover have "k - j \<in> {1, 2, 3, 4, 5}" using assms j by auto
  ultimately show False by (auto simp: HEADER_def)
qed

lemma suffix_header_snoc:
  "k < 6 \<Longrightarrow> suffix (take (Suc k) HEADER) (seen @ [b]) \<longleftrightarrow> b = HEADER ! k \<and> suffix (take k HEADER) seen"
  by (auto simp: take_Suc_header)

lemma longest_match_cases:
  assumes "longest_match seen k" and "j < 6" and "suffix (take j HEADER) seen"
  shows "j = k \<or> j = 0"
proof -
  have le: "j \<le> k" "k < 6" "suffix (take k HEADER) seen" using assms by (auto simp: longest_match_def)
  have "suffix (take j HEADER) (take k HEADER)"
    using suffix_length_suffix[OF assms(3) le(3)] le length_take_header assms(2) by simp
  then show ?thesis using no_border[of j k] le by (cases "j = k") auto
qed

lemma header_byte_step:
  assumes "longest_match seen (hdr_pos t)" and "rx_state t = ST_FIND_HEADER"
  shows "if suffix HEADER (seen @ [b]) then rx_state (header_byte b t) = ST_READ_OFFSET \<and> hdr_pos (header_byte b t) = 0
    else rx_state (header_byte b t) = ST_FIND_HEADER \<and> longest_match (seen @ [b]) (hdr_pos (header_byte b t))"
proof -
  let ?k = "hdr_pos t"
  have k: "?k < 6" "suffix (take ?k HEADER) seen" using assms(1) by (auto simp: longest_match_def)
  have found: "suffix HEADER (seen @ [b]) \<longleftrightarrow> b = HEADER ! 5 \<and> suffix (take 5 HEADER) seen"
    by (subst header_take) (rule suffix_header_snoc, simp)
  have found_k: "suffix HEADER (seen @ [b]) \<longleftrightarrow> b = HEADER ! ?k \<and> ?k = 5"
    using found longest_match_cases[OF assms(1), of 5] k by auto
  have next_j: "j = 0 \<or> (\<exists>i. j = Suc i \<and> b = HEADER ! i \<and> (i = ?k \<or> i = 0))"
    if "j < 6" "suffix (take j HEADER) (seen @ [b])" for j
  proof (cases j)
    case (Suc i)
    then show ?thesis using that suffix_header_snoc[of i seen b] longest_match_cases[OF assms(1), of i] by auto
  qed simp
  show ?thesis
  proof (cases "b = HEADER ! ?k")
    case True
    have "longest_match (seen @ [b]) (Suc ?k)" if "?k \<noteq> 5"
      unfolding longest_match_def
    proof (intro conjI allI impI)
      show "Suc ?k < 6" using that k by simp
      show "suffix (take (Suc ?k) HEADER) (seen @ [b])" using True k suffix_header_snoc by blast
      show "j \<le> Suc ?k" if "j < 6" "suffix (take j HEADER) (seen @ [b])" for j using next_j[OF that] by auto
    qed
    then show ?thesis using True found_k assms(2) k by (auto simp: header_byte_def Let_def)
  next
    case False
    have "longest_match (seen @ [b]) (if b = HEADER ! 0 then 1 else 0)"
      unfolding longest_match_def
    proof (intro conjI allI impI)
      show "suffix (take (if b = HEADER ! 0 then 1 else 0) HEADER) (seen @ [b])"
        by (simp add: suffix_def) (simp add: HEADER_def)
      show "j \<le> (if b = HEADER ! 0 then 1 else 0)" if "j < 6" "suffix (take j HEADER) (seen @ [b])" for j
        using next_j[OF that] False by auto
    qed simp
    then show ?thesis using False found_k assms(2) by (auto simp: header_byte_def)
  qed
qed

text \<open>The rounds of the task while it searches, with room in the ring.\<close>

definition uart_rounds :: "nat \<Rightarrow> bool \<Rightarrow> bool \<Rightarrow> nat \<Rightarrow> bytes \<times> uart_frames \<times> uart_task \<Rightarrow> bytes \<times> uart_frames \<times> uart_task" where
  "uart_rounds n lock1 lock2 available = ((\<lambda>(inp, st). uartTask lock1 lock2 available inp st) ^^ n)"

lemma uart_rounds_simps:
  "uart_rounds 0 l1 l2 a x = x"
  "uart_rounds (Suc n) l1 l2 a x = (case uart_rounds n l1 l2 a x of (inp, st) \<Rightarrow> uartTask l1 l2 a inp st)"
  by (simp_all add: uart_rounds_def)

lemma search_round:
  assumes "\<not> uartQueueIsFull l1 s" and "s_allocated_buffers s > 0" and "rx_state t = ST_FIND_HEADER"
  shows "uartTask l1 l2 a (b # inp) (s, t) = (inp, s, header_byte b t)"
  using assms by (simp add: uartTask_def)

text \<open>The header search is exact: with room in the ring, fed one byte per round, the task leaves the search
  in the very round in which the bytes seen for the first time end in FSTART, whatever precedes the
  header (partial or broken headers included), and it has then consumed nothing beyond it.\<close>

theorem header_search_exact:
  assumes "\<not> uartQueueIsFull l1 s" and "s_allocated_buffers s > 0" and "rx_state t = ST_FIND_HEADER" and "hdr_pos t = 0"
    and "n \<le> length inp" and none: "\<And>i. i < n \<Longrightarrow> \<not> suffix HEADER (take i inp)"
  shows "case uart_rounds n l1 l2 a (inp, s, t) of (inp', s', t') \<Rightarrow> inp' = drop n inp \<and> s' = s \<and>
    rx_state t' = (if suffix HEADER (take n inp) then ST_READ_OFFSET else ST_FIND_HEADER)"
proof -
  have "\<exists>t'. uart_rounds n l1 l2 a (inp, s, t) = (drop n inp, s, t') \<and>
    (if suffix HEADER (take n inp) then rx_state t' = ST_READ_OFFSET
     else rx_state t' = ST_FIND_HEADER \<and> longest_match (take n inp) (hdr_pos t'))"
    using assms(5) none
  proof (induction n)
    case 0
    have "\<not> suffix HEADER []" by (simp add: HEADER_def)
    moreover have "longest_match [] 0" by (auto simp: longest_match_def HEADER_def)
    ultimately show ?case using assms(3,4) by (simp add: uart_rounds_simps)
  next
    case (Suc n)
    have ns: "\<not> suffix HEADER (take n inp)" using Suc.prems(2)[of n] by simp
    then obtain t1 where t1: "uart_rounds n l1 l2 a (inp, s, t) = (drop n inp, s, t1)" "rx_state t1 = ST_FIND_HEADER"
      "longest_match (take n inp) (hdr_pos t1)" using Suc.IH Suc.prems by force
    have d: "drop n inp = inp ! n # drop (Suc n) inp" "take (Suc n) inp = take n inp @ [inp ! n]"
      using Suc.prems(1) by (simp_all add: Cons_nth_drop_Suc take_Suc_conv_app_nth)
    have "uart_rounds (Suc n) l1 l2 a (inp, s, t) = (drop (Suc n) inp, s, header_byte (inp ! n) t1)"
      by (simp add: uart_rounds_simps t1(1) d(1) search_round[OF assms(1,2) t1(2)])
    then show ?case using header_byte_step[OF t1(3,2), of "inp ! n"] unfolding d(2)[symmetric] by (auto split: if_splits)
  qed
  then show ?thesis by (auto split: if_splits)
qed

definition test_frames :: uart_frames where
  "test_frames = \<lparr> g_frame_ready = 0, g_frame_bufs = [[], []], g_write_idx = 0, g_read_idx = -1, g_offset_packet = 0,
     s_frame_ids = [0, 0], s_offsets = [0, 0], s_allocated_buffers = 2, s_next_frame_id = 1, g_frame_mutex = True \<rparr>"

lemma header_search_exact_witness:
  "case uart_rounds 8 True True 0 ([0x46, 0x53] @ HEADER @ [7], test_frames, uart_task_start) of
     (inp', s', t') \<Rightarrow> inp' = [7] \<and> rx_state t' = ST_READ_OFFSET"
proof -
  let ?inp = "[0x46, 0x53] @ HEADER @ [7]"
  have n: "\<forall>i\<in>{..<8}. \<not> suffix HEADER (take i ?inp)" and c: "suffix HEADER (take 8 ?inp)" "drop 8 ?inp = [7]" "8 \<le> length ?inp"
    by code_simp+
  have f: "\<not> uartQueueIsFull True test_frames" "s_allocated_buffers test_frames > 0" "rx_state uart_task_start = ST_FIND_HEADER"
    "hdr_pos uart_task_start = 0" by code_simp+
  show ?thesis using header_search_exact[OF f c(3), of True 0] n c(1,2) by (auto split: prod.splits)
qed

end
