(* ===== verification/SpiLegacy.thy ===== *)
theory SpiLegacy imports CmdUart begin

text \<open>
  The former command path of the ESP32 (device/spi.c), kept in the program but not started: 32-byte
  SPI packets of a command byte, a length and up to 30 data bytes. \<^verbatim>\<open>spi_device_transmit\<close> is an
  input: it takes the packet and answers an error code and the packet clocked in.
\<close>

abbreviation (input) MAX_SPI_DATA_LEN :: nat where "MAX_SPI_DATA_LEN \<equiv> 30"
abbreviation (input) SPI_PKT_SIZE :: nat where "SPI_PKT_SIZE \<equiv> 32"

definition CMD_WRITE :: u8 where "CMD_WRITE = 1"
definition CMD_READ :: u8 where "CMD_READ = 2"
definition STATUS_OK :: u8 where "STATUS_OK = 0"

datatype spi_err = SPI_OK | SPI_INVALID_ARG | SPI_FAIL | SPI_DRIVER u32

record spi_cmd =
  spi_data :: bytes
  spi_len :: u8

text \<open>Lines 70-75: the packet; the data buffer has at least \<open>len\<close> bytes.\<close>

definition spi_write_packet :: "bytes \<Rightarrow> u8 \<Rightarrow> bytes" where
  "spi_write_packet data len =
     memcpy_at ((replicate SPI_PKT_SIZE 0)[0 := CMD_WRITE, 1 := len]) 2 (take (unat len) data)"

definition spiTransfer :: "(bytes \<Rightarrow> spi_err \<times> bytes) \<Rightarrow> bytes \<Rightarrow> spi_err \<times> bytes" where
  "spiTransfer device tx = device tx"

definition spiWrite :: "(bytes \<Rightarrow> spi_err \<times> bytes) \<Rightarrow> bytes \<Rightarrow> u8 \<Rightarrow> spi_err \<times> bytes list" where
  "spiWrite device data len =
     (if len = 0 \<or> len > 30 then (SPI_INVALID_ARG, [])
      else
        let tx = spi_write_packet data len; ret = fst (spiTransfer device tx)
        in if ret \<noteq> SPI_OK then (ret, [tx]) else (SPI_OK, [tx]))"

text \<open>\<open>spiRead\<close>: the result with the data and their length when the transfer succeeded.\<close>

definition spiRead :: "(bytes \<Rightarrow> spi_err \<times> bytes) \<Rightarrow> spi_err \<times> (bytes \<times> u8) option" where
  "spiRead device =
     (let tx = (replicate SPI_PKT_SIZE 0)[0 := CMD_READ, 1 := 0] in
      case spiTransfer device tx of (ret, rx) \<Rightarrow>
        if ret \<noteq> SPI_OK then (ret, None)
        else
          let out_len = (if rx ! 1 > 30 then 30 else rx ! 1)
          in (if rx ! 0 = STATUS_OK then SPI_OK else SPI_FAIL, Some (take (unat out_len) (drop 2 rx), out_len)))"

text \<open>\<^verbatim>\<open>spiMasterInit\<close>: an error of the driver aborts (\<open>None\<close>); the queue may be missing.\<close>

definition spiMasterInit :: "spi_err \<Rightarrow> spi_err \<Rightarrow> 'q option \<Rightarrow> (spi_err \<times> 'q option) option" where
  "spiMasterInit bus_init add_device queue =
     (if bus_init \<noteq> SPI_OK \<or> add_device \<noteq> SPI_OK then None else Some (SPI_OK, queue))"

text \<open>One round of \<^verbatim>\<open>spiTask\<close>: the packets sent for the commands of the queue.\<close>

definition spiTask :: "(bytes \<Rightarrow> spi_err \<times> bytes) \<Rightarrow> spi_cmd \<Rightarrow> bytes list" where
  "spiTask device cmd = snd (spiWrite device (spi_data cmd) (spi_len cmd))"

section \<open>Packets\<close>

lemma spi_packet:
  assumes "unat len \<le> 30" and "unat len \<le> length data"
  shows "length (spi_write_packet data len) = 32" and "spi_write_packet data len ! 0 = CMD_WRITE"
    and "spi_write_packet data len ! 1 = len" and "take (unat len) (drop 2 (spi_write_packet data len)) = take (unat len) data"
proof -
  let ?z = "(replicate SPI_PKT_SIZE (0::u8))[0 := CMD_WRITE, 1 := len]"
  show "length (spi_write_packet data len) = 32" using assms by (simp add: spi_write_packet_def)
  have "replicate 32 (0::u8) = 0 # 0 # replicate 30 0" by (simp add: numeral_eq_Suc)
  then have "take 2 ?z = [CMD_WRITE, len]" by simp
  then have p: "spi_write_packet data len = [CMD_WRITE, len] @ take (unat len) data @ drop (2 + unat len) ?z"
    using assms by (simp add: spi_write_packet_def memcpy_at_def)
  show "spi_write_packet data len ! 0 = CMD_WRITE" "spi_write_packet data len ! 1 = len"
    "take (unat len) (drop 2 (spi_write_packet data len)) = take (unat len) data"
    using assms by (simp_all add: p)
qed

text \<open>Only commands of 1 to 30 bytes go out, and the data never leave the packet.\<close>

lemma spi_write_sent:
  "snd (spiWrite device data len) = (if 1 \<le> unat len \<and> unat len \<le> 30 then [spi_write_packet data len] else [])"
  by (auto simp: spiWrite_def Let_def word_le_nat_alt word_less_nat_alt unat_eq_0[symmetric] simp del: unat_eq_0)

end
