(* ===== verification/UdpStream.thy ===== *)
theory UdpStream imports FwPrelude begin

text \<open>
  The UDP sender of the ESP32 (mqtt/udp_stream.c): the static state with the mutex, connecting
  with a back-off, sending with retries, and the reset requests of the Wi-Fi event task. The
  socket layer, the name resolution and the clock are inputs; sockets opened and closed,
  datagrams and waits are recorded in \<open>udp_trace\<close>. The mutex is a state bit: a call with
  \<^verbatim>\<open>portMAX_DELAY\<close> is made when the mutex is free (the task waits until then), a call without
  waiting succeeds exactly when it is free.
\<close>

section \<open>State\<close>

datatype udp_event = SockOpen int | SockClose int | SockSend int bytes | TaskDelay u32

record udp =
  s_udp_sock :: int
  s_udp_mutex :: bool
  s_udp_enabled :: bool
  s_udp_connected :: bool
  s_udp_ever_connected :: bool
  s_udp_reset_requested :: bool
  s_udp_send_ready_after_us :: int
  s_udp_tx_congested_until_us :: int
  s_udp_retry_after_us :: int
  udp_held :: bool
  udp_trace :: "udp_event list"

definition udp_start :: udp where
  "udp_start = \<lparr> s_udp_sock = -1, s_udp_mutex = False, s_udp_enabled = False, s_udp_connected = False,
     s_udp_ever_connected = False, s_udp_reset_requested = False, s_udp_send_ready_after_us = 0,
     s_udp_tx_congested_until_us = 0, s_udp_retry_after_us = 0, udp_held = False, udp_trace = [] \<rparr>"

definition UDP_SEND_RETRY_DELAY_TICKS :: u32 where "UDP_SEND_RETRY_DELAY_TICKS = 1"
definition UDP_SEND_RETRY_COUNT :: nat where "UDP_SEND_RETRY_COUNT = 8"
definition UDP_SEND_ENOMEM_BASE_DELAY_TICKS :: u32 where "UDP_SEND_ENOMEM_BASE_DELAY_TICKS = pdMS_TO_TICKS 8"
definition UDP_SEND_POST_CONNECT_DELAY_TICKS :: u32 where "UDP_SEND_POST_CONNECT_DELAY_TICKS = pdMS_TO_TICKS 20"
definition UDP_TX_CONGESTION_HOLD_US :: int where "UDP_TX_CONGESTION_HOLD_US = 50000"
definition UDP_RETRY_BACKOFF_MS :: nat where "UDP_RETRY_BACKOFF_MS = 3000"

definition udp_emit :: "udp_event \<Rightarrow> udp \<Rightarrow> udp" where
  "udp_emit ev s = s\<lparr> udp_trace := udp_trace s @ [ev] \<rparr>"

section \<open>The mutex\<close>

text \<open>\<open>create\<close> is the answer of \<^verbatim>\<open>xSemaphoreCreateMutex\<close>.\<close>

definition udpEnsureMutex :: "bool \<Rightarrow> udp \<Rightarrow> bool \<times> udp" where
  "udpEnsureMutex create s =
     (if s_udp_mutex s then (True, s) else (create, s\<lparr> s_udp_mutex := create \<rparr>))"

definition udpLock :: "bool \<Rightarrow> bool \<Rightarrow> udp \<Rightarrow> bool \<times> udp" where
  "udpLock create wait s =
     (case udpEnsureMutex create s of (ok, s) \<Rightarrow>
        if ok \<and> (wait \<or> \<not> udp_held s) then (True, s\<lparr> udp_held := True \<rparr>) else (False, s))"

definition udpUnlock :: "udp \<Rightarrow> udp" where
  "udpUnlock s = (if s_udp_mutex s then s\<lparr> udp_held := False \<rparr> else s)"

section \<open>Reset and retry time\<close>

definition udpSetRetryDelayMs :: "int \<Rightarrow> nat \<Rightarrow> udp \<Rightarrow> udp" where
  "udpSetRetryDelayMs now delay_ms s =
     (if delay_ms = 0 then s\<lparr> s_udp_retry_after_us := 0 \<rparr>
      else s\<lparr> s_udp_retry_after_us := now + int delay_ms * 1000 \<rparr>)"

definition udpCloseSocketLocked :: "udp \<Rightarrow> udp" where
  "udpCloseSocketLocked s =
     (if s_udp_sock s \<ge> 0 then (udp_emit (SockClose (s_udp_sock s)) s)\<lparr> s_udp_sock := -1 \<rparr> else s)"

definition udpResetLocked :: "udp \<Rightarrow> udp" where
  "udpResetLocked s = (udpCloseSocketLocked s)\<lparr> s_udp_enabled := False, s_udp_connected := False,
     s_udp_reset_requested := False, s_udp_send_ready_after_us := 0, s_udp_tx_congested_until_us := 0 \<rparr>"

definition udpApplyPendingResetLocked :: "udp \<Rightarrow> udp" where
  "udpApplyPendingResetLocked s = (if s_udp_reset_requested s then udpResetLocked s else s)"

definition udpStreamRequestReset :: "bool \<Rightarrow> udp \<Rightarrow> udp" where
  "udpStreamRequestReset create s =
     (case udpLock create False s of
        (False, s) \<Rightarrow> s\<lparr> s_udp_reset_requested := True \<rparr>
      | (True, s) \<Rightarrow> udpUnlock (s\<lparr> s_udp_enabled := False, s_udp_connected := False, s_udp_reset_requested := True \<rparr>))"

definition udpStreamReset :: "bool \<Rightarrow> udp \<Rightarrow> udp" where
  "udpStreamReset create s =
     (case udpLock create True s of
        (False, s) \<Rightarrow> s\<lparr> s_udp_enabled := False, s_udp_connected := False, s_udp_reset_requested := True \<rparr>
      | (True, s) \<Rightarrow> udpUnlock (udpResetLocked s))"

definition udpStreamDeferInit :: "bool \<Rightarrow> int \<Rightarrow> nat \<Rightarrow> udp \<Rightarrow> udp" where
  "udpStreamDeferInit create now delay_ms s =
     (case udpLock create True s of
        (False, s) \<Rightarrow> udpSetRetryDelayMs now delay_ms s
      | (True, s) \<Rightarrow> udpUnlock (udpSetRetryDelayMs now delay_ms s))"

section \<open>Queries\<close>

definition udpStreamConfigValid :: "string \<Rightarrow> int \<Rightarrow> bool" where
  "udpStreamConfigValid host port \<longleftrightarrow> length host > 0 \<and> port > 0"

definition udpStreamHasConnectedOnce :: "bool \<Rightarrow> udp \<Rightarrow> bool \<times> udp" where
  "udpStreamHasConnectedOnce create s =
     (case udpLock create True s of (False, s) \<Rightarrow> (False, s)
      | (True, s) \<Rightarrow> (s_udp_ever_connected s, udpUnlock s))"

definition udpStreamIsCongested :: "bool \<Rightarrow> int \<Rightarrow> udp \<Rightarrow> bool \<times> udp" where
  "udpStreamIsCongested create now s =
     (case udpLock create True s of (False, s) \<Rightarrow> (False, s)
      | (True, s) \<Rightarrow> (s_udp_tx_congested_until_us s \<noteq> 0 \<and> now < s_udp_tx_congested_until_us s, udpUnlock s))"

definition udpStreamIsReady :: "bool \<Rightarrow> udp \<Rightarrow> bool \<times> udp" where
  "udpStreamIsReady create s =
     (case udpLock create True s of (False, s) \<Rightarrow> (False, s)
      | (True, s) \<Rightarrow> let s = udpApplyPendingResetLocked s in (s_udp_enabled s \<and> s_udp_connected s, udpUnlock s))"

section \<open>Connecting\<close>

text \<open>The addresses of the resolver, each with the answers of \<^verbatim>\<open>lwip_socket\<close> and \<^verbatim>\<open>lwip_connect\<close>.\<close>

fun udp_try_addrs :: "(int \<times> bool) list \<Rightarrow> udp \<Rightarrow> bool \<times> udp" where
  "udp_try_addrs [] s = (False, s)"
| "udp_try_addrs ((fd, connects) # rps) s =
     (let s = s\<lparr> s_udp_sock := fd \<rparr> in
      if fd < 0 then udp_try_addrs rps s
      else
        let s = udp_emit (SockOpen fd) s in
        if connects then (True, s) else udp_try_addrs rps (udpCloseSocketLocked s))"

definition udpConnectSocketLocked :: "(int \<times> bool) list option \<Rightarrow> udp \<Rightarrow> bool \<times> udp" where
  "udpConnectSocketLocked resolved s = (case resolved of None \<Rightarrow> (False, s) | Some rps \<Rightarrow> udp_try_addrs rps s)"

text \<open>
  The inputs of \<^verbatim>\<open>udpStreamInit\<close>: clock readings in the order of the code, and reset requests
  that arrive while the mutex is held, before line 309 (cleared there) or after it.
\<close>

record init_env =
  mutex_created :: bool
  config_valid :: bool
  now_check :: int
  now_failed :: int
  now_connected :: int
  resolved :: "(int \<times> bool) list option"
  early_request :: bool
  late_request :: bool

definition request_while_held :: "bool \<Rightarrow> udp \<Rightarrow> udp" where
  "request_while_held b s = (if b then udpStreamRequestReset True s else s)"

definition udpStreamInit :: "init_env \<Rightarrow> udp \<Rightarrow> bool \<times> udp" where
  "udpStreamInit e s =
     (case udpLock (mutex_created e) True s of
        (False, s) \<Rightarrow> (False, s)
      | (True, s) \<Rightarrow>
        let s = udpApplyPendingResetLocked s in
        if s_udp_enabled s \<and> s_udp_connected s then (True, udpUnlock s)
        else if \<not> config_valid e then (False, udpUnlock s)
        else if s_udp_retry_after_us s \<noteq> 0 \<and> now_check e < s_udp_retry_after_us s then (False, udpUnlock s)
        else
          let s = udpResetLocked (request_while_held (early_request e) s) in
          case udpConnectSocketLocked (resolved e) s of
            (False, s) \<Rightarrow> (False, udpUnlock (udpResetLocked
               (udpSetRetryDelayMs (now_failed e) UDP_RETRY_BACKOFF_MS (request_while_held (late_request e) s))))
          | (True, s) \<Rightarrow> (True, udpUnlock ((request_while_held (late_request e) s)
              \<lparr> s_udp_retry_after_us := 0, s_udp_enabled := True, s_udp_connected := True, s_udp_ever_connected := True,
                s_udp_send_ready_after_us := now_connected e + int (unat UDP_SEND_POST_CONNECT_DELAY_TICKS) * 1000 * 10 \<rparr>)))"

section \<open>Sending\<close>

text \<open>Operations of the Wi-Fi event task while the sender waits without the mutex.\<close>

datatype udp_request = RequestReset | DeferInit int nat

fun udp_other :: "udp_request \<Rightarrow> udp \<Rightarrow> udp" where
  "udp_other RequestReset s = udpStreamRequestReset True s"
| "udp_other (DeferInit now ms) s = udpStreamDeferInit True now ms s"

definition udpDelayAndRelock :: "u32 \<Rightarrow> udp_request list \<Rightarrow> udp \<Rightarrow> bool \<times> udp" where
  "udpDelayAndRelock delay_ticks others s =
     (let s = udp_emit (TaskDelay (if delay_ticks > 0 then delay_ticks else 1)) (udpUnlock s);
          s = fold udp_other others s
      in case udpLock True True s of
           (False, s) \<Rightarrow> (False, s)
         | (True, s) \<Rightarrow>
           let s = udpApplyPendingResetLocked s in
           if \<not> (s_udp_enabled s \<and> s_udp_connected s) then (False, udpUnlock s) else (True, s))"

definition udpWaitUntilLocked :: "int \<Rightarrow> int \<Rightarrow> udp_request list \<Rightarrow> udp \<Rightarrow> bool \<times> udp" where
  "udpWaitUntilLocked now_us wait_until_us others s =
     (if wait_until_us = 0 \<or> now_us \<ge> wait_until_us then (True, s)
      else
        let wait_us = wait_until_us - now_us;
            wait_ticks = pdMS_TO_TICKS (nat (((wait_us + 999) div 1000) mod 2 ^ 32))
        in udpDelayAndRelock wait_ticks others s)"

datatype udp_errno = EAGAIN | EWOULDBLOCK | ENOMEM | OTHER_ERRNO

record udp_attempt =
  now_wait :: int
  others_wait :: "udp_request list"
  now_clear :: int
  held_request :: bool
  send_ret :: int
  send_errno :: udp_errno
  now_after :: int
  others_retry :: "udp_request list"

definition udp_wait_until :: "udp \<Rightarrow> int" where
  "udp_wait_until s =
     (if s_udp_tx_congested_until_us s > s_udp_send_ready_after_us s then s_udp_tx_congested_until_us s
      else s_udp_send_ready_after_us s)"

definition udp_clear_timers :: "int \<Rightarrow> udp \<Rightarrow> udp" where
  "udp_clear_timers now s =
     (let s = s\<lparr> s_udp_send_ready_after_us := 0 \<rparr> in
      if s_udp_tx_congested_until_us s \<noteq> 0 \<and> now \<ge> s_udp_tx_congested_until_us s
      then s\<lparr> s_udp_tx_congested_until_us := 0 \<rparr> else s)"

definition congestion_errno :: "udp_errno \<Rightarrow> bool" where
  "congestion_errno e \<longleftrightarrow> e = EAGAIN \<or> e = EWOULDBLOCK \<or> e = ENOMEM"

definition retry_delay_ticks :: "udp_errno \<Rightarrow> nat \<Rightarrow> u32" where
  "retry_delay_ticks e attempt =
     (if e = ENOMEM then UDP_SEND_ENOMEM_BASE_DELAY_TICKS * of_nat (attempt + 1) else UDP_SEND_RETRY_DELAY_TICKS)"

text \<open>One attempt after the wait: lines 368-420. \<open>Some r\<close> is the value returned, \<open>None\<close> goes round.\<close>

definition udp_attempt_send :: "udp_attempt \<Rightarrow> bytes \<Rightarrow> nat \<Rightarrow> udp \<Rightarrow> int option \<times> udp" where
  "udp_attempt_send a payload attempt s =
     (let s = udp_clear_timers (now_clear a) s;
          s = udp_emit (SockSend (s_udp_sock s) payload) (request_while_held (held_request a) s)
      in if send_ret a \<ge> 0 then
           if nat (send_ret a) \<noteq> length payload then
             (Some (-1), udpUnlock (udpResetLocked (udpSetRetryDelayMs (now_after a) UDP_RETRY_BACKOFF_MS s)))
           else (Some (send_ret a), udpUnlock (s\<lparr> s_udp_tx_congested_until_us := 0 \<rparr>))
         else if congestion_errno (send_errno a) then
           let s = s\<lparr> s_udp_tx_congested_until_us := now_after a + UDP_TX_CONGESTION_HOLD_US \<rparr> in
           if attempt + 1 \<ge> UDP_SEND_RETRY_COUNT then (Some (-1), udpUnlock s)
           else case udpDelayAndRelock (retry_delay_ticks (send_errno a) attempt) (others_retry a) s of
              (ok, s) \<Rightarrow> (if ok then None else Some (-1), s)
         else (Some (-1), udpUnlock (udpResetLocked (udpSetRetryDelayMs (now_after a) UDP_RETRY_BACKOFF_MS s))))"

fun udp_send_loop :: "(nat \<Rightarrow> udp_attempt) \<Rightarrow> bytes \<Rightarrow> nat list \<Rightarrow> udp \<Rightarrow> int \<times> udp" where
  "udp_send_loop env payload [] s = (-1, s)"
| "udp_send_loop env payload (attempt # rest) s =
     (case udpWaitUntilLocked (now_wait (env attempt)) (udp_wait_until s) (others_wait (env attempt)) s of
        (False, s) \<Rightarrow> (-1, s)
      | (True, s) \<Rightarrow>
        (case udp_attempt_send (env attempt) payload attempt s of
           (Some r, s) \<Rightarrow> (r, s)
         | (None, s) \<Rightarrow> udp_send_loop env payload rest s))"

text \<open>\<open>between\<close> are the requests served between \<^verbatim>\<open>udpStreamInit\<close> and the second lock.\<close>

definition udpStreamSend :: "init_env \<Rightarrow> udp_request list \<Rightarrow> (nat \<Rightarrow> udp_attempt) \<Rightarrow> bytes \<Rightarrow> udp \<Rightarrow> int \<times> udp" where
  "udpStreamSend e between env payload s =
     (if payload = [] then (-1, s)
      else case udpStreamInit e s of
        (False, s) \<Rightarrow> (-1, s)
      | (True, s) \<Rightarrow>
        (case udpLock True True (fold udp_other between s) of
           (False, s) \<Rightarrow> (-1, s)
         | (True, s) \<Rightarrow>
           let s = udpApplyPendingResetLocked s in
           if \<not> (s_udp_enabled s \<and> s_udp_connected s) then (-1, udpUnlock s)
           else udp_send_loop env payload [0..<UDP_SEND_RETRY_COUNT] s))"

end
