(* ===== verification/UdpStreamSpec.thy ===== *)
theory UdpStreamSpec imports UdpStream begin

text \<open>
  Properties of the UDP sender: the socket is opened, used and closed in the proper order and the
  mutex is free after every operation; a requested reset takes effect before the next datagram;
  a congested link is tried again up to eight times.
\<close>

section \<open>Use of the socket\<close>

fun sock_step :: "udp_event \<Rightarrow> int option option \<Rightarrow> int option option" where
  "sock_step ev None = None"
| "sock_step (SockOpen n) (Some cur) = (if cur = None then Some (Some n) else None)"
| "sock_step (SockClose n) (Some cur) = (if cur = Some n then Some None else None)"
| "sock_step (SockSend n p) (Some cur) = (if cur = Some n then Some cur else None)"
| "sock_step (TaskDelay t) (Some cur) = Some cur"

text \<open>The socket open after a trace; \<open>None\<close> when a socket leaked or was used when it was not open.\<close>

definition open_socket :: "udp_event list \<Rightarrow> int option option" where
  "open_socket tr = fold sock_step tr (Some None)"

lemma open_socket_simps [simp]:
  "open_socket [] = Some None" "open_socket (tr @ evs) = fold sock_step evs (open_socket tr)"
  by (simp_all add: open_socket_def)

lemma sock_step_delay [simp]: "sock_step (TaskDelay d) x = x"
  by (cases x) auto

definition udp_ok :: "udp \<Rightarrow> bool" where
  "udp_ok s \<longleftrightarrow> open_socket (udp_trace s) = Some (if s_udp_sock s \<ge> 0 then Some (s_udp_sock s) else None) \<and>
     (s_udp_enabled s \<and> s_udp_connected s \<longrightarrow> s_udp_sock s \<ge> 0)"

lemmas udp_small_defs = udpEnsureMutex_def udpLock_def udpUnlock_def udp_emit_def udpSetRetryDelayMs_def
  udpCloseSocketLocked_def udpResetLocked_def udpApplyPendingResetLocked_def udpStreamRequestReset_def
  udpStreamReset_def udpStreamDeferInit_def request_while_held_def

lemma lock_result:
  assumes "udpLock create wait s = (ok, s')"
  shows "s' = s\<lparr> s_udp_mutex := s_udp_mutex s \<or> create, udp_held := udp_held s \<or> ok \<rparr>"
    and "ok \<longleftrightarrow> (s_udp_mutex s \<or> create) \<and> (wait \<or> \<not> udp_held s)"
  using assms by (cases s; auto simp: udpLock_def udpEnsureMutex_def split: if_splits)+

lemma udp_ok_start: "udp_ok udp_start"
  by (simp add: udp_ok_def udp_start_def)

lemma udp_ok_cong:
  "udp_trace s' = udp_trace s \<Longrightarrow> s_udp_sock s' = s_udp_sock s \<Longrightarrow> s_udp_enabled s' = s_udp_enabled s \<Longrightarrow>
   s_udp_connected s' = s_udp_connected s \<Longrightarrow> udp_ok s' = udp_ok s"
  by (simp add: udp_ok_def)

lemma udp_ok_small [simp]:
  "udp_ok (s\<lparr> udp_held := h \<rparr>) = udp_ok s" "udp_ok (s\<lparr> s_udp_mutex := m \<rparr>) = udp_ok s"
  "udp_ok (s\<lparr> s_udp_reset_requested := r \<rparr>) = udp_ok s"
  "udp_ok (s\<lparr> s_udp_retry_after_us := t \<rparr>) = udp_ok s"
  "udp_ok (s\<lparr> s_udp_send_ready_after_us := t \<rparr>) = udp_ok s"
  "udp_ok (s\<lparr> s_udp_tx_congested_until_us := t \<rparr>) = udp_ok s"
  "udp_ok (udpUnlock s) = udp_ok s" "udp_ok (udpSetRetryDelayMs now ms s) = udp_ok s"
  "udp_ok (udp_emit (TaskDelay d) s) = udp_ok s"
  by (auto simp: udp_ok_def udpUnlock_def udpSetRetryDelayMs_def udp_emit_def split: option.split)

lemma udp_ok_close: "udp_ok s \<Longrightarrow> udp_ok ((udpCloseSocketLocked s)\<lparr> s_udp_enabled := False, s_udp_connected := c \<rparr>)"
  by (auto simp: udp_ok_def udpCloseSocketLocked_def udp_emit_def)

lemma udp_ok_reset [simp, intro]: "udp_ok s \<Longrightarrow> udp_ok (udpResetLocked s)"
  by (auto simp: udp_ok_def udpResetLocked_def udpCloseSocketLocked_def udp_emit_def)

lemma udp_ok_apply [simp, intro]: "udp_ok s \<Longrightarrow> udp_ok (udpApplyPendingResetLocked s)"
  by (simp add: udpApplyPendingResetLocked_def)

lemma udp_ok_request [simp, intro]: "udp_ok s \<Longrightarrow> udp_ok (udpStreamRequestReset create s)"
  unfolding udpStreamRequestReset_def
  by (auto simp: udp_ok_def udpUnlock_def split: prod.split bool.split dest: lock_result)

lemma udp_ok_other [simp, intro]: "udp_ok s \<Longrightarrow> udp_ok (udp_other r s)"
  by (cases r) (auto simp: udpStreamDeferInit_def split: prod.split bool.split dest: lock_result)

lemma udp_ok_others [simp, intro]: "udp_ok s \<Longrightarrow> udp_ok (fold udp_other rs s)"
  by (rule fold_inv) auto

text \<open>The mutex: an operation of another task leaves it as it is.\<close>

lemma held_other [simp]:
  "\<not> udp_held s \<Longrightarrow> \<not> udp_held (udp_other r s)"
  by (cases r) (auto simp: udp_small_defs split: prod.split bool.split)

lemma held_others [simp]: "\<not> udp_held s \<Longrightarrow> \<not> udp_held (fold udp_other rs s)"
  by (rule fold_inv[where P = "\<lambda>s. \<not> udp_held s"]) auto

fun is_send :: "udp_event \<Rightarrow> bool" where "is_send (SockSend n p) = True" | "is_send _ = False"
fun is_open :: "udp_event \<Rightarrow> bool" where "is_open (SockOpen n) = True" | "is_open _ = False"

text \<open>\<open>udp_adds s s' es\<close>: the events of the part of an operation that leads from \<open>s\<close> to \<open>s'\<close>.\<close>

definition udp_adds :: "udp \<Rightarrow> udp \<Rightarrow> udp_event list \<Rightarrow> bool" where
  "udp_adds s s' es \<longleftrightarrow> udp_trace s' = udp_trace s @ es"

lemma close_adds: "\<exists>es. udp_adds s (udpCloseSocketLocked s) es \<and> filter is_send es = []"
  by (auto simp: udp_adds_def udpCloseSocketLocked_def udp_emit_def)

section \<open>Connecting\<close>

lemma try_addrs_ok:
  assumes "udp_try_addrs rps s = (ok, s')" and "udp_ok s" and "s_udp_sock s < 0" and "\<not> s_udp_enabled s"
  shows "udp_ok s' \<and> (ok \<longrightarrow> 0 \<le> s_udp_sock s') \<and> \<not> s_udp_enabled s' \<and> udp_held s' = udp_held s \<and> s_udp_mutex s' = s_udp_mutex s"
  using assms
proof (induction rps s rule: udp_try_addrs.induct)
  case (2 fd connects rps s)
  let ?s = "s\<lparr> s_udp_sock := fd \<rparr>" and ?t = "udp_emit (SockOpen fd) (s\<lparr> s_udp_sock := fd \<rparr>)"
  show ?case
  proof (cases "fd < 0")
    case True
    then show ?thesis using 2 by (simp add: udp_ok_def)
  next
    case False
    then have t: "udp_ok ?t" using 2(4-6) by (auto simp: udp_ok_def udp_emit_def)
    show ?thesis
    proof (cases connects)
      case True
      then show ?thesis using 2(3,6) False t by (auto simp: udp_emit_def)
    next
      case nc: False
      have "udp_ok (udpCloseSocketLocked ?t)" "s_udp_sock (udpCloseSocketLocked ?t) < 0"
        using t 2(6) by (auto simp: udp_ok_def udpCloseSocketLocked_def udp_emit_def)
      then show ?thesis
        using 2(2)[OF refl False refl nc] 2(3,6) False nc by (simp add: udpCloseSocketLocked_def udp_emit_def split: if_splits)
    qed
  qed
qed auto

lemma try_addrs_adds:
  assumes "udp_try_addrs rps s = (ok, s')"
  shows "\<exists>es. udp_adds s s' es \<and> filter is_send es = [] \<and> (ok \<longrightarrow> list_ex is_open es) \<and> s_udp_reset_requested s' = s_udp_reset_requested s"
  using assms
proof (induction rps s rule: udp_try_addrs.induct)
  case (2 fd connects rps s)
  let ?t = "udp_emit (SockOpen fd) (s\<lparr> s_udp_sock := fd \<rparr>)"
  consider "fd < 0" | "\<not> fd < 0" "connects" | "\<not> fd < 0" "\<not> connects" by blast
  then show ?case
  proof cases
    case 3
    obtain es where "udp_adds (udpCloseSocketLocked ?t) s' es" "filter is_send es = []" "ok \<longrightarrow> list_ex is_open es"
      "s_udp_reset_requested s' = s_udp_reset_requested s"
      using 2(2)[OF refl 3(1) refl 3(2)] 2(3) 3 by (auto simp: udpCloseSocketLocked_def udp_emit_def)
    then show ?thesis using 3
      by (intro exI[of _ "SockOpen fd # SockClose fd # es"]) (auto simp: udp_adds_def udpCloseSocketLocked_def udp_emit_def)
  qed (use 2 in \<open>auto simp: udp_adds_def udp_emit_def\<close>)
qed (simp add: udp_adds_def)

lemma request_fields [simp]:
  "udp_held s \<Longrightarrow> udpStreamRequestReset True s = s\<lparr> s_udp_mutex := True, s_udp_reset_requested := True \<rparr>"
  by (cases s) (simp add: udpStreamRequestReset_def udpLock_def udpEnsureMutex_def)

lemma small_fields [simp]:
  "udp_held (udpResetLocked s) = udp_held s" "s_udp_mutex (udpResetLocked s) = s_udp_mutex s"
  "s_udp_enabled (udpResetLocked s) = False" "s_udp_connected (udpResetLocked s) = False"
  "s_udp_reset_requested (udpResetLocked s) = False" "s_udp_sock (udpResetLocked s) < 0"
  "udp_held (udpSetRetryDelayMs now ms s) = udp_held s" "s_udp_mutex (udpSetRetryDelayMs now ms s) = s_udp_mutex s"
  "s_udp_mutex (udpUnlock s) = s_udp_mutex s" "s_udp_mutex s \<Longrightarrow> \<not> udp_held (udpUnlock s)"
  "udp_held (udp_emit ev s) = udp_held s" "s_udp_mutex (udp_emit ev s) = s_udp_mutex s"
  by (auto simp: udp_small_defs)

lemma apply_fields [simp]:
  "udp_held (udpApplyPendingResetLocked s) = udp_held s" "s_udp_mutex (udpApplyPendingResetLocked s) = s_udp_mutex s"
  by (simp_all add: udpApplyPendingResetLocked_def)

lemma while_held_fields [simp]:
  "udp_held s \<Longrightarrow> udp_held (request_while_held b s)" "s_udp_mutex s \<Longrightarrow> s_udp_mutex (request_while_held b s)"
  "udp_held s \<Longrightarrow> s_udp_sock (request_while_held b s) = s_udp_sock s"
  "udp_ok s \<Longrightarrow> udp_ok (request_while_held b s)"
  by (auto simp: request_while_held_def) (auto simp: udp_small_defs split: prod.split bool.split)

lemma udp_ok_connect:
  "udp_ok s \<Longrightarrow> 0 \<le> s_udp_sock s \<Longrightarrow> udp_ok (s\<lparr> s_udp_retry_after_us := 0, s_udp_enabled := True, s_udp_connected := True,
     s_udp_ever_connected := True \<rparr>)"
  by (simp add: udp_ok_def)

lemma lock_free:
  "s_udp_mutex s \<or> create \<Longrightarrow> udpLock create True s = (True, s\<lparr> s_udp_mutex := True, udp_held := True \<rparr>)"
  "\<not> (s_udp_mutex s \<or> create) \<Longrightarrow> udpLock create wait s = (False, s)"
  by (cases s; auto simp: udpLock_def udpEnsureMutex_def)+

lemma connect_ok:
  assumes "udpConnectSocketLocked r s = (ok, s')" and "udp_ok s" and "s_udp_sock s < 0" and "\<not> s_udp_enabled s"
  shows "udp_ok s'" "ok \<Longrightarrow> 0 \<le> s_udp_sock s'" "udp_held s' = udp_held s" "s_udp_mutex s' = s_udp_mutex s"
  using assms try_addrs_ok[of _ s ok s'] by (auto simp: udpConnectSocketLocked_def split: option.splits)

lemma init_ok:
  assumes "udpStreamInit e s = (ok, s')" and "udp_ok s" and "\<not> udp_held s"
  shows "udp_ok s' \<and> \<not> udp_held s' \<and> (ok \<longrightarrow> s_udp_mutex s')"
proof (cases "s_udp_mutex s \<or> mutex_created e")
  case False
  then show ?thesis using assms by (auto simp: udpStreamInit_def lock_free)
next
  case True
  define s1 where "s1 = udpApplyPendingResetLocked (s\<lparr> s_udp_mutex := True, udp_held := True \<rparr>)"
  have s1: "udp_ok s1" "s_udp_mutex s1" "udp_held s1" using assms(2) by (auto simp: s1_def)
  define s2 where "s2 = udpResetLocked (request_while_held (early_request e) s1)"
  have s2: "udp_ok s2" "s_udp_mutex s2" "udp_held s2" "\<not> s_udp_enabled s2" "s_udp_sock s2 < 0"
    using s1 by (auto simp: s2_def)
  obtain c s3 where c: "udpConnectSocketLocked (resolved e) s2 = (c, s3)" by fastforce
  note s3 = connect_ok[OF c s2(1,5,4)]
  define s4 where "s4 = request_while_held (late_request e) s3"
  have s4: "udp_ok s4" "udp_held s4" "s_udp_mutex s4" "c \<Longrightarrow> 0 \<le> s_udp_sock s4"
    using s3 s2 by (auto simp: s4_def)
  show ?thesis
    using assms(1) s1 s4 unfolding udpStreamInit_def lock_free(1)[OF True] Let_def prod.case bool.case s1_def[symmetric] s2_def[symmetric] c
    unfolding prod.case s4_def[symmetric]
    by (cases c) (auto split: if_splits intro!: udp_ok_connect)
qed

section \<open>Waiting without the mutex\<close>

text \<open>The state of the sender inside the loop.\<close>

definition udp_live :: "udp \<Rightarrow> bool" where
  "udp_live s \<longleftrightarrow> udp_ok s \<and> s_udp_mutex s \<and> udp_held s \<and> s_udp_enabled s \<and> s_udp_connected s"

text \<open>What other tasks can do: they never touch the socket; a request leaves the flag set.\<close>

lemma other_fields:
  "s_udp_sock (udp_other r s) = s_udp_sock s \<and> udp_trace (udp_other r s) = udp_trace s \<and>
   (s_udp_mutex s \<longrightarrow> s_udp_mutex (udp_other r s)) \<and>
   (s_udp_reset_requested s \<longrightarrow> s_udp_reset_requested (udp_other r s)) \<and> s_udp_reset_requested (udp_other RequestReset s)"
  by (cases r) (auto simp: udp_small_defs split: prod.split bool.split)

lemma others_fields:
  "s_udp_sock (fold udp_other rs s) = s_udp_sock s \<and> udp_trace (fold udp_other rs s) = udp_trace s \<and>
   (s_udp_mutex s \<longrightarrow> s_udp_mutex (fold udp_other rs s)) \<and>
   (s_udp_reset_requested s \<or> RequestReset \<in> set rs \<longrightarrow> s_udp_reset_requested (fold udp_other rs s))"
proof (induction rs arbitrary: s)
  case (Cons r rs)
  show ?case using Cons.IH[of "udp_other r s"] other_fields[of r s] by (cases r) simp_all
qed simp

lemma apply_adds: "\<exists>es. udp_adds s (udpApplyPendingResetLocked s) es \<and> filter is_send es = []"
  by (auto simp: udpApplyPendingResetLocked_def udpResetLocked_def udp_adds_def udpCloseSocketLocked_def udp_emit_def)

lemma delay_relock:
  assumes "udpDelayAndRelock d os s = (ok, s')" and "udp_ok s" and "s_udp_mutex s"
  shows "udp_ok s'" and "s_udp_mutex s'" and "udp_held s' = ok" and "ok \<Longrightarrow> udp_live s'"
    and "s_udp_reset_requested s \<or> RequestReset \<in> set os \<Longrightarrow> \<not> ok"
    and "\<exists>es. udp_adds s s' es \<and> filter is_send es = []"
proof -
  define s1 where "s1 = fold udp_other os (udp_emit (TaskDelay (if d > 0 then d else 1)) (udpUnlock s))"
  define s2 where "s2 = udpApplyPendingResetLocked (s1\<lparr> s_udp_mutex := True, udp_held := True \<rparr>)"
  have s1: "udp_ok s1" "s_udp_mutex s1" "udp_trace s1 = udp_trace s @ [TaskDelay (if d > 0 then d else 1)]"
    using assms(2,3) others_fields[of os "udp_emit (TaskDelay (if d > 0 then d else 1)) (udpUnlock s)"]
    by (auto simp: s1_def) (auto simp: udp_emit_def udpUnlock_def)
  have flag: "s_udp_reset_requested s1" if "s_udp_reset_requested s \<or> RequestReset \<in> set os"
    using that others_fields[of os "udp_emit (TaskDelay (if d > 0 then d else 1)) (udpUnlock s)"]
    by (auto simp: s1_def) (auto simp: udp_emit_def udpUnlock_def)
  have s2: "udp_ok s2" "s_udp_mutex s2" "udp_held s2" using s1 by (auto simp: s2_def)
  have r: "(ok, s') = (if \<not> (s_udp_enabled s2 \<and> s_udp_connected s2) then (False, udpUnlock s2) else (True, s2))"
    using assms(1) unfolding udpDelayAndRelock_def Let_def s1_def[symmetric] lock_free(1)[of s1 True, OF disjI2, OF TrueI]
      prod.case bool.case s2_def[symmetric] by simp
  show "udp_ok s'" "s_udp_mutex s'" "udp_held s' = ok" "ok \<Longrightarrow> udp_live s'"
    using r s2 by (auto simp: udp_live_def split: if_splits)
  show "\<not> ok" if "s_udp_reset_requested s \<or> RequestReset \<in> set os"
    using r flag[OF that] by (auto simp: s2_def udpApplyPendingResetLocked_def split: if_splits)
  obtain es where "udp_trace s2 = udp_trace s1 @ es" "filter is_send es = []"
    using apply_adds[of "s1\<lparr> s_udp_mutex := True, udp_held := True \<rparr>"] by (auto simp: udp_adds_def s2_def)
  moreover have "udp_trace s' = udp_trace s2" using r by (auto simp: udpUnlock_def split: if_splits)
  ultimately show "\<exists>es. udp_adds s s' es \<and> filter is_send es = []"
    by (intro exI[of _ "TaskDelay (if d > 0 then d else 1) # es"]) (simp add: udp_adds_def s1(3))
qed

lemma delay_quiet:
  assumes "udp_live s" and "\<not> s_udp_reset_requested s"
  shows "udpDelayAndRelock d [] s = (True, udp_emit (TaskDelay (if d > 0 then d else 1)) s)"
  using assms by (cases s) (simp add: udp_live_def udpDelayAndRelock_def udp_small_defs)

section \<open>Sending\<close>

lemma udp_live_small [simp]:
  "udp_live (s\<lparr> s_udp_send_ready_after_us := t \<rparr>) = udp_live s" "udp_live (s\<lparr> s_udp_tx_congested_until_us := t \<rparr>) = udp_live s"
  "udp_live (s\<lparr> s_udp_reset_requested := b \<rparr>) = udp_live s"
  "udp_live s \<Longrightarrow> udp_live (udp_emit (TaskDelay d) s)"
  "udp_live s \<Longrightarrow> udp_live (udp_emit (SockSend (s_udp_sock s) p) s)"
  by (auto simp: udp_live_def) (auto simp: udp_ok_def udp_emit_def)

lemma live_fields: "udp_live s \<Longrightarrow> udp_ok s \<and> s_udp_mutex s \<and> udp_held s \<and> 0 \<le> s_udp_sock s"
  by (auto simp: udp_live_def udp_ok_def)

text \<open>The state in which the answer of \<^verbatim>\<open>lwip_send\<close> is examined.\<close>

definition after_send :: "udp_attempt \<Rightarrow> bytes \<Rightarrow> udp \<Rightarrow> udp" where
  "after_send a payload s = udp_emit (SockSend (s_udp_sock s) payload)
     (request_while_held (held_request a) (udp_clear_timers (now_clear a) s))"

lemma after_send:
  assumes "udp_live s"
  shows "udp_live (after_send a payload s)" "udp_trace (after_send a payload s) = udp_trace s @ [SockSend (s_udp_sock s) payload]"
    "s_udp_sock (after_send a payload s) = s_udp_sock s"
    "s_udp_reset_requested (after_send a payload s) = (s_udp_reset_requested s \<or> held_request a)"
proof -
  let ?s = "request_while_held (held_request a) (udp_clear_timers (now_clear a) s)"
  have "udp_live ?s \<and> s_udp_sock ?s = s_udp_sock s \<and> udp_trace ?s = udp_trace s \<and>
      s_udp_reset_requested ?s = (s_udp_reset_requested s \<or> held_request a)"
    using assms by (auto simp: request_while_held_def udp_clear_timers_def Let_def udp_live_def)
  moreover from this have "udp_live (udp_emit (SockSend (s_udp_sock ?s) payload) ?s)" by (intro udp_live_small(5)) simp
  ultimately show "udp_live (after_send a payload s)" "udp_trace (after_send a payload s) = udp_trace s @ [SockSend (s_udp_sock s) payload]"
    "s_udp_sock (after_send a payload s) = s_udp_sock s"
    "s_udp_reset_requested (after_send a payload s) = (s_udp_reset_requested s \<or> held_request a)"
    by (simp_all add: after_send_def) (simp_all add: udp_emit_def)
qed

lemma attempt_send_eq:
  "udp_attempt_send a payload k s =
     (let s = after_send a payload s in
      if send_ret a \<ge> 0 then
        if nat (send_ret a) \<noteq> length payload then
          (Some (-1), udpUnlock (udpResetLocked (udpSetRetryDelayMs (now_after a) UDP_RETRY_BACKOFF_MS s)))
        else (Some (send_ret a), udpUnlock (s\<lparr> s_udp_tx_congested_until_us := 0 \<rparr>))
      else if congestion_errno (send_errno a) then
        let s = s\<lparr> s_udp_tx_congested_until_us := now_after a + UDP_TX_CONGESTION_HOLD_US \<rparr> in
        if k + 1 \<ge> UDP_SEND_RETRY_COUNT then (Some (-1), udpUnlock s)
        else case udpDelayAndRelock (retry_delay_ticks (send_errno a) k) (others_retry a) s of
           (ok, s) \<Rightarrow> (if ok then None else Some (-1), s)
      else (Some (-1), udpUnlock (udpResetLocked (udpSetRetryDelayMs (now_after a) UDP_RETRY_BACKOFF_MS s))))"
proof -
  have "s_udp_sock (udp_clear_timers t s) = s_udp_sock s" for t by (simp add: udp_clear_timers_def Let_def)
  then show ?thesis unfolding udp_attempt_send_def after_send_def Let_def by presburger
qed

lemma reset_adds: "\<exists>es. udp_trace (udpUnlock (udpResetLocked (udpSetRetryDelayMs t n s))) = udp_trace s @ es \<and> filter is_send es = []"
  by (auto simp: udp_small_defs)

lemma attempt_send:
  assumes "udp_attempt_send a payload k s = (r, s')" and "udp_live s"
  shows "udp_ok s' \<and> s_udp_mutex s' \<and> udp_held s' = (r = None)" and "r = None \<Longrightarrow> udp_live s' \<and> k + 1 < 8"
    and "case r of None \<Rightarrow> True | Some v \<Rightarrow> v = -1 \<or> v = int (length payload) \<and> send_ret a = v"
    and "\<exists>es. udp_adds s s' es \<and> filter is_send es = [SockSend (s_udp_sock s) payload]"
proof -
  define s1 where "s1 = after_send a payload s"
  note s1 = after_send[OF assms(2), of a payload, folded s1_def]
  note l = live_fields[OF s1(1)]
  note e = assms(1)[unfolded attempt_send_eq s1_def[symmetric] Let_def]
  obtain ok s2 where d: "udpDelayAndRelock (retry_delay_ticks (send_errno a) k) (others_retry a)
      (s1\<lparr> s_udp_tx_congested_until_us := now_after a + UDP_TX_CONGESTION_HOLD_US \<rparr>) = (ok, s2)" by fastforce
  have d1: "udp_ok s2" "s_udp_mutex s2" "udp_held s2 = ok" "ok \<Longrightarrow> udp_live s2"
    using delay_relock[OF d] l by simp_all
  obtain es where es: "udp_trace s2 = udp_trace s1 @ es" "filter is_send es = []"
    using delay_relock(6)[OF d] l by (auto simp: udp_adds_def)
  show "udp_ok s' \<and> s_udp_mutex s' \<and> udp_held s' = (r = None)" "r = None \<Longrightarrow> udp_live s' \<and> k + 1 < 8"
    "case r of None \<Rightarrow> True | Some v \<Rightarrow> v = -1 \<or> v = int (length payload) \<and> send_ret a = v"
    using e d1 l unfolding d by (auto split: if_splits simp: UDP_SEND_RETRY_COUNT_def)
  obtain es2 where "udp_trace s' = udp_trace s1 @ es2" "filter is_send es2 = []"
    using e es reset_adds[of "now_after a" UDP_RETRY_BACKOFF_MS s1] unfolding d
    by (auto split: if_splits simp: udpUnlock_def)
  then show "\<exists>es. udp_adds s s' es \<and> filter is_send es = [SockSend (s_udp_sock s) payload]"
    by (intro exI[of _ "SockSend (s_udp_sock s) payload # es2"]) (simp add: udp_adds_def s1(2))
qed

lemma wait_until:
  assumes "udpWaitUntilLocked now t os s = (ok, s')" and "udp_live s"
  shows "udp_ok s' \<and> s_udp_mutex s' \<and> udp_held s' = ok" "ok \<Longrightarrow> udp_live s'"
    "\<exists>es. udp_adds s s' es \<and> filter is_send es = []"
proof -
  define dt where "dt = pdMS_TO_TICKS (nat ((t - now + 999) div 1000 mod 2 ^ 32))"
  note e = assms(1)[unfolded udpWaitUntilLocked_def Let_def dt_def[symmetric]]
  have "udp_ok s' \<and> s_udp_mutex s' \<and> udp_held s' = ok \<and> (ok \<longrightarrow> udp_live s') \<and> (\<exists>es. udp_adds s s' es \<and> filter is_send es = [])"
  proof (cases "t = 0 \<or> now \<ge> t")
    case True
    then show ?thesis using e assms(2) live_fields[of s] by (auto simp: udp_adds_def)
  next
    case False
    then have "udpDelayAndRelock dt os s = (ok, s')" using e by simp
    from delay_relock[OF this] show ?thesis using assms(2) live_fields by blast
  qed
  then show "udp_ok s' \<and> s_udp_mutex s' \<and> udp_held s' = ok" "ok \<Longrightarrow> udp_live s'"
    "\<exists>es. udp_adds s s' es \<and> filter is_send es = []" by simp_all
qed

lemma adds_trans: "udp_adds s t es \<Longrightarrow> udp_adds t u es2 \<Longrightarrow> udp_adds s u (es @ es2)"
  by (simp add: udp_adds_def)

lemma send_loop:
  assumes "udp_send_loop env payload ks s = (v, s')" and "udp_live s" and "ks \<noteq> []" and "last ks = 7"
  shows "udp_ok s' \<and> \<not> udp_held s' \<and> (v = -1 \<or> v = int (length payload)) \<and>
    (\<exists>es. udp_adds s s' es \<and> length (filter is_send es) \<le> length ks)"
  using assms
proof (induction ks arbitrary: s)
  case (Cons k ks)
  obtain ok s1 where w: "udpWaitUntilLocked (now_wait (env k)) (udp_wait_until s) (others_wait (env k)) s = (ok, s1)" by fastforce
  note w1 = wait_until[OF w Cons.prems(2)]
  obtain es1 where es1: "udp_adds s s1 es1" "filter is_send es1 = []" using w1(3) by blast
  obtain r s2 where a: "udp_attempt_send (env k) payload k s1 = (r, s2)" by fastforce
  consider "\<not> ok" | "ok" "r = None" | v' where "ok" "r = Some v'" by (cases r) auto
  then show ?case
  proof cases
    case 1
    then show ?thesis using Cons.prems(1) w w1(1) es1 by auto
  next
    case 2
    note a1 = attempt_send[OF a w1(2)[OF 2(1)]]
    have ne: "ks \<noteq> []" "last ks = 7" using a1(2)[OF 2(2)] Cons.prems(4) by (auto split: if_splits)
    obtain es2 where es2: "udp_adds s1 s2 es2" "length (filter is_send es2) = 1" using a1(4) by auto
    have "udp_send_loop env payload ks s2 = (v, s')" using Cons.prems(1) w a 2 by simp
    from Cons.IH[OF this conjunct1[OF a1(2)[OF 2(2)]] ne] obtain es3 where
      "udp_ok s' \<and> \<not> udp_held s' \<and> (v = -1 \<or> v = int (length payload))" "udp_adds s2 s' es3" "length (filter is_send es3) \<le> length ks"
      by blast
    then show ?thesis using adds_trans[OF es1(1) adds_trans[OF es2(1)]] es1(2) es2(2) by fastforce
  next
    case 3
    note a1 = attempt_send[OF a w1(2)[OF 3(1)]]
    obtain es2 where es2: "udp_adds s1 s2 es2" "length (filter is_send es2) = 1" using a1(4) by auto
    have "v = v'" "s' = s2" using Cons.prems(1) w a 3 by simp_all
    then show ?thesis using a1(1,3) 3 adds_trans[OF es1(1) es2(1)] es1(2) es2(2) by fastforce
  qed
qed simp

section \<open>A whole call\<close>

lemma while_held_trace [simp]: "udp_held s \<Longrightarrow> udp_trace (request_while_held b s) = udp_trace s"
  by (auto simp: request_while_held_def)

lemma reset_trace: "\<exists>es. udp_trace (udpResetLocked s) = udp_trace s @ es \<and> filter is_send es = []"
  by (auto simp: udp_small_defs)

lemma small_trace [simp]:
  "udp_trace (udpUnlock s) = udp_trace s" "udp_trace (udpSetRetryDelayMs now ms s) = udp_trace s"
  by (simp_all add: udp_small_defs)

lemma connect_adds:
  assumes "udpConnectSocketLocked r s = (ok, s')"
  shows "\<exists>es. udp_adds s s' es \<and> filter is_send es = [] \<and> (ok \<longrightarrow> list_ex is_open es)"
  using assms try_addrs_adds[of _ s ok s'] by (fastforce simp: udpConnectSocketLocked_def udp_adds_def split: option.splits)

text \<open>Connecting sends nothing, and after a requested reset it succeeds only with a new socket.\<close>

lemma init_adds:
  assumes "udpStreamInit e s = (ok, s')" and "udp_ok s" and "\<not> udp_held s"
  shows "\<exists>es. udp_adds s s' es \<and> filter is_send es = [] \<and> (ok \<and> s_udp_reset_requested s \<longrightarrow> list_ex is_open es)"
proof (cases "s_udp_mutex s \<or> mutex_created e")
  case False
  then show ?thesis using assms by (auto simp: udpStreamInit_def lock_free udp_adds_def)
next
  case True
  let ?s = "s\<lparr> s_udp_mutex := True, udp_held := True \<rparr>"
  define s1 where "s1 = udpApplyPendingResetLocked ?s"
  define s2 where "s2 = udpResetLocked (request_while_held (early_request e) s1)"
  obtain c s3 where c: "udpConnectSocketLocked (resolved e) s2 = (c, s3)" by fastforce
  define s4 where "s4 = request_while_held (late_request e) s3"
  obtain es1 where es1: "udp_trace s1 = udp_trace s @ es1" "filter is_send es1 = []"
    using apply_adds[of ?s] by (auto simp: udp_adds_def s1_def)
  have h1: "udp_held s1" "s_udp_mutex s1" by (simp_all add: s1_def)
  then obtain es2 where es2: "udp_trace s2 = udp_trace s1 @ es2" "filter is_send es2 = []"
    using reset_trace[of "request_while_held (early_request e) s1"] by (auto simp: s2_def)
  have s2: "udp_ok s2" "s_udp_mutex s2" "udp_held s2" "\<not> s_udp_enabled s2" "s_udp_sock s2 < 0"
    using h1 assms(2) by (auto simp: s2_def s1_def)
  obtain es3 where es3: "udp_trace s3 = udp_trace s2 @ es3" "filter is_send es3 = []" "c \<longrightarrow> list_ex is_open es3"
    using connect_adds[OF c] by (auto simp: udp_adds_def)
  have s4: "udp_trace s4 = udp_trace s3" using connect_ok(3)[OF c s2(1,5,4)] s2(3) by (simp add: s4_def)
  obtain es4 where es4: "udp_trace (udpResetLocked (udpSetRetryDelayMs (now_failed e) UDP_RETRY_BACKOFF_MS s4)) = udp_trace s4 @ es4"
      "filter is_send es4 = []"
    using reset_trace[of "udpSetRetryDelayMs (now_failed e) UDP_RETRY_BACKOFF_MS s4"] by auto
  have dis: "s_udp_reset_requested s \<longrightarrow> \<not> s_udp_enabled s1" by (simp add: s1_def udpApplyPendingResetLocked_def)
  have r: "(if s_udp_enabled s1 \<and> s_udp_connected s1 then (True, udpUnlock s1)
      else if \<not> config_valid e \<or> s_udp_retry_after_us s1 \<noteq> 0 \<and> now_check e < s_udp_retry_after_us s1 then (False, udpUnlock s1)
      else if c then (True, udpUnlock (s4\<lparr> s_udp_retry_after_us := 0, s_udp_enabled := True, s_udp_connected := True,
        s_udp_ever_connected := True, s_udp_send_ready_after_us := now_connected e + int (unat UDP_SEND_POST_CONNECT_DELAY_TICKS) * 1000 * 10 \<rparr>))
      else (False, udpUnlock (udpResetLocked (udpSetRetryDelayMs (now_failed e) UDP_RETRY_BACKOFF_MS s4)))) = (ok, s')"
    using assms(1) unfolding udpStreamInit_def lock_free(1)[OF True] Let_def prod.case bool.case s1_def[symmetric] s2_def[symmetric] c
    unfolding prod.case s4_def[symmetric] by (cases c) (auto split: if_splits)
  consider "udp_trace s' = udp_trace s1" "\<not> (ok \<and> s_udp_reset_requested s)" | "udp_trace s' = udp_trace s4" "ok \<longrightarrow> c"
    | "udp_trace s' = udp_trace s4 @ es4" "\<not> ok"
    using r dis es4(1) by (auto split: if_splits)
  then show ?thesis
  proof cases
    case 1 then show ?thesis using es1 by (auto simp: udp_adds_def)
  next
    case 2 then show ?thesis using es1 es2 es3 s4 by (intro exI[of _ "es1 @ es2 @ es3"]) (auto simp: udp_adds_def)
  next
    case 3 then show ?thesis using es1 es2 es3 es4 s4 by (intro exI[of _ "es1 @ es2 @ es3 @ es4"]) (auto simp: udp_adds_def)
  qed
qed

text \<open>A call of \<^verbatim>\<open>udpStreamSend\<close>: the state, the result, the number of datagrams, and that after a
  requested reset no datagram is sent before a new socket has been opened.\<close>

definition no_stale_send :: "udp_event list \<Rightarrow> bool" where
  "no_stale_send es \<longleftrightarrow> filter is_send (takeWhile (\<lambda>ev. \<not> is_open ev) es) = []"

lemma no_stale_send_append:
  assumes "filter is_send es1 = []" and "list_ex is_open es1 \<or> filter is_send es2 = []"
  shows "no_stale_send (es1 @ es2)"
proof -
  have sub: "filter is_send (takeWhile P es) = []" if "filter is_send es = []" for P es
    using that by (auto simp: filter_empty_conv dest: set_takeWhileD)
  show ?thesis
  proof (cases "list_ex is_open es1")
    case True
    then have "takeWhile (\<lambda>ev. \<not> is_open ev) (es1 @ es2) = takeWhile (\<lambda>ev. \<not> is_open ev) es1"
      by (auto simp: list_ex_iff takeWhile_append1)
    then show ?thesis using sub[OF assms(1)] by (simp add: no_stale_send_def)
  next
    case False
    then have "filter is_send (es1 @ es2) = []" using assms by simp
    from sub[OF this] show ?thesis by (simp add: no_stale_send_def)
  qed
qed

lemma send_call:
  assumes "udpStreamSend e between env payload s = (v, s')" and "udp_ok s" and "\<not> udp_held s"
  shows "udp_ok s' \<and> \<not> udp_held s'" and "v = -1 \<or> v = int (length payload)"
    and "\<exists>es. udp_adds s s' es \<and> length (filter is_send es) \<le> 8 \<and> (s_udp_reset_requested s \<longrightarrow> no_stale_send es)"
proof -
  have "udp_ok s' \<and> \<not> udp_held s' \<and> (v = -1 \<or> v = int (length payload)) \<and>
    (\<exists>es. udp_adds s s' es \<and> length (filter is_send es) \<le> 8 \<and> (s_udp_reset_requested s \<longrightarrow> no_stale_send es))"
  proof (cases "payload = []")
    case True
    then show ?thesis using assms by (auto simp: udpStreamSend_def udp_adds_def no_stale_send_def)
  next
    case ne: False
    obtain ok s1 where i: "udpStreamInit e s = (ok, s1)" by fastforce
    note i1 = init_ok[OF i assms(2,3)]
    obtain es1 where es1: "udp_adds s s1 es1" "filter is_send es1 = []" "ok \<and> s_udp_reset_requested s \<longrightarrow> list_ex is_open es1"
      using init_adds[OF i assms(2,3)] by blast
    show ?thesis
    proof (cases ok)
      case False
      then have "v = -1" "s' = s1" using assms(1) i ne by (simp_all add: udpStreamSend_def)
      then show ?thesis using i1 es1 no_stale_send_append[OF es1(2), of "[]"] by auto
    next
      case True
      define s2 where "s2 = (fold udp_other between s1)\<lparr> s_udp_mutex := True, udp_held := True \<rparr>"
      define s3 where "s3 = udpApplyPendingResetLocked s2"
      have t2: "udp_trace s2 = udp_trace s1" "udp_ok s2" "s_udp_mutex s2" "udp_held s2"
        using others_fields[of between s1] i1 by (auto simp: s2_def)
      then have s3: "udp_ok s3" "s_udp_mutex s3" "udp_held s3" by (simp_all add: s3_def)
      obtain es2 where es2: "udp_adds s1 s3 es2" "filter is_send es2 = []"
        using apply_adds[of s2] t2(1) by (auto simp: udp_adds_def s3_def)
      have m: "s_udp_mutex (fold udp_other between s1)" using others_fields i1 True by blast
      have r: "(if \<not> (s_udp_enabled s3 \<and> s_udp_connected s3) then (-1, udpUnlock s3)
          else udp_send_loop env payload [0..<UDP_SEND_RETRY_COUNT] s3) = (v, s')"
        using assms(1) ne True unfolding udpStreamSend_def i prod.case
        by (auto simp: lock_free m s2_def[symmetric] Let_def s3_def split: if_splits)
      obtain es3 where es3: "udp_adds s3 s' es3" "length (filter is_send es3) \<le> 8"
        and fin: "udp_ok s' \<and> \<not> udp_held s' \<and> (v = -1 \<or> v = int (length payload))"
      proof (cases "s_udp_enabled s3 \<and> s_udp_connected s3")
        case False
        then show thesis using r s3 that[of "[]"] by (auto simp: udp_adds_def)
      next
        case True
        then have "udp_live s3" using s3 by (simp add: udp_live_def)
        moreover have "udp_send_loop env payload [0..<UDP_SEND_RETRY_COUNT] s3 = (v, s')" using r True by simp
        ultimately show thesis using send_loop[of env payload "[0..<UDP_SEND_RETRY_COUNT]" s3 v s'] that
          by (auto simp: UDP_SEND_RETRY_COUNT_def)
      qed
      have "udp_adds s s' (es1 @ es2 @ es3)" using es1(1) es2(1) es3(1) by (simp add: udp_adds_def)
      moreover have "s_udp_reset_requested s \<longrightarrow> no_stale_send (es1 @ es2 @ es3)"
        using es1 True no_stale_send_append by blast
      ultimately show ?thesis using fin es1(2) es2(2) es3(2) by (auto intro!: exI[of _ "es1 @ es2 @ es3"])
    qed
  qed
  then show "udp_ok s' \<and> \<not> udp_held s'" "v = -1 \<or> v = int (length payload)"
    "\<exists>es. udp_adds s s' es \<and> length (filter is_send es) \<le> 8 \<and> (s_udp_reset_requested s \<longrightarrow> no_stale_send es)" by simp_all
qed

section \<open>Properties\<close>

inductive udp_reach :: "udp \<Rightarrow> bool" where
  start: "udp_reach udp_start"
| init: "udp_reach s \<Longrightarrow> udp_reach (snd (udpStreamInit e s))"
| send: "udp_reach s \<Longrightarrow> udp_reach (snd (udpStreamSend e between env payload s))"
| request: "udp_reach s \<Longrightarrow> udp_reach (udpStreamRequestReset create s)"
| reset: "udp_reach s \<Longrightarrow> udp_reach (udpStreamReset create s)"
| defer_init: "udp_reach s \<Longrightarrow> udp_reach (udpStreamDeferInit create now ms s)"
| ready: "udp_reach s \<Longrightarrow> udp_reach (snd (udpStreamIsReady create s))"
| congested: "udp_reach s \<Longrightarrow> udp_reach (snd (udpStreamIsCongested create now s))"
| connected_once: "udp_reach s \<Longrightarrow> udp_reach (snd (udpStreamHasConnectedOnce create s))"

lemma udp_reach_ok: "udp_reach s \<Longrightarrow> udp_ok s \<and> \<not> udp_held s"
proof (induction rule: udp_reach.induct)
  case (init s e)
  then show ?case using init_ok[of e s "fst (udpStreamInit e s)" "snd (udpStreamInit e s)"] by simp
next
  case (send s e between env payload)
  then show ?case
    using send_call(1)[of e between env payload s "fst (udpStreamSend e between env payload s)" "snd (udpStreamSend e between env payload s)"]
    by simp
next
  case (request s create)
  then show ?case by (cases "s_udp_mutex s \<or> create") (auto simp: udpStreamRequestReset_def udp_small_defs udp_ok_def split: prod.split)
next
  case (reset s create)
  then show ?case
    by (cases "s_udp_mutex s \<or> create") (auto simp: udpStreamReset_def lock_free, auto simp: udp_ok_def)
next
  case (defer_init s create now ms)
  then show ?case by (cases "s_udp_mutex s \<or> create") (auto simp: udpStreamDeferInit_def lock_free)
next
  case (ready s create)
  then show ?case by (cases "s_udp_mutex s \<or> create") (auto simp: udpStreamIsReady_def lock_free Let_def)
next
  case (congested s create now)
  then show ?case by (cases "s_udp_mutex s \<or> create") (auto simp: udpStreamIsCongested_def lock_free)
next
  case (connected_once s create)
  then show ?case by (cases "s_udp_mutex s \<or> create") (auto simp: udpStreamHasConnectedOnce_def lock_free)
qed (use udp_ok_start in \<open>simp_all add: udp_start_def\<close>)

lemma disconnected_ok: "udp_ok s \<Longrightarrow> udp_ok (s\<lparr> s_udp_enabled := False, s_udp_connected := False \<rparr>)"
  by (simp add: udp_ok_def)

definition attempt_quiet :: "udp_attempt \<Rightarrow> bool" where
  "attempt_quiet a \<longleftrightarrow> others_wait a = [] \<and> others_retry a = [] \<and> \<not> held_request a"

definition attempt_congested :: "udp_attempt \<Rightarrow> bool" where
  "attempt_congested a \<longleftrightarrow> send_ret a < 0 \<and> congestion_errno (send_errno a)"

lemma wait_quiet:
  assumes "udp_live s" and "\<not> s_udp_reset_requested s"
  shows "\<exists>s'. udpWaitUntilLocked now t [] s = (True, s') \<and> udp_live s' \<and> \<not> s_udp_reset_requested s' \<and>
    s_udp_sock s' = s_udp_sock s \<and> (\<exists>es. udp_adds s s' es \<and> filter is_send es = [])"
  using assms unfolding udpWaitUntilLocked_def Let_def by (auto simp: delay_quiet udp_adds_def) (auto simp: udp_emit_def)

lemma attempt_congested_quiet:
  assumes "udp_live s" and "\<not> s_udp_reset_requested s" and "attempt_quiet a" and "attempt_congested a"
  shows "\<exists>s'. udp_attempt_send a p k s = (if k + 1 < 8 then None else Some (-1), s') \<and>
    (if k + 1 < 8 then udp_live s' else s_udp_enabled s' \<and> s_udp_connected s') \<and> \<not> s_udp_reset_requested s' \<and>
    s_udp_sock s' = s_udp_sock s \<and> (\<exists>es. udp_adds s s' es \<and> filter is_send es = [SockSend (s_udp_sock s) p])"
proof -
  define s1 where "s1 = (after_send a p s)\<lparr> s_udp_tx_congested_until_us := now_after a + UDP_TX_CONGESTION_HOLD_US \<rparr>"
  have s1: "udp_live s1" "\<not> s_udp_reset_requested s1" "s_udp_sock s1 = s_udp_sock s"
    "udp_trace s1 = udp_trace s @ [SockSend (s_udp_sock s) p]"
    using after_send[OF assms(1), of a p] assms(2,3) by (auto simp: s1_def attempt_quiet_def)
  have e: "udp_attempt_send a p k s = (if k + 1 \<ge> 8 then (Some (-1), udpUnlock s1)
     else case udpDelayAndRelock (retry_delay_ticks (send_errno a) k) [] s1 of (ok, s) \<Rightarrow> (if ok then None else Some (-1), s))"
    using assms(3,4) by (simp add: attempt_send_eq Let_def s1_def attempt_quiet_def attempt_congested_def UDP_SEND_RETRY_COUNT_def)
  show ?thesis
  proof (cases "k + 1 < 8")
    case True
    then show ?thesis using s1 unfolding e by (simp add: delay_quiet) (simp add: udp_adds_def udp_emit_def)
  next
    case False
    then show ?thesis using s1 unfolding e by (simp add: udpUnlock_def udp_adds_def udp_live_def)
  qed
qed

lemma send_loop_congested:
  assumes "udp_live s" and "\<not> s_udp_reset_requested s" and "\<And>k. k \<in> set xs \<Longrightarrow> attempt_quiet (env k) \<and> attempt_congested (env k) \<and> k + 1 < 8"
  shows "\<exists>s1. udp_send_loop env p (xs @ ys) s = udp_send_loop env p ys s1 \<and> udp_live s1 \<and> \<not> s_udp_reset_requested s1 \<and>
    s_udp_sock s1 = s_udp_sock s \<and> (\<exists>es. udp_adds s s1 es \<and> filter is_send es = replicate (length xs) (SockSend (s_udp_sock s) p))"
  using assms
proof (induction xs arbitrary: s)
  case Nil
  then show ?case by (auto simp: udp_adds_def)
next
  case (Cons k xs)
  have q: "attempt_quiet (env k)" "attempt_congested (env k)" "k + 1 < 8" using Cons.prems(3)[of k] by simp_all
  obtain s1 es1 where w: "udpWaitUntilLocked (now_wait (env k)) (udp_wait_until s) (others_wait (env k)) s = (True, s1)" "udp_live s1"
      "\<not> s_udp_reset_requested s1" "s_udp_sock s1 = s_udp_sock s" "udp_adds s s1 es1" "filter is_send es1 = []"
    using wait_quiet[OF Cons.prems(1,2)] q(1) unfolding attempt_quiet_def by metis
  obtain s2 es2 where a: "udp_attempt_send (env k) p k s1 = (None, s2)" "udp_live s2" "\<not> s_udp_reset_requested s2"
      "s_udp_sock s2 = s_udp_sock s" "udp_adds s1 s2 es2" "filter is_send es2 = [SockSend (s_udp_sock s) p]"
    using attempt_congested_quiet[OF w(2,3) q(1,2), of p k] q(3) w(4) by auto
  obtain s3 es3 where l: "udp_send_loop env p (xs @ ys) s2 = udp_send_loop env p ys s3" "udp_live s3" "\<not> s_udp_reset_requested s3"
      "s_udp_sock s3 = s_udp_sock s" "udp_adds s2 s3 es3" "filter is_send es3 = replicate (length xs) (SockSend (s_udp_sock s) p)"
    using Cons.IH[OF a(2,3)] Cons.prems(3) a(4) by auto
  have "udp_adds s s3 (es1 @ es2 @ es3)" using w(5) a(5) l(5) by (simp add: udp_adds_def)
  then show ?case using w a l by (intro exI[of _ s3]) (auto intro!: exI[of _ "es1 @ es2 @ es3"])
qed

lemma attempt_delivers:
  assumes "udp_live s" and "\<not> s_udp_reset_requested s" and "attempt_quiet a" and "send_ret a = int (length p)"
  shows "\<exists>s'. udp_attempt_send a p k s = (Some (int (length p)), s') \<and> s_udp_enabled s' \<and> s_udp_connected s' \<and>
    (\<exists>es. udp_adds s s' es \<and> filter is_send es = [SockSend (s_udp_sock s) p])"
proof -
  have "udp_live (after_send a p s)" "udp_trace (after_send a p s) = udp_trace s @ [SockSend (s_udp_sock s) p]"
    using after_send[OF assms(1), of a p] assms(2,3) by auto
  then show ?thesis using assms(3,4)
    by (simp add: attempt_send_eq Let_def udpUnlock_def udp_live_def udp_adds_def)
qed

lemma send_connected:
  assumes "udp_ok s" and "s_udp_mutex s" and "s_udp_enabled s" and "s_udp_connected s" and "\<not> s_udp_reset_requested s"
    and "\<not> udp_held s" and "payload \<noteq> []"
  shows "udpStreamSend e [] env payload s = udp_send_loop env payload [0..<8] (s\<lparr> udp_held := True \<rparr>)"
    and "udp_live (s\<lparr> udp_held := True \<rparr>)"
proof -
  have sm: "s\<lparr> s_udp_mutex := True, udp_held := True \<rparr> = s\<lparr> udp_held := True \<rparr>"
    "udpUnlock (s\<lparr> udp_held := True \<rparr>) = s" using assms(2,6) by (cases s, simp add: udpUnlock_def)+
  have "udpStreamInit e s = (True, s)"
    using assms by (simp add: udpStreamInit_def lock_free sm udpApplyPendingResetLocked_def Let_def)
  then show "udpStreamSend e [] env payload s = udp_send_loop env payload [0..<8] (s\<lparr> udp_held := True \<rparr>)"
    using assms by (simp add: udpStreamSend_def lock_free sm udpApplyPendingResetLocked_def Let_def UDP_SEND_RETRY_COUNT_def
        del: upt_rec_numeral)
  show "udp_live (s\<lparr> udp_held := True \<rparr>)" using assms by (simp add: udp_live_def)
qed

text \<open>The UDP sender never leaks a socket and never uses one that is not open, the mutex is free after every
  operation, and every call of udpStreamSend hands at most eight datagrams to the network and returns
  the length of the payload or -1, for all answers of the network and all requests of other tasks.\<close>

theorem udp_sender_safe:
  assumes "udp_reach s"
  shows "open_socket (udp_trace s) = Some (if s_udp_sock s \<ge> 0 then Some (s_udp_sock s) else None) \<and> \<not> udp_held s \<and>
    (case udpStreamSend e between env payload s of (v, s') \<Rightarrow>
       v \<in> {-1, int (length payload)} \<and>
       (\<exists>es. udp_trace s' = udp_trace s @ es \<and> length (filter is_send es) \<le> 8))"
  using udp_reach_ok[OF assms] send_call[of e between env payload s "fst (udpStreamSend e between env payload s)"
      "snd (udpStreamSend e between env payload s)"]
  by (auto simp: udp_ok_def udp_adds_def case_prod_beta)

definition test_init :: init_env where
  "test_init = \<lparr> mutex_created = True, config_valid = True, now_check = 0, now_failed = 0, now_connected = 5,
     resolved = Some [(-1, True), (3, False), (4, True)], early_request = False, late_request = False \<rparr>"

definition test_udp :: udp where
  "test_udp = \<lparr> s_udp_sock = 4, s_udp_mutex = True, s_udp_enabled = True, s_udp_connected = True,
     s_udp_ever_connected = True, s_udp_reset_requested = False, s_udp_send_ready_after_us = 20005,
     s_udp_tx_congested_until_us = 0, s_udp_retry_after_us = 0, udp_held = False,
     udp_trace = [SockOpen 3, SockClose 3, SockOpen 4] \<rparr>"

lemma test_udp_reach: "udp_reach test_udp"
proof -
  have "snd (udpStreamInit test_init udp_start) = test_udp" by code_simp
  then show ?thesis using udp_reach.init[OF udp_reach.start, of test_init] by simp
qed

lemma udp_sender_safe_witness:
  "open_socket (udp_trace test_udp) = Some (Some 4) \<and> \<not> udp_held test_udp"
  using udp_sender_safe[OF test_udp_reach] by (simp add: test_udp_def)

text \<open>C32: A requested reset is honoured: after a request, whatever other requests follow, a call of
  udpStreamSend sends no datagram before it has opened a new socket, so nothing goes out on the
  connection of before the Wi-Fi loss.\<close>

theorem udp_reset_honoured:
  assumes "udp_reach s"
  shows "case udpStreamSend e between env payload (fold udp_other others (udpStreamRequestReset create s)) of
    (v, s') \<Rightarrow> \<exists>es. udp_trace s' = udp_trace s @ es \<and> no_stale_send es"
proof -
  let ?s = "fold udp_other others (udpStreamRequestReset create s)"
  have r: "udp_ok (udpStreamRequestReset create s)" "\<not> udp_held (udpStreamRequestReset create s)"
    using udp_reach_ok[OF udp_reach.request[OF assms]] by simp_all
  have flag: "s_udp_reset_requested (udpStreamRequestReset create s)" "udp_trace (udpStreamRequestReset create s) = udp_trace s"
    by (auto simp: udp_small_defs split: prod.split bool.split)
  have "s_udp_reset_requested ?s" "udp_trace ?s = udp_trace s" "udp_ok ?s" "\<not> udp_held ?s"
    using others_fields[of others "udpStreamRequestReset create s"] flag r by auto
  then show ?thesis
    using send_call(3)[of e between env payload ?s "fst (udpStreamSend e between env payload ?s)" "snd (udpStreamSend e between env payload ?s)"]
    by (auto simp: udp_adds_def case_prod_beta)
qed

definition test_attempt :: "int \<Rightarrow> udp_errno \<Rightarrow> udp_attempt" where
  "test_attempt ret err = \<lparr> now_wait = 100000, others_wait = [], now_clear = 100000, held_request = False, send_ret = ret,
     send_errno = err, now_after = 100000, others_retry = [] \<rparr>"

lemma udp_reset_honoured_witness:
  "\<exists>es. udp_trace (snd (udpStreamSend test_init [] (\<lambda>_. test_attempt 2 EAGAIN) [1, 2]
      (udpStreamRequestReset True test_udp))) = udp_trace test_udp @ es \<and> no_stale_send es"
  using udp_reset_honoured[OF test_udp_reach, of test_init "[]" "\<lambda>_. test_attempt 2 EAGAIN" "[1, 2]" "[]" True]
  by (simp add: case_prod_beta)

text \<open>On a congested link the sender tries again: on a connected stream with no reset request, if the first k attempts
  are refused for lack of buffers and the next one is accepted, the call returns the length of the payload
  after exactly k + 1 datagrams on the same socket; if all eight are refused it returns -1 after eight. The
  stream stays connected in both cases.\<close>

theorem udp_retries:
  assumes "udp_reach s" and "s_udp_mutex s" and "s_udp_enabled s" and "s_udp_connected s" and "\<not> s_udp_reset_requested s"
    and "payload \<noteq> []" and congested: "\<And>i. i < k \<Longrightarrow> i < 8 \<Longrightarrow> attempt_quiet (env i) \<and> attempt_congested (env i)"
    and accepted: "k < 8 \<Longrightarrow> attempt_quiet (env k) \<and> send_ret (env k) = int (length payload)"
  shows "case udpStreamSend e [] env payload s of (v, s') \<Rightarrow>
    v = (if k < 8 then int (length payload) else -1) \<and> s_udp_enabled s' \<and> s_udp_connected s' \<and>
    (\<exists>es. udp_trace s' = udp_trace s @ es \<and> filter is_send es = replicate (min (Suc k) 8) (SockSend (s_udp_sock s) payload))"
proof -
  let ?s = "s\<lparr> udp_held := True \<rparr>" and ?n = "min k 7"
  have ok: "udp_ok s" "\<not> udp_held s" using udp_reach_ok[OF assms(1)] by simp_all
  note call = send_connected[OF ok(1) assms(2-5) ok(2) assms(6)]
  have split: "[0..<8] = [0..<?n] @ ?n # [Suc ?n..<8]"
    using upt_add_eq_append[of 0 ?n "8 - ?n"] upt_conv_Cons[of ?n 8] by (simp del: upt_rec_numeral)
  obtain s1 es1 where l: "udp_send_loop env payload [0..<8] ?s = udp_send_loop env payload (?n # [Suc ?n..<8]) s1" "udp_live s1"
      "\<not> s_udp_reset_requested s1" "s_udp_sock s1 = s_udp_sock s" "udp_adds ?s s1 es1"
      "filter is_send es1 = replicate ?n (SockSend (s_udp_sock s) payload)"
    using send_loop_congested[of ?s "[0..<?n]" env payload "?n # [Suc ?n..<8]"] call(2) assms(5) congested split by auto
  have q: "attempt_quiet (env ?n)" using congested[of 7] accepted by (cases "k < 8") (auto simp: min_def)
  obtain s2 es2 where w: "udpWaitUntilLocked (now_wait (env ?n)) (udp_wait_until s1) (others_wait (env ?n)) s1 = (True, s2)"
      "udp_live s2" "\<not> s_udp_reset_requested s2" "s_udp_sock s2 = s_udp_sock s" "udp_adds s1 s2 es2" "filter is_send es2 = []"
    using wait_quiet[OF l(2,3)] q l(4) unfolding attempt_quiet_def by metis
  obtain v s3 es3 where a: "udp_attempt_send (env ?n) payload ?n s2 = (Some v, s3)" "v = (if k < 8 then int (length payload) else -1)"
      "s_udp_enabled s3" "s_udp_connected s3" "udp_adds s2 s3 es3" "filter is_send es3 = [SockSend (s_udp_sock s) payload]"
  proof (cases "k < 8")
    case True
    then have "?n = k" by simp
    with True show thesis using that attempt_delivers[OF w(2,3) q, of payload k] accepted w(4) by auto
  next
    case False
    then have "?n = 7" by simp
    with False show thesis using that attempt_congested_quiet[OF w(2,3) q, of payload 7] congested[of 7] w(4) by auto
  qed
  have "udp_adds s s3 (es1 @ es2 @ es3)" using l(5) w(5) a(5) by (simp add: udp_adds_def)
  moreover have "filter is_send (es1 @ es2 @ es3) = replicate (min (Suc k) 8) (SockSend (s_udp_sock s) payload)"
  proof -
    have "min (Suc k) 8 = Suc ?n" by simp
    then show ?thesis using l(6) w(6) a(6) by (simp add: replicate_append_same)
  qed
  moreover have "udpStreamSend e [] env payload s = (v, s3)"
    using call(1) l(1) w(1) a(1) by simp
  ultimately show ?thesis using a by (auto simp: udp_adds_def)
qed

lemma udp_retries_witness:
  "fst (udpStreamSend test_init [] (\<lambda>i. if i = 2 then test_attempt 2 EAGAIN else test_attempt (-1) ENOMEM) [1, 2] test_udp) = 2"
  using udp_retries[OF test_udp_reach, of "[1, 2]" 2 "\<lambda>i. if i = 2 then test_attempt 2 EAGAIN else test_attempt (-1) ENOMEM" test_init]
  by (simp add: test_udp_def test_attempt_def attempt_quiet_def attempt_congested_def congestion_errno_def case_prod_beta)

text \<open>The growing delay after \<^verbatim>\<open>ENOMEM\<close> does not grow: eight milliseconds are no tick at 100 Hz.\<close>

lemma enomem_backoff_flat: "UDP_SEND_ENOMEM_BASE_DELAY_TICKS = 0" "retry_delay_ticks ENOMEM attempt = 0"
  by (simp_all add: UDP_SEND_ENOMEM_BASE_DELAY_TICKS_def pdMS_TO_TICKS_def configTICK_RATE_HZ_def retry_delay_ticks_def)

end
