(* ===== verification/EspMain.thy ===== *)
theory EspMain imports CmdUart UdpStreamSpec begin

text \<open>
  Start-up and Wi-Fi handling of the ESP32 (main.c, mqtt/wifi.c): the order in which the parts are
  initialised and the tasks created, and the event handler that couples the Wi-Fi connection to
  the MQTT client and the UDP sender. The state joins those of the components; calls into the
  operating system are recorded in \<open>esp_calls\<close>, their answers are inputs. A failing call under
  \<^verbatim>\<open>ESP_ERROR_CHECK\<close> aborts the program.
\<close>

section \<open>State\<close>

datatype wifi_call =
    WifiInit | RegisterWifiEvents | RegisterIpEvents | SetMode | SetConfig | SetPowerSaveNone | WifiStart
  | SetBandMode5G | SetProtocols | SetBandwidths | WifiConnectCall

datatype esp_call =
    NvsErase
  | FlushInput
  | TaskCreate string bool
  | WifiCall wifi_call

record 'q esp =
  esp_gw :: "'q gw"
  esp_udp :: udp
  esp_link :: link
  s_wifi_connected :: bool
  esp_calls :: "esp_call list"

definition esp_reset :: "'q esp" where
  "esp_reset = \<lparr> esp_gw = gw_reset, esp_udp = udp_start, esp_link = link_reset, s_wifi_connected = False, esp_calls = [] \<rparr>"

definition esp_call :: "esp_call \<Rightarrow> 'q esp \<Rightarrow> 'q esp" where
  "esp_call c s = s\<lparr> esp_calls := esp_calls s @ [c] \<rparr>"

section \<open>Wi-Fi events\<close>

datatype wifi_event =
    WIFI_EVENT_STA_START
  | WIFI_EVENT_STA_DISCONNECTED
  | OTHER_WIFI_EVENT
  | IP_EVENT_STA_GOT_IP int
  | OTHER_IP_EVENT
  | OTHER_EVENT_BASE

text \<open>The answers: of \<^verbatim>\<open>esp_mqtt_client_init\<close> and of \<^verbatim>\<open>xSemaphoreCreateMutex\<close>; the event carries the clock.\<close>

record wifi_env =
  stream_config :: stream_cfg
  broker_uri :: string
  client_init_ok :: bool
  udp_mutex_ok :: bool

fun wifiEventHandler :: "wifi_env \<Rightarrow> wifi_event \<Rightarrow> 'q esp \<Rightarrow> 'q esp" where
  "wifiEventHandler e WIFI_EVENT_STA_DISCONNECTED s =
     esp_call (WifiCall WifiConnectCall)
       (s\<lparr> s_wifi_connected := False, esp_udp := udpStreamRequestReset (udp_mutex_ok e) (esp_udp s) \<rparr>)"
| "wifiEventHandler e (IP_EVENT_STA_GOT_IP now) s =
     (let s = esp_call FlushInput (s\<lparr> s_wifi_connected := True \<rparr>);
          mode = APP_FRAME_STREAM_MODE (stream_config e);
          s = (if mode \<noteq> FRAME_STREAM_MODE_UDP_ONLY
               then s\<lparr> esp_gw := snd (mqttClient (broker_uri e) (client_init_ok e) (esp_gw s)) \<rparr> else s)
      in if mode = FRAME_STREAM_MODE_BOTH \<or> mode = FRAME_STREAM_MODE_UDP_FRAME_MQTT_CONTROL
         then s\<lparr> esp_udp := udpStreamDeferInit (udp_mutex_ok e) now 3000 (esp_udp s) \<rparr> else s)"
| "wifiEventHandler e _ s = s"

definition wifiIsConnected :: "'q esp \<Rightarrow> bool" where
  "wifiIsConnected s = s_wifi_connected s"

section \<open>Start-up\<close>

text \<open>Calls under \<^verbatim>\<open>ESP_ERROR_CHECK\<close>, in order, until one fails.\<close>

fun checked_calls :: "(wifi_call \<Rightarrow> bool) \<Rightarrow> wifi_call list \<Rightarrow> 'q esp \<Rightarrow> bool \<times> 'q esp" where
  "checked_calls ok [] s = (True, s)"
| "checked_calls ok (c # cs) s =
     (let s = esp_call (WifiCall c) s in if ok c then checked_calls ok cs s else (False, s))"

definition wifiConfigureBandMode :: "bool \<Rightarrow> wifi_call list" where
  "wifiConfigureBandMode support_5g = (if support_5g then [SetBandMode5G, SetProtocols, SetBandwidths] else [])"

definition wifiConnect :: "(wifi_call \<Rightarrow> bool) \<Rightarrow> bool \<Rightarrow> 'q esp \<Rightarrow> bool \<times> 'q esp" where
  "wifiConnect ok support_5g s =
     checked_calls ok ([WifiInit, RegisterWifiEvents, RegisterIpEvents, SetMode, SetConfig, SetPowerSaveNone, WifiStart] @
       wifiConfigureBandMode support_5g @ [WifiConnectCall]) s"

datatype nvs_result = NVS_OK | ESP_ERR_NVS_NO_FREE_PAGES | ESP_ERR_NVS_NEW_VERSION_FOUND | NVS_OTHER

definition systemInit :: "nvs_result \<Rightarrow> nvs_result \<Rightarrow> bool \<Rightarrow> bool \<Rightarrow> 'q esp \<Rightarrow> bool \<times> 'q esp" where
  "systemInit nvs1 nvs2 netif_ok loop_ok s =
     (case (if nvs1 = ESP_ERR_NVS_NO_FREE_PAGES \<or> nvs1 = ESP_ERR_NVS_NEW_VERSION_FOUND
            then (nvs2, esp_call NvsErase s) else (nvs1, s)) of
        (ret, s) \<Rightarrow> (ret = NVS_OK \<and> netif_ok \<and> loop_ok, s))"

record 'q boot_env =
  nvs_first :: nvs_result
  nvs_second :: nvs_result
  netif_init_ok :: bool
  event_loop_ok :: bool
  APP_WIFI_SSID :: string
  APP_WIFI_PASS :: string
  frame_mallocs :: "bytes option list"
  rx_dma_ok :: bool
  tx_dma_ok :: bool
  frame_mutex_ok :: bool
  uart_param_config :: esp_err
  uart_set_pin :: esp_err
  uart_driver_install :: esp_err
  cmd_queue_create :: "'q option"
  task_create_ok :: "string \<Rightarrow> bool"
  wifi_ok :: "wifi_call \<Rightarrow> bool"
  soc_wifi_5g :: bool

definition create_task :: "'q boot_env \<Rightarrow> string \<Rightarrow> 'q esp \<Rightarrow> 'q esp" where
  "create_task e name s = esp_call (TaskCreate name (task_create_ok e name)) s"

text \<open>\<^verbatim>\<open>app_main\<close>: the result is \<open>False\<close> when a checked call failed and the program aborted.\<close>

definition app_main :: "'q boot_env \<Rightarrow> 'q esp \<Rightarrow> bool \<times> 'q esp" where
  "app_main e s =
     (case systemInit (nvs_first e) (nvs_second e) (netif_init_ok e) (event_loop_ok e) s of
        (False, s) \<Rightarrow> (False, s)
      | (True, s) \<Rightarrow>
        if length (APP_WIFI_SSID e) = 0 \<or> length (APP_WIFI_PASS e) = 0 then (True, s)
        else
          let s = s\<lparr> esp_link := frameLinkInit (frame_mallocs e) (rx_dma_ok e) (tx_dma_ok e) (frame_mutex_ok e) (esp_link s) \<rparr>
          in case cmdUartInit (uart_param_config e) (uart_set_pin e) (uart_driver_install e) (cmd_queue_create e) (esp_gw s) of
            (ret, installed, gw) \<Rightarrow>
              let s = s\<lparr> esp_gw := gw \<rparr>;
                  s = (if ret = ESP_OK then esp_call FlushInput s else s);
                  s = create_task e ''mqtt_health'' (create_task e ''mqtt_frame'' (create_task e ''frame_link'' s));
                  s = (if ret = ESP_OK then create_task e ''stm32_uart'' s else s)
              in wifiConnect (wifi_ok e) (soc_wifi_5g e) s)"

end
