(* ===== verification/EspMainSpec.thy ===== *)
theory EspMainSpec imports EspMain begin

text \<open>
  Properties of the ESP32 start-up and of the Wi-Fi event handler with the UDP sender: no stream
  before the tasks' resources exist, and a hold-off of three seconds after a reconnection.
\<close>

section \<open>The hold-off after a reconnection\<close>

definition udp_holdoff :: "int \<Rightarrow> udp \<Rightarrow> bool" where
  "udp_holdoff T s \<longleftrightarrow> udp_ok s \<and> \<not> udp_held s \<and> s_udp_retry_after_us s = T \<and>
     (s_udp_reset_requested s \<or> \<not> (s_udp_enabled s \<and> s_udp_connected s))"

lemma reset_keeps [simp]:
  "s_udp_retry_after_us (udpResetLocked s) = s_udp_retry_after_us s"
  "s_udp_retry_after_us (udpUnlock s) = s_udp_retry_after_us s"
  "s_udp_enabled (udpUnlock s) = s_udp_enabled s" "s_udp_connected (udpUnlock s) = s_udp_connected s"
  "s_udp_reset_requested (udpUnlock s) = s_udp_reset_requested s" "s_udp_sock (udpUnlock s) = s_udp_sock s"
  by (simp_all add: udp_small_defs)

lemma apply_pending:
  assumes "udp_holdoff T s"
  shows "\<not> (s_udp_enabled (udpApplyPendingResetLocked (s\<lparr> s_udp_mutex := True, udp_held := True \<rparr>)) \<and>
      s_udp_connected (udpApplyPendingResetLocked (s\<lparr> s_udp_mutex := True, udp_held := True \<rparr>)))"
    and "s_udp_retry_after_us (udpApplyPendingResetLocked (s\<lparr> s_udp_mutex := True, udp_held := True \<rparr>)) = T"
  using assms by (auto simp: udp_holdoff_def udpApplyPendingResetLocked_def)

lemma apply_silent:
  "\<exists>es. udp_trace (udpApplyPendingResetLocked s) = udp_trace s @ es \<and> filter is_send es = [] \<and> filter is_open es = []"
  by (auto simp: udp_small_defs)

lemma init_holdoff:
  assumes "udp_holdoff T s" and "T \<noteq> 0" and "now_check e < T"
  shows "\<exists>s' es. udpStreamInit e s = (False, s') \<and> udp_holdoff T s' \<and> udp_trace s' = udp_trace s @ es \<and>
    filter is_send es = [] \<and> filter is_open es = []"
proof (cases "s_udp_mutex s \<or> mutex_created e")
  case False
  then show ?thesis using assms(1) by (auto simp: udpStreamInit_def lock_free)
next
  case True
  define s1 where "s1 = udpApplyPendingResetLocked (s\<lparr> s_udp_mutex := True, udp_held := True \<rparr>)"
  have s1: "\<not> (s_udp_enabled s1 \<and> s_udp_connected s1)" "s_udp_retry_after_us s1 = T"
    using apply_pending[OF assms(1)] by (simp_all add: s1_def)
  have "udpStreamInit e s = (False, udpUnlock s1)"
    unfolding udpStreamInit_def lock_free(1)[OF True] Let_def prod.case bool.case s1_def[symmetric]
    using s1 assms(2,3) by auto
  moreover have "udp_ok s1" "s_udp_mutex s1" using assms(1) by (auto simp: s1_def udp_holdoff_def)
  ultimately show ?thesis using s1 apply_silent[of "s\<lparr> s_udp_mutex := True, udp_held := True \<rparr>"]
    by (auto simp: udp_holdoff_def s1_def)
qed

text \<open>Calls of \<^verbatim>\<open>udpStreamSend\<close> in a row, with their results.\<close>

type_synonym send_call = "init_env \<times> udp_request list \<times> (nat \<Rightarrow> udp_attempt) \<times> bytes"

fun udp_sends :: "send_call list \<Rightarrow> udp \<Rightarrow> int list \<times> udp" where
  "udp_sends [] s = ([], s)"
| "udp_sends ((e, between, env, payload) # cs) s =
     (case udpStreamSend e between env payload s of (v, s) \<Rightarrow> case udp_sends cs s of (vs, s) \<Rightarrow> (v # vs, s))"

lemma sends_holdoff:
  assumes "udp_holdoff T s" and "T \<noteq> 0" and "\<And>e b env p. (e, b, env, p) \<in> set cs \<Longrightarrow> now_check e < T"
  shows "\<exists>s' es. udp_sends cs s = (replicate (length cs) (-1), s') \<and> udp_holdoff T s' \<and> udp_trace s' = udp_trace s @ es \<and>
    filter is_send es = [] \<and> filter is_open es = []"
  using assms
proof (induction cs arbitrary: s)
  case (Cons c cs)
  obtain e between env payload where c: "c = (e, between, env, payload)" by (cases c)
  obtain s1 es1 where s1: "udpStreamSend e between env payload s = (-1, s1)" "udp_holdoff T s1" "udp_trace s1 = udp_trace s @ es1"
      "filter is_send es1 = []" "filter is_open es1 = []"
    using init_holdoff[OF Cons.prems(1,2), of e] Cons.prems(1) Cons.prems(3)[of e between env payload]
    by (cases "payload = []") (auto simp: udpStreamSend_def c)
  obtain s2 es2 where s2: "udp_sends cs s1 = (replicate (length cs) (-1), s2)" "udp_holdoff T s2" "udp_trace s2 = udp_trace s1 @ es2"
      "filter is_send es2 = []" "filter is_open es2 = []"
    using Cons.IH[OF s1(2) Cons.prems(2)] Cons.prems(3) by fastforce
  show ?case using s1 s2 by (intro exI[of _ s2] exI[of _ "es1 @ es2"]) (simp add: c)
qed auto

text \<open>Once the time is over the stream connects anew.\<close>

lemma init_resumes:
  assumes "udp_holdoff T s" and "T \<le> now_check e" and "mutex_created e" and "config_valid e"
    and "resolved e = Some ((fd, True) # rps)" and "0 \<le> fd"
  shows "\<exists>s'. udpStreamInit e s = (True, s') \<and> s_udp_sock s' = fd \<and> s_udp_enabled s' \<and> s_udp_connected s'"
proof -
  define s1 where "s1 = udpApplyPendingResetLocked (s\<lparr> s_udp_mutex := True, udp_held := True \<rparr>)"
  have s1: "\<not> (s_udp_enabled s1 \<and> s_udp_connected s1)" "s_udp_retry_after_us s1 = T"
    using apply_pending[OF assms(1)] by (simp_all add: s1_def)
  define s2 where "s2 = udpResetLocked (request_while_held (early_request e) s1)"
  define s3 where "s3 = udp_emit (SockOpen fd) (s2\<lparr> s_udp_sock := fd \<rparr>)"
  have c: "udpConnectSocketLocked (resolved e) s2 = (True, s3)"
    using assms(5,6) by (simp add: udpConnectSocketLocked_def s3_def)
  have h: "udp_held s3" by (simp add: s3_def s2_def s1_def)
  have "udpStreamInit e s = (True, udpUnlock ((request_while_held (late_request e) s3)
      \<lparr> s_udp_retry_after_us := 0, s_udp_enabled := True, s_udp_connected := True, s_udp_ever_connected := True,
        s_udp_send_ready_after_us := now_connected e + int (unat UDP_SEND_POST_CONNECT_DELAY_TICKS) * 1000 * 10 \<rparr>))"
    unfolding udpStreamInit_def lock_free(1)[OF disjI2, OF assms(3)] Let_def prod.case bool.case s1_def[symmetric] s2_def[symmetric] c
    using s1 assms(2,4) by auto
  moreover have "s_udp_sock (request_while_held (late_request e) s3) = fd"
    using h by (simp add: s3_def) (simp add: udp_emit_def)
  ultimately show ?thesis by simp
qed

section \<open>Events\<close>

fun got_ip :: "wifi_event \<Rightarrow> bool" where
  "got_ip (IP_EVENT_STA_GOT_IP now) = True"
| "got_ip _ = False"

definition udp_pending :: "udp \<Rightarrow> bool" where
  "udp_pending s \<longleftrightarrow> udp_ok s \<and> \<not> udp_held s \<and> s_udp_reset_requested s"

lemma request_pending:
  assumes "udp_ok s" and "\<not> udp_held s"
  shows "udp_pending (udpStreamRequestReset c s)" "udp_trace (udpStreamRequestReset c s) = udp_trace s"
  using assms by (auto simp: udp_pending_def udp_small_defs udp_ok_def split: prod.split bool.split)

lemma defer_holdoff:
  assumes "udp_pending s"
  shows "udp_holdoff (now + 3000000) (udpStreamDeferInit c now 3000 s)" "udp_trace (udpStreamDeferInit c now 3000 s) = udp_trace s"
  using assms by (auto simp: udp_pending_def udp_holdoff_def udp_small_defs udp_ok_def split: prod.split bool.split)

lemma events_pending:
  assumes "list_all (\<lambda>ev. \<not> got_ip ev) evs" and "udp_pending (esp_udp s)"
  shows "udp_pending (esp_udp (fold (wifiEventHandler e) evs s)) \<and>
    udp_trace (esp_udp (fold (wifiEventHandler e) evs s)) = udp_trace (esp_udp s)"
  using assms
proof (induction evs arbitrary: s)
  case (Cons ev evs)
  have "udp_pending (esp_udp (wifiEventHandler e ev s)) \<and> udp_trace (esp_udp (wifiEventHandler e ev s)) = udp_trace (esp_udp s)"
    using Cons.prems request_pending[of "esp_udp s" "udp_mutex_ok e"]
    by (cases ev) (auto simp: esp_call_def udp_pending_def[of "esp_udp s"])
  then show ?case using Cons.IH[of "wifiEventHandler e ev s"] Cons.prems(1) by simp
qed simp


definition test_esp :: "cmd_uart_msg list esp" where
  "test_esp = esp_reset\<lparr> esp_udp := test_udp, s_wifi_connected := True \<rparr>"

definition test_wifi :: wifi_env where
  "test_wifi = \<lparr> stream_config = \<lparr> APP_FRAME_STREAM_MODE = FRAME_STREAM_MODE_UDP_FRAME_MQTT_CONTROL, APP_UDP_FRAME_8BIT = True,
     udp_config_valid = True \<rparr>, broker_uri = ''mqtts://broker'', client_init_ok = True, udp_mutex_ok = True \<rparr>"


section \<open>Start-up\<close>

fun is_wifi :: "esp_call \<Rightarrow> bool" where "is_wifi (WifiCall c) = True" | "is_wifi _ = False"
fun task_name :: "esp_call \<Rightarrow> string list" where "task_name (TaskCreate name ok) = [name]" | "task_name _ = []"

definition created_tasks :: "'q esp \<Rightarrow> string list" where
  "created_tasks s = concat (map task_name (esp_calls s))"

lemma checked_calls_trace:
  assumes "checked_calls ok cs s = (r, s')"
  shows "\<exists>n. esp_calls s' = esp_calls s @ map WifiCall (take n cs) \<and> (r \<longrightarrow> n = length cs)" and "esp_gw s' = esp_gw s"
proof -
  have "(\<exists>n. esp_calls s' = esp_calls s @ map WifiCall (take n cs) \<and> (r \<longrightarrow> n = length cs)) \<and> esp_gw s' = esp_gw s"
    using assms
  proof (induction ok cs s rule: checked_calls.induct)
    case (2 ok c cs s)
    show ?case
    proof (cases "ok c")
      case True
      from 2(1)[OF refl True] 2(2) True obtain n where
        "esp_calls s' = esp_calls (esp_call (WifiCall c) s) @ map WifiCall (take n cs)" "r \<longrightarrow> n = length cs" "esp_gw s' = esp_gw s"
        by (auto simp: esp_call_def)
      then show ?thesis by (intro conjI exI[of _ "Suc n"]) (simp_all add: esp_call_def)
    next
      case False
      then show ?thesis using 2(2) by (intro conjI exI[of _ 1]) (auto simp: esp_call_def)
    qed
  qed simp
  then show "\<exists>n. esp_calls s' = esp_calls s @ map WifiCall (take n cs) \<and> (r \<longrightarrow> n = length cs)" "esp_gw s' = esp_gw s" by simp_all
qed

lemma task_name_wifi: "concat (map task_name (map WifiCall cs)) = []"
  by (induction cs) simp_all

text \<open>The parts start in order: without Wi-Fi secrets or with a failed system initialisation no task is
  created and the radio is not touched; otherwise the three stream tasks are created, the serial task
  exactly when its queue exists, and the first Wi-Fi call, from which on events can arrive, comes after
  all of them.\<close>

theorem boot_order:
  fixes e :: "'q boot_env"
  shows "case app_main e esp_reset of (ok, s) \<Rightarrow>
    created_tasks s =
      (if fst (systemInit (nvs_first e) (nvs_second e) (netif_init_ok e) (event_loop_ok e) (esp_reset :: 'q esp)) \<and>
          APP_WIFI_SSID e \<noteq> [] \<and> APP_WIFI_PASS e \<noteq> []
       then [''frame_link'', ''mqtt_frame'', ''mqtt_health''] @
         (case g_cmd_uart_queue (esp_gw s) of None \<Rightarrow> [] | Some q \<Rightarrow> [''stm32_uart''])
       else []) \<and>
    (\<exists>xs ys. esp_calls s = xs @ map WifiCall ys \<and> list_all (\<lambda>c. \<not> is_wifi c) xs \<and> (if created_tasks s = [] then ys = [] else True))"
proof -
  obtain i s0 where si: "systemInit (nvs_first e) (nvs_second e) (netif_init_ok e) (event_loop_ok e) (esp_reset :: 'q esp) = (i, s0)"
    by fastforce
  then have s0: "esp_calls s0 \<in> {[], [NvsErase]}" "g_cmd_uart_queue (esp_gw s0) = None"
    by (auto simp: systemInit_def esp_reset_def esp_call_def gw_reset_def split: if_splits)
  show ?thesis
  proof (cases "i \<and> APP_WIFI_SSID e \<noteq> [] \<and> APP_WIFI_PASS e \<noteq> []")
    case False
    then have "app_main e esp_reset = (i, s0)" by (auto simp: app_main_def si split: bool.split)
    moreover have "created_tasks s0 = []" "list_all (\<lambda>c. \<not> is_wifi c) (esp_calls s0)"
      using s0(1) by (auto simp: created_tasks_def)
    ultimately show ?thesis using False by (auto simp: si intro!: exI[of _ "esp_calls s0"] exI[of _ "[]"])
  next
    case True
    define s1 where "s1 = s0\<lparr> esp_link := frameLinkInit (frame_mallocs e) (rx_dma_ok e) (tx_dma_ok e) (frame_mutex_ok e) (esp_link s0) \<rparr>"
    obtain ret inst gw where cu: "cmdUartInit (uart_param_config e) (uart_set_pin e) (uart_driver_install e) (cmd_queue_create e)
        (esp_gw s1) = (ret, inst, gw)" by (metis prod_cases3)
    have q: "(ret = ESP_OK) = (g_cmd_uart_queue gw \<noteq> None)"
      using cu s0(2) by (auto simp: cmdUartInit_def s1_def split: if_splits option.splits)
    define s2 where "s2 = (let s = s1\<lparr> esp_gw := gw \<rparr>; s = (if ret = ESP_OK then esp_call FlushInput s else s);
        s = create_task e ''mqtt_health'' (create_task e ''mqtt_frame'' (create_task e ''frame_link'' s))
      in if ret = ESP_OK then create_task e ''stm32_uart'' s else s)"
    have s2: "list_all (\<lambda>c. \<not> is_wifi c) (esp_calls s2)" "esp_gw s2 = gw"
        "concat (map task_name (esp_calls s2)) = [''frame_link'', ''mqtt_frame'', ''mqtt_health''] @ (if ret = ESP_OK then [''stm32_uart''] else [])"
      using s0(1) by (auto simp: s2_def s1_def Let_def create_task_def esp_call_def)
    obtain ok s3 where w: "wifiConnect (wifi_ok e) (soc_wifi_5g e) s2 = (ok, s3)" by fastforce
    have "app_main e esp_reset = (ok, s3)"
      using True w unfolding app_main_def si prod.case s2_def Let_def s1_def[symmetric] cu by simp
    moreover obtain ys where ys: "esp_calls s3 = esp_calls s2 @ map WifiCall ys" "esp_gw s3 = gw"
      using checked_calls_trace[OF w[unfolded wifiConnect_def]] s2(2) by auto
    moreover have "created_tasks s3 = concat (map task_name (esp_calls s2))"
      unfolding created_tasks_def ys(1) map_append concat_append task_name_wifi by simp
    ultimately show ?thesis using True s2(1,3) q by (auto simp: si split: option.split)
  qed
qed

end
