(* ===== verification/SortedMap.thy ===== *)
theory SortedMap imports FwPrelude begin

text \<open>
  The containers \<^verbatim>\<open>std::map\<close> and \<^verbatim>\<open>std::set\<close> of the C++ programs as lists of entries in ascending
  order of their keys, which is the order in which the programs walk them.
\<close>

definition smap :: "('k::linorder \<times> 'v) list \<Rightarrow> bool" where
  "smap m \<longleftrightarrow> sorted_wrt (<) (map fst m)"

fun smap_put :: "'k::linorder \<Rightarrow> 'v \<Rightarrow> ('k \<times> 'v) list \<Rightarrow> ('k \<times> 'v) list" where
  "smap_put k v [] = [(k, v)]"
| "smap_put k v ((k', v') # m) =
     (if k < k' then (k, v) # (k', v') # m else if k = k' then (k, v) # m else (k', v') # smap_put k v m)"

definition smap_erase :: "'k \<Rightarrow> ('k \<times> 'v) list \<Rightarrow> ('k \<times> 'v) list" where
  "smap_erase k m = filter (\<lambda>(k', v). k' \<noteq> k) m"

lemma smap_Nil [simp]: "smap []"
  by (simp add: smap_def)

lemma smap_Cons: "smap ((k, v) # m) \<longleftrightarrow> (\<forall>k'\<in>fst ` set m. k < k') \<and> smap m"
  by (auto simp: smap_def)

lemma smap_filter [simp, intro]: "smap m \<Longrightarrow> smap (filter P m)"
  by (induction m) (auto simp: smap_Cons)

lemma smap_erase_smap [simp, intro]: "smap m \<Longrightarrow> smap (smap_erase k m)"
  by (simp add: smap_erase_def)

lemma keys_put: "set (map fst (smap_put k v m)) = insert k (set (map fst m))"
  by (induction k v m rule: smap_put.induct) (simp_all add: insert_commute)

lemma fst_smap_put [simp]: "fst ` set (smap_put k v m) = insert k (fst ` set m)"
  using keys_put[of k v m] by simp

lemma smap_put_smap [simp, intro]: "smap m \<Longrightarrow> smap (smap_put k v m)"
proof (induction k v m rule: smap_put.induct)
  case (2 k v k' v' m)
  consider "k < k'" | "k = k'" | "k' < k" by fastforce
  then show ?case
  proof cases
    case 1
    then show ?thesis using "2.prems" by (fastforce simp: smap_Cons dest: less_trans)
  next
    case 3
    then have n: "\<not> k < k'" "k \<noteq> k'" by auto
    show ?thesis using 2(1)[OF n] "2.prems" 3 n by (simp add: smap_Cons)
  qed (use "2.prems" in \<open>simp add: smap_Cons\<close>)
qed (simp add: smap_Cons)

lemma map_of_put [simp]: "map_of (smap_put k v m) = (map_of m)(k \<mapsto> v)"
  by (induction m) auto

lemma map_of_erase [simp]: "map_of (smap_erase k m) = (map_of m)(k := None)"
  by (induction m) (auto simp: smap_erase_def)

lemma smap_distinct: "smap m \<Longrightarrow> distinct (map fst m)"
  by (simp add: smap_def strict_sorted_iff)

lemma map_of_filter:
  "smap m \<Longrightarrow> map_of (filter (\<lambda>(k, v). P v) m) k = (case map_of m k of None \<Rightarrow> None | Some v \<Rightarrow> if P v then Some v else None)"
proof (induction m)
  case (Cons x m)
  have "map_of m (fst x) = None" using Cons.prems by (cases x) (auto simp: smap_Cons map_of_eq_None_iff)
  moreover have "map_of (filter (\<lambda>(k, v). P v) m) (fst x) = None"
    using Cons.prems by (cases x) (auto simp: smap_Cons map_of_eq_None_iff)
  ultimately show ?case using Cons by (cases x) (auto simp: smap_Cons split: option.split)
qed simp

lemma length_put_new: "smap m \<Longrightarrow> length (smap_put k v m) = (if k \<in> fst ` set m then length m else Suc (length m))"
proof (induction k v m rule: smap_put.induct)
  case (2 k v k' v' m)
  consider "k < k'" | "k = k'" | "k' < k" by fastforce
  then show ?case
  proof cases
    case 1
    then have "k \<notin> fst ` set ((k', v') # m)" using "2.prems" by (fastforce simp: smap_Cons)
    then show ?thesis using 1 by simp
  next
    case 3
    then have n: "\<not> k < k'" "k \<noteq> k'" by auto
    show ?thesis using 2(1)[OF n] "2.prems" n by (simp add: smap_Cons)
  qed simp
qed simp

lemma length_erase_le: "length (smap_erase k m) \<le> length m"
  by (simp add: smap_erase_def)

lemma length_erase_less: "(k, v) \<in> set m \<Longrightarrow> length (smap_erase k m) < length m"
  unfolding smap_erase_def by (rule length_filter_less) auto

text \<open>A map is determined by its entries: walking it visits them in the order of the keys.\<close>

lemma smap_eqI:
  assumes "smap m" and "smap m'" and "map_of m = map_of m'"
  shows "m = m'"
proof -
  have d: "fst ` set m = fst ` set m'" using assms(3) by (metis dom_map_of_conv_image_fst)
  have "map fst m = map fst m'"
    using strict_sorted_equal[of "map fst m" "map fst m'"] assms(1,2) d by (simp add: smap_def)
  moreover have "m ! i = m' ! i" if "i < length m" for i
  proof -
    have l: "length m = length m'" using arg_cong[OF calculation, of length] by simp
    have k: "fst (m ! i) = fst (m' ! i)" using calculation that l by (metis nth_map)
    have "map_of m (fst (m ! i)) = Some (snd (m ! i))" "map_of m' (fst (m' ! i)) = Some (snd (m' ! i))"
      using that l smap_distinct assms(1,2) by (auto intro!: map_of_is_SomeI)
    then show ?thesis using k assms(3) by (simp add: prod_eq_iff)
  qed
  ultimately show ?thesis by (metis length_map nth_equalityI)
qed

end
