(* ===== verification/ChunkTracker.thy ===== *)
theory ChunkTracker imports SortedMap begin

text \<open>
  Tracking of chunked frames, which two C++ programs do the same way: the DTLS gateway for its
  statistics (thermal_dtls_gateway/src/thermal_protocol.cpp) and the Crow server to assemble the
  pictures (crow_server/src/features/thermal/ThermalProxy.cpp). This theory has the parts of the
  tracker they share, over a record that each extends, and the locale \<open>chunk_assembly\<close>: the
  contract of a tracker, under which the chunks of a frame complete it in any order.
\<close>

section \<open>The tracker of a frame\<close>

record chunk_tracker =
  totalChunks :: u16
  firstSeenAtMs :: int
  lastSeenAtMs :: int
  uniqueChunks :: "u16 set"

type_synonym u64 = "64 word"

text \<open>The updates of a tracker by a chunk, before the chunk is entered.\<close>

definition tracker_touch :: "int \<Rightarrow> u16 \<Rightarrow> u16 \<Rightarrow> 'a chunk_tracker_scheme \<Rightarrow> 'a chunk_tracker_scheme" where
  "tracker_touch now chunk_index total_chunks t =
     (let t = (if firstSeenAtMs t = 0 then t\<lparr> firstSeenAtMs := now, totalChunks := total_chunks \<rparr> else t);
          t = t\<lparr> lastSeenAtMs := now \<rparr>;
          t = (if total_chunks > totalChunks t then t\<lparr> totalChunks := total_chunks \<rparr> else t);
          minimumChunks = chunk_index + 1
      in if minimumChunks > totalChunks t then t\<lparr> totalChunks := minimumChunks \<rparr> else t)"

definition tracker_complete :: "'a chunk_tracker_scheme \<Rightarrow> bool" where
  "tracker_complete t \<longleftrightarrow> totalChunks t > 0 \<and> card (uniqueChunks t) \<ge> unat (totalChunks t)"

definition tracker_missing :: "'a chunk_tracker_scheme \<Rightarrow> nat" where
  "tracker_missing t = (if unat (totalChunks t) > card (uniqueChunks t) then unat (totalChunks t) - card (uniqueChunks t) else 0)"

definition tracker_expired :: "int \<Rightarrow> int \<Rightarrow> 'a chunk_tracker_scheme \<Rightarrow> bool" where
  "tracker_expired now timeout t \<longleftrightarrow> \<not> now - lastSeenAtMs t \<le> timeout"

text \<open>\<^verbatim>\<open>std::min_element\<close>: the first of the entries seen the longest ago.\<close>

fun oldest_frame :: "(u16 \<times> 'a chunk_tracker_scheme) list \<Rightarrow> (u16 \<times> 'a chunk_tracker_scheme) option" where
  "oldest_frame [] = None"
| "oldest_frame (x # xs) = Some (foldl (\<lambda>b y. if lastSeenAtMs (snd y) < lastSeenAtMs (snd b) then y else b) x xs)"

lemma foldl_pick: "foldl (\<lambda>b y. if P b y then y else b) x xs \<in> insert x (set xs)"
  by (induction xs arbitrary: x) (simp, fastforce)

lemma oldest_frame_in: "oldest_frame m = Some x \<Longrightarrow> x \<in> set m"
  using foldl_pick[of "\<lambda>b y. lastSeenAtMs (snd y) < lastSeenAtMs (snd b)" "hd m" "tl m"] by (cases m) auto

lemma tracker_touch_simps [simp]:
  "uniqueChunks (tracker_touch now i n t) = uniqueChunks t"
  "lastSeenAtMs (tracker_touch now i n t) = now"
  "now \<noteq> 0 \<Longrightarrow> firstSeenAtMs (tracker_touch now i n t) \<noteq> 0"
  "chunk_tracker.more (tracker_touch now i n t) = chunk_tracker.more t"
  by (auto simp: tracker_touch_def Let_def)

text \<open>Chunks of a frame agree on the number of chunks; then the tracker keeps it.\<close>

lemma tracker_touch_total:
  assumes "i < n" and "firstSeenAtMs t = 0 \<or> totalChunks t = n"
  shows "totalChunks (tracker_touch now i n t) = n"
proof -
  have "\<not> i + 1 > n" using inc_le[OF assms(1)] by (simp add: linorder_not_less)
  then show ?thesis using assms(2) by (auto simp: tracker_touch_def Let_def)
qed

section \<open>The frames in flight\<close>

definition live_frames :: "int \<Rightarrow> int \<Rightarrow> (u16 \<times> 'a chunk_tracker_scheme) list \<Rightarrow> (u16 \<times> 'a chunk_tracker_scheme) list" where
  "live_frames now timeout m = (if timeout \<le> 0 then m else filter (\<lambda>(k, t). \<not> tracker_expired now timeout t) m)"

text \<open>A chunk of frame \<open>f\<close> finds its tracker alive and does not make the table overflow.\<close>

definition frame_admitted :: "int \<Rightarrow> int \<Rightarrow> int \<Rightarrow> u16 \<Rightarrow> (u16 \<times> 'a chunk_tracker_scheme) list \<Rightarrow> bool" where
  "frame_admitted now timeout mx f m \<longleftrightarrow> now \<noteq> 0 \<and>
     (case map_of m f of None \<Rightarrow> True | Some t \<Rightarrow> timeout \<le> 0 \<or> now - lastSeenAtMs t \<le> timeout) \<and>
     (mx \<le> 0 \<or> int (length m) + (if map_of m f = None then 1 else 0) \<le> mx)"

lemma live_frames_smap [simp, intro]: "smap m \<Longrightarrow> smap (live_frames now timeout m)"
  by (simp add: live_frames_def)

lemma live_frames_subset: "set (live_frames now timeout m) \<subseteq> set m"
  by (auto simp: live_frames_def)

lemma live_frames_length: "length (live_frames now timeout m) \<le> length m"
  by (simp add: live_frames_def)

lemma live_frames_admitted:
  assumes "smap m" and "frame_admitted now timeout mx f m"
  shows "map_of (live_frames now timeout m) f = map_of m f"
    and "mx \<le> 0 \<or> int (length (smap_put f t (live_frames now timeout m))) \<le> mx"
proof -
  show eq: "map_of (live_frames now timeout m) f = map_of m f"
    using assms map_of_filter[OF assms(1), of "\<lambda>t. \<not> tracker_expired now timeout t" f]
    by (auto simp: live_frames_def frame_admitted_def tracker_expired_def split: option.splits)
  have "length (smap_put f t (live_frames now timeout m)) = length (live_frames now timeout m) + (if map_of m f = None then 1 else 0)"
    using length_put_new[OF live_frames_smap[OF assms(1), of now timeout], of f t]
      map_of_eq_None_iff[of "live_frames now timeout m" f] eq
    by (cases "f \<in> fst ` set (live_frames now timeout m)") simp_all
  then show "mx \<le> 0 \<or> int (length (smap_put f t (live_frames now timeout m))) \<le> mx"
    using assms(2) live_frames_length[of now timeout m] by (auto simp: frame_admitted_def)
qed

lemma frame_admitted_next:
  assumes "smap m" and "frame_admitted now timeout mx f m" and "now' \<noteq> 0" and "timeout \<le> 0 \<or> now' - now \<le> timeout"
    and "m' = smap_put f t (live_frames now timeout m) \<and> lastSeenAtMs t = now \<or> m' = smap_erase f (live_frames now timeout m)"
  shows "frame_admitted now' timeout mx f m'"
  using assms(5)
proof
  assume m': "m' = smap_put f t (live_frames now timeout m) \<and> lastSeenAtMs t = now"
  then show ?thesis using live_frames_admitted(2)[OF assms(1,2), of t] assms(3,4) by (auto simp: frame_admitted_def)
next
  assume m': "m' = smap_erase f (live_frames now timeout m)"
  have "int (length m') + 1 \<le> mx" if "\<not> mx \<le> 0"
  proof (cases "map_of m f")
    case None
    then show ?thesis using that assms(2) length_erase_le[of f "live_frames now timeout m"] live_frames_length[of now timeout m]
      by (auto simp: frame_admitted_def m')
  next
    case (Some u)
    then have "(f, u) \<in> set (live_frames now timeout m)" using live_frames_admitted(1)[OF assms(1,2)] by (metis map_of_SomeD)
    then show ?thesis using that assms(2) Some length_erase_less live_frames_length[of now timeout m]
      by (fastforce simp: frame_admitted_def m')
  qed
  then show ?thesis using assms(3) by (auto simp: frame_admitted_def m')
qed

section \<open>The contract\<close>

text \<open>
  \<open>announced s f\<close> is the number of chunks expected for a frame in flight, \<open>parts s f\<close> its chunks so
  far; \<open>feed\<close> enters a packet and answers the \<open>outcome\<close> of the frame it completes, which depends on
  that packet and on the parts. \<open>admits p s\<close>: no time-out and no shortage of room disturbs the frame
  of \<open>p\<close>; \<open>soon p q\<close>: \<open>q\<close> follows \<open>p\<close> in time.
\<close>

locale chunk_assembly =
  fixes wf :: "'s \<Rightarrow> bool"
    and announced :: "'s \<Rightarrow> u16 \<Rightarrow> u16 option"
    and parts :: "'s \<Rightarrow> u16 \<Rightarrow> u16 \<rightharpoonup> 'c"
    and pframe pindex ptotal :: "'p \<Rightarrow> u16"
    and pcontent :: "'p \<Rightarrow> 'c"
    and admits :: "'p \<Rightarrow> 's \<Rightarrow> bool"
    and soon :: "'p \<Rightarrow> 'p \<Rightarrow> bool"
    and outcome :: "'p \<Rightarrow> (u16 \<rightharpoonup> 'c) \<Rightarrow> 'r"
    and feed :: "'p \<Rightarrow> 's \<Rightarrow> 'r option \<times> 's"
  assumes wf_feed: "wf s \<Longrightarrow> admits p s \<Longrightarrow> wf (snd (feed p s))"
    and absent: "wf s \<Longrightarrow> announced s f = None \<Longrightarrow> parts s f = Map.empty"
    and feed_open: "wf s \<Longrightarrow> admits p s \<Longrightarrow> pindex p < ptotal p \<Longrightarrow> announced s (pframe p) \<in> {None, Some (ptotal p)} \<Longrightarrow>
      pindex p \<notin> dom (parts s (pframe p)) \<Longrightarrow> Suc (card (dom (parts s (pframe p)))) < unat (ptotal p) \<Longrightarrow>
      fst (feed p s) = None \<and> announced (snd (feed p s)) (pframe p) = Some (ptotal p) \<and>
      parts (snd (feed p s)) (pframe p) = (parts s (pframe p))(pindex p \<mapsto> pcontent p)"
    and feed_complete: "wf s \<Longrightarrow> admits p s \<Longrightarrow> pindex p < ptotal p \<Longrightarrow> announced s (pframe p) \<in> {None, Some (ptotal p)} \<Longrightarrow>
      pindex p \<notin> dom (parts s (pframe p)) \<Longrightarrow> unat (ptotal p) \<le> Suc (card (dom (parts s (pframe p)))) \<Longrightarrow>
      fst (feed p s) = Some (outcome p ((parts s (pframe p))(pindex p \<mapsto> pcontent p))) \<and> announced (snd (feed p s)) (pframe p) = None"
    and admits_next: "wf s \<Longrightarrow> admits p s \<Longrightarrow> soon p q \<Longrightarrow> pframe q = pframe p \<Longrightarrow> pindex p < ptotal p \<Longrightarrow>
      announced s (pframe p) \<in> {None, Some (ptotal p)} \<Longrightarrow> pindex p \<notin> dom (parts s (pframe p)) \<Longrightarrow> admits q (snd (feed p s))"
begin

text \<open>All packets of a list, with the answers.\<close>

fun feed_all :: "'p list \<Rightarrow> 's \<Rightarrow> 'r option list \<times> 's" where
  "feed_all [] s = ([], s)"
| "feed_all (p # ps) s = (case feed p s of (r, s) \<Rightarrow> case feed_all ps s of (rs, s) \<Rightarrow> (r # rs, s))"

lemma feed_all_state: "snd (feed_all ps s) = fold (\<lambda>p s. snd (feed p s)) ps s"
  by (induction ps arbitrary: s) (auto split: prod.split simp: case_prod_beta)

text \<open>The chunks that are still missing complete the frame with the last of them and not before.\<close>

lemma complete_rest:
  assumes "ps \<noteq> []" and "wf s" and "admits (hd ps) s" and "successively soon ps"
    and frame: "\<And>p. p \<in> set ps \<Longrightarrow> pframe p = f \<and> ptotal p = n \<and> pindex p < n"
    and "announced s f \<in> {None, Some n}" and "distinct (map pindex ps)"
    and "set (map pindex ps) \<inter> dom (parts s f) = {}" and "length ps + card (dom (parts s f)) = unat n" and "finite (dom (parts s f))"
  shows "\<exists>s'. feed_all ps s = (replicate (length ps - 1) None @ [Some (outcome (last ps) (parts s f ++ map_of (map (\<lambda>p. (pindex p, pcontent p)) ps)))], s') \<and>
    announced s' f = None \<and> wf s'"
  using assms
proof (induction ps arbitrary: s)
  case (Cons p ps)
  have p: "pframe p = f" "ptotal p = n" "pindex p < n" using Cons.prems(5)[of p] by simp_all
  have new: "pindex p \<notin> dom (parts s f)" using Cons.prems(8) by auto
  obtain r s1 where fd: "feed p s = (r, s1)" by fastforce
  show ?case
  proof (cases "ps = []")
    case True
    then have "unat n \<le> Suc (card (dom (parts s f)))" using Cons.prems(9) by simp
    then have "r = Some (outcome p ((parts s f)(pindex p \<mapsto> pcontent p)))" "announced s1 f = None"
      using feed_complete[of s p] Cons.prems(2,3,6) p new fd by simp_all
    moreover have "parts s f ++ map_of (map (\<lambda>p. (pindex p, pcontent p)) [p]) = (parts s f)(pindex p \<mapsto> pcontent p)"
      by (simp add: map_add_def fun_eq_iff)
    moreover have "feed_all [p] s = ([r], s1)" "wf s1"
      using fd wf_feed[OF Cons.prems(2), of p] Cons.prems(3) by simp_all
    ultimately show ?thesis unfolding True by (intro exI[of _ s1]) (simp only: last.simps list.size append_Nil replicate_0 simp_thms if_True, simp)
  next
    case False
    then have "Suc (card (dom (parts s f))) < unat n" using Cons.prems(9) by (cases ps) auto
    then have o: "r = None" "announced s1 f = Some n" "parts s1 f = (parts s f)(pindex p \<mapsto> pcontent p)"
      using feed_open[of s p] Cons.prems(2,3,6) p new fd by simp_all
    have "admits (hd ps) s1"
      using admits_next[of s p "hd ps"] Cons.prems(2,3,4,5,6) p new False fd by (cases ps) auto
    note adm = this
    have disj: "set (map pindex ps) \<inter> dom (parts s1 f) = {}" using Cons.prems(7,8) o(3) by auto
    have fin: "finite (dom (parts s1 f))" and card: "length ps + card (dom (parts s1 f)) = unat n"
      using o(3) new Cons.prems(9,10) by simp_all
    have "wf s1" "successively soon ps" "announced s1 f \<in> {None, Some n}" "distinct (map pindex ps)"
      using wf_feed[OF Cons.prems(2), of p] fd Cons.prems(3,4,7) o(2) by (auto simp: successively_Cons)
    then obtain s' where s': "feed_all ps s1 = (replicate (length ps - 1) None @
        [Some (outcome (last ps) (parts s1 f ++ map_of (map (\<lambda>p. (pindex p, pcontent p)) ps)))], s')" "announced s' f = None" "wf s'"
      using Cons.IH[OF False _ adm _ _ _ _ disj card fin] Cons.prems(5) by (meson list.set_intros(2))
    have eq: "parts s1 f ++ map_of (map (\<lambda>p. (pindex p, pcontent p)) ps) =
        parts s f ++ map_of (map (\<lambda>p. (pindex p, pcontent p)) (p # ps))"
      using Cons.prems(7) by (subst o(3), subst map_add_upd_left) (auto simp: dom_map_of_conv_image_fst)
    have "feed_all (p # ps) s = (None # replicate (length ps - 1) None @
        [Some (outcome (last ps) (parts s1 f ++ map_of (map (\<lambda>p. (pindex p, pcontent p)) ps)))], s')"
      using s' fd o(1) by simp
    note fed = this
    have l: "last (p # ps) = last ps" using False by simp
    have rep: "replicate (length (p # ps) - 1) None = None # replicate (length ps - 1) None"
      using False by (cases ps) simp_all
    have "feed_all (p # ps) s = (replicate (length (p # ps) - 1) None @
        [Some (outcome (last (p # ps)) (parts s f ++ map_of (map (\<lambda>p. (pindex p, pcontent p)) (p # ps))))], s')"
      using fed unfolding eq rep l append_Cons .
    then show ?thesis using s'(2,3) by blast
  qed
qed simp

text \<open>From the start: the chunks of a frame that is not in flight complete it, in any order.\<close>

lemma complete_frame:
  assumes "ps \<noteq> []" and "wf s" and "admits (hd ps) s" and "successively soon ps"
    and "\<And>p. p \<in> set ps \<Longrightarrow> pframe p = f \<and> ptotal p = n \<and> pindex p < n"
    and "announced s f = None" and "distinct (map pindex ps)" and "length ps = unat n"
  shows "\<exists>s'. feed_all ps s = (replicate (length ps - 1) None @ [Some (outcome (last ps) (map_of (map (\<lambda>p. (pindex p, pcontent p)) ps)))], s') \<and>
    announced s' f = None \<and> wf s'"
proof -
  have e: "parts s f = Map.empty" using absent[OF assms(2,6)] .
  show ?thesis using complete_rest[OF assms(1-4), of f n] assms(5-8) by (auto simp: e)
qed

end

end
