(* ===== verification/ThermalGateway.thy ===== *)
theory ThermalGateway imports ChunkTracker begin

text \<open>
  The packet side of the DTLS gateway (RaspberryPi/k3s-cluster/thermal_dtls_gateway): telling DTLS
  records from plain picture chunks, and the statistics of the frames that pass through
  (src/thermal_protocol.cpp, forwardPayload and recordForwardResult of src/dtls_gateway.cpp). The
  DTLS library and the sockets are inputs. Counters of type \<^verbatim>\<open>unsigned long long\<close> are 64-bit words.
\<close>

abbreviation (input) kThermalHeaderBytes :: nat where "kThermalHeaderBytes \<equiv> 10"
abbreviation (input) kDtlsRecordHeaderBytes :: nat where "kDtlsRecordHeaderBytes \<equiv> 13"

section \<open>Packets\<close>

definition readBe16 :: "bytes \<Rightarrow> nat \<Rightarrow> u16" where
  "readBe16 p off = push_bit 8 (ucast (p ! off)) OR ucast (p ! (off + 1))"

record thermal_header =
  frameId :: u16
  chunkIndex :: u16
  headerTotal :: u16
  minValue :: u16
  maxValue :: u16

definition parseThermalPacketHeader :: "bytes \<Rightarrow> thermal_header option" where
  "parseThermalPacketHeader data =
     (if length data < kThermalHeaderBytes then None
      else Some \<lparr> frameId = readBe16 data 0, chunkIndex = readBe16 data 2, headerTotal = readBe16 data 4,
                  minValue = readBe16 data 6, maxValue = readBe16 data 8 \<rparr>)"

definition isReasonableThermalPacketHeader :: "thermal_header \<Rightarrow> bool" where
  "isReasonableThermalPacketHeader h \<longleftrightarrow> headerTotal h > 0 \<and> headerTotal h \<le> 100 \<and> chunkIndex h < headerTotal h"

definition looksLikeDtlsRecord :: "bytes \<Rightarrow> bool" where
  "looksLikeDtlsRecord data \<longleftrightarrow>
     (if length data < kDtlsRecordHeaderBytes then False
      else if \<not> (data ! 0 = 20 \<or> data ! 0 = 21 \<or> data ! 0 = 22 \<or> data ! 0 = 23 \<or> data ! 0 = 24) then False
      else if \<not> (data ! 1 = 0xFE \<and> (data ! 2 = 0xFD \<or> data ! 2 = 0xFF)) then False
      else unat (data ! 11) * 256 + unat (data ! 12) > 0)"

definition looksLikeThermalChunk :: "bytes \<Rightarrow> thermal_header option" where
  "looksLikeThermalChunk data = (case parseThermalPacketHeader data of
     None \<Rightarrow> None | Some h \<Rightarrow> if isReasonableThermalPacketHeader h then Some h else None)"

datatype incoming_datagram = DtlsRecord | ThermalChunk thermal_header | Unknown

definition classifyIncomingDatagram :: "bytes \<Rightarrow> incoming_datagram" where
  "classifyIncomingDatagram data =
     (if looksLikeDtlsRecord data then DtlsRecord
      else case looksLikeThermalChunk data of Some h \<Rightarrow> ThermalChunk h | None \<Rightarrow> Unknown)"

definition hex_digit :: "nat \<Rightarrow> char" where
  "hex_digit n = ''0123456789abcdef'' ! n"

definition hex_byte :: "u8 \<Rightarrow> string" where
  "hex_byte b = [hex_digit (unat b div 16), hex_digit (unat b mod 16)]"

fun hex_bytes :: "bytes \<Rightarrow> string" where
  "hex_bytes [] = []"
| "hex_bytes [b] = hex_byte b"
| "hex_bytes (b # bs) = hex_byte b @ '' '' @ hex_bytes bs"

definition hexPreview :: "bytes \<Rightarrow> nat \<Rightarrow> string" where
  "hexPreview data maxBytes =
     (if data = [] then ''(empty)''
      else hex_bytes (take (min (length data) maxBytes) data) @
        (if length data > min (length data) maxBytes then '' ...'' else []))"

section \<open>Statistics of a path\<close>

record path_stats =
  packets :: u64
  path_bytes :: u64
  invalidPackets :: u64
  duplicateChunks :: u64
  completedFrames :: u64
  incompleteFrames :: u64
  missingChunks :: u64
  evictedFrames :: u64
  lastFrameId :: u16
  lastChunkIndex :: u16
  lastTotalChunks :: u16
  lastPacketBytes :: nat
  lastPacketAtMs :: int
  maxInFlightFrames :: nat
  inFlightFrames :: "(u16 \<times> chunk_tracker) list"

definition path_stats0 :: path_stats where
  "path_stats0 = \<lparr> packets = 0, path_bytes = 0, invalidPackets = 0, duplicateChunks = 0, completedFrames = 0, incompleteFrames = 0,
     missingChunks = 0, evictedFrames = 0, lastFrameId = 0, lastChunkIndex = 0, lastTotalChunks = 0, lastPacketBytes = 0,
     lastPacketAtMs = 0, maxInFlightFrames = 0, inFlightFrames = [] \<rparr>"

definition tracker0 :: chunk_tracker where
  "tracker0 = \<lparr> totalChunks = 0, firstSeenAtMs = 0, lastSeenAtMs = 0, uniqueChunks = {} \<rparr>"

definition noteIncompleteFrame :: "chunk_tracker \<Rightarrow> path_stats \<Rightarrow> path_stats" where
  "noteIncompleteFrame t s = s\<lparr> incompleteFrames := incompleteFrames s + 1, missingChunks := missingChunks s + of_nat (tracker_missing t) \<rparr>"

definition pruneExpiredFrames :: "int \<Rightarrow> int \<Rightarrow> path_stats \<Rightarrow> path_stats" where
  "pruneExpiredFrames nowMs timeoutMs s =
     (if timeoutMs \<le> 0 then s
      else
        let (old, new) = partition (\<lambda>(k, t). tracker_expired nowMs timeoutMs t) (inFlightFrames s)
        in (fold (\<lambda>(k, t). noteIncompleteFrame t) old s)\<lparr> inFlightFrames := new \<rparr>)"

function trimTrackedFrames :: "int \<Rightarrow> path_stats \<Rightarrow> path_stats" where
  "trimTrackedFrames maxTrackedFrames s =
     (if maxTrackedFrames \<le> 0 then s
      else if int (length (inFlightFrames s)) > maxTrackedFrames then
        (case oldest_frame (inFlightFrames s) of
           None \<Rightarrow> s
         | Some (k, t) \<Rightarrow>
           let s = noteIncompleteFrame t s
           in trimTrackedFrames maxTrackedFrames
                (s\<lparr> evictedFrames := evictedFrames s + 1, inFlightFrames := smap_erase k (inFlightFrames s) \<rparr>))
      else s)"
  by pat_completeness auto
termination
  by (relation "measure (\<lambda>(mx, s). length (inFlightFrames s))")
    (auto simp: noteIncompleteFrame_def dest!: oldest_frame_in intro: length_erase_less)

declare trimTrackedFrames.simps [simp del]

text \<open>Lines 194-219: the chunk in the tracker of its frame; the flag tells whether the frame is complete.\<close>

definition enter_chunk :: "int \<Rightarrow> thermal_header \<Rightarrow> path_stats \<Rightarrow> bool \<times> path_stats" where
  "enter_chunk nowMs h s =
     (let t = (case map_of (inFlightFrames s) (frameId h) of None \<Rightarrow> tracker0 | Some t \<Rightarrow> t);
          t = tracker_touch nowMs (chunkIndex h) (headerTotal h) t;
          s = (if chunkIndex h \<in> uniqueChunks t then s\<lparr> duplicateChunks := duplicateChunks s + 1 \<rparr> else s);
          t = t\<lparr> uniqueChunks := insert (chunkIndex h) (uniqueChunks t) \<rparr>
      in if tracker_complete t
         then (True, s\<lparr> completedFrames := completedFrames s + 1, inFlightFrames := smap_erase (frameId h) (inFlightFrames s) \<rparr>)
         else (False, s\<lparr> inFlightFrames := smap_put (frameId h) t (inFlightFrames s) \<rparr>))"

definition updateThermalPathStats :: "bytes \<Rightarrow> int \<Rightarrow> int \<Rightarrow> int \<Rightarrow> path_stats \<Rightarrow> path_stats" where
  "updateThermalPathStats data nowMs frameTimeoutMs maxTrackedFrames s =
     (let s = s\<lparr> packets := packets s + 1, path_bytes := path_bytes s + of_nat (length data),
                 lastPacketBytes := length data, lastPacketAtMs := nowMs \<rparr>
      in case parseThermalPacketHeader data of
           None \<Rightarrow> s\<lparr> invalidPackets := invalidPackets s + 1 \<rparr>
         | Some h \<Rightarrow>
           let s = s\<lparr> lastFrameId := frameId h, lastChunkIndex := chunkIndex h, lastTotalChunks := headerTotal h \<rparr>;
               s = pruneExpiredFrames nowMs frameTimeoutMs s;
               s = trimTrackedFrames maxTrackedFrames (snd (enter_chunk nowMs h s))
           in s\<lparr> maxInFlightFrames := max (maxInFlightFrames s) (length (inFlightFrames s)) \<rparr>)"

section \<open>Forwarding\<close>

record gateway_stats =
  decrypted :: path_stats
  forwarded :: path_stats
  forwardFailures :: u64
  forwardFailedBytes :: u64
  lastLogAtMs :: int

record gateway_options =
  gwEnableFrameStats :: bool
  gwStatsLogIntervalMs :: int
  gwFrameTrackTimeoutMs :: int
  gwMaxTrackedFrames :: int

text \<open>The time of the last line in the log; the line itself is left out.\<close>

definition maybeLogStatsLocked :: "gateway_options \<Rightarrow> int \<Rightarrow> gateway_stats \<Rightarrow> gateway_stats" where
  "maybeLogStatsLocked opt nowMs g =
     (if gwStatsLogIntervalMs opt \<le> 0 then g
      else if packets (decrypted g) = 0 \<and> forwardFailures g = 0 then g
      else if lastLogAtMs g \<noteq> 0 \<and> nowMs - lastLogAtMs g < gwStatsLogIntervalMs opt then g
      else g\<lparr> lastLogAtMs := nowMs \<rparr>)"

definition recordForwardResult :: "gateway_options \<Rightarrow> int \<Rightarrow> bytes \<Rightarrow> bool \<Rightarrow> gateway_stats \<Rightarrow> gateway_stats" where
  "recordForwardResult opt nowMs data success g =
     (if \<not> gwEnableFrameStats opt then g
      else
        let g = g\<lparr> decrypted := updateThermalPathStats data nowMs (gwFrameTrackTimeoutMs opt) (gwMaxTrackedFrames opt) (decrypted g) \<rparr>;
            g = (if success
              then g\<lparr> forwarded := updateThermalPathStats data nowMs (gwFrameTrackTimeoutMs opt) (gwMaxTrackedFrames opt) (forwarded g) \<rparr>
              else g\<lparr> forwardFailures := forwardFailures g + 1, forwardFailedBytes := forwardFailedBytes g + of_nat (length data) \<rparr>)
        in maybeLogStatsLocked opt nowMs g)"

text \<open>\<open>sent\<close> is the answer of \<^verbatim>\<open>sendto\<close>.\<close>

definition forwardPayload :: "gateway_options \<Rightarrow> int \<Rightarrow> int \<Rightarrow> bytes \<Rightarrow> gateway_stats \<Rightarrow> bool \<times> gateway_stats" where
  "forwardPayload opt nowMs sent data g =
     (let success = (sent = int (length data)) in (success, recordForwardResult opt nowMs data success g))"

end
