(* ===== verification/GatewayCommon.thy ===== *)
theory GatewayCommon imports ThermalGateway CStrings begin

text \<open>
  The settings of the DTLS gateway (thermal_dtls_gateway/src/gateway_common.cpp): environment
  variables with defaults and errors, and the hexadecimal text of the pre-shared key. The
  environment is a map from names to values; \<^verbatim>\<open>std::runtime_error\<close> is the left side of a sum.
\<close>

type_synonym environment = "string \<rightharpoonup> string"

datatype env_error = Missing string | EmptyValue string | InvalidInteger string | InvalidBoolean string | OddHexDigits

function trim_begin :: "string \<Rightarrow> nat \<Rightarrow> nat \<Rightarrow> nat" where
  "trim_begin v b e = (if b < e \<and> isspace (v ! b) then trim_begin v (b + 1) e else b)"
  by pat_completeness auto
termination by (relation "measure (\<lambda>(v, b, e). e - b)") auto

function trim_end :: "string \<Rightarrow> nat \<Rightarrow> nat \<Rightarrow> nat" where
  "trim_end v b e = (if e > b \<and> isspace (v ! (e - 1)) then trim_end v b (e - 1) else e)"
  by pat_completeness auto
termination by (relation "measure (\<lambda>(v, b, e). e - b)") auto

declare trim_begin.simps [simp del] trim_end.simps [simp del]

definition trimCopy :: "string \<Rightarrow> string" where
  "trimCopy value =
     (let begin = trim_begin value 0 (length value); end = trim_end value begin (length value)
      in take (end - begin) (drop begin value))"

definition envOrDefault :: "environment \<Rightarrow> string \<Rightarrow> string \<Rightarrow> string" where
  "envOrDefault getenv name fallback = (case getenv name of
     None \<Rightarrow> fallback
   | Some value \<Rightarrow> if trimCopy value = [] then fallback else trimCopy value)"

definition requireEnv :: "environment \<Rightarrow> string \<Rightarrow> env_error + string" where
  "requireEnv getenv name = (case getenv name of
     None \<Rightarrow> Inl (Missing name)
   | Some value \<Rightarrow> if trimCopy value = [] then Inl (EmptyValue name) else Inr (trimCopy value))"

text \<open>\<^verbatim>\<open>std::stoi\<close>: \<open>None\<close> where it throws, without digits or outside \<^verbatim>\<open>int\<close>; what follows is ignored.\<close>

definition stoi :: "string \<Rightarrow> int option" where
  "stoi s = (case scan_sign (dropWhile isspace s) of (neg, u) \<Rightarrow>
     let ds = takeWhile isdigit u; v = (if neg then - digits_val ds else digits_val ds)
     in if ds = [] \<or> v < - (2 ^ 31) \<or> v \<ge> 2 ^ 31 then None else Some v)"

definition envIntOrDefault :: "environment \<Rightarrow> string \<Rightarrow> int \<Rightarrow> env_error + int" where
  "envIntOrDefault getenv name fallback = (case getenv name of
     None \<Rightarrow> Inr fallback
   | Some value \<Rightarrow>
       if trimCopy value = [] then Inr fallback
       else (case stoi (trimCopy value) of Some v \<Rightarrow> Inr v | None \<Rightarrow> Inl (InvalidInteger name)))"

definition envBoolOrDefault :: "environment \<Rightarrow> string \<Rightarrow> bool \<Rightarrow> env_error + bool" where
  "envBoolOrDefault getenv name fallback = (case getenv name of
     None \<Rightarrow> Inr fallback
   | Some value \<Rightarrow>
       let trimmed = map tolower (trimCopy value)
       in if trimmed = [] then Inr fallback
          else if trimmed = ''1'' \<or> trimmed = ''true'' \<or> trimmed = ''yes'' \<or> trimmed = ''on'' then Inr True
          else if trimmed = ''0'' \<or> trimmed = ''false'' \<or> trimmed = ''no'' \<or> trimmed = ''off'' then Inr False
          else Inl (InvalidBoolean name))"

definition isxdigit :: "char \<Rightarrow> bool" where
  "isxdigit c \<longleftrightarrow> isdigit c \<or> c \<in> set ''abcdefABCDEF''"

definition xdigit_val :: "char \<Rightarrow> nat" where
  "xdigit_val c = (if isdigit c then of_char c - 48 else of_char (tolower c) - 87)"

fun hex_pairs :: "string \<Rightarrow> bytes" where
  "hex_pairs (a # b # rest) = of_nat (xdigit_val a * 16 + xdigit_val b) # hex_pairs rest"
| "hex_pairs _ = []"

definition parseHex :: "string \<Rightarrow> env_error + bytes" where
  "parseHex hex =
     (let filtered = filter isxdigit hex
      in if length filtered mod 2 \<noteq> 0 then Inl OddHexDigits else Inr (hex_pairs filtered))"

section \<open>Properties\<close>

lemma trim_begin_drop:
  "b \<le> length v \<Longrightarrow> drop (trim_begin v b (length v)) v = dropWhile isspace (drop b v) \<and> b \<le> trim_begin v b (length v) \<and>
    trim_begin v b (length v) \<le> length v"
proof (induction "length v - b" arbitrary: b)
  case (Suc n)
  then have d: "drop b v = v ! b # drop (b + 1) v" by (simp add: Cons_nth_drop_Suc)
  show ?case
  proof (cases "isspace (v ! b)")
    case True
    have "drop (trim_begin v (b + 1) (length v)) v = dropWhile isspace (drop (b + 1) v) \<and> b + 1 \<le> trim_begin v (b + 1) (length v) \<and>
        trim_begin v (b + 1) (length v) \<le> length v"
      using Suc(2) by (intro Suc(1)) simp_all
    moreover have "b < length v" using Suc(2) by simp
    then have "trim_begin v b (length v) = trim_begin v (b + 1) (length v)" using True by (subst trim_begin.simps) simp
    ultimately show ?thesis using True d by simp
  next
    case False
    then have "trim_begin v b (length v) = b" by (subst trim_begin.simps) simp
    then show ?thesis using False Suc(3) d by simp
  qed
qed (simp add: trim_begin.simps)

lemma trim_end_loop:
  "b \<le> e \<Longrightarrow> e \<le> length v \<Longrightarrow>
    drop b (take (trim_end v b e) v) = rev (dropWhile isspace (rev (drop b (take e v)))) \<and> b \<le> trim_end v b e \<and> trim_end v b e \<le> e"
proof (induction "e - b" arbitrary: e)
  case (Suc n)
  then obtain k where e: "e = Suc k" "b \<le> k" "k < length v" by (cases e) auto
  then have t: "rev (drop b (take e v)) = v ! k # rev (drop b (take k v))" by (simp add: take_Suc_conv_app_nth)
  show ?case
  proof (cases "isspace (v ! k)")
    case True
    have "drop b (take (trim_end v b k) v) = rev (dropWhile isspace (rev (drop b (take k v)))) \<and> b \<le> trim_end v b k \<and> trim_end v b k \<le> k"
      using Suc(2) e by (intro Suc(1)) simp_all
    moreover have "trim_end v b e = trim_end v b k" using True e by (subst trim_end.simps) simp
    ultimately show ?thesis using True t e(1) by simp
  next
    case False
    then have "trim_end v b e = e" using e by (subst trim_end.simps) simp
    moreover have "drop b (take e v) = rev (v ! k # rev (drop b (take k v)))" using t by (metis rev_rev_ident)
    ultimately show ?thesis using False t Suc(3) by simp
  qed
qed (simp add: trim_end.simps)

text \<open>The two index loops are the usual stripping of white space at both ends.\<close>

lemma trim_copy_strip: "trimCopy v = strip v"
proof -
  let ?b = "trim_begin v 0 (length v)"
  note b = trim_begin_drop[of 0 v]
  have "take (trim_end v ?b (length v) - ?b) (drop ?b v) = rev (dropWhile isspace (rev (drop ?b v)))"
    using trim_end_loop[of ?b "length v" v] b by (simp add: drop_take)
  then show ?thesis using b by (simp add: trimCopy_def Let_def strip_def)
qed

lemma isxdigit_hex_digit: "n < 16 \<Longrightarrow> isxdigit (hex_digit n) \<and> xdigit_val (hex_digit n) = n"
proof -
  have "\<forall>n\<in>set [0, 1, 2, 3, 4, 5, 6, 7, 8, 9, 10, 11, 12, 13, 14, 15]. isxdigit (hex_digit n) \<and> xdigit_val (hex_digit n) = n"
    by code_simp
  moreover assume "n < 16"
  then have "n \<in> set [0, 1, 2, 3, 4, 5, 6, 7, 8, 9, 10, 11, 12, 13, 14, 15]" by (simp, presburger)
  ultimately show ?thesis by blast
qed

text \<open>A key in hexadecimal, with or without spaces, reads back as its bytes.\<close>

theorem parse_hex_text: "parseHex (hex_bytes bs) = Inr bs"
proof -
  have nib: "unat b div 16 < 16" "unat b mod 16 < 16" for b :: u8
    using unsigned_less[of b, where ?'a = nat] by simp_all
  have "filter isxdigit (hex_bytes bs) = concat (map hex_byte bs)"
    by (induction bs rule: hex_bytes.induct) (simp_all add: hex_byte_def isxdigit_hex_digit nib, simp_all add: isxdigit_def isdigit_def)
  moreover have "hex_pairs (concat (map hex_byte bs)) = bs"
    by (induction bs) (simp_all add: hex_byte_def isxdigit_hex_digit nib word_unat_eq_iff)
  moreover have "length (concat (map hex_byte bs)) mod 2 = 0" by (induction bs) (simp_all add: hex_byte_def)
  ultimately show ?thesis by (simp add: parseHex_def)
qed

end
