(* ===== verification/ThermalServer.thy ===== *)
theory ThermalServer imports ThermalGateway "HOL-Library.List_Lexorder" "HOL-Library.Char_ord" begin

text \<open>
  The receiving side of the Crow server (crow_server/src/features/thermal/ThermalProxy.cpp): the
  three packet formats, the synthetic frame ids of senders without one, the assembly of frames and
  the body of the receiver loop. Clock and socket are inputs, printing is left out; the analysis of
  a completed frame and the broadcast of a packet are what the loop body answers with.
\<close>

abbreviation (input) kThermalHeaderWithRangeBytes :: nat where "kThermalHeaderWithRangeBytes \<equiv> 8"
abbreviation (input) kThermalHeaderLegacyBytes :: nat where "kThermalHeaderLegacyBytes \<equiv> 4"
abbreviation (input) kThermalChunkLimit :: u16 where "kThermalChunkLimit \<equiv> 100"
abbreviation (input) kThermalFrameBytes8 :: nat where "kThermalFrameBytes8 \<equiv> 19200"
abbreviation (input) kThermalFrameBytes16 :: nat where "kThermalFrameBytes16 \<equiv> 38400"
abbreviation (input) kThermalValidMinRaw :: u16 where "kThermalValidMinRaw \<equiv> 1000"
abbreviation (input) kThermalValidMaxRaw :: u16 where "kThermalValidMaxRaw \<equiv> 30000"

section \<open>Packet formats\<close>

record thermal_chunk_header = thermal_header +
  headerBytes :: nat
  hasFrameId :: bool
  hasRangeData :: bool

definition isReasonableThermalChunkHeader :: "thermal_chunk_header \<Rightarrow> bool" where
  "isReasonableThermalChunkHeader h \<longleftrightarrow> headerTotal h > 0 \<and> headerTotal h \<le> kThermalChunkLimit \<and> chunkIndex h < headerTotal h"

definition parseThermalChunkHeader :: "bytes \<Rightarrow> thermal_chunk_header option" where
  "parseThermalChunkHeader p =
     (let full = \<lparr> frameId = readBe16 p 0, chunkIndex = readBe16 p 2, headerTotal = readBe16 p 4,
                   minValue = readBe16 p 6, maxValue = readBe16 p 8,
                   headerBytes = kThermalHeaderBytes, hasFrameId = True, hasRangeData = True \<rparr>;
          ranged = \<lparr> frameId = 0, chunkIndex = readBe16 p 0, headerTotal = readBe16 p 2,
                     minValue = readBe16 p 4, maxValue = readBe16 p 6,
                     headerBytes = kThermalHeaderWithRangeBytes, hasFrameId = False, hasRangeData = True \<rparr>;
          legacy = \<lparr> frameId = 0, chunkIndex = readBe16 p 0, headerTotal = readBe16 p 2, minValue = 0, maxValue = 0,
                     headerBytes = kThermalHeaderLegacyBytes, hasFrameId = False, hasRangeData = False \<rparr>
      in if p = [] then None
         else if length p \<ge> kThermalHeaderBytes \<and> isReasonableThermalChunkHeader full then Some full
         else if length p \<ge> kThermalHeaderWithRangeBytes \<and> isReasonableThermalChunkHeader ranged then Some ranged
         else if length p \<ge> kThermalHeaderLegacyBytes \<and> isReasonableThermalChunkHeader legacy then Some legacy
         else None)"

definition writeBe16 :: "u16 \<Rightarrow> bytes" where
  "writeBe16 value = [ucast (drop_bit 8 value AND 0xFF), ucast (value AND 0xFF)]"

definition buildCanonicalThermalPayload :: "thermal_header \<Rightarrow> bytes \<Rightarrow> bytes" where
  "buildCanonicalThermalPayload h thermalPayload =
     writeBe16 (frameId h) @ writeBe16 (chunkIndex h) @ writeBe16 (headerTotal h) @
     writeBe16 (minValue h) @ writeBe16 (maxValue h) @ thermalPayload"

section \<open>Senders without frame ids\<close>

record legacy_frame =
  legacyFrameId :: u16
  legacyTotal :: u16
  legacySeenAtMs :: int
  active :: bool
  receivedChunks :: "u16 set"

definition legacy_frame0 :: legacy_frame where
  "legacy_frame0 = \<lparr> legacyFrameId = 0, legacyTotal = 0, legacySeenAtMs = 0, active = False, receivedChunks = {} \<rparr>"

record normalizer =
  legacyFramesBySender :: "(string \<times> legacy_frame) list"
  nextSyntheticFrameId :: u16

definition normalizer0 :: normalizer where
  "normalizer0 = \<lparr> legacyFramesBySender = [], nextSyntheticFrameId = 1 \<rparr>"

definition nextSyntheticThermalFrameId :: "normalizer \<Rightarrow> u16 \<times> normalizer" where
  "nextSyntheticThermalFrameId n =
     (let n = (if nextSyntheticFrameId n = 0 then n\<lparr> nextSyntheticFrameId := 1 \<rparr> else n);
          frame_id = nextSyntheticFrameId n
      in (frame_id, n\<lparr> nextSyntheticFrameId := (if nextSyntheticFrameId n = 0xFFFF then 1 else nextSyntheticFrameId n + 1) \<rparr>))"

definition legacy_expired :: "int \<Rightarrow> int \<Rightarrow> legacy_frame \<Rightarrow> bool" where
  "legacy_expired nowMs timeoutMs l \<longleftrightarrow> timeoutMs > 0 \<and> legacySeenAtMs l > 0 \<and> nowMs - legacySeenAtMs l > timeoutMs"

definition pruneThermalLegacyFrames :: "int \<Rightarrow> int \<Rightarrow> normalizer \<Rightarrow> normalizer" where
  "pruneThermalLegacyFrames nowMs timeoutMs n =
     n\<lparr> legacyFramesBySender := filter (\<lambda>(k, l). active l \<and> \<not> legacy_expired nowMs timeoutMs l) (legacyFramesBySender n) \<rparr>"

text \<open>Lines 674-709, over the entry of the sender and the counter of frame ids.\<close>

definition legacy_chunk :: "thermal_chunk_header \<Rightarrow> int \<Rightarrow> int \<Rightarrow> legacy_frame \<Rightarrow> normalizer \<Rightarrow> u16 \<times> legacy_frame \<times> normalizer" where
  "legacy_chunk h nowMs timeoutMs l n =
     (let expired = legacy_expired nowMs timeoutMs l;
          completed = legacyTotal l > 0 \<and> card (receivedChunks l) \<ge> unat (legacyTotal l);
          startNewFrame = \<not> active l \<or> expired \<or> completed \<or> legacyTotal l = 0 \<or> chunkIndex h = 0 \<or> legacyTotal l \<noteq> headerTotal h;
          (l, n) = (if startNewFrame
             then case nextSyntheticThermalFrameId n of (frame_id, n) \<Rightarrow>
               (l\<lparr> active := True, legacyFrameId := frame_id, legacyTotal := headerTotal h, receivedChunks := {} \<rparr>, n)
             else (l, n));
          l = l\<lparr> legacySeenAtMs := nowMs \<rparr>;
          l = (if headerTotal h > legacyTotal l then l\<lparr> legacyTotal := headerTotal h \<rparr> else l);
          l = l\<lparr> receivedChunks := insert (chunkIndex h) (receivedChunks l) \<rparr>;
          frame_id = legacyFrameId l;
          l = (if legacyTotal l > 0 \<and> card (receivedChunks l) \<ge> unat (legacyTotal l)
               then l\<lparr> active := False, legacyTotal := 0, receivedChunks := {} \<rparr> else l)
      in (frame_id, l, n))"

definition resolveThermalFrameId :: "string \<Rightarrow> thermal_chunk_header \<Rightarrow> int \<Rightarrow> int \<Rightarrow> normalizer \<Rightarrow> u16 \<times> normalizer" where
  "resolveThermalFrameId senderKey h nowMs timeoutMs n =
     (if hasFrameId h then (frameId h, n)
      else
        let n = pruneThermalLegacyFrames nowMs timeoutMs n;
            l = (case map_of (legacyFramesBySender n) senderKey of None \<Rightarrow> legacy_frame0 | Some l \<Rightarrow> l);
            (frame_id, l, n) = legacy_chunk h nowMs timeoutMs l n
        in (frame_id, n\<lparr> legacyFramesBySender := smap_put senderKey l (legacyFramesBySender n) \<rparr>))"

record normalized_packet =
  npHeader :: thermal_header
  npHasRangeData :: bool
  wsPayload :: bytes

definition normalizeThermalPayload :: "bytes \<Rightarrow> string \<Rightarrow> int \<Rightarrow> int \<Rightarrow> normalizer \<Rightarrow> normalized_packet option \<times> normalizer" where
  "normalizeThermalPayload payload senderKey nowMs frameTimeoutMs n =
     (case parseThermalChunkHeader payload of
        None \<Rightarrow> (None, n)
      | Some h \<Rightarrow>
        let (frame_id, n) = resolveThermalFrameId senderKey h nowMs frameTimeoutMs n;
            header = \<lparr> frameId = frame_id, chunkIndex = chunkIndex h, headerTotal = headerTotal h,
                       minValue = minValue h, maxValue = maxValue h \<rparr>
        in (Some \<lparr> npHeader = header, npHasRangeData = hasRangeData h,
              wsPayload = (if hasFrameId h \<and> headerBytes h = kThermalHeaderBytes then payload
                           else buildCanonicalThermalPayload header (drop (headerBytes h) payload)) \<rparr>, n))"

section \<open>Frames\<close>

record server_tracker = chunk_tracker +
  payloadBytes :: nat
  headerMinValue :: u16
  headerMaxValue :: u16
  computedMinValue :: u16
  computedMaxValue :: u16
  headerHasRangeData :: bool
  computedRawRangeReady :: bool
  chunkPayloads :: "(u16 \<times> bytes) list"

definition server_tracker0 :: server_tracker where
  "server_tracker0 = \<lparr> totalChunks = 0, firstSeenAtMs = 0, lastSeenAtMs = 0, uniqueChunks = {}, payloadBytes = 0,
     headerMinValue = 0, headerMaxValue = 0, computedMinValue = 0xFFFF, computedMaxValue = 0,
     headerHasRangeData = False, computedRawRangeReady = False, chunkPayloads = [] \<rparr>"

fun be16_values :: "bytes \<Rightarrow> u16 list" where
  "be16_values (a # b # rest) = readBe16 [a, b] 0 # be16_values rest"
| "be16_values _ = []"

definition raw_range_step :: "u16 \<Rightarrow> server_tracker \<Rightarrow> server_tracker" where
  "raw_range_step v t =
     (if v \<le> kThermalValidMinRaw \<or> v \<ge> kThermalValidMaxRaw then t
      else t\<lparr> computedMinValue := min (computedMinValue t) v, computedMaxValue := max (computedMaxValue t) v,
             computedRawRangeReady := True \<rparr>)"

definition updateThermalTrackerRawRange :: "bytes \<Rightarrow> server_tracker \<Rightarrow> server_tracker" where
  "updateThermalTrackerRawRange chunkPayload t = fold raw_range_step (be16_values chunkPayload) t"

definition thermalEncodingFromPayloadBytes :: "nat \<Rightarrow> string" where
  "thermalEncodingFromPayloadBytes n =
     (if n = kThermalFrameBytes16 then ''raw16'' else if n = kThermalFrameBytes8 then ''scaled8'' else ''unknown'')"

record completed_frame =
  cfHeader :: thermal_header
  cfPayloadBytes :: nat
  cfHasRangeData :: bool
  ready :: bool
  encoding :: string
  framePayload :: bytes

definition completed_frame0 :: completed_frame where
  "completed_frame0 = \<lparr> cfHeader = \<lparr> frameId = 0, chunkIndex = 0, headerTotal = 0, minValue = 0, maxValue = 0 \<rparr>,
     cfPayloadBytes = 0, cfHasRangeData = False, ready = False, encoding = ''unknown'', framePayload = [] \<rparr>"

definition finalizeCompletedThermalFrame :: "thermal_header \<Rightarrow> server_tracker \<Rightarrow> completed_frame" where
  "finalizeCompletedThermalFrame latestHeader t =
     (let enc = thermalEncodingFromPayloadBytes (payloadBytes t);
          out = \<lparr> cfHeader = latestHeader, cfPayloadBytes = payloadBytes t, cfHasRangeData = False, ready = True,
                  encoding = enc, framePayload = concat (map snd (chunkPayloads t)) \<rparr>;
          with_range = (\<lambda>mn mx. out\<lparr> cfHeader := latestHeader\<lparr> minValue := mn, maxValue := mx \<rparr>, cfHasRangeData := True \<rparr>)
      in if enc = ''raw16'' \<and> computedRawRangeReady t then with_range (computedMinValue t) (computedMaxValue t)
         else if enc = ''scaled8'' \<and> headerHasRangeData t then with_range (headerMinValue t) (headerMaxValue t)
         else if headerHasRangeData t then with_range (headerMinValue t) (headerMaxValue t)
         else out)"

definition decodeThermalFramePixelRaw :: "completed_frame \<Rightarrow> nat \<Rightarrow> u16 option" where
  "decodeThermalFramePixelRaw f pixelIndex =
     (if encoding f = ''raw16'' then
        if pixelIndex * 2 + 1 \<ge> length (framePayload f) then None
        else Some (readBe16 (framePayload f) (pixelIndex * 2))
      else if encoding f = ''scaled8'' then
        if pixelIndex \<ge> length (framePayload f) then None
        else
          let scaled = ucast (framePayload f ! pixelIndex) :: u32;
              range = (if maxValue (cfHeader f) > minValue (cfHeader f)
                       then ucast (maxValue (cfHeader f) - minValue (cfHeader f)) else 1) :: u32
          in Some (minValue (cfHeader f) + ucast ((scaled * range + 127) div 255))
      else None)"

section \<open>Statistics and assembly\<close>

record server_stats =
  last_frame_id :: u16
  last_chunk_index :: u16
  last_total_chunks :: u16
  last_min_val :: u16
  last_max_val :: u16
  last_sender :: string
  last_packet_bytes :: nat
  last_packet_at_ms :: int
  packets_received :: u64
  bytes_received :: u64
  invalid_packets :: u64
  duplicate_chunks :: u64
  frames_completed :: u64
  incomplete_frames :: u64
  missing_chunks :: u64
  evicted_frames :: u64
  in_flight_count :: nat
  max_in_flight_frames :: nat
  last_frame_payload_bytes :: nat
  last_frame_encoding :: string

record thermal_server =
  stats :: server_stats
  in_flight_frames :: "(u16 \<times> server_tracker) list"
  last_stats_log_at_ms :: int

definition server_stats0 :: server_stats where
  "server_stats0 = \<lparr> last_frame_id = 0, last_chunk_index = 0, last_total_chunks = 0, last_min_val = 0, last_max_val = 0,
     last_sender = [], last_packet_bytes = 0, last_packet_at_ms = 0, packets_received = 0, bytes_received = 0,
     invalid_packets = 0, duplicate_chunks = 0, frames_completed = 0, incomplete_frames = 0, missing_chunks = 0,
     evicted_frames = 0, in_flight_count = 0, max_in_flight_frames = 0, last_frame_payload_bytes = 0,
     last_frame_encoding = ''unknown'' \<rparr>"

definition thermal_server0 :: thermal_server where
  "thermal_server0 = \<lparr> stats = server_stats0, in_flight_frames = [], last_stats_log_at_ms = 0 \<rparr>"

datatype drop_reason = FrameTimeout | DropIncompleteFrame

definition noteIncompleteFrameLocked :: "server_tracker \<Rightarrow> drop_reason \<Rightarrow> server_stats \<Rightarrow> server_stats" where
  "noteIncompleteFrameLocked t reason s =
     (let s = s\<lparr> incomplete_frames := incomplete_frames s + 1, missing_chunks := missing_chunks s + of_nat (tracker_missing t) \<rparr>
      in if reason = DropIncompleteFrame then s\<lparr> evicted_frames := evicted_frames s + 1 \<rparr> else s)"

definition pruneExpiredFramesLocked :: "int \<Rightarrow> int \<Rightarrow> thermal_server \<Rightarrow> thermal_server" where
  "pruneExpiredFramesLocked nowMs timeoutMs g =
     (if timeoutMs \<le> 0 then g
      else
        let (old, new) = partition (\<lambda>(k, t). tracker_expired nowMs timeoutMs t) (in_flight_frames g)
        in g\<lparr> stats := fold (\<lambda>(k, t). noteIncompleteFrameLocked t FrameTimeout) old (stats g), in_flight_frames := new \<rparr>)"

function trimTrackedFramesLocked :: "int \<Rightarrow> thermal_server \<Rightarrow> thermal_server" where
  "trimTrackedFramesLocked maxTrackedFrames g =
     (if maxTrackedFrames \<le> 0 then g
      else if int (length (in_flight_frames g)) > maxTrackedFrames then
        (case oldest_frame (in_flight_frames g) of
           None \<Rightarrow> g
         | Some (k, t) \<Rightarrow> trimTrackedFramesLocked maxTrackedFrames
             (g\<lparr> stats := noteIncompleteFrameLocked t DropIncompleteFrame (stats g),
                in_flight_frames := smap_erase k (in_flight_frames g) \<rparr>))
      else g)"
  by pat_completeness auto
termination
  by (relation "measure (\<lambda>(mx, g). length (in_flight_frames g))")
    (auto dest!: oldest_frame_in intro: length_erase_less)

declare trimTrackedFramesLocked.simps [simp del]

text \<open>The time of the last line in the log; the line itself is left out.\<close>

definition maybeLogThermalStatsLocked :: "int \<Rightarrow> int \<Rightarrow> thermal_server \<Rightarrow> thermal_server" where
  "maybeLogThermalStatsLocked nowMs statsLogIntervalMs g =
     (if statsLogIntervalMs \<le> 0 \<or> packets_received (stats g) = 0 then g
      else if last_stats_log_at_ms g \<noteq> 0 \<and> nowMs - last_stats_log_at_ms g < statsLogIntervalMs then g
      else g\<lparr> last_stats_log_at_ms := nowMs \<rparr>)"

definition note_packet :: "nat \<Rightarrow> int \<Rightarrow> server_stats \<Rightarrow> server_stats" where
  "note_packet packetBytes nowMs s = s\<lparr> packets_received := packets_received s + 1,
     bytes_received := bytes_received s + of_nat packetBytes, last_packet_bytes := packetBytes, last_packet_at_ms := nowMs \<rparr>"

definition note_in_flight :: "thermal_server \<Rightarrow> thermal_server" where
  "note_in_flight g = g\<lparr> stats := (stats g)\<lparr> in_flight_count := length (in_flight_frames g),
     max_in_flight_frames := max (max_in_flight_frames (stats g)) (length (in_flight_frames g)) \<rparr>\<rparr>"

definition noteInvalidPacketStats :: "nat \<Rightarrow> string \<Rightarrow> bool \<Rightarrow> int \<Rightarrow> int \<Rightarrow> thermal_server \<Rightarrow> thermal_server" where
  "noteInvalidPacketStats packetBytes senderText enableFrameStats statsLogIntervalMs nowMs g =
     (let s = note_packet packetBytes nowMs (stats g);
          g = g\<lparr> stats := s\<lparr> invalid_packets := invalid_packets s + 1 \<rparr>\<rparr>
      in if enableFrameStats
         then maybeLogThermalStatsLocked nowMs statsLogIntervalMs (g\<lparr> stats := (stats g)\<lparr> last_sender := senderText \<rparr>\<rparr>)
         else g)"

text \<open>Lines 2280-2308: the packet in the tracker of its frame; the flag tells a duplicate.\<close>

definition tracker_enter :: "int \<Rightarrow> normalized_packet \<Rightarrow> server_tracker \<Rightarrow> bool \<times> server_tracker" where
  "tracker_enter nowMs packet t =
     (let h = npHeader packet;
          t = tracker_touch nowMs (chunkIndex h) (headerTotal h) t;
          t = (if npHasRangeData packet
               then t\<lparr> headerMinValue := minValue h, headerMaxValue := maxValue h, headerHasRangeData := True \<rparr> else t)
      in if chunkIndex h \<in> uniqueChunks t then (True, t)
         else
           let chunkPayload = drop kThermalHeaderBytes (wsPayload packet);
               t = t\<lparr> uniqueChunks := insert (chunkIndex h) (uniqueChunks t),
                      payloadBytes := payloadBytes t + length chunkPayload,
                      chunkPayloads := smap_put (chunkIndex h) chunkPayload (chunkPayloads t) \<rparr>
           in (False, updateThermalTrackerRawRange chunkPayload t))"

text \<open>Lines 2280-2318: the packet in the table of frames.\<close>

definition assemble_chunk :: "int \<Rightarrow> normalized_packet \<Rightarrow> thermal_server \<Rightarrow> completed_frame option \<times> thermal_server" where
  "assemble_chunk nowMs packet g =
     (let h = npHeader packet;
          t = (case map_of (in_flight_frames g) (frameId h) of None \<Rightarrow> server_tracker0 | Some t \<Rightarrow> t);
          (dup, t) = tracker_enter nowMs packet t;
          s = stats g;
          s = (if dup then s\<lparr> duplicate_chunks := duplicate_chunks s + 1 \<rparr> else s)
      in if tracker_complete t
         then
           let f = finalizeCompletedThermalFrame h t
           in (Some f, g\<lparr> stats := s\<lparr> frames_completed := frames_completed s + 1, last_min_val := minValue (cfHeader f),
                 last_max_val := maxValue (cfHeader f), last_frame_payload_bytes := cfPayloadBytes f,
                 last_frame_encoding := encoding f \<rparr>, in_flight_frames := smap_erase (frameId h) (in_flight_frames g) \<rparr>)
         else (None, g\<lparr> stats := s, in_flight_frames := smap_put (frameId h) t (in_flight_frames g) \<rparr>))"

record server_cfg =
  enable_frame_stats :: bool
  frame_timeout_ms :: int
  max_tracked_frames :: int
  stats_log_interval_ms :: int

text \<open>The frame the packet completed, if any: \<^verbatim>\<open>completedFrame.ready\<close> is set then and only then.\<close>

definition updatePacketStats :: "server_cfg \<Rightarrow> normalized_packet \<Rightarrow> nat \<Rightarrow> string \<Rightarrow> int \<Rightarrow> thermal_server \<Rightarrow>
    completed_frame option \<times> thermal_server" where
  "updatePacketStats c packet packetBytes senderText nowMs g =
     (let h = npHeader packet;
          s = note_packet packetBytes nowMs (stats g);
          s = s\<lparr> last_frame_id := frameId h, last_chunk_index := chunkIndex h, last_total_chunks := headerTotal h,
                 last_min_val := minValue h, last_max_val := maxValue h \<rparr>;
          s = (if enable_frame_stats c then s\<lparr> last_sender := senderText \<rparr> else s);
          g = note_in_flight (pruneExpiredFramesLocked nowMs (frame_timeout_ms c) (g\<lparr> stats := s \<rparr>));
          (completed, g) = assemble_chunk nowMs packet g;
          g = note_in_flight (trimTrackedFramesLocked (max_tracked_frames c) g)
      in (completed, if enable_frame_stats c then maybeLogThermalStatsLocked nowMs (stats_log_interval_ms c) g else g))"

text \<open>
  One datagram in the receiver loop: what it hands to the event detection and to the broadcast.
  The clock is read once for the normalization and once more under the lock.
\<close>

definition thermal_receive :: "server_cfg \<Rightarrow> string \<Rightarrow> int \<Rightarrow> int \<Rightarrow> bytes \<Rightarrow> normalizer \<times> thermal_server \<Rightarrow>
    (completed_frame option \<times> bytes) option \<times> normalizer \<times> thermal_server" where
  "thermal_receive c sender_key now_ms nowMs payload st =
     (case st of (n, g) \<Rightarrow>
        let sender_text = (if enable_frame_stats c then sender_key else [])
        in case normalizeThermalPayload payload sender_key now_ms (frame_timeout_ms c) n of
             (None, n) \<Rightarrow> (None, n,
               noteInvalidPacketStats (length payload) sender_text (enable_frame_stats c) (stats_log_interval_ms c) nowMs g)
           | (Some packet, n) \<Rightarrow> (case updatePacketStats c packet (length payload) sender_text nowMs g of
               (completed, g) \<Rightarrow> (Some (completed, wsPayload packet), n, g)))"

end
