(* ===== verification/ThermalGatewaySpec.thy ===== *)
theory ThermalGatewaySpec imports ThermalGateway MqttFrameSpec begin

text \<open>
  Properties of the DTLS gateway: the messages of the ESP32 are always taken for what they are, and
  its statistics follow the frames: the tracker satisfies the contract \<open>chunk_assembly\<close>.
\<close>

section \<open>Invariant of the statistics\<close>

definition tracker_ok :: "'a chunk_tracker_scheme \<Rightarrow> bool" where
  "tracker_ok t \<longleftrightarrow> finite (uniqueChunks t) \<and> \<not> tracker_complete t"

definition path_ok :: "path_stats \<Rightarrow> bool" where
  "path_ok s \<longleftrightarrow> smap (inFlightFrames s) \<and> (\<forall>(k, t)\<in>set (inFlightFrames s). tracker_ok t)"

lemma note_frames [simp]: "inFlightFrames (noteIncompleteFrame t s) = inFlightFrames s"
  "inFlightFrames (fold (\<lambda>(k, t). noteIncompleteFrame t) xs s) = inFlightFrames s"
  by (simp add: noteIncompleteFrame_def)
    (induction xs arbitrary: s, simp_all add: noteIncompleteFrame_def case_prod_beta)

lemma prune_frames: "inFlightFrames (pruneExpiredFrames now timeout s) = live_frames now timeout (inFlightFrames s)"
  by (auto simp: pruneExpiredFrames_def live_frames_def Let_def partition_filter_conv o_def case_prod_beta intro!: filter_cong)

lemma prune_completed [simp]: "completedFrames (pruneExpiredFrames now timeout s) = completedFrames s"
proof -
  have "completedFrames (fold (\<lambda>(k, t). noteIncompleteFrame t) xs s) = completedFrames s"
    for xs :: "(u16 \<times> chunk_tracker) list"
    by (induction xs arbitrary: s) (auto simp: noteIncompleteFrame_def)
  then show ?thesis by (simp add: pruneExpiredFrames_def Let_def case_prod_beta)
qed

text \<open>Trimming removes whole entries, leaves the rest alone and brings the table within its bound.\<close>

lemma trim_frames:
  shows "set (inFlightFrames (trimTrackedFrames mx s)) \<subseteq> set (inFlightFrames s)" (is ?sub)
    and "smap (inFlightFrames s) \<Longrightarrow> smap (inFlightFrames (trimTrackedFrames mx s))"
    and "mx \<le> 0 \<or> int (length (inFlightFrames (trimTrackedFrames mx s))) \<le> mx" (is ?len)
    and "completedFrames (trimTrackedFrames mx s) = completedFrames s"
proof -
  have "?sub \<and> (smap (inFlightFrames s) \<longrightarrow> smap (inFlightFrames (trimTrackedFrames mx s))) \<and> ?len \<and>
      completedFrames (trimTrackedFrames mx s) = completedFrames s"
  proof (induction mx s rule: trimTrackedFrames.induct)
    case (1 mx s)
    show ?case
    proof (cases "mx > 0 \<and> int (length (inFlightFrames s)) > mx")
      case True
      then obtain k t where kt: "oldest_frame (inFlightFrames s) = Some (k, t)"
        by (cases "inFlightFrames s") (auto simp: prod_eq_iff)
      show ?thesis
        using 1[OF _ _ kt refl refl] True by (subst (1 2 3 4) trimTrackedFrames.simps)
          (auto simp: kt Let_def smap_erase_def noteIncompleteFrame_def)
    next
      case False
      then show ?thesis by (subst (1 2 3 4) trimTrackedFrames.simps) auto
    qed
  qed
  then show ?sub "smap (inFlightFrames s) \<Longrightarrow> smap (inFlightFrames (trimTrackedFrames mx s))" ?len
    "completedFrames (trimTrackedFrames mx s) = completedFrames s" by simp_all
qed

lemma trim_noop: "mx \<le> 0 \<or> int (length (inFlightFrames s)) \<le> mx \<Longrightarrow> trimTrackedFrames mx s = s"
  by (subst trimTrackedFrames.simps) auto

section \<open>The tracker assembles\<close>

definition path_announced :: "path_stats \<Rightarrow> u16 \<Rightarrow> u16 option" where
  "path_announced s f = map_option totalChunks (map_of (inFlightFrames s) f)"

definition path_parts :: "path_stats \<Rightarrow> u16 \<Rightarrow> u16 \<rightharpoonup> unit" where
  "path_parts s f = (\<lambda>i. case map_of (inFlightFrames s) f of None \<Rightarrow> None | Some t \<Rightarrow> if i \<in> uniqueChunks t then Some () else None)"

text \<open>A packet with its time of arrival, entered as \<open>updateThermalPathStats\<close> does.\<close>

type_synonym timed_header = "int \<times> thermal_header"

definition path_feed :: "int \<Rightarrow> int \<Rightarrow> timed_header \<Rightarrow> path_stats \<Rightarrow> bool \<times> path_stats" where
  "path_feed timeout mx p s =
     (case p of (now, h) \<Rightarrow> case enter_chunk now h (pruneExpiredFrames now timeout s) of (full, s') \<Rightarrow> (full, trimTrackedFrames mx s'))"

definition path_admits :: "int \<Rightarrow> int \<Rightarrow> timed_header \<Rightarrow> path_stats \<Rightarrow> bool" where
  "path_admits timeout mx p s \<longleftrightarrow> frame_admitted (fst p) timeout mx (frameId (snd p)) (inFlightFrames s) \<and>
     chunkIndex (snd p) < headerTotal (snd p)"

definition path_soon :: "int \<Rightarrow> timed_header \<Rightarrow> timed_header \<Rightarrow> bool" where
  "path_soon timeout p q \<longleftrightarrow> fst q \<noteq> 0 \<and> (timeout \<le> 0 \<or> fst q - fst p \<le> timeout) \<and> chunkIndex (snd q) < headerTotal (snd q)"

lemma path_ok_live: "path_ok s \<Longrightarrow> path_ok (pruneExpiredFrames now timeout s)"
  using live_frames_subset[of now timeout "inFlightFrames s"] by (auto simp: path_ok_def prune_frames)

lemma path_ok_trim: "path_ok s \<Longrightarrow> path_ok (trimTrackedFrames mx s)"
  using trim_frames(1,2)[where s = s and mx = mx] by (auto simp: path_ok_def)

text \<open>Entering a chunk, over the chunks the frame has so far.\<close>

lemma enter_chunk_cases:
  assumes "path_ok s" and "enter_chunk now h s = (full, s')" and "chunkIndex h < headerTotal h"
    and "path_announced s (frameId h) \<in> {None, Some (headerTotal h)}"
  shows "full \<longleftrightarrow> unat (headerTotal h) \<le> card (insert (chunkIndex h) (dom (path_parts s (frameId h))))"
    and "full \<Longrightarrow> inFlightFrames s' = smap_erase (frameId h) (inFlightFrames s) \<and> completedFrames s' = completedFrames s + 1"
    and "\<not> full \<Longrightarrow> completedFrames s' = completedFrames s \<and> (\<exists>t. inFlightFrames s' = smap_put (frameId h) t (inFlightFrames s) \<and>
      totalChunks t = headerTotal h \<and> lastSeenAtMs t = now \<and> uniqueChunks t = insert (chunkIndex h) (dom (path_parts s (frameId h))))"
proof -
  define t0 where "t0 = (case map_of (inFlightFrames s) (frameId h) of None \<Rightarrow> tracker0 | Some t \<Rightarrow> t)"
  define t1 where "t1 = tracker_touch now (chunkIndex h) (headerTotal h) t0"
  define t where "t = t1\<lparr> uniqueChunks := insert (chunkIndex h) (uniqueChunks t1) \<rparr>"
  have u: "uniqueChunks t0 = dom (path_parts s (frameId h))"
    by (auto simp: t0_def path_parts_def tracker0_def split: option.splits if_splits)
  have tot: "totalChunks t = headerTotal h"
    using tracker_touch_total[OF assms(3), of t0 now] assms(4)
    by (auto simp: t_def t1_def t0_def path_announced_def tracker0_def split: option.splits)
  have t: "uniqueChunks t = insert (chunkIndex h) (dom (path_parts s (frameId h)))" "lastSeenAtMs t = now"
    by (simp_all add: t_def t1_def u)
  have full: "full = tracker_complete t"
    and s': "inFlightFrames s' = (if full then smap_erase (frameId h) (inFlightFrames s) else smap_put (frameId h) t (inFlightFrames s))"
      "completedFrames s' = (if full then completedFrames s + 1 else completedFrames s)"
    using assms(2) unfolding enter_chunk_def Let_def t0_def[symmetric] t1_def[symmetric] t_def[symmetric]
    by (auto split: if_splits)
  have "0 < headerTotal h" using assms(3) by (metis word_gt_0 word_not_simps(1))
  then show "full \<longleftrightarrow> unat (headerTotal h) \<le> card (insert (chunkIndex h) (dom (path_parts s (frameId h))))"
    unfolding full tracker_complete_def tot t(1) by simp
  show "full \<Longrightarrow> inFlightFrames s' = smap_erase (frameId h) (inFlightFrames s) \<and> completedFrames s' = completedFrames s + 1"
    using s' by simp
  show "\<not> full \<Longrightarrow> completedFrames s' = completedFrames s \<and> (\<exists>t. inFlightFrames s' = smap_put (frameId h) t (inFlightFrames s) \<and>
      totalChunks t = headerTotal h \<and> lastSeenAtMs t = now \<and> uniqueChunks t = insert (chunkIndex h) (dom (path_parts s (frameId h))))"
    using s' t tot by auto
qed

lemma smap_erase_subset: "set (smap_erase k m) \<subseteq> set m"
  by (auto simp: smap_erase_def)

lemma smap_put_subset: "set (smap_put k v m) \<subseteq> insert (k, v) (set m)"
  by (induction k v m rule: smap_put.induct) auto

lemma enter_chunk_ok:
  assumes "path_ok s"
  shows "path_ok (snd (enter_chunk now h s))"
proof -
  define t1 where "t1 = tracker_touch now (chunkIndex h) (headerTotal h)
    (case map_of (inFlightFrames s) (frameId h) of None \<Rightarrow> tracker0 | Some t \<Rightarrow> t)"
  define t where "t = t1\<lparr> uniqueChunks := insert (chunkIndex h) (uniqueChunks t1) \<rparr>"
  have m: "smap (inFlightFrames s)" "\<And>k u. (k, u) \<in> set (inFlightFrames s) \<Longrightarrow> tracker_ok u"
    using assms by (auto simp: path_ok_def)
  then have "finite (uniqueChunks t)"
    by (auto simp: t_def t1_def tracker0_def tracker_ok_def split: option.splits dest: map_of_SomeD)
  then have "tracker_ok t" if "\<not> tracker_complete t" using that by (simp add: tracker_ok_def)
  moreover have "inFlightFrames (snd (enter_chunk now h s)) =
      (if tracker_complete t then smap_erase (frameId h) (inFlightFrames s) else smap_put (frameId h) t (inFlightFrames s))"
    unfolding enter_chunk_def Let_def t1_def[symmetric] t_def[symmetric] by simp
  ultimately show ?thesis
    using m smap_erase_subset[of "frameId h" "inFlightFrames s"] smap_put_subset[of "frameId h" t "inFlightFrames s"]
    by (auto simp: path_ok_def)
qed

lemma path_feed_step:
  assumes "path_ok s" and "path_admits timeout mx p s" and "path_announced s (frameId (snd p)) \<in> {None, Some (headerTotal (snd p))}"
  defines "S \<equiv> insert (chunkIndex (snd p)) (dom (path_parts s (frameId (snd p))))" and "f \<equiv> frameId (snd p)"
  shows "\<exists>full s'. path_feed timeout mx p s = (full, s') \<and> path_ok s' \<and>
    (full \<longleftrightarrow> unat (headerTotal (snd p)) \<le> card S) \<and>
    (if full then path_announced s' f = None
     else path_announced s' f = Some (headerTotal (snd p)) \<and> path_parts s' f = (path_parts s f)(chunkIndex (snd p) \<mapsto> ())) \<and>
    (\<forall>q. path_soon timeout p q \<and> frameId (snd q) = f \<longrightarrow> path_admits timeout mx q s') \<and>
    completedFrames s' = completedFrames s + (if full then 1 else 0)"
proof -
  obtain now h where p: "p = (now, h)" by (cases p)
  define s1 where "s1 = pruneExpiredFrames now timeout s"
  obtain full s2 where e: "enter_chunk now h s1 = (full, s2)" by fastforce
  have adm: "smap (inFlightFrames s)" "frame_admitted now timeout mx f (inFlightFrames s)" "chunkIndex h < headerTotal h"
    using assms(1,2) by (simp_all add: path_ok_def path_admits_def p f_def)
  have m1: "inFlightFrames s1 = live_frames now timeout (inFlightFrames s)" by (simp add: s1_def prune_frames)
  have same: "path_announced s1 f = path_announced s f" "path_parts s1 f = path_parts s f"
    using live_frames_admitted(1)[OF adm(1,2)] by (auto simp: path_announced_def path_parts_def m1)
  have ok1: "path_ok s1" using path_ok_live[OF assms(1)] by (simp add: s1_def)
  note c = enter_chunk_cases[OF ok1 e adm(3), folded f_def[unfolded p snd_conv], unfolded same]
  have an: "path_announced s f \<in> {None, Some (headerTotal h)}" using assms(3) by (simp add: p f_def)
  note c = c[unfolded p snd_conv f_def, OF an[unfolded f_def p snd_conv]]
  have shape: "inFlightFrames s2 = smap_erase f (inFlightFrames s1) \<or>
      (\<exists>t. inFlightFrames s2 = smap_put f t (inFlightFrames s1) \<and> lastSeenAtMs t = now)"
    using c(2,3) by (cases full) (auto simp: f_def p)
  have "timeout \<le> 0 \<or> now - now \<le> timeout" "now \<noteq> 0" using adm(2) by (auto simp: frame_admitted_def)
  then have "frame_admitted now timeout mx f (inFlightFrames s2)"
    using frame_admitted_next[OF adm(1,2), of now "inFlightFrames s2"] shape unfolding m1 by blast
  then have "mx \<le> 0 \<or> int (length (inFlightFrames s2)) \<le> mx" by (auto simp: frame_admitted_def split: if_splits)
  then have feed: "path_feed timeout mx p s = (full, s2)"
    using e by (simp add: path_feed_def p s1_def[symmetric] trim_noop)
  have "path_ok s2" using enter_chunk_ok[OF ok1, of now h] e by simp
  note feed = this feed
  have parts: "path_announced s2 f = Some (headerTotal h) \<and> path_parts s2 f = (path_parts s f)(chunkIndex h \<mapsto> ())" if nf: "\<not> full"
  proof -
    obtain t where t: "inFlightFrames s2 = smap_put f t (inFlightFrames s1)" "totalChunks t = headerTotal h"
      "uniqueChunks t = insert (chunkIndex h) (dom (path_parts s f))" using c(3)[OF nf] by (auto simp: f_def p)
    have "path_parts s f i = (if i \<in> dom (path_parts s f) then Some () else None)" for i
      by (cases "path_parts s f i") auto
    then show ?thesis by (auto simp: path_announced_def path_parts_def[of s2] t fun_eq_iff)
  qed
  have next_ok: "path_admits timeout mx q s2" if "path_soon timeout p q" "frameId (snd q) = f" for q
    using frame_admitted_next[OF adm(1,2), of "fst q" "inFlightFrames s2"] shape that
    by (auto simp: path_soon_def path_admits_def p m1)
  have gone: "path_announced s2 f = None" if full using c(2)[OF that] by (simp add: path_announced_def f_def p)
  have cnt: "completedFrames s2 = completedFrames s + (if full then 1 else 0)"
    using c(2,3) by (cases full) (auto simp: s1_def)
  have "full = (unat (headerTotal h) \<le> card S)" using c(1) by (simp add: S_def p f_def)
  then show ?thesis using feed parts gone next_ok cnt unfolding p snd_conv by (intro exI[of _ full] exI[of _ s2]) auto
qed

text \<open>The datagrams as \<open>updateThermalPathStats\<close> takes them.\<close>

type_synonym timed_datagram = "int \<times> bytes"

definition datagram_header :: "timed_datagram \<Rightarrow> thermal_header" where
  "datagram_header p = the (parseThermalPacketHeader (snd p))"

definition gw_feed :: "int \<Rightarrow> int \<Rightarrow> timed_datagram \<Rightarrow> path_stats \<Rightarrow> unit option \<times> path_stats" where
  "gw_feed timeout mx p s =
     (let s' = updateThermalPathStats (snd p) (fst p) timeout mx s
      in (if completedFrames s' = completedFrames s then None else Some (), s'))"

definition gw_admits :: "int \<Rightarrow> int \<Rightarrow> timed_datagram \<Rightarrow> path_stats \<Rightarrow> bool" where
  "gw_admits timeout mx p s \<longleftrightarrow> parseThermalPacketHeader (snd p) \<noteq> None \<and> path_admits timeout mx (fst p, datagram_header p) s"

definition gw_soon :: "int \<Rightarrow> timed_datagram \<Rightarrow> timed_datagram \<Rightarrow> bool" where
  "gw_soon timeout p q \<longleftrightarrow> parseThermalPacketHeader (snd q) \<noteq> None \<and>
     path_soon timeout (fst p, datagram_header p) (fst q, datagram_header q)"

lemma path_frames_only:
  assumes "inFlightFrames s' = inFlightFrames s"
  shows "path_ok s' = path_ok s" "path_announced s' = path_announced s" "path_parts s' = path_parts s"
    "path_admits timeout mx p s' = path_admits timeout mx p s"
  using assms by (auto simp: path_ok_def path_announced_def path_parts_def path_admits_def fun_eq_iff)

lemma update_feed:
  assumes "parseThermalPacketHeader data = Some h"
  shows "\<exists>s0. inFlightFrames s0 = inFlightFrames s \<and> completedFrames s0 = completedFrames s \<and>
    inFlightFrames (updateThermalPathStats data now timeout mx s) = inFlightFrames (snd (path_feed timeout mx (now, h) s0)) \<and>
    completedFrames (updateThermalPathStats data now timeout mx s) = completedFrames (snd (path_feed timeout mx (now, h) s0))"
  unfolding updateThermalPathStats_def Let_def assms option.case path_feed_def prod.case
  by (intro exI[of _ "s\<lparr> packets := packets s + 1, path_bytes := path_bytes s + of_nat (length data),
      lastPacketBytes := length data, lastPacketAtMs := now, lastFrameId := frameId h, lastChunkIndex := chunkIndex h,
      lastTotalChunks := headerTotal h \<rparr>"]) (simp add: case_prod_beta)

lemma gw_feed_step:
  assumes "path_ok s" and "gw_admits timeout mx p s"
    and "path_announced s (frameId (datagram_header p)) \<in> {None, Some (headerTotal (datagram_header p))}"
  defines "h \<equiv> datagram_header p"
  shows "\<exists>full s'. gw_feed timeout mx p s = (if full then Some () else None, s') \<and> path_ok s' \<and>
    (full \<longleftrightarrow> unat (headerTotal h) \<le> card (insert (chunkIndex h) (dom (path_parts s (frameId h))))) \<and>
    (if full then path_announced s' (frameId h) = None
     else path_announced s' (frameId h) = Some (headerTotal h) \<and>
       path_parts s' (frameId h) = (path_parts s (frameId h))(chunkIndex h \<mapsto> ())) \<and>
    (\<forall>q. gw_soon timeout p q \<and> frameId (datagram_header q) = frameId h \<longrightarrow> gw_admits timeout mx q s') \<and>
    completedFrames s' = completedFrames s + (if full then 1 else 0)"
proof -
  obtain now data where p: "p = (now, data)" by (cases p)
  have hd: "parseThermalPacketHeader data = Some h"
    using assms(2) by (auto simp: gw_admits_def h_def datagram_header_def p)
  define s' where "s' = updateThermalPathStats data now timeout mx s"
  obtain s0 where s0: "inFlightFrames s0 = inFlightFrames s" "completedFrames s0 = completedFrames s"
    and fed: "inFlightFrames s' = inFlightFrames (snd (path_feed timeout mx (now, h) s0))"
      "completedFrames s' = completedFrames (snd (path_feed timeout mx (now, h) s0))"
    using update_feed[OF hd, of s now timeout mx] by (auto simp: s'_def)
  note same0 = path_frames_only[OF s0(1)]
  have "path_ok s0" "path_admits timeout mx (now, h) s0" "path_announced s0 (frameId (snd (now, h))) \<in> {None, Some (headerTotal (snd (now, h)))}"
    using assms(1-3) unfolding same0 by (simp_all add: gw_admits_def p h_def)
  from path_feed_step[OF this] obtain full s1 where
    s1: "path_feed timeout mx (now, h) s0 = (full, s1)" "path_ok s1"
      "full \<longleftrightarrow> unat (headerTotal h) \<le> card (insert (chunkIndex h) (dom (path_parts s (frameId h))))"
      "if full then path_announced s1 (frameId h) = None
       else path_announced s1 (frameId h) = Some (headerTotal h) \<and> path_parts s1 (frameId h) = (path_parts s (frameId h))(chunkIndex h \<mapsto> ())"
      "\<forall>q. path_soon timeout (now, h) q \<and> frameId (snd q) = frameId h \<longrightarrow> path_admits timeout mx q s1"
      "completedFrames s1 = completedFrames s0 + (if full then 1 else 0)"
    unfolding same0 snd_conv by blast
  have same1: "inFlightFrames s' = inFlightFrames s1" using fed(1) s1(1) by simp
  have cnt: "completedFrames s' = completedFrames s + (if full then 1 else 0)" using fed(2) s1(1,6) s0(2) by simp
  have "gw_feed timeout mx p s = (if full then Some () else None, s')"
    using cnt by (simp add: gw_feed_def p s'_def[symmetric] Let_def)
  moreover have "gw_admits timeout mx q s'" if "gw_soon timeout p q" "frameId (datagram_header q) = frameId h" for q
    using s1(5) that path_frames_only(4)[OF same1] by (simp add: gw_soon_def gw_admits_def p h_def)
  ultimately show ?thesis
    using s1(2-4) cnt path_frames_only[OF same1] by (intro exI[of _ full] exI[of _ s']) auto
qed

lemma path_parts_finite: "path_ok s \<Longrightarrow> finite (dom (path_parts s f))"
  by (auto simp: path_parts_def path_ok_def tracker_ok_def dom_def split: option.splits dest!: map_of_SomeD)

lemma path_ok_update: "path_ok s \<Longrightarrow> path_ok (updateThermalPathStats data now timeout mx s)"
proof (cases "parseThermalPacketHeader data")
  case None
  assume "path_ok s"
  moreover have "inFlightFrames (updateThermalPathStats data now timeout mx s) = inFlightFrames s"
    by (simp add: updateThermalPathStats_def None)
  ultimately show ?thesis using path_frames_only(1) by metis
next
  case (Some h)
  assume "path_ok s"
  moreover obtain s0 where "inFlightFrames s0 = inFlightFrames s"
    "inFlightFrames (updateThermalPathStats data now timeout mx s) = inFlightFrames (snd (path_feed timeout mx (now, h) s0))"
    using update_feed[OF Some, of s now timeout mx] by auto
  moreover have "path_ok (snd (path_feed timeout mx (now, h) r))" if "path_ok r" for r
    using enter_chunk_ok[OF path_ok_live[OF that]] path_ok_trim by (simp add: path_feed_def case_prod_beta)
  ultimately show ?thesis using path_frames_only(1) by metis
qed

interpretation gateway: chunk_assembly path_ok path_announced path_parts "\<lambda>p. frameId (datagram_header p)"
  "\<lambda>p. chunkIndex (datagram_header p)" "\<lambda>p. headerTotal (datagram_header p)" "\<lambda>p. ()" "gw_admits timeout mx"
  "gw_soon timeout" "\<lambda>p parts. ()" "gw_feed timeout mx" for timeout mx :: int
proof
  fix s p assume ok: "path_ok s"
  show "path_ok (snd (gw_feed timeout mx p s))" using path_ok_update[OF ok] by (simp add: gw_feed_def Let_def)
next
  fix s :: path_stats and f assume "path_announced s f = None"
  then show "path_parts s f = Map.empty" by (auto simp: path_announced_def path_parts_def)
next
  fix s p
  assume a: "path_ok s" "gw_admits timeout mx p s"
    "path_announced s (frameId (datagram_header p)) \<in> {None, Some (headerTotal (datagram_header p))}"
    and new: "chunkIndex (datagram_header p) \<notin> dom (path_parts s (frameId (datagram_header p)))"
  let ?D = "dom (path_parts s (frameId (datagram_header p)))"
  have card: "card (insert (chunkIndex (datagram_header p)) ?D) = Suc (card ?D)"
    using new path_parts_finite[OF a(1)] by simp
  note r = gw_feed_step[OF a, unfolded card]
  show "fst (gw_feed timeout mx p s) = None \<and>
      path_announced (snd (gw_feed timeout mx p s)) (frameId (datagram_header p)) = Some (headerTotal (datagram_header p)) \<and>
      path_parts (snd (gw_feed timeout mx p s)) (frameId (datagram_header p)) =
        (path_parts s (frameId (datagram_header p)))(chunkIndex (datagram_header p) \<mapsto> ())"
    if "Suc (card ?D) < unat (headerTotal (datagram_header p))"
    using r that by fastforce
  show "fst (gw_feed timeout mx p s) = Some () \<and>
      path_announced (snd (gw_feed timeout mx p s)) (frameId (datagram_header p)) = None"
    if "unat (headerTotal (datagram_header p)) \<le> Suc (card ?D)"
    using r that by fastforce
next
  fix s p q
  assume a: "path_ok s" "gw_admits timeout mx p s"
    "path_announced s (frameId (datagram_header p)) \<in> {None, Some (headerTotal (datagram_header p))}"
    and q: "gw_soon timeout p q" "frameId (datagram_header q) = frameId (datagram_header p)"
  show "gw_admits timeout mx q (snd (gw_feed timeout mx p s))" using gw_feed_step[OF a] q by fastforce
qed


text \<open>The statistics after any datagrams, with their times of arrival.\<close>

definition path_run :: "int \<Rightarrow> int \<Rightarrow> timed_datagram list \<Rightarrow> path_stats \<Rightarrow> path_stats" where
  "path_run timeout mx ps s = fold (\<lambda>(now, data). updateThermalPathStats data now timeout mx) ps s"

lemma path_run_ok: "path_ok s \<Longrightarrow> path_ok (path_run timeout mx ps s)"
  unfolding path_run_def by (induction ps arbitrary: s) (auto simp: path_ok_update)

lemma path_run_start: "path_ok (path_run timeout mx ps path_stats0)"
  by (rule path_run_ok) (simp add: path_ok_def path_stats0_def)

lemma completed_step:
  "completedFrames (updateThermalPathStats data now timeout mx s) \<in> {completedFrames s, completedFrames s + 1}"
proof (cases "parseThermalPacketHeader data")
  case (Some h)
  have "completedFrames (snd (enter_chunk now h r)) \<in> {completedFrames r, completedFrames r + 1}" for r
    by (auto simp: enter_chunk_def Let_def)
  then show ?thesis
    using update_feed[OF Some, of s now timeout mx] by (auto simp: path_feed_def case_prod_beta trim_frames(4)) (metis prune_completed)
qed (simp add: updateThermalPathStats_def)

lemma gateway_counts:
  "gateway.feed_all timeout mx ps s = (rs, s') \<Longrightarrow>
    s' = path_run timeout mx ps s \<and> completedFrames s' = completedFrames s + of_nat (length (filter (\<lambda>r. r \<noteq> None) rs))"
proof (induction ps arbitrary: s rs s')
  case Nil
  then show ?case by (simp add: path_run_def)
next
  case (Cons p ps)
  obtain rs1 where rs: "gateway.feed_all timeout mx ps (snd (gw_feed timeout mx p s)) = (rs1, s')" "rs = fst (gw_feed timeout mx p s) # rs1"
    using Cons.prems by (auto split: prod.splits)
  have "completedFrames (snd (gw_feed timeout mx p s)) = completedFrames s + (if fst (gw_feed timeout mx p s) \<noteq> None then 1 else 0)"
    using completed_step[of "snd p" "fst p" timeout mx s] by (auto simp: gw_feed_def Let_def)
  then show ?case using Cons.IH[OF rs(1)] by (auto simp: rs(2) path_run_def gw_feed_def Let_def case_prod_beta)
qed

section \<open>The messages of the ESP32\<close>

lemma readBe16_join: "readBe16 p off = be16_join (p ! off) (p ! (off + 1))"
  by (simp add: readBe16_def be16_join_def)

definition msg_header :: "stream_cfg \<Rightarrow> u16 \<Rightarrow> u16 \<Rightarrow> u16 \<Rightarrow> nat \<Rightarrow> thermal_header" where
  "msg_header c fid mn mx i = \<lparr> frameId = fid, chunkIndex = of_nat i, headerTotal = stream_total_chunks c, minValue = mn, maxValue = mx \<rparr>"

lemma msg_header_simps [simp]:
  "frameId (msg_header c fid mn mx i) = fid" "chunkIndex (msg_header c fid mn mx i) = of_nat i"
  "headerTotal (msg_header c fid mn mx i) = stream_total_chunks c"
  "minValue (msg_header c fid mn mx i) = mn" "maxValue (msg_header c fid mn mx i) = mx"
  by (simp_all add: msg_header_def)

lemma chunk_index_less: "i < unat (stream_total_chunks c) \<Longrightarrow> of_nat i < stream_total_chunks c"
  using chunk_cover(4)[of c] by (simp add: word_less_nat_alt unat_of_nat)

lemma parse_chunk_msg:
  assumes "length fb = FRAME_BYTES"
  shows "parseThermalPacketHeader (frame_chunk_msg c fb fid mn mx i) = Some (msg_header c fid mn mx i)"
  by (simp add: parseThermalPacketHeader_def readBe16_join chunk_msg_parts[OF assms] be16_bytes_join msg_header_def)

lemma msg_reasonable: "i < unat (stream_total_chunks c) \<Longrightarrow> isReasonableThermalPacketHeader (msg_header c fid mn mx i)"
  using chunk_cover(4)[of c] chunk_index_less[of i c]
  by (simp add: isReasonableThermalPacketHeader_def word_less_nat_alt word_le_nat_alt)

text \<open>A list of chunk numbers in which every chunk of the frame occurs once.\<close>

definition all_chunks :: "stream_cfg \<Rightarrow> nat list \<Rightarrow> bool" where
  "all_chunks c is \<longleftrightarrow> distinct is \<and> set is = {0..<unat (stream_total_chunks c)}"

lemma all_chunks_length: "all_chunks c is \<Longrightarrow> length is = unat (stream_total_chunks c)"
  using distinct_card[of "is"] by (simp add: all_chunks_def)

lemma all_chunks_distinct:
  assumes "all_chunks c is"
  shows "distinct (map (of_nat :: nat \<Rightarrow> u16) is)"
proof -
  have "inj_on (of_nat :: nat \<Rightarrow> u16) (set is)"
    using assms chunk_cover(4)[of c] by (intro inj_onI) (auto simp: all_chunks_def of_nat_eq_iff word_unat_eq_iff unat_of_nat)
  then show ?thesis using assms by (simp add: all_chunks_def distinct_map)
qed

text \<open>Arrival times: none is 0, the value the programs take for ``not seen yet'', and none is late.\<close>

definition in_time :: "int \<Rightarrow> int list \<Rightarrow> bool" where
  "in_time timeout ts \<longleftrightarrow> 0 \<notin> set ts \<and> (timeout \<le> 0 \<or> successively (\<lambda>t t'. t' - t \<le> timeout) ts)"


text \<open>What the receivers use of the messages of a frame that arrive at times \<open>ts\<close> in the order \<open>is\<close>.\<close>

definition chunk_arrivals :: "stream_cfg \<Rightarrow> bytes \<Rightarrow> u16 \<Rightarrow> u16 \<Rightarrow> u16 \<Rightarrow> int list \<Rightarrow> nat list \<Rightarrow> timed_datagram list" where
  "chunk_arrivals c fb fid mn mx ts is = zip ts (map (frame_chunk_msg c fb fid mn mx) is)"

lemma chunk_arrivals:
  fixes fid mn mx :: u16
  assumes "length fb = FRAME_BYTES" and "all_chunks c is" and "length ts = length is" and "in_time timeout ts"
  defines "ps \<equiv> chunk_arrivals c fb fid mn mx ts is"
  shows "ps \<noteq> []" and "length ps = unat (stream_total_chunks c)"
    and "p \<in> set ps \<Longrightarrow> \<exists>i<unat (stream_total_chunks c). snd p = frame_chunk_msg c fb fid mn mx i \<and> fst p \<noteq> 0 \<and>
      parseThermalPacketHeader (snd p) = Some (msg_header c fid mn mx i) \<and> datagram_header p = msg_header c fid mn mx i"
    and "map (\<lambda>p. chunkIndex (datagram_header p)) ps = map of_nat is"
    and "successively (\<lambda>p q. timeout \<le> 0 \<or> fst q - fst p \<le> timeout) ps"
proof -
  show len: "length ps = unat (stream_total_chunks c)" using all_chunks_length[OF assms(2)] assms(3) by (simp add: ps_def chunk_arrivals_def)
  then show "ps \<noteq> []" using chunk_sizes[of c] by (metis list.size(3) zero_neq_numeral)
  have hdr: "datagram_header p = msg_header c fid mn mx i" if "snd p = frame_chunk_msg c fb fid mn mx i" for p i
    using that parse_chunk_msg[OF assms(1)] by (simp add: datagram_header_def)
  then show "map (\<lambda>p. chunkIndex (datagram_header p)) ps = map of_nat is"
    by (intro nth_equalityI) (simp_all add: assms(3) hdr ps_def chunk_arrivals_def)
  show "successively (\<lambda>p q. timeout \<le> 0 \<or> fst q - fst p \<le> timeout) ps"
    using assms(3,4) by (auto simp: successively_conv_nth in_time_def ps_def chunk_arrivals_def)
  show "\<exists>i<unat (stream_total_chunks c). snd p = frame_chunk_msg c fb fid mn mx i \<and> fst p \<noteq> 0 \<and>
      parseThermalPacketHeader (snd p) = Some (msg_header c fid mn mx i) \<and> datagram_header p = msg_header c fid mn mx i" if p: "p \<in> set ps"
  proof -
    obtain k where k: "k < length is" "p = (ts ! k, frame_chunk_msg c fb fid mn mx (is ! k))"
      using p assms(3) by (auto simp: ps_def chunk_arrivals_def set_zip)
    then have "is ! k \<in> set is" "ts ! k \<in> set ts" using assms(3) by (metis nth_mem)+
    then have "is ! k < unat (stream_total_chunks c)" "ts ! k \<noteq> 0"
      using assms(2,4) unfolding all_chunks_def in_time_def by (simp, metis)
    then show ?thesis using k(2) hdr[of p "is ! k"] parse_chunk_msg[OF assms(1)] by auto
  qed
qed

section \<open>Properties\<close>

text \<open>C25: The gateway takes every message of the ESP32 for what it is: whatever the picture and the frame
  id, a message is never mistaken for a DTLS record and its header is read back field by field.\<close>

theorem chunk_classified:
  assumes "length fb = FRAME_BYTES" and "i < unat (stream_total_chunks c)"
  shows "classifyIncomingDatagram (frame_chunk_msg c fb fid mn mx i) = ThermalChunk (msg_header c fid mn mx i)"
proof -
  have "(of_nat i :: u16) div 256 = 0"
    using assms(2) chunk_cover(4)[of c] by (simp add: word_unat_eq_iff unat_div unat_of_nat)
  then have "be16_hi (of_nat i) = 0" by (simp add: be16_hi_def drop_bit_eq_div)
  then have "\<not> looksLikeDtlsRecord (frame_chunk_msg c fb fid mn mx i)"
    by (simp add: looksLikeDtlsRecord_def chunk_msg_parts[OF assms(1)] be16_bytes_join)
  then show ?thesis
    using msg_reasonable[OF assms(2)] by (simp add: classifyIncomingDatagram_def looksLikeThermalChunk_def parse_chunk_msg[OF assms(1)])
qed

lemma chunk_classified_witness:
  "classifyIncomingDatagram (frame_chunk_msg default_cfg example_buf 0x16FE 7000 10000 3) =
     ThermalChunk \<lparr> frameId = 0x16FE, chunkIndex = 3, headerTotal = 19, minValue = 7000, maxValue = 10000 \<rparr>"
  using chunk_classified[OF example_buf_length, of 3 default_cfg "0x16FE" 7000 10000] chunk_sizes(3)[OF default_cfg_modes(2)]
  by (simp add: msg_header_def word_unat_eq_iff)

text \<open>The statistics of the gateway count a frame exactly once: after any datagrams, and with the
  frame not in flight, its messages in any order are one more completed frame, and the frame is out
  of the table again, provided that none is late and the table has room.\<close>

theorem gateway_counts_frame:
  assumes "length fb = FRAME_BYTES" and "s = path_run timeout mx earlier path_stats0"
    and "all_chunks c is" and "length ts = length is" and "in_time timeout ts"
    and "map_of (inFlightFrames s) fid = None" and "mx \<le> 0 \<or> int (length (inFlightFrames s)) < mx"
  shows "completedFrames (path_run timeout mx (chunk_arrivals c fb fid mn mx' ts is) s) = completedFrames s + 1 \<and>
    map_of (inFlightFrames (path_run timeout mx (chunk_arrivals c fb fid mn mx' ts is) s)) fid = None"
proof -
  let ?ps = "chunk_arrivals c fb fid mn mx' ts is"
  note ps = chunk_arrivals[OF assms(1,3-5), where fid = fid and mn = mn and mx = mx']
  have ok: "gw_admits timeout mx p r" if "p \<in> set ?ps" "inFlightFrames r = inFlightFrames s" for p r
    using ps(3)[OF that(1)] that(2) assms(6,7) chunk_index_less by (auto simp: gw_admits_def path_admits_def frame_admitted_def)
  have soon: "successively (gw_soon timeout) ?ps"
    by (rule successively_mono[OF ps(5)]) (use ps(3) chunk_index_less in \<open>force simp: gw_soon_def path_soon_def\<close>)
  have frame: "frameId (datagram_header p) = fid \<and> headerTotal (datagram_header p) = stream_total_chunks c \<and>
      chunkIndex (datagram_header p) < stream_total_chunks c" if "p \<in> set ?ps" for p
    using ps(3)[OF that] chunk_index_less by auto
  have "path_ok s" "path_announced s fid = None"
    using path_run_start assms(2,6) by (simp_all add: path_announced_def)
  from gateway.complete_frame[OF ps(1) this(1) ok[OF hd_in_set[OF ps(1)] refl] soon frame this(2) _ ps(2)]
  obtain s' where "gateway.feed_all timeout mx ?ps s = (replicate (length ?ps - 1) None @ [Some ()], s')" "path_announced s' fid = None"
    using all_chunks_distinct[OF assms(3)] ps(4) by auto
  then show ?thesis using gateway_counts[of timeout mx ?ps s] by (auto simp: path_announced_def)
qed

lemma gateway_counts_frame_witness:
  "completedFrames (path_run 2000 8 (chunk_arrivals default_cfg example_buf 7 7000 10000 (replicate 19 1) (rev [0..<19])) path_stats0) = 1"
proof -
  have "all_chunks default_cfg (rev [0..<19])" using chunk_sizes(3)[OF default_cfg_modes(2)] by (auto simp: all_chunks_def)
  moreover have "in_time 2000 (replicate 19 1)" by (auto simp: in_time_def successively_conv_nth)
  ultimately show ?thesis
    using gateway_counts_frame[OF example_buf_length, of path_stats0 2000 8 "[]" default_cfg "rev [0..<19]" "replicate 19 1" 7 7000 10000]
    by (simp add: path_run_def path_stats0_def)
qed

end
