(* ===== verification/ThermalServerSpec.thy ===== *)
theory ThermalServerSpec imports ThermalServer ThermalGatewaySpec begin

text \<open>
  Properties of the receiving server: the tracker satisfies the contract \<open>chunk_assembly\<close> with the
  whole frame as its outcome, so the messages of the ESP32 give the picture back in any order.
\<close>

section \<open>The chunks of a frame\<close>

definition part_values :: "(u16 \<rightharpoonup> bytes) \<Rightarrow> u16 set" where
  "part_values m = {v. valid_pixel v \<and> (\<exists>c\<in>ran m. v \<in> set (be16_values c))}"

definition parts_body :: "(u16 \<rightharpoonup> bytes) \<Rightarrow> bytes" where
  "parts_body m = concat (map (\<lambda>i. the (m i)) (sorted_list_of_set (dom m)))"

lemma part_values_upd: "i \<notin> dom m \<Longrightarrow> part_values (m(i \<mapsto> c)) = part_values m \<union> {v \<in> set (be16_values c). valid_pixel v}"
  by (auto simp: part_values_def domIff)

lemma part_values_empty [simp]: "part_values Map.empty = {}"
  by (simp add: part_values_def)

lemma part_values_finite [simp]: "finite (dom m) \<Longrightarrow> finite (part_values m)"
  using finite_ran[of m] by (rule_tac finite_subset[of _ "\<Union>c\<in>ran m. set (be16_values c)"]) (auto simp: part_values_def)

lemma body_of_list: "smap xs \<Longrightarrow> parts_body (map_of xs) = concat (map snd xs)"
proof -
  assume s: "smap xs"
  have "sorted_list_of_set (dom (map_of xs)) = map fst xs"
    using sorted_list_of_set.idem_if_sorted_distinct[of "map fst xs"] s smap_distinct[OF s]
    by (simp add: smap_def dom_map_of_conv_image_fst strict_sorted_iff)
  moreover have "map (\<lambda>i. the (map_of xs i)) (map fst xs) = map snd xs"
    using smap_distinct[OF s] by (auto simp: map_of_is_SomeI)
  ultimately show ?thesis unfolding parts_body_def by metis
qed

lemma length_put_payload:
  "k \<notin> set (map fst m) \<Longrightarrow> length (concat (map snd (smap_put k v m))) = length v + length (concat (map snd m))"
  by (induction k v m rule: smap_put.induct) auto

section \<open>Invariant\<close>

definition tracker_range_ok :: "u16 set \<Rightarrow> server_tracker \<Rightarrow> bool" where
  "tracker_range_ok V t \<longleftrightarrow> computedMinValue t = Min (insert 0xFFFF V) \<and> computedMaxValue t = Max (insert 0 V) \<and>
     (computedRawRangeReady t \<longleftrightarrow> V \<noteq> {})"

definition server_tracker_ok :: "server_tracker \<Rightarrow> bool" where
  "server_tracker_ok t \<longleftrightarrow> smap (chunkPayloads t) \<and> uniqueChunks t = dom (map_of (chunkPayloads t)) \<and>
     payloadBytes t = length (concat (map snd (chunkPayloads t))) \<and> tracker_range_ok (part_values (map_of (chunkPayloads t))) t"

definition server_wf :: "thermal_server \<Rightarrow> bool" where
  "server_wf g \<longleftrightarrow> smap (in_flight_frames g) \<and> (\<forall>(k, t)\<in>set (in_flight_frames g). server_tracker_ok t \<and> \<not> tracker_complete t)"

lemma range_step_keeps [simp]:
  "chunk_tracker.truncate (raw_range_step v t) = chunk_tracker.truncate t" "payloadBytes (raw_range_step v t) = payloadBytes t"
  "headerMinValue (raw_range_step v t) = headerMinValue t" "headerMaxValue (raw_range_step v t) = headerMaxValue t"
  "headerHasRangeData (raw_range_step v t) = headerHasRangeData t" "chunkPayloads (raw_range_step v t) = chunkPayloads t"
  "totalChunks (raw_range_step v t) = totalChunks t" "lastSeenAtMs (raw_range_step v t) = lastSeenAtMs t"
  "uniqueChunks (raw_range_step v t) = uniqueChunks t"
  by (simp_all add: raw_range_step_def chunk_tracker.truncate_def)

lemma raw_range_keeps [simp]:
  "payloadBytes (updateThermalTrackerRawRange p t) = payloadBytes t"
  "headerMinValue (updateThermalTrackerRawRange p t) = headerMinValue t" "headerMaxValue (updateThermalTrackerRawRange p t) = headerMaxValue t"
  "headerHasRangeData (updateThermalTrackerRawRange p t) = headerHasRangeData t" "chunkPayloads (updateThermalTrackerRawRange p t) = chunkPayloads t"
  "totalChunks (updateThermalTrackerRawRange p t) = totalChunks t" "lastSeenAtMs (updateThermalTrackerRawRange p t) = lastSeenAtMs t"
  "uniqueChunks (updateThermalTrackerRawRange p t) = uniqueChunks t"
proof -
  have "payloadBytes (fold raw_range_step vs t) = payloadBytes t \<and> headerMinValue (fold raw_range_step vs t) = headerMinValue t \<and>
    headerMaxValue (fold raw_range_step vs t) = headerMaxValue t \<and> headerHasRangeData (fold raw_range_step vs t) = headerHasRangeData t \<and>
    chunkPayloads (fold raw_range_step vs t) = chunkPayloads t \<and> totalChunks (fold raw_range_step vs t) = totalChunks t \<and>
    lastSeenAtMs (fold raw_range_step vs t) = lastSeenAtMs t \<and> uniqueChunks (fold raw_range_step vs t) = uniqueChunks t" for vs
    by (induction vs arbitrary: t) simp_all
  then show "payloadBytes (updateThermalTrackerRawRange p t) = payloadBytes t"
  "headerMinValue (updateThermalTrackerRawRange p t) = headerMinValue t" "headerMaxValue (updateThermalTrackerRawRange p t) = headerMaxValue t"
  "headerHasRangeData (updateThermalTrackerRawRange p t) = headerHasRangeData t" "chunkPayloads (updateThermalTrackerRawRange p t) = chunkPayloads t"
  "totalChunks (updateThermalTrackerRawRange p t) = totalChunks t" "lastSeenAtMs (updateThermalTrackerRawRange p t) = lastSeenAtMs t"
  "uniqueChunks (updateThermalTrackerRawRange p t) = uniqueChunks t"
    by (simp_all add: updateThermalTrackerRawRange_def)
qed

lemma raw_range_values:
  assumes "finite V" and "tracker_range_ok V t"
  shows "tracker_range_ok (V \<union> {v \<in> set (be16_values p). valid_pixel v}) (updateThermalTrackerRawRange p t)"
proof -
  have step: "tracker_range_ok (if valid_pixel v then insert v W else W) (raw_range_step v r)" if "finite W" "tracker_range_ok W r" for v W r
  proof -
    have "Min (insert 0xFFFF (insert v W)) = min (Min (insert 0xFFFF W)) v" "Max (insert 0 (insert v W)) = max (Max (insert 0 W)) v"
      using that(1) by (simp_all only: insert_commute[of _ v] Min_insert Max_insert finite_insert insert_not_empty min.commute max.commute simp_thms)
    then show ?thesis using that(2)
      by (auto simp: tracker_range_ok_def raw_range_step_def valid_pixel_def not_less simp del: Min_insert Max_insert)
  qed
  have "tracker_range_ok (V \<union> {v \<in> set vs. valid_pixel v}) (fold raw_range_step vs t)" for vs
    using assms
  proof (induction vs arbitrary: V t)
    case (Cons v vs)
    have "V \<union> {w \<in> set (v # vs). valid_pixel w} = (if valid_pixel v then insert v V else V) \<union> {w \<in> set vs. valid_pixel w}" by auto
    then show ?case using Cons.IH[OF _ step[OF Cons.prems]] Cons.prems(1) by simp
  qed simp
  then show ?thesis by (simp add: updateThermalTrackerRawRange_def)
qed

lemma tracker0_ok: "server_tracker_ok server_tracker0"
  by (simp add: server_tracker_ok_def server_tracker0_def tracker_range_ok_def)

lemma tracker_touch_server [simp]:
  "payloadBytes (tracker_touch now i n t) = payloadBytes t" "chunkPayloads (tracker_touch now i n t) = chunkPayloads t"
  "computedMinValue (tracker_touch now i n t) = computedMinValue t" "computedMaxValue (tracker_touch now i n t) = computedMaxValue t"
  "computedRawRangeReady (tracker_touch now i n t) = computedRawRangeReady t"
  by (simp_all add: tracker_touch_def Let_def)

text \<open>Entering a packet keeps the invariant and enters its bytes once.\<close>

lemma tracker_enter_ok:
  assumes "server_tracker_ok t" and "tracker_enter now p t = (dup, t')"
  shows "server_tracker_ok t'" and "dup \<longleftrightarrow> chunkIndex (npHeader p) \<in> dom (map_of (chunkPayloads t))"
    and "map_of (chunkPayloads t') = (if dup then map_of (chunkPayloads t)
      else (map_of (chunkPayloads t))(chunkIndex (npHeader p) \<mapsto> drop kThermalHeaderBytes (wsPayload p)))"
    and "lastSeenAtMs t' = now" and "totalChunks t' = totalChunks (tracker_touch now (chunkIndex (npHeader p)) (headerTotal (npHeader p)) t)"
    and "npHasRangeData p \<Longrightarrow> headerHasRangeData t' \<and> headerMinValue t' = minValue (npHeader p) \<and> headerMaxValue t' = maxValue (npHeader p)"
proof -
  let ?i = "chunkIndex (npHeader p)" and ?d = "drop kThermalHeaderBytes (wsPayload p)"
  define t1 where "t1 = (if npHasRangeData p
    then (tracker_touch now ?i (headerTotal (npHeader p)) t)\<lparr> headerMinValue := minValue (npHeader p), headerMaxValue := maxValue (npHeader p), headerHasRangeData := True \<rparr>
    else tracker_touch now ?i (headerTotal (npHeader p)) t)"
  define t2 where "t2 = t1\<lparr> uniqueChunks := insert ?i (uniqueChunks t1), payloadBytes := payloadBytes t1 + length ?d,
    chunkPayloads := smap_put ?i ?d (chunkPayloads t1) \<rparr>"
  have t1: "uniqueChunks t1 = uniqueChunks t" "payloadBytes t1 = payloadBytes t" "chunkPayloads t1 = chunkPayloads t"
    "computedMinValue t1 = computedMinValue t" "computedMaxValue t1 = computedMaxValue t" "computedRawRangeReady t1 = computedRawRangeReady t"
    "lastSeenAtMs t1 = now" "totalChunks t1 = totalChunks (tracker_touch now ?i (headerTotal (npHeader p)) t)"
    "npHasRangeData p \<Longrightarrow> headerHasRangeData t1 \<and> headerMinValue t1 = minValue (npHeader p) \<and> headerMaxValue t1 = maxValue (npHeader p)"
    by (simp_all add: t1_def)
  have t: "smap (chunkPayloads t)" "uniqueChunks t = dom (map_of (chunkPayloads t))" "payloadBytes t = length (concat (map snd (chunkPayloads t)))"
    "tracker_range_ok (part_values (map_of (chunkPayloads t))) t"
    using assms(1) by (simp_all add: server_tracker_ok_def)
  have e: "(dup, t') = (if ?i \<in> uniqueChunks t1 then (True, t1) else (False, updateThermalTrackerRawRange ?d t2))"
    using assms(2) unfolding tracker_enter_def Let_def t1_def[symmetric] t2_def[symmetric] by simp
  show dup: "dup \<longleftrightarrow> ?i \<in> dom (map_of (chunkPayloads t))" using e t1(1) t(2) by (simp split: if_splits)
  show "server_tracker_ok t'"
  proof (cases dup)
    case True
    then have "t' = t1" using e by (auto split: if_splits)
    then show ?thesis using t t1 by (simp add: server_tracker_ok_def tracker_range_ok_def)
  next
    case False
    then have t': "t' = updateThermalTrackerRawRange ?d t2" using e by (auto split: if_splits)
    have new: "?i \<notin> dom (map_of (chunkPayloads t))" using False dup by simp
    then have keys: "?i \<notin> set (map fst (chunkPayloads t))" by (simp add: dom_map_of_conv_image_fst)
    have "tracker_range_ok (part_values (map_of (chunkPayloads t))) t2"
      using t(4) t1 by (simp add: t2_def tracker_range_ok_def)
    from raw_range_values[OF _ this, of ?d] have "tracker_range_ok (part_values ((map_of (chunkPayloads t))(?i \<mapsto> ?d))) t'"
      unfolding t' part_values_upd[OF new] by (simp add: finite_dom_map_of)
    then show ?thesis
      using t t1 length_put_payload[OF keys, of ?d] by (simp add: server_tracker_ok_def t' t2_def)
  qed
  show "map_of (chunkPayloads t') = (if dup then map_of (chunkPayloads t) else (map_of (chunkPayloads t))(?i \<mapsto> ?d))"
    and "lastSeenAtMs t' = now" and "totalChunks t' = totalChunks (tracker_touch now ?i (headerTotal (npHeader p)) t)"
    and "npHasRangeData p \<Longrightarrow> headerHasRangeData t' \<and> headerMinValue t' = minValue (npHeader p) \<and> headerMaxValue t' = maxValue (npHeader p)"
    using e t1 by (auto simp: t2_def split: if_splits)
qed


section \<open>The table of frames\<close>

lemma server_prune: "in_flight_frames (pruneExpiredFramesLocked now timeout g) = live_frames now timeout (in_flight_frames g)"
  by (auto simp: pruneExpiredFramesLocked_def live_frames_def Let_def partition_filter_conv o_def case_prod_beta intro!: filter_cong)

lemma server_trim:
  shows "set (in_flight_frames (trimTrackedFramesLocked mx g)) \<subseteq> set (in_flight_frames g)"
    and "smap (in_flight_frames g) \<Longrightarrow> smap (in_flight_frames (trimTrackedFramesLocked mx g))"
    and "mx \<le> 0 \<or> int (length (in_flight_frames (trimTrackedFramesLocked mx g))) \<le> mx"
proof -
  have "set (in_flight_frames (trimTrackedFramesLocked mx g)) \<subseteq> set (in_flight_frames g) \<and>
      (smap (in_flight_frames g) \<longrightarrow> smap (in_flight_frames (trimTrackedFramesLocked mx g))) \<and>
      (mx \<le> 0 \<or> int (length (in_flight_frames (trimTrackedFramesLocked mx g))) \<le> mx)"
  proof (induction mx g rule: trimTrackedFramesLocked.induct)
    case (1 mx g)
    show ?case
    proof (cases "mx > 0 \<and> int (length (in_flight_frames g)) > mx")
      case True
      then obtain k t where kt: "oldest_frame (in_flight_frames g) = Some (k, t)"
        by (cases "in_flight_frames g") (auto simp: prod_eq_iff)
      show ?thesis
        using 1[OF _ _ kt refl] True by (subst (1 2 3) trimTrackedFramesLocked.simps) (auto simp: kt smap_erase_def)
    next
      case False
      then show ?thesis by (subst (1 2 3) trimTrackedFramesLocked.simps) auto
    qed
  qed
  then show "set (in_flight_frames (trimTrackedFramesLocked mx g)) \<subseteq> set (in_flight_frames g)"
    "smap (in_flight_frames g) \<Longrightarrow> smap (in_flight_frames (trimTrackedFramesLocked mx g))"
    "mx \<le> 0 \<or> int (length (in_flight_frames (trimTrackedFramesLocked mx g))) \<le> mx" by simp_all
qed

lemma server_trim_noop: "mx \<le> 0 \<or> int (length (in_flight_frames g)) \<le> mx \<Longrightarrow> trimTrackedFramesLocked mx g = g"
  by (subst trimTrackedFramesLocked.simps) auto

lemma server_frames_frame [simp]:
  "in_flight_frames (note_in_flight g) = in_flight_frames g"
  "in_flight_frames (maybeLogThermalStatsLocked now i g) = in_flight_frames g"
  "in_flight_frames (noteInvalidPacketStats n x e i now g) = in_flight_frames g"
  by (simp_all add: note_in_flight_def maybeLogThermalStatsLocked_def noteInvalidPacketStats_def Let_def)

section \<open>The server assembles\<close>

type_synonym arrival = "int \<times> normalized_packet \<times> nat \<times> string"

abbreviation (input) arr_header :: "arrival \<Rightarrow> thermal_header" where
  "arr_header p \<equiv> npHeader (fst (snd p))"

definition server_feed :: "server_cfg \<Rightarrow> arrival \<Rightarrow> thermal_server \<Rightarrow> completed_frame option \<times> thermal_server" where
  "server_feed c p g = (case p of (now, packet, n, sender) \<Rightarrow> updatePacketStats c packet n sender now g)"

definition server_announced :: "thermal_server \<Rightarrow> u16 \<Rightarrow> u16 option" where
  "server_announced g f = map_option totalChunks (map_of (in_flight_frames g) f)"

definition server_parts :: "thermal_server \<Rightarrow> u16 \<Rightarrow> u16 \<rightharpoonup> bytes" where
  "server_parts g f = (case map_of (in_flight_frames g) f of None \<Rightarrow> Map.empty | Some t \<Rightarrow> map_of (chunkPayloads t))"

definition server_admits :: "server_cfg \<Rightarrow> arrival \<Rightarrow> thermal_server \<Rightarrow> bool" where
  "server_admits c p g \<longleftrightarrow> frame_admitted (fst p) (frame_timeout_ms c) (max_tracked_frames c) (frameId (arr_header p)) (in_flight_frames g) \<and>
     chunkIndex (arr_header p) < headerTotal (arr_header p) \<and> npHasRangeData (fst (snd p))"

definition server_soon :: "server_cfg \<Rightarrow> arrival \<Rightarrow> arrival \<Rightarrow> bool" where
  "server_soon c p q \<longleftrightarrow> fst q \<noteq> 0 \<and> (frame_timeout_ms c \<le> 0 \<or> fst q - fst p \<le> frame_timeout_ms c) \<and>
     chunkIndex (arr_header q) < headerTotal (arr_header q) \<and> npHasRangeData (fst (snd q))"

text \<open>A completed frame as a function of its last packet and of its parts.\<close>

definition server_outcome :: "arrival \<Rightarrow> (u16 \<rightharpoonup> bytes) \<Rightarrow> completed_frame" where
  "server_outcome p m =
     (let h = arr_header p; body = parts_body m; enc = thermalEncodingFromPayloadBytes (length body);
          (mn, mx) = (if enc = ''raw16'' \<and> part_values m \<noteq> {} then (Min (part_values m), Max (part_values m)) else (minValue h, maxValue h))
      in \<lparr> cfHeader = h\<lparr> minValue := mn, maxValue := mx \<rparr>, cfPayloadBytes = length body, cfHasRangeData = True,
           ready = True, encoding = enc, framePayload = body \<rparr>)"

lemma part_range:
  assumes "part_values m \<noteq> {}" and "finite (part_values m)"
  shows "Min (insert 0xFFFF (part_values m)) = Min (part_values m)" and "Max (insert 0 (part_values m)) = Max (part_values m)"
proof -
  obtain v where v: "v \<in> part_values m" using assms(1) by blast
  then have "v < 0xFFFF" "0 < v" using valid_less_max valid_greater_0 by (auto simp: part_values_def)
  then have "Min (part_values m) \<le> 0xFFFF" "0 \<le> Max (part_values m)"
    using Min_le[OF assms(2) v] by (auto intro: order.trans less_imp_le)
  then show "Min (insert 0xFFFF (part_values m)) = Min (part_values m)" "Max (insert 0 (part_values m)) = Max (part_values m)"
    using assms by (simp_all add: min_absorb2 max_absorb2)
qed

lemma finalize_outcome:
  assumes "server_tracker_ok t" and "headerHasRangeData t \<and> headerMinValue t = minValue (arr_header p) \<and> headerMaxValue t = maxValue (arr_header p)"
  shows "finalizeCompletedThermalFrame (arr_header p) t = server_outcome p (map_of (chunkPayloads t))"
proof -
  let ?m = "map_of (chunkPayloads t)"
  have t: "smap (chunkPayloads t)" "payloadBytes t = length (concat (map snd (chunkPayloads t)))"
    "computedMinValue t = Min (insert 0xFFFF (part_values ?m))" "computedMaxValue t = Max (insert 0 (part_values ?m))"
    "computedRawRangeReady t \<longleftrightarrow> part_values ?m \<noteq> {}"
    using assms(1) by (simp_all only: server_tracker_ok_def tracker_range_ok_def)
  have "finite (part_values ?m)" by (simp add: finite_dom_map_of)
  from part_range[OF _ this] show ?thesis
    unfolding finalizeCompletedThermalFrame_def server_outcome_def Let_def t(2,3,4,5) body_of_list[OF t(1)]
    using assms(2) by (cases "part_values ?m = {}") (simp_all del: Min_insert Max_insert)
qed

text \<open>The assembly of a packet, over the parts the frame has so far.\<close>

lemma assemble_cases:
  assumes "server_wf g" and "assemble_chunk now p g = (r, g')" and "chunkIndex (npHeader p) < headerTotal (npHeader p)"
    and "server_announced g (frameId (npHeader p)) \<in> {None, Some (headerTotal (npHeader p))}" and "npHasRangeData p"
    and "chunkIndex (npHeader p) \<notin> dom (server_parts g (frameId (npHeader p)))"
  defines "f \<equiv> frameId (npHeader p)"
  defines "m \<equiv> (server_parts g f)(chunkIndex (npHeader p) \<mapsto> drop kThermalHeaderBytes (wsPayload p))"
  shows "if unat (headerTotal (npHeader p)) \<le> Suc (card (dom (server_parts g f)))
    then r = Some (server_outcome (now, p, x) m) \<and> in_flight_frames g' = smap_erase f (in_flight_frames g)
    else r = None \<and> (\<exists>t. in_flight_frames g' = smap_put f t (in_flight_frames g) \<and> server_tracker_ok t \<and> \<not> tracker_complete t \<and>
      lastSeenAtMs t = now \<and> totalChunks t = headerTotal (npHeader p) \<and> map_of (chunkPayloads t) = m)"
proof -
  define t0 where "t0 = (case map_of (in_flight_frames g) f of None \<Rightarrow> server_tracker0 | Some t \<Rightarrow> t)"
  have ok0: "server_tracker_ok t0"
    using assms(1) tracker0_ok by (auto simp: t0_def server_wf_def split: option.splits dest!: map_of_SomeD)
  have parts: "map_of (chunkPayloads t0) = server_parts g f"
    by (simp add: t0_def server_parts_def server_tracker0_def split: option.splits)
  obtain dup t where e: "tracker_enter now p t0 = (dup, t)" by fastforce
  note t = tracker_enter_ok[OF ok0 e, unfolded parts]
  have nodup: "\<not> dup" using t(2) assms(6) by (simp add: f_def)
  have tm: "map_of (chunkPayloads t) = m" using t(3) nodup by (simp add: m_def)
  have "firstSeenAtMs t0 = 0 \<or> totalChunks t0 = headerTotal (npHeader p)"
    using assms(4) by (auto simp: t0_def server_announced_def server_tracker0_def f_def split: option.splits)
  then have tot: "totalChunks t = headerTotal (npHeader p)"
    using t(5) tracker_touch_total[OF assms(3)] by metis
  have "0 < headerTotal (npHeader p)" using assms(3) by (metis word_gt_0 word_not_simps(1))
  moreover have "card (uniqueChunks t) = Suc (card (dom (server_parts g f)))"
    using t(1) assms(6) finite_dom_map_of[of "chunkPayloads t0"]
    by (simp add: server_tracker_ok_def tm m_def f_def parts)
  ultimately have full: "tracker_complete t \<longleftrightarrow> unat (headerTotal (npHeader p)) \<le> Suc (card (dom (server_parts g f)))"
    by (simp add: tracker_complete_def tot)
  have fin: "finalizeCompletedThermalFrame (npHeader p) t = server_outcome (now, p, x) m"
    using finalize_outcome[OF t(1), of "(now, p, x)"] t(6)[OF assms(5)] by (simp add: tm)
  have "(r, in_flight_frames g') = (if tracker_complete t
      then (Some (finalizeCompletedThermalFrame (npHeader p) t), smap_erase f (in_flight_frames g))
      else (None, smap_put f t (in_flight_frames g)))"
    using assms(2) unfolding assemble_chunk_def Let_def t0_def[symmetric, unfolded f_def] e prod.case
    by (auto simp: f_def split: if_splits)
  then show ?thesis using full fin t(1,4) tot tm by (auto split: if_splits)
qed


lemma assemble_wf: "server_wf g \<Longrightarrow> server_wf (snd (assemble_chunk now p g))"
proof -
  assume wf: "server_wf g"
  define t0 where "t0 = (case map_of (in_flight_frames g) (frameId (npHeader p)) of None \<Rightarrow> server_tracker0 | Some t \<Rightarrow> t)"
  have ok0: "server_tracker_ok t0"
    using wf tracker0_ok by (auto simp: t0_def server_wf_def split: option.splits dest!: map_of_SomeD)
  obtain dup t where e: "tracker_enter now p t0 = (dup, t)" by fastforce
  have "in_flight_frames (snd (assemble_chunk now p g)) = (if tracker_complete t
      then smap_erase (frameId (npHeader p)) (in_flight_frames g) else smap_put (frameId (npHeader p)) t (in_flight_frames g))"
    unfolding assemble_chunk_def Let_def t0_def[symmetric] e prod.case by auto
  then show ?thesis
    using wf tracker_enter_ok(1)[OF ok0 e] smap_erase_subset[of "frameId (npHeader p)" "in_flight_frames g"]
      smap_put_subset[of "frameId (npHeader p)" t "in_flight_frames g"]
    by (auto simp: server_wf_def)
qed

lemma server_wf_cong: "in_flight_frames g' = in_flight_frames g \<Longrightarrow> server_wf g' = server_wf g"
  by (simp add: server_wf_def)

lemma prune_wf: "server_wf g \<Longrightarrow> server_wf (pruneExpiredFramesLocked now timeout g)"
  using live_frames_subset[of now timeout "in_flight_frames g"] by (auto simp: server_wf_def server_prune)

lemma trim_wf: "server_wf g \<Longrightarrow> server_wf (trimTrackedFramesLocked mx g)"
  using server_trim(1,2)[where g = g and mx = mx] by (auto simp: server_wf_def)

text \<open>\<open>updatePacketStats\<close> as pruning, assembly and trimming, as far as the table of frames goes.\<close>

lemma update_frames:
  "\<exists>g0 r g1. in_flight_frames g0 = live_frames now (frame_timeout_ms c) (in_flight_frames g) \<and> assemble_chunk now p g0 = (r, g1) \<and>
     fst (updatePacketStats c p n sender now g) = r \<and>
     in_flight_frames (snd (updatePacketStats c p n sender now g)) = in_flight_frames (trimTrackedFramesLocked (max_tracked_frames c) g1)"
proof -
  obtain s where s: "updatePacketStats c p n sender now g =
    (let g0 = note_in_flight (pruneExpiredFramesLocked now (frame_timeout_ms c) (g\<lparr> stats := s \<rparr>));
         (completed, g) = assemble_chunk now p g0;
         g = note_in_flight (trimTrackedFramesLocked (max_tracked_frames c) g)
     in (completed, if enable_frame_stats c then maybeLogThermalStatsLocked now (stats_log_interval_ms c) g else g))"
    unfolding updatePacketStats_def Let_def by blast
  show ?thesis
    unfolding s Let_def
    by (intro exI[of _ "note_in_flight (pruneExpiredFramesLocked now (frame_timeout_ms c) (g\<lparr> stats := s \<rparr>))"])
      (auto simp: server_prune case_prod_beta intro: prod.collapse[symmetric])
qed

lemma update_wf: "server_wf g \<Longrightarrow> server_wf (snd (updatePacketStats c p n sender now g))"
proof -
  assume wf: "server_wf g"
  obtain g0 r g1 where u: "in_flight_frames g0 = live_frames now (frame_timeout_ms c) (in_flight_frames g)" "assemble_chunk now p g0 = (r, g1)"
    "in_flight_frames (snd (updatePacketStats c p n sender now g)) = in_flight_frames (trimTrackedFramesLocked (max_tracked_frames c) g1)"
    using update_frames by blast
  have "server_wf g0" using wf live_frames_subset[of now "frame_timeout_ms c" "in_flight_frames g"] by (auto simp: server_wf_def u(1))
  from trim_wf[OF assemble_wf[OF this, of now p]] show ?thesis using server_wf_cong[OF u(3)] u(2) by simp
qed

lemma server_feed_step:
  assumes "server_wf g" and "server_admits c p g" and "server_announced g (frameId (arr_header p)) \<in> {None, Some (headerTotal (arr_header p))}"
    and "chunkIndex (arr_header p) \<notin> dom (server_parts g (frameId (arr_header p)))"
  defines "f \<equiv> frameId (arr_header p)"
  defines "m \<equiv> (server_parts g f)(chunkIndex (arr_header p) \<mapsto> drop kThermalHeaderBytes (wsPayload (fst (snd p))))"
  shows "if unat (headerTotal (arr_header p)) \<le> Suc (card (dom (server_parts g f)))
      then fst (server_feed c p g) = Some (server_outcome p m) \<and> server_announced (snd (server_feed c p g)) f = None
      else fst (server_feed c p g) = None \<and> server_announced (snd (server_feed c p g)) f = Some (headerTotal (arr_header p)) \<and>
        server_parts (snd (server_feed c p g)) f = m"
    and "server_soon c p q \<Longrightarrow> frameId (arr_header q) = f \<Longrightarrow> server_admits c q (snd (server_feed c p g))"
proof -
  obtain now packet n sender where p: "p = (now, packet, n, sender)" by (cases p)
  have adm: "smap (in_flight_frames g)" "frame_admitted now (frame_timeout_ms c) (max_tracked_frames c) f (in_flight_frames g)"
    "chunkIndex (npHeader packet) < headerTotal (npHeader packet)" "npHasRangeData packet"
    using assms(1,2) by (simp_all add: server_wf_def server_admits_def p f_def)
  obtain g0 r g1 where u: "in_flight_frames g0 = live_frames now (frame_timeout_ms c) (in_flight_frames g)" "assemble_chunk now packet g0 = (r, g1)"
    "fst (server_feed c p g) = r"
    "in_flight_frames (snd (server_feed c p g)) = in_flight_frames (trimTrackedFramesLocked (max_tracked_frames c) g1)"
    using update_frames[of now c g packet n sender] by (auto simp: server_feed_def p)
  have wf0: "server_wf g0"
    using assms(1) live_frames_subset[of now "frame_timeout_ms c" "in_flight_frames g"] by (auto simp: server_wf_def u(1))
  have same: "server_announced g0 f = server_announced g f" "server_parts g0 f = server_parts g f"
    using live_frames_admitted(1)[OF adm(1,2)] by (auto simp: server_announced_def server_parts_def u(1))
  have f: "frameId (npHeader packet) = f" by (simp add: f_def p)
  have pre: "server_announced g0 f \<in> {None, Some (headerTotal (npHeader packet))}" "chunkIndex (npHeader packet) \<notin> dom (server_parts g0 f)"
    using assms(3,4) by (simp_all add: same f_def[symmetric]) (simp_all add: p)
  note a = assemble_cases[OF wf0 u(2) adm(3) _ adm(4), unfolded f, OF pre, of "(n, sender)", unfolded same(2)]
  have mm: "m = (server_parts g f)(chunkIndex (npHeader packet) \<mapsto> drop kThermalHeaderBytes (wsPayload packet))" by (simp add: m_def p)
  have shape: "in_flight_frames g1 = smap_erase f (in_flight_frames g0) \<or>
      (\<exists>t. in_flight_frames g1 = smap_put f t (in_flight_frames g0) \<and> lastSeenAtMs t = now)"
    using a by (auto split: if_splits)
  have "timeout \<le> 0 \<or> now - now \<le> timeout" "now \<noteq> 0" for timeout :: int using adm(2) by (auto simp: frame_admitted_def)
  then have "frame_admitted now (frame_timeout_ms c) (max_tracked_frames c) f (in_flight_frames g1)"
    using frame_admitted_next[OF adm(1,2), of now "in_flight_frames g1"] shape unfolding u(1) by blast
  then have "max_tracked_frames c \<le> 0 \<or> int (length (in_flight_frames g1)) \<le> max_tracked_frames c"
    by (auto simp: frame_admitted_def split: if_splits)
  then have fl: "in_flight_frames (snd (server_feed c p g)) = in_flight_frames g1" using u(4) by (simp add: server_trim_noop)
  show "if unat (headerTotal (arr_header p)) \<le> Suc (card (dom (server_parts g f)))
      then fst (server_feed c p g) = Some (server_outcome p m) \<and> server_announced (snd (server_feed c p g)) f = None
      else fst (server_feed c p g) = None \<and> server_announced (snd (server_feed c p g)) f = Some (headerTotal (arr_header p)) \<and>
        server_parts (snd (server_feed c p g)) f = m"
    using a u(3) unfolding p snd_conv fst_conv mm
    by (auto simp: server_announced_def server_parts_def[of "snd (server_feed c (now, packet, n, sender) g)"] fl[unfolded p] split: if_splits)
  show "server_admits c q (snd (server_feed c p g))" if "server_soon c p q" "frameId (arr_header q) = f"
    using frame_admitted_next[OF adm(1,2), of "fst q" "in_flight_frames g1"] shape that
    by (auto simp: server_soon_def server_admits_def fl[unfolded p] u(1) p)
qed

interpretation server: chunk_assembly server_wf server_announced server_parts "\<lambda>p. frameId (arr_header p)" "\<lambda>p. chunkIndex (arr_header p)"
  "\<lambda>p. headerTotal (arr_header p)" "\<lambda>p. drop kThermalHeaderBytes (wsPayload (fst (snd p)))" "server_admits c" "server_soon c"
  server_outcome "server_feed c" for c :: server_cfg
proof
  fix g p assume "server_wf g"
  then show "server_wf (snd (server_feed c p g))" using update_wf by (simp add: server_feed_def case_prod_beta)
next
  fix g :: thermal_server and f assume "server_announced g f = None"
  then show "server_parts g f = Map.empty" by (auto simp: server_announced_def server_parts_def)
next
  fix g p q
  assume a: "server_wf g" "server_admits c p g" "server_announced g (frameId (arr_header p)) \<in> {None, Some (headerTotal (arr_header p))}"
  note r = server_feed_step(1)[OF a]
  let ?i = "chunkIndex (arr_header p)" and ?f = "frameId (arr_header p)"
  show "fst (server_feed c p g) = None \<and> server_announced (snd (server_feed c p g)) ?f = Some (headerTotal (arr_header p)) \<and>
      server_parts (snd (server_feed c p g)) ?f = (server_parts g ?f)(?i \<mapsto> drop kThermalHeaderBytes (wsPayload (fst (snd p))))"
    if "?i \<notin> dom (server_parts g ?f)" "Suc (card (dom (server_parts g ?f))) < unat (headerTotal (arr_header p))"
    using r that by (auto split: if_splits)
  show "fst (server_feed c p g) = Some (server_outcome p ((server_parts g ?f)(?i \<mapsto> drop kThermalHeaderBytes (wsPayload (fst (snd p)))))) \<and>
      server_announced (snd (server_feed c p g)) ?f = None"
    if "?i \<notin> dom (server_parts g ?f)" "unat (headerTotal (arr_header p)) \<le> Suc (card (dom (server_parts g ?f)))"
    using r that by (auto split: if_splits)
  show "server_admits c q (snd (server_feed c p g))"
    if "server_soon c p q" "frameId (arr_header q) = ?f" "?i \<notin> dom (server_parts g ?f)"
    using server_feed_step(2)[OF a] that by blast
qed


section \<open>The receiver loop\<close>

text \<open>A datagram: its sender, the two readings of the clock, and its bytes.\<close>

type_synonym datagram = "string \<times> int \<times> int \<times> bytes"

fun receive_all :: "server_cfg \<Rightarrow> datagram list \<Rightarrow> normalizer \<times> thermal_server \<Rightarrow>
    (completed_frame option \<times> bytes) option list \<times> normalizer \<times> thermal_server" where
  "receive_all c [] st = ([], st)"
| "receive_all c ((sender, now_ms, nowMs, payload) # xs) st = (case thermal_receive c sender now_ms nowMs payload st of
     (r, st) \<Rightarrow> case receive_all c xs st of (rs, st) \<Rightarrow> (r # rs, st))"

abbreviation server_start :: "normalizer \<times> thermal_server" where
  "server_start \<equiv> (normalizer0, thermal_server0)"

definition thermal_runs :: "server_cfg \<Rightarrow> datagram list \<Rightarrow> thermal_server" where
  "thermal_runs c xs = snd (snd (receive_all c xs server_start))"

text \<open>What the counters have to say after some datagrams with their results.\<close>

definition accounts :: "server_cfg \<Rightarrow> datagram list \<Rightarrow> (completed_frame option \<times> bytes) option list \<Rightarrow> thermal_server \<Rightarrow> bool" where
  "accounts c xs rs g \<longleftrightarrow> server_wf g \<and>
     packets_received (stats g) = of_nat (length xs) \<and>
     bytes_received (stats g) = of_nat (sum_list (map (\<lambda>(s, n, m, p). length p) xs)) \<and>
     invalid_packets (stats g) = of_nat (length (filter (\<lambda>(s, n, m, p). parseThermalChunkHeader p = None) xs)) \<and>
     frames_completed (stats g) = of_nat (length (filter (\<lambda>r. \<exists>f w. r = Some (Some f, w)) rs)) \<and>
     (max_tracked_frames c \<le> 0 \<or> int (length (in_flight_frames g)) \<le> max_tracked_frames c) \<and>
     in_flight_count (stats g) = length (in_flight_frames g)"

lemma receive_all_append:
  "receive_all c (xs @ ys) st = (case receive_all c xs st of (rs, st) \<Rightarrow> case receive_all c ys st of (rs', st) \<Rightarrow> (rs @ rs', st))"
  by (induction c xs st rule: receive_all.induct) (auto split: prod.splits)

lemma receive_all_length: "length (fst (receive_all c xs st)) = length xs"
  by (induction c xs st rule: receive_all.induct) (auto split: prod.splits)

text \<open>Pruning, trimming and the log leave these counters alone.\<close>

definition main_counters :: "thermal_server \<Rightarrow> u64 \<times> u64 \<times> u64 \<times> u64" where
  "main_counters g = (packets_received (stats g), bytes_received (stats g), invalid_packets (stats g), frames_completed (stats g))"

lemma note_incomplete_counters [simp]:
  "packets_received (noteIncompleteFrameLocked t r s) = packets_received s" "bytes_received (noteIncompleteFrameLocked t r s) = bytes_received s"
  "invalid_packets (noteIncompleteFrameLocked t r s) = invalid_packets s" "frames_completed (noteIncompleteFrameLocked t r s) = frames_completed s"
  by (simp_all add: noteIncompleteFrameLocked_def Let_def)

lemma counters_frame [simp]:
  "main_counters (pruneExpiredFramesLocked now timeout g) = main_counters g"
  "main_counters (note_in_flight g) = main_counters g"
  "main_counters (maybeLogThermalStatsLocked now i g) = main_counters g"
  "main_counters (trimTrackedFramesLocked mx g) = main_counters g"
proof -
  have "packets_received (fold (\<lambda>(k, t). noteIncompleteFrameLocked t FrameTimeout) xs s) = packets_received s \<and>
    bytes_received (fold (\<lambda>(k, t). noteIncompleteFrameLocked t FrameTimeout) xs s) = bytes_received s \<and>
    invalid_packets (fold (\<lambda>(k, t). noteIncompleteFrameLocked t FrameTimeout) xs s) = invalid_packets s \<and>
    frames_completed (fold (\<lambda>(k, t). noteIncompleteFrameLocked t FrameTimeout) xs s) = frames_completed s"
    for xs :: "(u16 \<times> server_tracker) list" and s
    by (induction xs arbitrary: s) auto
  then show "main_counters (pruneExpiredFramesLocked now timeout g) = main_counters g"
    by (simp add: main_counters_def pruneExpiredFramesLocked_def Let_def case_prod_beta)
  show "main_counters (note_in_flight g) = main_counters g" "main_counters (maybeLogThermalStatsLocked now i g) = main_counters g"
    by (simp_all add: main_counters_def note_in_flight_def maybeLogThermalStatsLocked_def)
  show "main_counters (trimTrackedFramesLocked mx g) = main_counters g"
  proof (induction mx g rule: trimTrackedFramesLocked.induct)
    case (1 mx g)
    then show ?case
      by (subst trimTrackedFramesLocked.simps) (auto simp: main_counters_def split: option.split)
  qed
qed

lemma assemble_counters:
  "assemble_chunk now p g = (r, g') \<Longrightarrow> main_counters g' = (case main_counters g of (n, b, i, k) \<Rightarrow> (n, b, i, if r = None then k else k + 1))"
  by (auto simp: assemble_chunk_def Let_def main_counters_def split: prod.splits if_splits)

lemma update_counters:
  assumes "updatePacketStats c p n sender now g = (r, g')"
  shows "main_counters g' = (packets_received (stats g) + 1, bytes_received (stats g) + of_nat n, invalid_packets (stats g),
      if r = None then frames_completed (stats g) else frames_completed (stats g) + 1)"
    and "in_flight_count (stats g') = length (in_flight_frames g')"
    and "max_tracked_frames c \<le> 0 \<or> int (length (in_flight_frames g')) \<le> max_tracked_frames c"
proof -
  define s where "s = (note_packet n now (stats g))\<lparr> last_frame_id := frameId (npHeader p), last_chunk_index := chunkIndex (npHeader p),
    last_total_chunks := headerTotal (npHeader p), last_min_val := minValue (npHeader p), last_max_val := maxValue (npHeader p) \<rparr>"
  define s' where "s' = (if enable_frame_stats c then s\<lparr> last_sender := sender \<rparr> else s)"
  define g0 where "g0 = note_in_flight (pruneExpiredFramesLocked now (frame_timeout_ms c) (g\<lparr> stats := s' \<rparr>))"
  obtain g1 where g1: "assemble_chunk now p g0 = (r, g1)"
    and g': "g' = (if enable_frame_stats c then maybeLogThermalStatsLocked now (stats_log_interval_ms c) (note_in_flight (trimTrackedFramesLocked (max_tracked_frames c) g1))
      else note_in_flight (trimTrackedFramesLocked (max_tracked_frames c) g1))"
    using assms unfolding updatePacketStats_def Let_def s_def[symmetric] s'_def[symmetric] g0_def[symmetric]
    by (cases "assemble_chunk now p g0") auto
  have "main_counters g0 = (packets_received (stats g) + 1, bytes_received (stats g) + of_nat n, invalid_packets (stats g), frames_completed (stats g))"
    by (simp add: g0_def) (simp add: main_counters_def s'_def s_def note_packet_def)
  with assemble_counters[OF g1] show "main_counters g' = (packets_received (stats g) + 1, bytes_received (stats g) + of_nat n,
      invalid_packets (stats g), if r = None then frames_completed (stats g) else frames_completed (stats g) + 1)"
    by (simp add: g')
  show "in_flight_count (stats g') = length (in_flight_frames g')"
    unfolding g' by (auto simp: note_in_flight_def maybeLogThermalStatsLocked_def)
  show "max_tracked_frames c \<le> 0 \<or> int (length (in_flight_frames g')) \<le> max_tracked_frames c"
    using server_trim(3)[of "max_tracked_frames c" g1] by (simp add: g')
qed

lemma receive_accounts:
  assumes "accounts c xs rs g" and "thermal_receive c sender now_ms nowMs payload (n, g) = (r, n', g')"
  shows "accounts c (xs @ [(sender, now_ms, nowMs, payload)]) (rs @ [r]) g'"
proof (cases "parseThermalChunkHeader payload")
  case None
  then have "r = None" and g': "g' = noteInvalidPacketStats (length payload) (if enable_frame_stats c then sender else [])
      (enable_frame_stats c) (stats_log_interval_ms c) nowMs g"
    using assms(2) by (auto simp: thermal_receive_def normalizeThermalPayload_def Let_def)
  moreover have "server_wf g'" using assms(1) server_wf_cong[of g' g] by (simp add: accounts_def g')
  ultimately show ?thesis
    using assms(1) None
    by (auto simp: accounts_def noteInvalidPacketStats_def note_packet_def maybeLogThermalStatsLocked_def Let_def)
next
  case (Some h)
  then obtain packet n1 where np: "normalizeThermalPayload payload sender now_ms (frame_timeout_ms c) n = (Some packet, n1)"
    by (auto simp: normalizeThermalPayload_def Let_def case_prod_beta)
  let ?text = "if enable_frame_stats c then sender else []"
  obtain k where u: "updatePacketStats c packet (length payload) ?text nowMs g = (k, g')" and r: "r = Some (k, wsPayload packet)"
    using assms(2) np by (auto simp: thermal_receive_def Let_def split: prod.splits)
  note facts = update_counters[OF u, unfolded main_counters_def prod.inject]
  have "server_wf g'" using update_wf[of g c packet "length payload" ?text nowMs] assms(1) u by (simp add: accounts_def)
  then show ?thesis using assms(1) facts Some by (cases k) (simp_all add: accounts_def r)
qed

lemma runs_account: "accounts c xs (fst (receive_all c xs server_start)) (thermal_runs c xs)"
proof (induction xs rule: rev_induct)
  case Nil
  then show ?case
    using linear[of "max_tracked_frames c" 0]
    by (simp add: accounts_def thermal_runs_def server_wf_def thermal_server0_def server_stats0_def)
next
  case (snoc x xs)
  obtain sender now_ms nowMs payload where x: "x = (sender, now_ms, nowMs, payload)" by (cases x)
  obtain rs n g where r: "receive_all c xs server_start = (rs, n, g)" by (cases "receive_all c xs server_start") auto
  obtain r1 n1 g1 where t: "thermal_receive c sender now_ms nowMs payload (n, g) = (r1, n1, g1)"
    by (cases "thermal_receive c sender now_ms nowMs payload (n, g)") auto
  show ?case
    using receive_accounts[OF _ t, of xs rs] snoc by (simp add: thermal_runs_def r receive_all_append x t)
qed

section \<open>Properties\<close>

text \<open>C17: After any datagrams whatsoever, with any senders and times, the bookkeeping of the server is right:
  it has counted every datagram and its bytes, the unreadable ones as invalid and every frame it
  handed on as completed; no complete frame stays in the table, whose size is within the bound and
  is the number it reports; and every tracker agrees with the chunks it holds, in its set of
  chunks, its byte count and the range of its pixels.\<close>

theorem server_bookkeeping: "accounts c xs (fst (receive_all c xs server_start)) (thermal_runs c xs)"
  by (rule runs_account)




end
