(* ===== verification/ThermalSenderSpec.thy ===== *)
theory ThermalSenderSpec imports ThermalServerSpec begin

text \<open>
  Properties of the synthetic frame ids of the receiving server (\<open>resolveThermalFrameId\<close>): the chunks
  of one frame of a sender without frame ids get one id, which is never 0.
\<close>

section \<open>The frame of a sender\<close>

lemma next_id:
  assumes "nextSyntheticThermalFrameId n = (fid, n')"
  shows "fid \<noteq> 0" and "nextSyntheticFrameId n' \<noteq> 0" and "nextSyntheticFrameId n' \<noteq> fid"
proof -
  have "x + 1 \<noteq> 0" if "x \<noteq> 0xFFFF" for x :: u16 using that by (auto simp: eq_neg_iff_add_eq_0[symmetric])
  then show "fid \<noteq> 0" "nextSyntheticFrameId n' \<noteq> 0" "nextSyntheticFrameId n' \<noteq> fid"
    using assms by (auto simp: nextSyntheticThermalFrameId_def Let_def split: if_splits)
qed

lemma next_id_frames [simp]: "legacyFramesBySender (snd (nextSyntheticThermalFrameId n)) = legacyFramesBySender n"
  by (simp add: nextSyntheticThermalFrameId_def Let_def)

definition legacy_entry :: "normalizer \<Rightarrow> string \<Rightarrow> legacy_frame" where
  "legacy_entry n sender = (case map_of (legacyFramesBySender n) sender of None \<Rightarrow> legacy_frame0 | Some l \<Rightarrow> l)"

text \<open>Pruning only removes entries that would start a new frame anyway.\<close>

lemma prune_entry:
  assumes "smap (legacyFramesBySender n)"
  shows "legacy_entry (pruneThermalLegacyFrames now timeout n) sender =
    (if active (legacy_entry n sender) \<and> \<not> legacy_expired now timeout (legacy_entry n sender) then legacy_entry n sender else legacy_frame0)"
  using map_of_filter[OF assms, of "\<lambda>l. active l \<and> \<not> legacy_expired now timeout l" sender]
  by (auto simp: legacy_entry_def pruneThermalLegacyFrames_def legacy_frame0_def split: option.split)

lemma resolve_entry:
  assumes "smap (legacyFramesBySender n)" and "\<not> hasFrameId h"
  shows "\<exists>n0. nextSyntheticFrameId n0 = nextSyntheticFrameId n \<and>
    (let l = legacy_entry n sender;
         l = (if active l \<and> \<not> legacy_expired now timeout l then l else legacy_frame0);
         (fid, l', n1) = legacy_chunk h now timeout l n0;
         (fid', n') = resolveThermalFrameId sender h now timeout n
     in fid' = fid \<and> legacy_entry n' sender = l' \<and> nextSyntheticFrameId n' = nextSyntheticFrameId n1 \<and> smap (legacyFramesBySender n'))"
proof -
  let ?n0 = "pruneThermalLegacyFrames now timeout n"
  have s0: "smap (legacyFramesBySender ?n0)" using assms(1) by (simp add: pruneThermalLegacyFrames_def)
  obtain fid l' n1 where c: "legacy_chunk h now timeout (legacy_entry ?n0 sender) ?n0 = (fid, l', n1)"
    by (cases "legacy_chunk h now timeout (legacy_entry ?n0 sender) ?n0") auto
  have fr: "legacyFramesBySender n1 = legacyFramesBySender ?n0"
    using c by (auto simp: legacy_chunk_def Let_def case_prod_beta split: if_splits)
  have r: "resolveThermalFrameId sender h now timeout n = (fid, n1\<lparr> legacyFramesBySender := smap_put sender l' (legacyFramesBySender n1) \<rparr>)"
    using assms(2) c by (simp add: resolveThermalFrameId_def Let_def legacy_entry_def)
  show ?thesis
    using c[unfolded prune_entry[OF assms(1)]] s0
    by (intro exI[of _ ?n0]) (simp add: r fr legacy_entry_def[of "n1\<lparr>legacyFramesBySender := X\<rparr>" for X] pruneThermalLegacyFrames_def[of _ _ n, THEN arg_cong[of _ _ nextSyntheticFrameId]])
qed

text \<open>A chunk other than the first, in time, of the frame its sender has open.\<close>

lemma legacy_chunk_more:
  assumes "active l" and "legacyTotal l = n" and "receivedChunks l = of_nat ` {0..<k}" and "0 < k" and "k < unat n"
    and "\<not> legacy_expired now timeout l" and "headerTotal h = n" and "chunkIndex h = of_nat k"
  shows "\<exists>l'. legacy_chunk h now timeout l st = (legacyFrameId l, l', st) \<and>
    (if Suc k < unat n then l' = l\<lparr> legacySeenAtMs := now, receivedChunks := of_nat ` {0..<Suc k} \<rparr> else \<not> active l')"
proof -
  have inj: "inj_on (of_nat :: nat \<Rightarrow> u16) {0..<j}" if "j \<le> unat n" for j
  proof (rule inj_onI)
    fix x y assume "x \<in> {0..<j}" "y \<in> {0..<j}" and eq: "(of_nat x :: u16) = of_nat y"
    then have "x < 65536" "y < 65536" using that unsigned_less[of n, where ?'a = nat] by simp_all
    then show "x = y" using arg_cong[OF eq, of unat] by (simp add: unat_of_nat)
  qed
  have card: "card ((of_nat :: nat \<Rightarrow> u16) ` {0..<j}) = j" if "j \<le> unat n" for j
    using card_image[OF inj[OF that]] by simp
  have "k < 65536" using assms(5) unsigned_less[of n, where ?'a = nat] by simp
  then have k0: "(of_nat k :: u16) \<noteq> 0" using assms(4) by (simp add: word_unat_eq_iff unat_of_nat)
  have n0: "n \<noteq> 0" using assms(5) by auto
  have ins: "insert (of_nat k) (of_nat ` {0..<k}) = (of_nat :: nat \<Rightarrow> u16) ` {0..<Suc k}"
    by (simp add: atLeast0_lessThan_Suc)
  have "\<not> (\<not> active l \<or> legacy_expired now timeout l \<or> (legacyTotal l > 0 \<and> card (receivedChunks l) \<ge> unat (legacyTotal l)) \<or>
      legacyTotal l = 0 \<or> chunkIndex h = 0 \<or> legacyTotal l \<noteq> headerTotal h)"
    using assms k0 n0 card[of k] by auto
  then show ?thesis
    using assms(2,3,5,7,8) n0 card[of "Suc k"]
    by (auto simp: legacy_chunk_def Let_def ins word_gt_0)
qed

lemma legacy_chunk_first:
  assumes "chunkIndex h = 0" and "0 < unat (headerTotal h)"
  shows "\<exists>l'. legacy_chunk h now timeout l st = (fst (nextSyntheticThermalFrameId st), l', snd (nextSyntheticThermalFrameId st)) \<and>
    (if 1 < unat (headerTotal h) then active l' \<and> legacyTotal l' = headerTotal h \<and> receivedChunks l' = {0} \<and>
       legacyFrameId l' = fst (nextSyntheticThermalFrameId st) \<and> legacySeenAtMs l' = now else \<not> active l')"
  using assms by (auto simp: legacy_chunk_def Let_def case_prod_beta word_gt_0 unat_eq_zero)


section \<open>A frame without a frame id\<close>

text \<open>The ids of the packets of one sender, with the times at which they are normalized.\<close>

fun resolve_all :: "string \<Rightarrow> int \<Rightarrow> (int \<times> thermal_chunk_header) list \<Rightarrow> normalizer \<Rightarrow> u16 list \<times> normalizer" where
  "resolve_all sender timeout [] n = ([], n)"
| "resolve_all sender timeout ((now, h) # xs) n = (case resolveThermalFrameId sender h now timeout n of
     (fid, n) \<Rightarrow> case resolve_all sender timeout xs n of (fids, n) \<Rightarrow> (fid # fids, n))"

definition on_time :: "int \<Rightarrow> int list \<Rightarrow> bool" where
  "on_time timeout ts \<longleftrightarrow> timeout \<le> 0 \<or> successively (\<lambda>t t'. t' - t \<le> timeout) ts"

definition legacy_chunks_from :: "u16 \<Rightarrow> nat \<Rightarrow> thermal_chunk_header list \<Rightarrow> bool" where
  "legacy_chunks_from n k hs \<longleftrightarrow> map (\<lambda>h. (hasFrameId h, headerTotal h, chunkIndex h)) hs = map (\<lambda>i. (False, n, of_nat i)) [k..<unat n]"

lemma legacy_chunks_Cons:
  "legacy_chunks_from n k (h # hs) \<longleftrightarrow> k < unat n \<and> \<not> hasFrameId h \<and> headerTotal h = n \<and> chunkIndex h = of_nat k \<and> legacy_chunks_from n (Suc k) hs"
  by (cases "k < unat n") (auto simp: legacy_chunks_from_def upt_conv_Cons)

lemma resolve_rest:
  assumes "smap (legacyFramesBySender n)" and "active (legacy_entry n sender)" and "legacyTotal (legacy_entry n sender) = tot"
    and "receivedChunks (legacy_entry n sender) = of_nat ` {0..<k}" and "0 < k"
    and "legacy_chunks_from tot k (map snd xs)" and "on_time timeout (legacySeenAtMs (legacy_entry n sender) # map fst xs)"
  shows "\<exists>n'. resolve_all sender timeout xs n = (replicate (length xs) (legacyFrameId (legacy_entry n sender)), n') \<and>
    nextSyntheticFrameId n' = nextSyntheticFrameId n \<and> (xs \<noteq> [] \<longrightarrow> \<not> active (legacy_entry n' sender))"
  using assms
proof (induction xs arbitrary: n k)
  case (Cons x xs)
  obtain now h where x: "x = (now, h)" by (cases x)
  let ?l = "legacy_entry n sender"
  have h: "k < unat tot" "\<not> hasFrameId h" "headerTotal h = tot" "chunkIndex h = of_nat k" "legacy_chunks_from tot (Suc k) (map snd xs)"
    using Cons.prems(6) by (simp_all add: x legacy_chunks_Cons)
  have ne: "\<not> legacy_expired now timeout ?l" using Cons.prems(7) by (auto simp: x on_time_def legacy_expired_def)
  have ot: "on_time timeout (now # map fst xs)" using Cons.prems(7) by (auto simp: x on_time_def)
  obtain fid n1 where r: "resolveThermalFrameId sender h now timeout n = (fid, n1)" by fastforce
  obtain n0 where n0: "nextSyntheticFrameId n0 = nextSyntheticFrameId n"
    "case legacy_chunk h now timeout ?l n0 of (f, l', m) \<Rightarrow> fid = f \<and> legacy_entry n1 sender = l' \<and>
       nextSyntheticFrameId n1 = nextSyntheticFrameId m \<and> smap (legacyFramesBySender n1)"
    using resolve_entry[OF Cons.prems(1) h(2), of sender now timeout] Cons.prems(2) ne by (auto simp: r Let_def)
  obtain l' where l': "legacy_chunk h now timeout ?l n0 = (legacyFrameId ?l, l', n0)"
    "if Suc k < unat tot then l' = ?l\<lparr> legacySeenAtMs := now, receivedChunks := of_nat ` {0..<Suc k} \<rparr> else \<not> active l'"
    using legacy_chunk_more[OF Cons.prems(2,3,4,5) h(1) ne h(3,4), of n0] by blast
  have n1: "fid = legacyFrameId ?l" "legacy_entry n1 sender = l'" "nextSyntheticFrameId n1 = nextSyntheticFrameId n" "smap (legacyFramesBySender n1)"
    using n0 l'(1) by simp_all
  show ?case
  proof (cases "Suc k < unat tot")
    case True
    then have l2: "l' = ?l\<lparr> legacySeenAtMs := now, receivedChunks := of_nat ` {0..<Suc k} \<rparr>" using l'(2) by simp
    have "xs \<noteq> []" using h(5) True by (auto simp: legacy_chunks_from_def)
    then show ?thesis
      using Cons.IH[of n1 "Suc k"] n1 Cons.prems(2,3) h(5) ot by (auto simp: x r l2)
  next
    case False
    then have "xs = []" using h(5) by (cases xs) (auto simp: legacy_chunks_Cons)
    then show ?thesis using n1 l'(2) False by (simp add: x r)
  qed
qed simp

section \<open>Properties\<close>

text \<open>A sender without frame ids gets one id per frame: whatever the normalizer knows, the chunks of a
  frame that arrive in order and in time all get the next synthetic id, which is not 0; the frame is
  then closed, and the id of the next one is another.\<close>

theorem legacy_frame_one_id:
  assumes "smap (legacyFramesBySender n)" and "0 < unat tot" and "legacy_chunks_from tot 0 (map snd xs)" and "on_time timeout (map fst xs)"
    and "nextSyntheticThermalFrameId n = (fid, m)"
  shows "\<exists>n'. resolve_all sender timeout xs n = (replicate (unat tot) fid, n') \<and> fid \<noteq> 0 \<and>
    \<not> active (legacy_entry n' sender) \<and> nextSyntheticFrameId n' = nextSyntheticFrameId m \<and> nextSyntheticFrameId m \<noteq> fid"
proof -
  have len: "length xs = unat tot" using arg_cong[OF assms(3)[unfolded legacy_chunks_from_def], of length] by simp
  then obtain now h ys where xs: "xs = (now, h) # ys" using assms(2) by (cases xs) auto
  have h: "\<not> hasFrameId h" "headerTotal h = tot" "chunkIndex h = 0" "legacy_chunks_from tot (Suc 0) (map snd ys)"
    using assms(3) by (simp_all add: xs legacy_chunks_Cons)
  obtain f1 n1 where r: "resolveThermalFrameId sender h now timeout n = (f1, n1)" by fastforce
  obtain n0 l0 where n0: "nextSyntheticFrameId n0 = nextSyntheticFrameId n"
    "case legacy_chunk h now timeout l0 n0 of (f, l', m) \<Rightarrow> f1 = f \<and> legacy_entry n1 sender = l' \<and>
       nextSyntheticFrameId n1 = nextSyntheticFrameId m \<and> smap (legacyFramesBySender n1)"
    using resolve_entry[OF assms(1) h(1), of sender now timeout] unfolding r Let_def prod.case
    by (elim exE conjE) (rule that, assumption+)
  have same: "fst (nextSyntheticThermalFrameId n0) = fid" "nextSyntheticFrameId (snd (nextSyntheticThermalFrameId n0)) = nextSyntheticFrameId m"
    using assms(5) n0(1) by (auto simp: nextSyntheticThermalFrameId_def Let_def split: if_splits)
  obtain l' where "legacy_chunk h now timeout l0 n0 = (fid, l', snd (nextSyntheticThermalFrameId n0))"
    and l': "if 1 < unat tot then active l' \<and> legacyTotal l' = tot \<and> receivedChunks l' = {0} \<and> legacyFrameId l' = fid \<and> legacySeenAtMs l' = now
      else \<not> active l'"
    using legacy_chunk_first[of h now timeout l0 n0] h(2,3) assms(2) same(1) by auto
  then have n1: "f1 = fid" "legacy_entry n1 sender = l'" "nextSyntheticFrameId n1 = nextSyntheticFrameId m" "smap (legacyFramesBySender n1)"
    using n0(2) same(2) by simp_all
  have "\<exists>n'. resolve_all sender timeout xs n = (replicate (unat tot) fid, n') \<and> \<not> active (legacy_entry n' sender) \<and>
      nextSyntheticFrameId n' = nextSyntheticFrameId m"
  proof (cases "ys = []")
    case True
    then have "unat tot = 1" using len by (simp add: xs)
    then show ?thesis using n1 l' True by (simp add: xs r)
  next
    case False
    then have "1 < unat tot" using len by (cases ys) (auto simp: xs)
    then show ?thesis
      using resolve_rest[of n1 sender tot "Suc 0" ys timeout] n1 l' h(4) assms(4) False len
      by (auto simp: xs r replicate_Suc[symmetric] simp del: replicate_Suc)
  qed
  then show ?thesis using next_id[OF assms(5)] by auto
qed

lemma legacy_frame_one_id_witness:
  "fst (resolve_all ''a'' 2000 (map (\<lambda>i. (1000 + int i, \<lparr> frameId = 0, chunkIndex = of_nat i, headerTotal = 3, minValue = 0, maxValue = 0,
     headerBytes = 4, hasFrameId = False, hasRangeData = False \<rparr>)) [0, 1, 2]) normalizer0) = replicate 3 1"
proof -
  let ?xs = "map (\<lambda>i. (1000 + int i, \<lparr> frameId = 0, chunkIndex = of_nat i, headerTotal = 3, minValue = 0, maxValue = 0,
     headerBytes = 4, hasFrameId = False, hasRangeData = False \<rparr>)) [0, 1, 2]"
  have next1: "nextSyntheticThermalFrameId normalizer0 = (1, normalizer0\<lparr> nextSyntheticFrameId := 2 \<rparr>)"
    by (simp add: nextSyntheticThermalFrameId_def normalizer0_def)
  have "[0..<unat (3 :: u16)] = [0, 1, 2]" by (simp add: upt_rec)
  then have "legacy_chunks_from 3 0 (map snd ?xs)" by (simp add: legacy_chunks_from_def del: upt_rec_numeral)
  moreover have "on_time 2000 (map fst ?xs)" by (simp add: on_time_def)
  moreover have "smap (legacyFramesBySender normalizer0)" by (simp add: normalizer0_def)
  ultimately show ?thesis using legacy_frame_one_id[OF _ _ _ _ next1, of 3 ?xs 2000 "''a''"] by (auto simp del: resolve_all.simps list.map)
qed

end
