(* ===== verification/EndToEnd.thy ===== *)
theory EndToEnd imports ThermalServerSpec "HOL-Library.Multiset" begin

text \<open>
  The way of a picture from the ESP32 to the server: the messages \<open>send_frame\<close> hands to the UDP
  stack, delivered in any order, complete exactly that picture in \<open>thermal_receive\<close>; and what
  \<open>decodeThermalFramePixelRaw\<close> reads from it against the pixels that were sent.
\<close>

section \<open>Orders of arrival\<close>

lemma permuted_map:
  "mset ys = mset (map f xs) \<Longrightarrow> \<exists>zs. mset zs = mset xs \<and> ys = map f zs"
proof (induction ys arbitrary: xs)
  case (Cons y ys)
  have "y \<in> set (map f xs)" using Cons.prems by (metis list.set_intros(1) mset_eq_setD)
  then obtain x where x: "x \<in> set xs" "y = f x" by auto
  then obtain as bs where xs: "xs = as @ x # bs" by (meson split_list)
  have "mset ys = mset (map f (as @ bs))" using Cons.prems x(2) by (simp add: xs)
  then obtain zs where "mset zs = mset (as @ bs)" "ys = map f zs" using Cons.IH by blast
  then show ?case using x(2) by (intro exI[of _ "x # zs"]) (simp add: xs)
qed simp

lemma arrival_order:
  assumes "mset ys = mset (map (frame_chunk_msg c fb fid mn mx) [0..<unat (stream_total_chunks c)])"
  shows "\<exists>is. all_chunks c is \<and> ys = map (frame_chunk_msg c fb fid mn mx) is"
proof -
  obtain "is" where i: "mset is = mset [0..<unat (stream_total_chunks c)]" "ys = map (frame_chunk_msg c fb fid mn mx) is"
    using permuted_map[OF assms] by blast
  have "distinct is" "set is = {0..<unat (stream_total_chunks c)}"
    using i(1) mset_eq_imp_distinct_iff[OF i(1)] mset_eq_setD[OF i(1)] by simp_all
  then show ?thesis using i(2) by (auto simp: all_chunks_def)
qed

section \<open>The chunks of a picture\<close>

definition chunk_slice :: "stream_cfg \<Rightarrow> bytes \<Rightarrow> nat \<Rightarrow> bytes" where
  "chunk_slice c body i = take (chunk_payload_size c) (drop (i * chunk_payload_size c) body)"

definition picture_parts :: "stream_cfg \<Rightarrow> bytes \<Rightarrow> (u16 \<times> bytes) list" where
  "picture_parts c body = map (\<lambda>i. (of_nat i, chunk_slice c body i)) [0..<unat (stream_total_chunks c)]"

lemma msg_slice: "length fb = FRAME_BYTES \<Longrightarrow> drop kThermalHeaderBytes (frame_chunk_msg c fb fid mn mx i) = chunk_slice c (frame_body c fb mn mx) i"
  by (simp add: chunk_msg_parts be16_bytes_join chunk_slice_def)

lemma sorted_chunk_numbers: "sorted_wrt (<) (map (of_nat :: nat \<Rightarrow> u16) [0..<unat (stream_total_chunks c)])"
  using chunk_cover(4)[of c]
  by (auto simp: sorted_wrt_iff_nth_less word_less_nat_alt unat_of_nat)

lemma picture_parts_smap: "smap (picture_parts c body)"
  using sorted_chunk_numbers[of c] by (simp add: smap_def picture_parts_def comp_def)

lemma picture_parts_order:
  assumes "all_chunks c is"
  shows "map_of (map (\<lambda>i. (of_nat i, chunk_slice c body i)) is) = map_of (picture_parts c body)"
proof (rule map_of_eqI)
  show "set (map fst (map (\<lambda>i. (of_nat i :: u16, chunk_slice c body i)) is)) = set (map fst (picture_parts c body))"
    using assms by (simp add: picture_parts_def all_chunks_def image_image comp_def)
  have d: "distinct (map fst (map (\<lambda>i. (of_nat i :: u16, chunk_slice c body i)) is))" "distinct (map fst (picture_parts c body))"
    using all_chunks_distinct[OF assms] smap_distinct[OF picture_parts_smap] by (simp_all add: comp_def)
  show "\<forall>k\<in>set (map fst (map (\<lambda>i. (of_nat i, chunk_slice c body i)) is)).
      map_of (map (\<lambda>i. (of_nat i, chunk_slice c body i)) is) k = map_of (picture_parts c body) k"
  proof
    fix k :: u16 assume "k \<in> set (map fst (map (\<lambda>i. (of_nat i, chunk_slice c body i)) is))"
    then obtain i where i: "i \<in> set is" "k = of_nat i" by auto
    then have "(k, chunk_slice c body i) \<in> set (map (\<lambda>i. (of_nat i, chunk_slice c body i)) is)"
      "(k, chunk_slice c body i) \<in> set (picture_parts c body)"
      using assms by (auto simp: picture_parts_def all_chunks_def)
    then show "map_of (map (\<lambda>i. (of_nat i, chunk_slice c body i)) is) k = map_of (picture_parts c body) k"
      using d by (simp only: map_of_is_SomeI)
  qed
qed

lemma picture_body:
  assumes "length body = frame_payload_bytes c"
  shows "parts_body (map_of (picture_parts c body)) = body"
  using concat_slices[of "chunk_payload_size c" body "unat (stream_total_chunks c)"] chunk_cover(3)[of c] assms
  by (simp add: body_of_list[OF picture_parts_smap]) (simp add: picture_parts_def comp_def chunk_slice_def)

section \<open>The values of the raw pixels\<close>

lemma be16_values_append: "even (length xs) \<Longrightarrow> be16_values (xs @ ys) = be16_values xs @ be16_values ys"
  by (induction xs rule: be16_values.induct) auto

lemma be16_values_concat:
  "\<forall>x\<in>set xss. even (length x) \<Longrightarrow> be16_values (concat xss) = concat (map be16_values xss)"
  by (induction xss) (auto simp: be16_values_append)

lemma be16_values_pixels: "length fb = 2 * n \<Longrightarrow> be16_values fb = map (frameReadPixelBe fb) [0..<n]"
proof (induction n arbitrary: fb)
  case (Suc n)
  then obtain a b r where fb: "fb = a # b # r" "length r = 2 * n" by (cases fb; cases "tl fb") auto
  have "frameReadPixelBe (a # b # r) (Suc i) = frameReadPixelBe r i" for i by (simp add: frameReadPixelBe_def)
  moreover have "[0..<Suc n] = 0 # map Suc [0..<n]" by (simp add: map_Suc_upt upt_conv_Cons del: upt_Suc)
  ultimately have "map (frameReadPixelBe (a # b # r)) [0..<Suc n] = frameReadPixelBe (a # b # r) 0 # map (frameReadPixelBe r) [0..<n]"
    by (simp del: upt_Suc)
  note px = this
  have first: "frameReadPixelBe (a # b # r) 0 = readBe16 [a, b] 0" by (simp add: frameReadPixelBe_def readBe16_def)
  show ?case unfolding fb(1) px be16_values.simps Suc.IH[OF fb(2)] first ..
qed simp

text \<open>The chunks have an even number of bytes, so the values of the chunks are the pixels.\<close>

lemma picture_values:
  assumes "length fb = FRAME_BYTES" and "\<not> frameStreamUseUdpFast8 c"
  shows "part_values (map_of (picture_parts c fb)) = valid_pixels fb"
proof -
  have ev: "even (chunk_payload_size c)" using assms(2) chunk_sizes[of c] by (cases "frameStreamUseUdp c") simp_all
  have "\<forall>x\<in>set (map (chunk_slice c fb) [0..<unat (stream_total_chunks c)]). even (length x)"
    using ev assms(1) by (auto simp: chunk_slice_def min_def)
  moreover have "concat (map (chunk_slice c fb) [0..<unat (stream_total_chunks c)]) = fb"
    using concat_slices[of "chunk_payload_size c" fb "unat (stream_total_chunks c)"] chunk_cover(3)[of c] assms
    by (simp add: chunk_slice_def[abs_def] frame_payload_bytes_def)
  ultimately have "set (be16_values fb) = (\<Union>i\<in>{0..<unat (stream_total_chunks c)}. set (be16_values (chunk_slice c fb i)))"
    using be16_values_concat[of "map (chunk_slice c fb) [0..<unat (stream_total_chunks c)]"] by simp
  moreover have "ran (map_of (picture_parts c fb)) = chunk_slice c fb ` {0..<unat (stream_total_chunks c)}"
    using ran_distinct[OF smap_distinct[OF picture_parts_smap[of c fb]]] by (simp add: picture_parts_def image_image)
  moreover have "be16_values fb = frame_pixel_list fb"
    using be16_values_pixels[of fb FRAME_PIXEL_COUNT] assms(1) by (simp add: frame_pixel_list_def del: upt_rec_numeral)
  ultimately show ?thesis by (auto simp: part_values_def valid_pixels_def)
qed


section \<open>Receiving a picture\<close>

abbreviation (input) dg_bytes :: "datagram \<Rightarrow> bytes" where "dg_bytes x \<equiv> snd (snd (snd x))"
abbreviation (input) dg_time :: "datagram \<Rightarrow> int" where "dg_time x \<equiv> fst (snd (snd x))"

definition arrival_of :: "server_cfg \<Rightarrow> datagram \<Rightarrow> arrival" where
  "arrival_of cfg x = (dg_time x, \<lparr> npHeader = datagram_header (dg_time x, dg_bytes x), npHasRangeData = True, wsPayload = dg_bytes x \<rparr>,
     length (dg_bytes x), if enable_frame_stats cfg then fst x else [])"

lemma arrival_of_simps [simp]:
  "fst (arrival_of cfg x) = dg_time x" "npHeader (fst (snd (arrival_of cfg x))) = datagram_header (dg_time x, dg_bytes x)"
  "npHasRangeData (fst (snd (arrival_of cfg x)))" "wsPayload (fst (snd (arrival_of cfg x))) = dg_bytes x"
  by (simp_all add: arrival_of_def)

lemma parse_msg_chunk:
  assumes "length fb = FRAME_BYTES" and "i < unat (stream_total_chunks c)"
  shows "\<exists>h. parseThermalChunkHeader (frame_chunk_msg c fb fid mn mx i) = Some h \<and> hasFrameId h \<and> hasRangeData h \<and> headerBytes h = kThermalHeaderBytes \<and>
    frameId h = fid \<and> chunkIndex h = of_nat i \<and> headerTotal h = stream_total_chunks c \<and> minValue h = mn \<and> maxValue h = mx"
proof -
  let ?h = "\<lparr> frameId = fid, chunkIndex = of_nat i, headerTotal = stream_total_chunks c, minValue = mn, maxValue = mx,
    headerBytes = kThermalHeaderBytes, hasFrameId = True, hasRangeData = True \<rparr>"
  have "isReasonableThermalChunkHeader ?h"
    using msg_reasonable[OF assms(2)] by (simp add: isReasonableThermalChunkHeader_def isReasonableThermalPacketHeader_def)
  then have "parseThermalChunkHeader (frame_chunk_msg c fb fid mn mx i) = Some ?h"
    by (simp add: parseThermalChunkHeader_def readBe16_join chunk_msg_parts[OF assms(1)] be16_bytes_join Let_def)
  then show ?thesis by simp
qed

lemma receive_msg:
  assumes "length fb = FRAME_BYTES" and "i < unat (stream_total_chunks c)" and "dg_bytes x = frame_chunk_msg c fb fid mn mx i"
  shows "thermal_receive cfg (fst x) (fst (snd x)) (dg_time x) (dg_bytes x) (n, g) =
    (case server_feed cfg (arrival_of cfg x) g of (r, g') \<Rightarrow> (Some (r, dg_bytes x), n, g'))"
proof -
  obtain h where h: "parseThermalChunkHeader (dg_bytes x) = Some h" "hasFrameId h" "hasRangeData h" "headerBytes h = kThermalHeaderBytes"
    "frameId h = fid" "chunkIndex h = of_nat i" "headerTotal h = stream_total_chunks c" "minValue h = mn" "maxValue h = mx"
    using parse_msg_chunk[OF assms(1,2)] assms(3) by metis
  have "datagram_header (dg_time x, dg_bytes x) = msg_header c fid mn mx i"
    using parse_chunk_msg[OF assms(1)] assms(3) by (simp add: datagram_header_def)
  then have "normalizeThermalPayload (dg_bytes x) (fst x) (fst (snd x)) (frame_timeout_ms cfg) n = (Some (fst (snd (arrival_of cfg x))), n)"
    using h by (simp add: normalizeThermalPayload_def resolveThermalFrameId_def Let_def arrival_of_def msg_header_def)
  then show ?thesis
    by (simp add: thermal_receive_def Let_def server_feed_def arrival_of_def)
qed

lemma receive_feed_all:
  assumes "length fb = FRAME_BYTES" and "\<forall>x\<in>set xs. \<exists>i<unat (stream_total_chunks c). dg_bytes x = frame_chunk_msg c fb fid mn mx i"
  shows "receive_all cfg xs (n, g) = (case server.feed_all cfg (map (arrival_of cfg) xs) g of (rs, g') \<Rightarrow> (map2 (\<lambda>r x. Some (r, dg_bytes x)) rs xs, n, g'))"
  using assms(2)
proof (induction xs arbitrary: g)
  case (Cons x xs)
  obtain i where "i < unat (stream_total_chunks c)" "dg_bytes x = frame_chunk_msg c fb fid mn mx i" using Cons.prems by auto
  note r = receive_msg[OF assms(1) this, of cfg n g]
  then show ?case using Cons by (cases x) (auto split: prod.splits)
qed simp

text \<open>The frame that a picture is at the server.\<close>

definition picture_frame :: "stream_cfg \<Rightarrow> bytes \<Rightarrow> u16 \<Rightarrow> u16 \<Rightarrow> u16 \<Rightarrow> completed_frame \<Rightarrow> bool" where
  "picture_frame c fb fid mn mx f \<longleftrightarrow> ready f \<and> framePayload f = frame_body c fb mn mx \<and> frameId (cfHeader f) = fid \<and>
     encoding f = (if frameStreamUseUdpFast8 c then ''scaled8'' else ''raw16'') \<and> cfHasRangeData f \<and>
     minValue (cfHeader f) = (if frameStreamUseUdpFast8 c \<or> valid_pixels fb = {} then mn else Min (valid_pixels fb)) \<and>
     maxValue (cfHeader f) = (if frameStreamUseUdpFast8 c \<or> valid_pixels fb = {} then mx else Max (valid_pixels fb))"

lemma outcome_picture:
  assumes "length fb = FRAME_BYTES" and "datagram_header (dg_time x, dg_bytes x) = msg_header c fid mn mx i"
  shows "picture_frame c fb fid mn mx (server_outcome (arrival_of cfg x) (map_of (picture_parts c (frame_body c fb mn mx))))"
proof -
  have len: "length (frame_body c fb mn mx) = (if frameStreamUseUdpFast8 c then kThermalFrameBytes8 else kThermalFrameBytes16)"
    using length_frame_body[OF assms(1)] by (simp add: frame_payload_bytes_def)
  note body = picture_body[OF length_frame_body[OF assms(1), of c mn mx]]
  have "part_values (map_of (picture_parts c (frame_body c fb mn mx))) = valid_pixels fb" if "\<not> frameStreamUseUdpFast8 c"
    using picture_values[OF assms(1) that] that by (simp add: frame_body_def)
  then show ?thesis
    unfolding picture_frame_def server_outcome_def body Let_def
    using len assms(2) by (cases "frameStreamUseUdpFast8 c") (simp_all add: thermalEncodingFromPayloadBytes_def)
qed

section \<open>Reading a scaled pixel\<close>

lemma scale_back:
  fixes d r :: nat
  assumes "0 < r" and "d \<le> r"
  defines "v \<equiv> (d * 255 div r * r + 127) div 255"
  shows "v \<le> d" and "255 * (d - v) \<le> r + 126"
proof -
  define s where "s = d * 255 div r"
  have s: "s * r \<le> d * 255" "d * 255 < s * r + r"
    using assms(1) div_mult_mod_eq[of "d * 255" r] mod_less_divisor[of r "d * 255"] unfolding s_def by linarith+
  define m where "m = (s * r + 127) mod 255"
  have m: "v * 255 + m = s * r + 127" "m < 255"
    unfolding v_def s_def[symmetric] m_def by (rule div_mult_mod_eq) simp
  show le: "v \<le> d" using m s(1) by linarith
  have "255 * d \<le> r + 126 + 255 * v" using m s(2) by linarith
  then show "255 * (d - v) \<le> r + 126" by (simp add: diff_mult_distrib2)
qed

lemma decode_scaled:
  assumes "encoding f = ''scaled8''" and "i < length (framePayload f)" and "framePayload f ! i = pack_pixel mn mx p"
    and "minValue (cfHeader f) = mn" and "maxValue (cfHeader f) = mx" and "mn < mx"
  defines "q \<equiv> max (unat mn) (min (unat p) (unat mx))"
  shows "\<exists>v. decodeThermalFramePixelRaw f i = Some v \<and> unat v \<le> q \<and> 255 * (q - unat v) \<le> unat mx - unat mn + 126"
proof -
  define r where "r = unat mx - unat mn"
  define d where "d = q - unat mn"
  have lt: "unat mn < unat mx" using assms(6) by (simp add: word_less_nat_alt)
  have r: "0 < r" "d \<le> r" "q = unat mn + d" "r < 65536"
    using lt unsigned_less[of mx, where ?'a = nat] by (auto simp: r_def d_def q_def)
  define s where "s = d * 255 div r"
  have s: "unat (pack_pixel mn mx p) = s" using pack_pixel_value[OF lt, of p] by (simp add: s_def d_def q_def r_def)
  have "s \<le> r * 255 div r" using r(2) unfolding s_def by (intro div_le_mono mult_le_mono1)
  then have s255: "s \<le> 255" using r(1) by simp
  then have sr: "s * r \<le> 255 * 65535" using r(4) mult_le_mono[of s 255 r 65535] by simp
  define v where "v = (s * r + 127) div 255"
  note v = scale_back[OF r(1,2), folded s_def v_def]
  have rw: "unat (ucast (mx - mn) :: u32) = r"
    using lt r(4) by (simp add: unsigned_ucast_eq take_bit_nat_eq_self unat_sub word_le_nat_alt r_def)
  have sw: "unat (ucast (pack_pixel mn mx p) :: u32) = s"
    using s s255 by (simp add: unsigned_ucast_eq take_bit_nat_eq_self)
  have "unat (ucast (pack_pixel mn mx p) * ucast (mx - mn) + 127 :: u32) = s * r + 127"
    using sr by (simp add: unat_word_ariths rw sw)
  then have "unat ((ucast (pack_pixel mn mx p) * ucast (mx - mn) + 127) div 255 :: u32) = v"
    by (simp add: unat_div v_def)
  then have "unat (ucast ((ucast (pack_pixel mn mx p) * ucast (mx - mn) + 127) div 255 :: u32) :: u16) = v"
    using v(1) r(2,4) by (simp add: unsigned_ucast_eq take_bit_nat_eq_self)
  then have "unat (mn + ucast ((ucast (pack_pixel mn mx p) * ucast (mx - mn) + 127) div 255 :: u32)) = unat mn + v"
    using v(1) r(2) lt unsigned_less[of mx, where ?'a = nat] by (simp add: unat_word_ariths r_def)
  moreover have "decodeThermalFramePixelRaw f i = Some (mn + ucast ((ucast (pack_pixel mn mx p) * ucast (mx - mn) + 127) div 255 :: u32))"
    using assms(1-6) by (simp add: decodeThermalFramePixelRaw_def Let_def not_le)
  ultimately show ?thesis using v r(3) by (simp add: r_def)
qed

text \<open>The server fed with all messages of a picture, in the order \<open>is\<close>.\<close>

definition room_for :: "server_cfg \<Rightarrow> u16 \<Rightarrow> thermal_server \<Rightarrow> bool" where
  "room_for cfg fid g \<longleftrightarrow> map_of (in_flight_frames g) fid = None \<and>
     (max_tracked_frames cfg \<le> 0 \<or> int (length (in_flight_frames g)) < max_tracked_frames cfg)"

lemma arrival_facts:
  assumes "length fb = FRAME_BYTES" and "all_chunks c is" and "map dg_bytes xs = map (frame_chunk_msg c fb fid mn mx) is"
    and "in_time (frame_timeout_ms cfg) (map dg_time xs)"
  defines "ps \<equiv> map (arrival_of cfg) xs"
  shows "xs \<noteq> []" and "length ps = unat (stream_total_chunks c)" and "successively (server_soon cfg) ps"
    and "map (\<lambda>p. chunkIndex (arr_header p)) ps = map of_nat is"
    and "x \<in> set xs \<Longrightarrow> \<exists>i<unat (stream_total_chunks c). dg_bytes x = frame_chunk_msg c fb fid mn mx i \<and> dg_time x \<noteq> 0 \<and>
      datagram_header (dg_time x, dg_bytes x) = msg_header c fid mn mx i"
proof -
  have len: "length (map dg_time xs) = length is" using arg_cong[OF assms(3), of length] by simp
  have arr: "map (\<lambda>x. (dg_time x, dg_bytes x)) xs = chunk_arrivals c fb fid mn mx (map dg_time xs) is"
    unfolding chunk_arrivals_def assms(3)[symmetric] by (simp add: zip_map_map zip_same_conv_map comp_def)
  note ca = chunk_arrivals[OF assms(1,2) len assms(4), where fid = fid and mn = mn and mx = mx, folded arr]
  show pk: "\<exists>i<unat (stream_total_chunks c). dg_bytes x = frame_chunk_msg c fb fid mn mx i \<and> dg_time x \<noteq> 0 \<and>
      datagram_header (dg_time x, dg_bytes x) = msg_header c fid mn mx i" if "x \<in> set xs" for x
    using ca(3)[of "(dg_time x, dg_bytes x)"] that by auto
  show "xs \<noteq> []" "length ps = unat (stream_total_chunks c)" using ca(1,2) by (auto simp: ps_def)
  have "successively (\<lambda>x y. server_soon cfg (arrival_of cfg x) (arrival_of cfg y)) xs"
    by (rule successively_mono[OF ca(5)[unfolded successively_map]]) (use pk chunk_index_less in \<open>force simp: server_soon_def\<close>)
  then show "successively (server_soon cfg) ps" by (simp add: ps_def successively_map)
  show "map (\<lambda>p. chunkIndex (arr_header p)) ps = map of_nat is" using ca(4) by (simp add: ps_def comp_def)
qed

lemma arrival_parts:
  assumes "length fb = FRAME_BYTES" and "map dg_bytes xs = map (frame_chunk_msg c fb fid mn mx) is"
    and "map (\<lambda>p. chunkIndex (arr_header p)) (map (arrival_of cfg) xs) = map of_nat is"
  shows "map (\<lambda>p. (chunkIndex (arr_header p), drop kThermalHeaderBytes (wsPayload (fst (snd p))))) (map (arrival_of cfg) xs) =
    map (\<lambda>i. (of_nat i, chunk_slice c (frame_body c fb mn mx) i)) is"
proof (rule nth_equalityI)
  have len: "length xs = length is" using arg_cong[OF assms(2), of length] by simp
  then show "length (map (\<lambda>p. (chunkIndex (arr_header p), drop kThermalHeaderBytes (wsPayload (fst (snd p))))) (map (arrival_of cfg) xs)) =
    length (map (\<lambda>i. (of_nat i :: u16, chunk_slice c (frame_body c fb mn mx) i)) is)" by simp
  fix k assume "k < length (map (\<lambda>p. (chunkIndex (arr_header p), drop kThermalHeaderBytes (wsPayload (fst (snd p))))) (map (arrival_of cfg) xs))"
  then have k: "k < length xs" by simp
  then have "dg_bytes (xs ! k) = frame_chunk_msg c fb fid mn mx (is ! k)" using arg_cong[OF assms(2), of "\<lambda>l. l ! k"] len by simp
  moreover have "chunkIndex (datagram_header (dg_time (xs ! k), dg_bytes (xs ! k))) = of_nat (is ! k)"
    using arg_cong[OF assms(3), of "\<lambda>l. l ! k"] k len by simp
  ultimately show "map (\<lambda>p. (chunkIndex (arr_header p), drop kThermalHeaderBytes (wsPayload (fst (snd p))))) (map (arrival_of cfg) xs) ! k =
      map (\<lambda>i. (of_nat i, chunk_slice c (frame_body c fb mn mx) i)) is ! k"
    using k len msg_slice[OF assms(1), of c fid mn mx "is ! k"] by simp
qed

lemma feed_picture:
  assumes "length fb = FRAME_BYTES" and "all_chunks c is" and "map dg_bytes xs = map (frame_chunk_msg c fb fid mn mx) is"
    and "in_time (frame_timeout_ms cfg) (map dg_time xs)" and "server_wf g" and "room_for cfg fid g"
  shows "\<exists>g'. server.feed_all cfg (map (arrival_of cfg) xs) g = (replicate (length xs - 1) None @
    [Some (server_outcome (arrival_of cfg (last xs)) (map_of (picture_parts c (frame_body c fb mn mx))))], g')"
proof -
  let ?ps = "map (arrival_of cfg) xs"
  note a = arrival_facts[OF assms(1-4)]
  have frame: "frameId (arr_header p) = fid \<and> headerTotal (arr_header p) = stream_total_chunks c \<and> chunkIndex (arr_header p) < stream_total_chunks c"
    if "p \<in> set ?ps" for p
    using that a(5) chunk_index_less by fastforce
  have "server_admits cfg (hd ?ps) g"
    using a(5)[OF hd_in_set[OF a(1)]] a(1) assms(6) chunk_index_less by (auto simp: hd_map server_admits_def frame_admitted_def room_for_def)
  then obtain g' where "server.feed_all cfg ?ps g = (replicate (length ?ps - 1) None @ [Some (server_outcome (last ?ps)
      (map_of (map (\<lambda>p. (chunkIndex (arr_header p), drop kThermalHeaderBytes (wsPayload (fst (snd p))))) ?ps)))], g')"
    using server.complete_frame[of ?ps g cfg fid "stream_total_chunks c"] a(1-4) frame assms(5,6) all_chunks_distinct[OF assms(2)]
    by (auto simp: server_announced_def room_for_def)
  then show ?thesis
    unfolding arrival_parts[OF assms(1,3) a(4)] picture_parts_order[OF assms(2)] using a(1) by (simp add: last_map)
qed

section \<open>Properties\<close>

text \<open>C3: A picture the ESP32 has sent over UDP reaches the event detection: after any earlier datagrams to
  the server, with the frame id free and room in its table, the messages of a successful
  \<open>send_frame\<close>, received in any order, from any senders, none late, are broadcast one by one as
  they are; the last of them and no other completes a frame; and this frame is the picture that was
  sent, the 16-bit pixels themselves with the range of the valid ones, or the pixels scaled to 8
  bits with the range they were scaled by.\<close>

theorem picture_delivered:
  assumes "length fb = FRAME_BYTES" and "send_frame c e fb fid = (True, evs)" and "frameStreamUseUdp c" and "frame_range c fb = (mn, mx)"
    and "receive_all cfg earlier server_start = (rs, n, g)" and "room_for cfg fid g"
    and "mset (map dg_bytes xs) = mset (udp_msgs evs)" and "in_time (frame_timeout_ms cfg) (map dg_time xs)"
  shows "\<exists>f st. receive_all cfg xs (n, g) = (map (\<lambda>x. Some (None, dg_bytes x)) (butlast xs) @ [Some (Some f, dg_bytes (last xs))], st) \<and>
    picture_frame c fb fid mn mx f"
proof -
  have "udp_msgs evs = map (frame_chunk_msg c fb fid mn mx) [0..<unat (stream_total_chunks c)]"
    using stream_chunks_msgs[of c e "frame_chunk_msg c fb fid mn mx" "[0..<unat (stream_total_chunks c)]" True evs] assms(2-4)
    by (simp add: send_frame_def)
  then obtain "is" where ord: "all_chunks c is" and pay: "map dg_bytes xs = map (frame_chunk_msg c fb fid mn mx) is"
    using arrival_order assms(7) by metis
  note a = arrival_facts[OF assms(1) ord pay assms(8)]
  have "server_wf g" using runs_account[of cfg earlier] assms(5) by (simp add: accounts_def thermal_runs_def)
  define f where "f = server_outcome (arrival_of cfg (last xs)) (map_of (picture_parts c (frame_body c fb mn mx)))"
  obtain g' where fed: "server.feed_all cfg (map (arrival_of cfg) xs) g = (replicate (length xs - 1) None @ [Some f], g')"
    using feed_picture[OF assms(1) ord pay assms(8) \<open>server_wf g\<close> assms(6)] by (auto simp: f_def)
  obtain i where "datagram_header (dg_time (last xs), dg_bytes (last xs)) = msg_header c fid mn mx i" using a(5)[OF last_in_set[OF a(1)]] by blast
  then have "picture_frame c fb fid mn mx f"
    using outcome_picture[OF assms(1), of "last xs" c fid mn mx i cfg] by (simp add: f_def)
  moreover have "\<forall>x\<in>set xs. \<exists>i<unat (stream_total_chunks c). dg_bytes x = frame_chunk_msg c fb fid mn mx i" using a(5) by blast
  note receive_feed_all[OF assms(1) this, of cfg n g]
  moreover have "map2 (\<lambda>r x. Some (r, dg_bytes x)) (replicate (length xs - 1) None @ [Some f]) xs =
      map (\<lambda>x. Some (None, dg_bytes x)) (butlast xs) @ [Some (Some f, dg_bytes (last xs))]"
    using a(1) by (induction xs) (auto simp: neq_Nil_conv)
  ultimately show ?thesis by (simp add: fed)
qed

lemma example_send: "fst (send_frame default_cfg good_env example_buf 7)"
  by (cases "frame_range default_cfg example_buf") (simp add: send_frame_def stream_chunks_ok[OF good_env_up])

text \<open>The default settings of the server.\<close>

definition default_server :: server_cfg where
  "default_server = \<lparr> enable_frame_stats = False, frame_timeout_ms = 2000, max_tracked_frames = 8, stats_log_interval_ms = 5000 \<rparr>"

lemma picture_delivered_witness:
  "\<exists>mn mx f. frame_range default_cfg example_buf = (mn, mx) \<and> picture_frame default_cfg example_buf 7 mn mx f \<and>
    fst (last (map the (fst (receive_all default_server (map (\<lambda>m. (''10.0.0.7:5005'', 1, 1, m))
      (rev (udp_msgs (snd (send_frame default_cfg good_env example_buf 7))))) server_start)))) = Some f"
proof -
  obtain evs where s: "send_frame default_cfg good_env example_buf 7 = (True, evs)"
    using example_send by (cases "send_frame default_cfg good_env example_buf 7") auto
  obtain mn mx where r: "frame_range default_cfg example_buf = (mn, mx)" by fastforce
  let ?xs = "map (\<lambda>m. (''10.0.0.7:5005'', 1 :: int, 1 :: int, m)) (rev (udp_msgs evs))"
  have st: "receive_all default_server [] server_start = ([], normalizer0, thermal_server0)" by simp
  have time: "in_time (frame_timeout_ms default_server) (map dg_time ?xs)"
    by (auto simp: in_time_def default_server_def successively_conv_nth)
  have "map dg_bytes ?xs = rev (udp_msgs evs)" by (simp add: comp_def)
  then have "mset (map dg_bytes ?xs) = mset (udp_msgs evs)" by simp
  from picture_delivered[OF example_buf_length s default_cfg_modes(1) r st _ this time]
  show ?thesis unfolding s r by (auto simp: room_for_def thermal_server0_def default_server_def)
qed

text \<open>C11: What the server reads from a delivered picture: with 16-bit pixels the very pixels of the frame; with
  8-bit pixels, for the pixel limited to the range of the picture, a value that is never above it
  and below it by at most a 255th of the range (and half a step of rounding).\<close>

theorem delivered_pixels:
  assumes "length fb = FRAME_BYTES" and "frame_range c fb = (mn, mx)" and "picture_frame c fb fid mn mx f" and "i < FRAME_PIXEL_COUNT"
  shows "\<exists>v. decodeThermalFramePixelRaw f i = Some v \<and>
    (if frameStreamUseUdpFast8 c
     then unat v \<le> max (unat mn) (min (unat (frameReadPixelBe fb i)) (unat mx)) \<and>
       255 * (max (unat mn) (min (unat (frameReadPixelBe fb i)) (unat mx)) - unat v) \<le> unat mx - unat mn + 126
     else v = frameReadPixelBe fb i)"
proof (cases "frameStreamUseUdpFast8 c")
  case True
  then have "mn < mx" using range_span[of fb mn mx] assms(2) by (simp add: frame_range_def word_less_nat_alt)
  moreover have "framePayload f ! i = pack_pixel mn mx (frameReadPixelBe fb i)" "i < length (framePayload f)"
    using assms(3,4) True by (simp_all add: picture_frame_def frame_body_def frame_pixel_list_def del: upt_rec_numeral)
  ultimately show ?thesis
    using decode_scaled[of f i mn mx "frameReadPixelBe fb i"] assms(3) True by (auto simp: picture_frame_def)
next
  case False
  then show ?thesis
    using assms(1,3,4) by (simp add: decodeThermalFramePixelRaw_def picture_frame_def frame_body_def frameReadPixelBe_def readBe16_def)
qed


lemma delivered_pixels_witness:
  "\<exists>mn mx f v. frame_range default_cfg example_buf = (mn, mx) \<and> picture_frame default_cfg example_buf 7 mn mx f \<and>
    decodeThermalFramePixelRaw f 0 = Some v \<and> unat v \<le> max (unat mn) (min (unat (frameReadPixelBe example_buf 0)) (unat mx))"
proof -
  obtain mn mx where r: "frame_range default_cfg example_buf = (mn, mx)" by fastforce
  let ?x = "(''a'', 1, 1, frame_chunk_msg default_cfg example_buf 7 mn mx 0)"
  have "datagram_header (dg_time ?x, dg_bytes ?x) = msg_header default_cfg 7 mn mx 0"
    using parse_chunk_msg[OF example_buf_length, of default_cfg 7 mn mx 0] by (simp add: datagram_header_def)
  note f = outcome_picture[OF example_buf_length this, of default_server]
  from delivered_pixels[OF example_buf_length r f, of 0] show ?thesis
    using r f default_cfg_modes(2) by auto
qed

end
