(* ===== verification/HotspotAnalysis.thy ===== *)
theory HotspotAnalysis imports ThermalServer GatewayCommon begin

text \<open>
  First part of the hot-spot detection of the Crow server (crow_server/src/features/thermal/
  ThermalProxy.cpp): its settings and their defaults, the region of interest, the percentiles, and
  the statistics of the region in one completed picture. \<^verbatim>\<open>int\<close> and \<^verbatim>\<open>long long\<close> are \<open>int\<close>;
  the one \<^verbatim>\<open>double\<close> setting and the aspect ratio are rationals.
\<close>

abbreviation (input) kThermalWidth :: int where "kThermalWidth \<equiv> 160"
abbreviation (input) kThermalHeight :: int where "kThermalHeight \<equiv> 120"

section \<open>Settings\<close>

record event_config =
  event_enabled :: bool
  actuation_enabled :: bool
  baseline_enabled :: bool
  debug_log :: bool
  hotspot_threshold_max_value :: int
  cooldown_ms :: int
  baseline_margin :: int
  baseline_window_ms :: int
  baseline_min_samples :: int
  baseline_guard_delta :: int
  consecutive_frames_required :: int
  signal_percentile :: int
  hot_area_min_pixels :: int
  seed_delta :: int
  grow_delta :: int
  component_area_min :: int
  component_area_max :: int
  local_contrast_min :: int
  new_pixels_min :: int
  clear_frames :: int
  track_match_distance_px :: int
  aspect_ratio_min :: rat
  tip_x :: int
  tip_y :: int
  tip_distance_max_px :: int
  score_min :: int
  roi_x :: int
  roi_y :: int
  roi_width :: int
  roi_height :: int

record thermal_config = event_config +
  monitor_always_on :: bool
  event_topic :: string
  event_source :: string
  event_severity :: string
  event_title :: string
  mqtt_host :: string
  mqtt_port :: int
  mqtt_client_id :: string
  motor_control_topic :: string
  laser_control_topic :: string
  motor1_angle :: int
  motor2_angle :: int
  motor3_angle :: int
  laser_enabled :: bool

definition getenvOr :: "environment \<Rightarrow> string \<Rightarrow> string \<Rightarrow> string" where
  "getenvOr getenv key fallback = (case getenv key of Some value \<Rightarrow> value | None \<Rightarrow> fallback)"

definition envPort :: "environment \<Rightarrow> string \<Rightarrow> u16 \<Rightarrow> u16" where
  "envPort getenv key fallback = (case getenv key of
     None \<Rightarrow> fallback
   | Some value \<Rightarrow> if value = [] then fallback
       else (case stoi value of
               None \<Rightarrow> fallback
             | Some parsed \<Rightarrow> if parsed \<le> 0 \<or> parsed > 65535 then fallback else word_of_int parsed))"

definition envInt :: "environment \<Rightarrow> string \<Rightarrow> int \<Rightarrow> int" where
  "envInt getenv key fallback = (case getenv key of
     None \<Rightarrow> fallback
   | Some value \<Rightarrow> if value = [] then fallback else (case stoi value of Some v \<Rightarrow> v | None \<Rightarrow> fallback))"

text \<open>\<open>stod\<close> is the conversion of the C++ library, \<open>None\<close> where it throws.\<close>

definition envDouble :: "(string \<Rightarrow> rat option) \<Rightarrow> environment \<Rightarrow> string \<Rightarrow> rat \<Rightarrow> rat" where
  "envDouble stod getenv key fallback = (case getenv key of
     None \<Rightarrow> fallback
   | Some value \<Rightarrow> if value = [] then fallback else (case stod value of Some v \<Rightarrow> v | None \<Rightarrow> fallback))"

definition clampServoAngle :: "int \<Rightarrow> int" where
  "clampServoAngle angle = max 0 (min 180 angle)"

definition clampPercentile :: "int \<Rightarrow> int" where
  "clampPercentile value = max 50 (min 100 value)"

definition clampCoordinate :: "int \<Rightarrow> int \<Rightarrow> int" where
  "clampCoordinate value upperBoundInclusive =
     (if upperBoundInclusive \<le> 0 then 0 else max 0 (min upperBoundInclusive value))"

definition envBool :: "environment \<Rightarrow> string \<Rightarrow> bool \<Rightarrow> bool" where
  "envBool getenv key fallback = (case getenv key of
     None \<Rightarrow> fallback
   | Some value \<Rightarrow>
       let normalized = map tolower value
       in if value = [] then fallback
          else if normalized \<in> {''1'', ''true'', ''yes'', ''on''} then True
          else if normalized \<in> {''0'', ''false'', ''no'', ''off''} then False
          else fallback)"

definition loadThermalEventConfig :: "(string \<Rightarrow> rat option) \<Rightarrow> environment \<Rightarrow> thermal_config" where
  "loadThermalEventConfig stod env =
     (let area_min = max 1 (envInt env ''THERMAL_EVENT_COMPONENT_AREA_MIN'' 2);
          tx = envInt env ''THERMAL_EVENT_TIP_X'' (-1);
          ty = envInt env ''THERMAL_EVENT_TIP_Y'' (-1);
          topic = getenvOr env ''THERMAL_EVENT_TOPIC'' ''system/event'';
          port = envInt env ''MQTT_PORT'' 1883
      in \<lparr> event_enabled = envBool env ''THERMAL_EVENT_ENABLED'' True,
           actuation_enabled = envBool env ''THERMAL_EVENT_ACTUATE'' False,
           baseline_enabled = envBool env ''THERMAL_EVENT_BASELINE_ENABLED'' True,
           debug_log = envBool env ''THERMAL_EVENT_DEBUG_LOG'' False,
           hotspot_threshold_max_value = max 0 (envInt env ''THERMAL_EVENT_THRESHOLD_MAX_VALUE'' 8500),
           cooldown_ms = max 0 (envInt env ''THERMAL_EVENT_COOLDOWN_MS'' 5000),
           baseline_margin = max 0 (envInt env ''THERMAL_EVENT_BASELINE_MARGIN'' 250),
           baseline_window_ms = max 0 (envInt env ''THERMAL_EVENT_BASELINE_WINDOW_MS'' 300000),
           baseline_min_samples = max 1 (envInt env ''THERMAL_EVENT_BASELINE_MIN_SAMPLES'' 30),
           baseline_guard_delta = max 0 (envInt env ''THERMAL_EVENT_BASELINE_GUARD_DELTA'' 250),
           consecutive_frames_required = max 1 (envInt env ''THERMAL_EVENT_CONSECUTIVE_FRAMES'' 2),
           signal_percentile = clampPercentile (envInt env ''THERMAL_EVENT_SIGNAL_PERCENTILE'' 100),
           hot_area_min_pixels = max 0 (envInt env ''THERMAL_EVENT_HOT_AREA_MIN_PIXELS'' 4),
           seed_delta = max 0 (envInt env ''THERMAL_EVENT_SEED_DELTA'' 120),
           grow_delta = max 0 (envInt env ''THERMAL_EVENT_GROW_DELTA'' 60),
           component_area_min = area_min,
           component_area_max = max area_min (envInt env ''THERMAL_EVENT_COMPONENT_AREA_MAX'' 48),
           local_contrast_min = max 0 (envInt env ''THERMAL_EVENT_LOCAL_CONTRAST_MIN'' 150),
           new_pixels_min = max 0 (envInt env ''THERMAL_EVENT_NEW_PIXELS_MIN'' 1),
           clear_frames = max 1 (envInt env ''THERMAL_EVENT_CLEAR_FRAMES'' 4),
           track_match_distance_px = max 0 (envInt env ''THERMAL_EVENT_TRACK_MATCH_DISTANCE_PX'' 18),
           aspect_ratio_min = max 1 (envDouble stod env ''THERMAL_EVENT_ASPECT_RATIO_MIN'' (9 / 5)),
           tip_x = (if tx \<ge> 0 then clampCoordinate tx (kThermalWidth - 1) else tx),
           tip_y = (if ty \<ge> 0 then clampCoordinate ty (kThermalHeight - 1) else ty),
           tip_distance_max_px = max 0 (envInt env ''THERMAL_EVENT_TIP_DISTANCE_MAX_PX'' 24),
           score_min = max 1 (envInt env ''THERMAL_EVENT_SCORE_MIN'' 6),
           roi_x = envInt env ''THERMAL_EVENT_ROI_X'' 0,
           roi_y = envInt env ''THERMAL_EVENT_ROI_Y'' 0,
           roi_width = envInt env ''THERMAL_EVENT_ROI_WIDTH'' kThermalWidth,
           roi_height = envInt env ''THERMAL_EVENT_ROI_HEIGHT'' kThermalHeight,
           monitor_always_on = envBool env ''THERMAL_MONITOR_ALWAYS_ON'' True,
           event_topic = (if topic = [] then ''system/event'' else topic),
           event_source = getenvOr env ''THERMAL_EVENT_SOURCE'' ''thermal'',
           event_severity = getenvOr env ''THERMAL_EVENT_SEVERITY'' ''warning'',
           event_title = getenvOr env ''THERMAL_EVENT_TITLE'' ''Thermal hotspot detected'',
           mqtt_host = getenvOr env ''MQTT_HOST'' ''mqtt-service'',
           mqtt_port = (if port \<le> 0 then 1883 else port),
           mqtt_client_id = getenvOr env ''THERMAL_EVENT_MQTT_CLIENT_ID'' ''crow_thermal_event_api'',
           motor_control_topic = getenvOr env ''MOTOR_CONTROL_TOPIC'' ''motor/control'',
           laser_control_topic = getenvOr env ''LASER_CONTROL_TOPIC'' ''laser/control'',
           motor1_angle = clampServoAngle (envInt env ''THERMAL_EVENT_MOTOR1_ANGLE'' 90),
           motor2_angle = clampServoAngle (envInt env ''THERMAL_EVENT_MOTOR2_ANGLE'' 90),
           motor3_angle = clampServoAngle (envInt env ''THERMAL_EVENT_MOTOR3_ANGLE'' 90),
           laser_enabled = envBool env ''THERMAL_EVENT_LASER_ENABLED'' False \<rparr>)"

section \<open>Region of interest\<close>

record event_roi =
  rx :: int
  ry :: int
  rwidth :: int
  rheight :: int

definition event_roi0 :: event_roi where
  "event_roi0 = \<lparr> rx = 0, ry = 0, rwidth = kThermalWidth, rheight = kThermalHeight \<rparr>"

definition normalizeThermalEventRoi :: "'a event_config_scheme \<Rightarrow> event_roi" where
  "normalizeThermalEventRoi c =
     (let x = clampCoordinate (roi_x c) (kThermalWidth - 1);
          y = clampCoordinate (roi_y c) (kThermalHeight - 1);
          remainingWidth = max 1 (kThermalWidth - x);
          remainingHeight = max 1 (kThermalHeight - y)
      in \<lparr> rx = x, ry = y,
           rwidth = (if roi_width c \<le> 0 then remainingWidth else min (roi_width c) remainingWidth),
           rheight = (if roi_height c \<le> 0 then remainingHeight else min (roi_height c) remainingHeight) \<rparr>)"

definition thermalRoiArea :: "event_roi \<Rightarrow> nat" where
  "thermalRoiArea r = nat (max 0 (rwidth r) * max 0 (rheight r))"

definition thermalRoiIndex :: "event_roi \<Rightarrow> int \<Rightarrow> int \<Rightarrow> int" where
  "thermalRoiIndex r localX localY = localY * rwidth r + localX"

definition sameThermalEventRoi :: "event_roi \<Rightarrow> event_roi \<Rightarrow> bool" where
  "sameThermalEventRoi l r \<longleftrightarrow> rx l = rx r \<and> ry l = ry r \<and> rwidth l = rwidth r \<and> rheight l = rheight r"

section \<open>Percentiles\<close>

text \<open>\<^verbatim>\<open>std::nth_element\<close> puts at a position what sorting would put there.\<close>

definition nth_element :: "int list \<Rightarrow> nat \<Rightarrow> int" where
  "nth_element values i = sort values ! i"

definition thermalPercentileValue :: "int list \<Rightarrow> int \<Rightarrow> int" where
  "thermalPercentileValue values percentile =
     (if values = [] then 0
      else
        let normalizedPercentile = clampPercentile percentile;
            rankCount = (nat normalizedPercentile * length values + 99) div 100;
            rankIndex = (if length values > 1
                         then if rankCount > 0 then min (length values - 1) (rankCount - 1) else 0
                         else 0)
        in nth_element values rankIndex)"

section \<open>Statistics of one picture\<close>

record frame_analysis =
  an_valid :: bool
  percentile :: int
  roi :: event_roi
  validPixels :: int
  roiMinValue :: int
  roiMaxValue :: int
  medianValue :: int
  p95Value :: int
  p99Value :: int
  madValue :: int
  signalValue :: int
  roiRawValues :: "int list"

definition frame_analysis0 :: frame_analysis where
  "frame_analysis0 = \<lparr> an_valid = False, percentile = 100, roi = event_roi0, validPixels = 0, roiMinValue = 0,
     roiMaxValue = 0, medianValue = 0, p95Value = 0, p99Value = 0, madValue = 0, signalValue = 0, roiRawValues = [] \<rparr>"

definition roi_pixels :: "event_roi \<Rightarrow> (int \<times> int) list" where
  "roi_pixels r = concat (map (\<lambda>y. map (\<lambda>x. (x, y)) [rx r..rx r + rwidth r - 1]) [ry r..ry r + rheight r - 1])"

definition valid_pixel :: "completed_frame \<Rightarrow> int \<Rightarrow> int \<Rightarrow> u16 option" where
  "valid_pixel frame x y = (case decodeThermalFramePixelRaw frame (nat (y * kThermalWidth + x)) of
     None \<Rightarrow> None
   | Some rawValue \<Rightarrow>
       if rawValue \<le> kThermalValidMinRaw \<or> rawValue \<ge> kThermalValidMaxRaw then None else Some rawValue)"

definition scan_pixel :: "completed_frame \<Rightarrow> event_roi \<Rightarrow> int \<times> int \<Rightarrow> int list \<times> u16 list \<times> u16 \<times> u16 \<Rightarrow>
    int list \<times> u16 list \<times> u16 \<times> u16" where
  "scan_pixel frame r = (\<lambda>(x, y) (raw, vs, roiMin, roiMax). (case valid_pixel frame x y of
     None \<Rightarrow> (raw, vs, roiMin, roiMax)
   | Some v \<Rightarrow> (raw[nat (thermalRoiIndex r (x - rx r) (y - ry r)) := uint v], vs @ [v], min roiMin v, max roiMax v)))"

definition analyzeThermalEventFrame :: "completed_frame \<Rightarrow> 'a event_config_scheme \<Rightarrow> frame_analysis" where
  "analyzeThermalEventFrame frame c =
     (let out = frame_analysis0\<lparr> percentile := signal_percentile c, roi := normalizeThermalEventRoi c \<rparr>
      in if \<not> ready frame \<or> \<not> cfHasRangeData frame \<or> framePayload frame = [] then out
         else if encoding frame \<noteq> ''raw16'' \<and> encoding frame \<noteq> ''scaled8'' then out
         else (case fold (scan_pixel frame (roi out)) (roi_pixels (roi out))
                    (replicate (thermalRoiArea (roi out)) (-1), [], - 1, 0) of
           (raw, roiValues, roiMin, roiMax) \<Rightarrow>
             if roiValues = [] then out\<lparr> roiRawValues := raw \<rparr>
             else
               let vs = map uint roiValues; median = thermalPercentileValue vs 50
               in out\<lparr> roiRawValues := raw, an_valid := True, validPixels := int (length roiValues),
                       roiMinValue := uint roiMin, roiMaxValue := uint roiMax, medianValue := median,
                       p95Value := thermalPercentileValue vs 95, p99Value := thermalPercentileValue vs 99,
                       madValue := thermalPercentileValue (map (\<lambda>v. \<bar>v - median\<bar>) vs) 50,
                       signalValue := thermalPercentileValue vs (signal_percentile c) \<rparr>))"

definition countThermalPixelsAtOrAboveThreshold :: "completed_frame \<Rightarrow> frame_analysis \<Rightarrow> int \<Rightarrow> int" where
  "countThermalPixelsAtOrAboveThreshold frame a threshold =
     (if \<not> an_valid a \<or> threshold \<le> 0 then 0
      else int (length (filter (\<lambda>(x, y). case valid_pixel frame x y of None \<Rightarrow> False | Some v \<Rightarrow> uint v \<ge> threshold)
                              (roi_pixels (roi a)))))"

end
