(* ===== verification/HotspotComponents.thy ===== *)
theory HotspotComponents imports HotspotAnalysis "HOL-Library.While_Combinator" begin

text \<open>
  Second part of the hot-spot detection (ThermalProxy.cpp of the Crow server): the threshold masks,
  the search for connected hot regions with an explicit stack, the features and the score of a
  region, and the choice of the best one. Masks are lists of booleans over the region of interest;
  the stack has its top at the head of the list. The loop over the stack is a \<open>while_option\<close>:
  not returning would be \<open>None\<close>.
\<close>

record component =
  comp_valid :: bool
  area :: int
  seedArea :: int
  peakValue :: int
  p90Value :: int
  localRingMedian :: int
  localContrast :: int
  newPixels :: int
  aspectRatio :: rat
  distanceToTipPx :: int
  score :: int
  centerX :: int
  centerY :: int
  minX :: int
  minY :: int
  maxX :: int
  maxY :: int
  rejectionReason :: string
  mask_bits :: "bool list"

definition component0 :: component where
  "component0 = \<lparr> comp_valid = False, area = 0, seedArea = 0, peakValue = 0, p90Value = 0, localRingMedian = 0,
     localContrast = 0, newPixels = 0, aspectRatio = 1, distanceToTipPx = -1, score = 0, centerX = -1, centerY = -1,
     minX = 0, minY = 0, maxX = 0, maxY = 0, rejectionReason = [], mask_bits = [] \<rparr>"

definition threshold_mask :: "frame_analysis \<Rightarrow> int \<Rightarrow> bool list" where
  "threshold_mask a threshold = map (\<lambda>value. \<not> value < 0 \<and> value \<ge> threshold) (roiRawValues a)"

definition buildThermalThresholdMasks :: "frame_analysis \<Rightarrow> int \<Rightarrow> int \<Rightarrow> bool list \<times> bool list" where
  "buildThermalThresholdMasks a seedThreshold growThreshold =
     (threshold_mask a seedThreshold, threshold_mask a growThreshold)"

section \<open>Features of a region\<close>

definition ring_value :: "frame_analysis \<Rightarrow> bool list \<Rightarrow> int \<times> int \<Rightarrow> int list" where
  "ring_value a cmask = (\<lambda>(x, y).
     let idx = thermalRoiIndex (roi a) (x - rx (roi a)) (y - ry (roi a))
     in if idx < 0 \<or> idx \<ge> int (length cmask) \<or> cmask ! nat idx then []
        else if roiRawValues a ! nat idx < 0 then [] else [roiRawValues a ! nat idx])"

definition computeThermalComponentRingMedian :: "frame_analysis \<Rightarrow> bool list \<Rightarrow> int \<Rightarrow> int \<Rightarrow> int \<Rightarrow> int \<Rightarrow> int" where
  "computeThermalComponentRingMedian a cmask mnX mnY mxX mxY =
     (let startX = max (rx (roi a)) (mnX - 2);
          startY = max (ry (roi a)) (mnY - 2);
          endX = min (rx (roi a) + rwidth (roi a) - 1) (mxX + 2);
          endY = min (ry (roi a) + rheight (roi a) - 1) (mxY + 2);
          ringValues = concat (map (\<lambda>y. concat (map (\<lambda>x. ring_value a cmask (x, y)) [startX..endX])) [startY..endY])
      in if ringValues = [] then medianValue a else thermalPercentileValue ringValues 50)"

definition countThermalNewPixels :: "bool list \<Rightarrow> bool list \<Rightarrow> int" where
  "countThermalNewPixels cmask prevMask =
     (if length prevMask \<noteq> length cmask then int (length (filter (\<lambda>bit. bit) cmask))
      else int (length (filter (\<lambda>(bit, old). bit \<and> \<not> old) (zip cmask prevMask))))"

definition hasThermalEventTipAnchor :: "'a event_config_scheme \<Rightarrow> bool" where
  "hasThermalEventTipAnchor c \<longleftrightarrow> tip_x c \<ge> 0 \<and> tip_y c \<ge> 0"

definition computeThermalComponentAspectRatio :: "component \<Rightarrow> rat" where
  "computeThermalComponentAspectRatio k =
     (let width = max 1 (maxX k - minX k + 1);
          height = max 1 (maxY k - minY k + 1);
          major = max width height;
          minor = max 1 (min width height)
      in of_int major / of_int minor)"

text \<open>\<^verbatim>\<open>std::llround(std::sqrt(n))\<close> of an integer: the integer square root by halving the bits, and
  the rounding to the nearer neighbour.\<close>

function isqrt :: "nat \<Rightarrow> nat" where
  "isqrt n = (if n = 0 then 0
              else let r = 2 * isqrt (n div 4) in if (r + 1) * (r + 1) \<le> n then r + 1 else r)"
  by pat_completeness auto
termination by (relation "measure (\<lambda>n. n)") auto

declare isqrt.simps [simp del]

definition llround_sqrt :: "nat \<Rightarrow> nat" where
  "llround_sqrt n = (let k = isqrt n in if n - k * k > k then k + 1 else k)"

definition computeThermalDistanceToTipPx :: "component \<Rightarrow> 'a event_config_scheme \<Rightarrow> int" where
  "computeThermalDistanceToTipPx k c =
     (if \<not> hasThermalEventTipAnchor c \<or> centerX k < 0 \<or> centerY k < 0 then -1
      else let dx = centerX k - tip_x c; dy = centerY k - tip_y c
           in int (llround_sqrt (nat (dx * dx + dy * dy))))"

definition computeThermalComponentScore :: "component \<Rightarrow> frame_analysis \<Rightarrow> 'a event_config_scheme \<Rightarrow> int" where
  "computeThermalComponentScore k a c =
     (let deltaPeak = peakValue k - medianValue a
      in (if deltaPeak \<ge> max (seed_delta c) 80 then 2 else 0)
       + (if localContrast k \<ge> local_contrast_min c then 2 else 0)
       + (if aspectRatio k \<ge> aspect_ratio_min c then 2 else 0)
       + (if seedArea k \<ge> 2 then 1 else 0)
       + (if newPixels k \<ge> new_pixels_min c then 1 else 0)
       + (if area k \<le> max (component_area_min c * 4) 24 then 1 else 0)
       + (if distanceToTipPx k \<ge> 0 then if distanceToTipPx k \<le> tip_distance_max_px c then 2 else -2 else 0))"

section \<open>Choosing a region\<close>

definition weightedScore :: "component \<Rightarrow> int" where
  "weightedScore k =
     (let w = score k * 1000 + localContrast k * 6 + seedArea k * 180 + newPixels k * 80 + peakValue k - area k * 4
      in if distanceToTipPx k \<ge> 0 then w - distanceToTipPx k * 12 else w)"

definition keep_better :: "component \<Rightarrow> component option \<Rightarrow> component option" where
  "keep_better k best = (case best of
     None \<Rightarrow> Some k
   | Some b \<Rightarrow> if weightedScore k > weightedScore b then Some k else best)"

definition selectDiagnosticThermalComponent :: "component list \<Rightarrow> component option" where
  "selectDiagnosticThermalComponent ks = fold keep_better ks None"

definition selectBestThermalEventComponent :: "component list \<Rightarrow> 'a event_config_scheme \<Rightarrow> component option" where
  "selectBestThermalEventComponent ks c =
     fold (\<lambda>k best. if \<not> comp_valid k \<or> score k < score_min c then best else keep_better k best) ks None"

section \<open>The search for regions\<close>

record fill_state =
  visited :: "bool list"
  stack :: "nat list"
  fcomp :: component
  sumX :: int
  sumY :: int
  fvalues :: "int list"

definition neighbour_offsets :: "(int \<times> int) list" where
  "neighbour_offsets = [(-1, -1), (0, -1), (1, -1), (-1, 0), (1, 0), (-1, 1), (0, 1), (1, 1)]"

definition next_indices :: "event_roi \<Rightarrow> nat \<Rightarrow> nat list" where
  "next_indices r idx =
     (let localX = int idx mod rwidth r; localY = int idx div rwidth r
      in map (\<lambda>(dx, dy). nat (thermalRoiIndex r (localX + dx) (localY + dy)))
           (filter (\<lambda>(dx, dy). \<not> (localX + dx < 0 \<or> localY + dy < 0 \<or> localX + dx \<ge> rwidth r \<or> localY + dy \<ge> rheight r))
              neighbour_offsets))"

definition push_neighbour :: "bool list \<Rightarrow> nat \<Rightarrow> bool list \<times> nat list \<Rightarrow> bool list \<times> nat list" where
  "push_neighbour growMask nextIdx = (\<lambda>(vis, st).
     if vis ! nextIdx \<or> \<not> growMask ! nextIdx then (vis, st) else (vis[nextIdx := True], nextIdx # st))"

definition add_pixel :: "frame_analysis \<Rightarrow> bool list \<Rightarrow> nat \<Rightarrow> fill_state \<Rightarrow> fill_state" where
  "add_pixel a seedMask idx f =
     (let r = roi a; k = fcomp f;
          frameX = rx r + int idx mod rwidth r;
          frameY = ry r + int idx div rwidth r;
          value = roiRawValues a ! idx;
          k = k\<lparr> mask_bits := (mask_bits k)[idx := True], area := area k + 1,
                 seedArea := (if seedMask ! idx then seedArea k + 1 else seedArea k),
                 minX := min (minX k) frameX, minY := min (minY k) frameY,
                 maxX := max (maxX k) frameX, maxY := max (maxY k) frameY,
                 peakValue := (if value \<ge> 0 then max (peakValue k) value else peakValue k) \<rparr>
      in f\<lparr> fcomp := k, sumX := sumX f + frameX, sumY := sumY f + frameY,
            fvalues := (if value \<ge> 0 then fvalues f @ [value] else fvalues f) \<rparr>)"

definition fill_step :: "frame_analysis \<Rightarrow> bool list \<Rightarrow> bool list \<Rightarrow> fill_state \<Rightarrow> fill_state" where
  "fill_step a seedMask growMask f = (case stack f of
     [] \<Rightarrow> f
   | idx # rest \<Rightarrow>
       if \<not> growMask ! idx \<or> mask_bits (fcomp f) ! idx then f\<lparr> stack := rest \<rparr>
       else
         let f = add_pixel a seedMask idx f;
             (vis, st) = fold (push_neighbour growMask) (next_indices (roi a) idx) (visited f, rest)
         in f\<lparr> visited := vis, stack := st \<rparr>)"

definition fill_region :: "frame_analysis \<Rightarrow> bool list \<Rightarrow> bool list \<Rightarrow> fill_state \<Rightarrow> fill_state option" where
  "fill_region a seedMask growMask = while_option (\<lambda>f. stack f \<noteq> []) (fill_step a seedMask growMask)"

definition fill_start :: "frame_analysis \<Rightarrow> nat \<Rightarrow> bool list \<Rightarrow> fill_state" where
  "fill_start a startIdx vis =
     \<lparr> visited = vis[startIdx := True], stack = [startIdx],
       fcomp = component0\<lparr> mask_bits := replicate (length vis) False,
                           minX := rx (roi a) + rwidth (roi a), minY := ry (roi a) + rheight (roi a),
                           maxX := rx (roi a), maxY := ry (roi a) \<rparr>,
       sumX = 0, sumY = 0, fvalues = [] \<rparr>"

definition rate_component :: "'a event_config_scheme \<Rightarrow> component \<Rightarrow> component" where
  "rate_component c k =
     (let areaTooSmall = area k < component_area_min c;
          areaTooLarge = area k > component_area_max c;
          lowContrast = localContrast k < local_contrast_min c;
          lowAspectRatio = aspectRatio k < aspect_ratio_min c;
          hasTipAnchor = hasThermalEventTipAnchor c;
          tipDistanceUnknown = (hasTipAnchor \<and> distanceToTipPx k < 0);
          tooFarFromTip = (hasTipAnchor \<and> distanceToTipPx k \<ge> 0 \<and> distanceToTipPx k > tip_distance_max_px c);
          ok = (\<not> areaTooSmall \<and> \<not> areaTooLarge \<and> \<not> lowContrast \<and> \<not> lowAspectRatio \<and>
                (\<not> hasTipAnchor \<or> \<not> tipDistanceUnknown \<and> \<not> tooFarFromTip))
      in k\<lparr> comp_valid := ok,
            rejectionReason :=
              (if ok then ''ok''
               else if areaTooSmall then ''area_too_small''
               else if areaTooLarge then ''area_too_large''
               else if lowContrast then ''low_contrast''
               else if lowAspectRatio then ''low_aspect_ratio''
               else if \<not> hasTipAnchor then ''tip_anchor_disabled''
               else if tipDistanceUnknown then ''tip_distance_unknown''
               else if tooFarFromTip then ''too_far_from_tip''
               else ''rejected'') \<rparr>)"

definition finish_component :: "frame_analysis \<Rightarrow> bool list \<Rightarrow> 'a event_config_scheme \<Rightarrow> fill_state \<Rightarrow> component" where
  "finish_component a prevMask c f =
     (let k = fcomp f;
          k = k\<lparr> p90Value := thermalPercentileValue (fvalues f) 90,
                 localRingMedian := computeThermalComponentRingMedian a (mask_bits k) (minX k) (minY k) (maxX k) (maxY k) \<rparr>;
          k = k\<lparr> localContrast := peakValue k - localRingMedian k,
                 newPixels := countThermalNewPixels (mask_bits k) prevMask,
                 centerX := sumX f div area k, centerY := sumY f div area k,
                 aspectRatio := computeThermalComponentAspectRatio k \<rparr>;
          k = k\<lparr> distanceToTipPx := computeThermalDistanceToTipPx k c \<rparr>;
          k = k\<lparr> score := computeThermalComponentScore k a c \<rparr>
      in rate_component c k)"

primrec search_regions :: "frame_analysis \<Rightarrow> bool list \<Rightarrow> bool list \<Rightarrow> bool list \<Rightarrow> 'a event_config_scheme \<Rightarrow> nat list \<Rightarrow>
    bool list \<Rightarrow> component list \<Rightarrow> component list option" where
  "search_regions a seedMask growMask prevMask c [] vis ks = Some ks"
| "search_regions a seedMask growMask prevMask c (startIdx # idxs) vis ks =
     (if \<not> seedMask ! startIdx \<or> vis ! startIdx then search_regions a seedMask growMask prevMask c idxs vis ks
      else (case fill_region a seedMask growMask (fill_start a startIdx vis) of
         None \<Rightarrow> None
       | Some f \<Rightarrow>
           search_regions a seedMask growMask prevMask c idxs (visited f)
             (if area (fcomp f) \<le> 0 \<or> fvalues f = [] then ks else ks @ [finish_component a prevMask c f])))"

definition extractThermalEventComponents :: "frame_analysis \<Rightarrow> int \<Rightarrow> int \<Rightarrow> bool list \<Rightarrow> 'a event_config_scheme \<Rightarrow>
    component list option" where
  "extractThermalEventComponents a seedThreshold growThreshold prevMask c =
     (case buildThermalThresholdMasks a seedThreshold growThreshold of (seedMask, growMask) \<Rightarrow>
        search_regions a seedMask growMask prevMask c [0..<length seedMask] (replicate (length seedMask) False) [])"

end
