(* ===== verification/HotspotEvent.thy ===== *)
theory HotspotEvent imports HotspotComponents begin

text \<open>
  Third part of the hot-spot detection (ThermalProxy.cpp of the Crow server): the tracker of the
  candidate over the frames, the learned baseline and the adaptive threshold, the end of an alarm,
  and \<^verbatim>\<open>maybePublishThermalEvent\<close>, which runs once for every completed frame. The long list of
  statistics is kept in four records that the code writes as groups. What the handler does outside
  (publish, database, Telegram) is the list of actions it answers; the answers of the broker are
  inputs. Only the receiver thread writes this state.
\<close>

section \<open>State\<close>

record tracker_state =
  persistFrames :: int
  missFrames :: int
  lastCenterX :: int
  lastCenterY :: int
  trackerRoi :: event_roi
  prevMask :: "bool list"

definition tracker_state0 :: tracker_state where
  "tracker_state0 = \<lparr> persistFrames = 0, missFrames = 0, lastCenterX = -1, lastCenterY = -1,
     trackerRoi = event_roi0, prevMask = [] \<rparr>"

record frame_report =
  last_frame_max_value :: u16
  last_signal_value :: int
  last_valid_pixels :: int
  last_roi_min_value :: int
  last_roi_max_value :: int
  last_median_value :: int
  last_p95_value :: int
  last_p99_value :: int
  last_mad_value :: int

record candidate_report =
  last_hot_area_pixels :: int
  last_hot_area_threshold :: int
  last_seed_threshold :: int
  last_grow_threshold :: int
  last_candidate_area :: int
  last_candidate_seed_area :: int
  last_candidate_peak_value :: int
  last_candidate_p90_value :: int
  last_candidate_local_contrast :: int
  last_candidate_new_pixels :: int
  last_candidate_aspect_ratio :: rat
  last_candidate_distance_to_tip_px :: int
  last_candidate_score :: int
  last_component_count :: int
  last_candidate_rejection_reason :: string
  last_candidate_center_x :: int
  last_candidate_center_y :: int
  last_candidate_persist_frames :: int
  last_candidate_miss_frames :: int

record published_report =
  last_event_frame_id :: u16
  last_event_max_value :: u16
  last_event_signal_value :: int
  last_event_hot_area_pixels :: int
  last_event_candidate_area :: int
  last_event_candidate_local_contrast :: int
  last_event_candidate_aspect_ratio :: rat
  last_event_candidate_distance_to_tip_px :: int
  last_event_candidate_score :: int
  last_event_candidate_persist_frames :: int
  last_event_threshold_max_value :: int
  last_event_at_ms :: int

record event_stats =
  broker_connected :: bool
  current_threshold_max_value :: int
  current_clear_threshold_max_value :: int
  baseline_normal_max_value :: int
  baseline_sample_count :: int
  baseline_updates :: u64
  event_attempts :: u64
  events_published :: u64
  actuation_requests :: u64
  frame_report :: frame_report
  candidate_report :: candidate_report
  published_report :: published_report
  active_clear_miss_frames :: int
  last_event_attempt_frame_id :: u16
  last_event_attempt_at_ms :: int
  consecutive_hits :: int
  baseline_ready :: bool
  hotspot_active :: bool
  last_publish_ok :: bool
  last_actuation_ok :: bool
  last_event_message :: string

definition event_stats0 :: event_stats where
  "event_stats0 = \<lparr> broker_connected = False, current_threshold_max_value = 8500, current_clear_threshold_max_value = 8500,
     baseline_normal_max_value = 0, baseline_sample_count = 0, baseline_updates = 0, event_attempts = 0,
     events_published = 0, actuation_requests = 0,
     frame_report = \<lparr> last_frame_max_value = 0, last_signal_value = 0, last_valid_pixels = 0, last_roi_min_value = 0,
       last_roi_max_value = 0, last_median_value = 0, last_p95_value = 0, last_p99_value = 0, last_mad_value = 0 \<rparr>,
     candidate_report = \<lparr> last_hot_area_pixels = 0, last_hot_area_threshold = 0, last_seed_threshold = 0,
       last_grow_threshold = 0, last_candidate_area = 0, last_candidate_seed_area = 0, last_candidate_peak_value = 0,
       last_candidate_p90_value = 0, last_candidate_local_contrast = 0, last_candidate_new_pixels = 0,
       last_candidate_aspect_ratio = 0, last_candidate_distance_to_tip_px = -1, last_candidate_score = 0,
       last_component_count = 0, last_candidate_rejection_reason = [], last_candidate_center_x = -1,
       last_candidate_center_y = -1, last_candidate_persist_frames = 0, last_candidate_miss_frames = 0 \<rparr>,
     published_report = \<lparr> last_event_frame_id = 0, last_event_max_value = 0, last_event_signal_value = 0,
       last_event_hot_area_pixels = 0, last_event_candidate_area = 0, last_event_candidate_local_contrast = 0,
       last_event_candidate_aspect_ratio = 0, last_event_candidate_distance_to_tip_px = -1,
       last_event_candidate_score = 0, last_event_candidate_persist_frames = 0, last_event_threshold_max_value = 0,
       last_event_at_ms = 0 \<rparr>,
     active_clear_miss_frames = 0, last_event_attempt_frame_id = 0, last_event_attempt_at_ms = 0, consecutive_hits = 0,
     baseline_ready = False, hotspot_active = False, last_publish_ok = False, last_actuation_ok = False,
     last_event_message = [] \<rparr>"

record baseline_sample =
  observed_at_ms :: int
  signal_value :: int

record event_state =
  event_stats :: event_stats
  event_tracker :: tracker_state
  baseline_normal_samples :: "baseline_sample list"
  event_mqtt :: bool

definition event_state0 :: event_state where
  "event_state0 = \<lparr> event_stats = event_stats0, event_tracker = tracker_state0, baseline_normal_samples = [],
     event_mqtt = False \<rparr>"

section \<open>Tracker and end of an alarm\<close>

text \<open>The second answer is \<^verbatim>\<open>cleared\<close>; no component is \<open>None\<close>.\<close>

definition updateThermalEventTrackerState :: "'a event_config_scheme \<Rightarrow> event_roi \<Rightarrow> component option \<Rightarrow> tracker_state \<Rightarrow>
    tracker_state \<times> bool" where
  "updateThermalEventTrackerState c r best t =
     (let t = (if \<not> sameThermalEventRoi (trackerRoi t) r \<and> prevMask t \<noteq> [] then tracker_state0 else t)
      in case (case best of Some k \<Rightarrow> if comp_valid k then best else None | None \<Rightarrow> None) of
        Some k \<Rightarrow>
          let dx = centerX k - lastCenterX t; dy = centerY k - lastCenterY t;
              matched = (if lastCenterX t \<ge> 0 \<and> lastCenterY t \<ge> 0
                         then dx * dx + dy * dy \<le> track_match_distance_px c * track_match_distance_px c else True)
          in (t\<lparr> persistFrames := (if matched then persistFrames t + 1 else 1), missFrames := 0,
                 lastCenterX := centerX k, lastCenterY := centerY k, trackerRoi := r, prevMask := mask_bits k \<rparr>, False)
      | None \<Rightarrow>
          if persistFrames t > 0 \<or> prevMask t \<noteq> [] then
            if missFrames t + 1 \<ge> clear_frames c then (tracker_state0, True)
            else (t\<lparr> missFrames := missFrames t + 1 \<rparr>, False)
          else (t, False))"

definition updateThermalHotspotClearState :: "'a event_config_scheme \<Rightarrow> bool \<Rightarrow> bool \<Rightarrow> bool \<Rightarrow> int \<Rightarrow> int \<Rightarrow> int \<Rightarrow>
    event_stats \<Rightarrow> event_stats" where
  "updateThermalHotspotClearState c analysisValid hit hasBestComponent candidateMissFrames observedSignalValue clearThreshold s =
     (if \<not> hotspot_active s then s\<lparr> active_clear_miss_frames := 0 \<rparr>
      else if \<not> (\<not> hit \<and> observedSignalValue < clearThreshold \<and>
                  (\<not> analysisValid \<or> \<not> hasBestComponent \<or> candidateMissFrames > 0))
      then s\<lparr> active_clear_miss_frames := 0 \<rparr>
      else
        let requiredClearFrames = max 1 (clear_frames c);
            n = max (active_clear_miss_frames s + 1) (max candidateMissFrames 0)
        in if n \<ge> requiredClearFrames then s\<lparr> hotspot_active := False, active_clear_miss_frames := 0 \<rparr>
           else s\<lparr> active_clear_miss_frames := n \<rparr>)"

section \<open>Baseline and thresholds\<close>

definition pruneThermalBaselineSamplesLocked :: "int \<Rightarrow> int \<Rightarrow> baseline_sample list \<Rightarrow> baseline_sample list" where
  "pruneThermalBaselineSamplesLocked now_ms window_ms samples =
     (if window_ms \<le> 0 then [] else dropWhile (\<lambda>x. \<not> now_ms - observed_at_ms x \<le> window_ms) samples)"

definition computeThermalBaselineNormalMaxLocked :: "baseline_sample list \<Rightarrow> int" where
  "computeThermalBaselineNormalMaxLocked samples = fold (\<lambda>x m. max m (signal_value x)) samples 0"

definition computeThermalAdaptiveThresholdLocked :: "'a event_config_scheme \<Rightarrow> baseline_sample list \<Rightarrow> int \<Rightarrow> int" where
  "computeThermalAdaptiveThresholdLocked c samples baseline_normal_max =
     (if \<not> baseline_enabled c then hotspot_threshold_max_value c
      else if int (length samples) < baseline_min_samples c then hotspot_threshold_max_value c
      else max (hotspot_threshold_max_value c) (baseline_normal_max + baseline_margin c))"

definition computeThermalClearThreshold :: "'a event_config_scheme \<Rightarrow> int \<Rightarrow> int" where
  "computeThermalClearThreshold c active_threshold =
     max (hotspot_threshold_max_value c) (active_threshold - baseline_guard_delta c)"

definition updateThermalBaselineStatsLocked :: "'a event_config_scheme \<Rightarrow> baseline_sample list \<Rightarrow> int \<Rightarrow> int \<Rightarrow>
    event_stats \<Rightarrow> event_stats" where
  "updateThermalBaselineStatsLocked c samples baseline_normal_max active_threshold s =
     s\<lparr> baseline_sample_count := int (length samples), baseline_normal_max_value := baseline_normal_max,
        baseline_ready := baseline_enabled c \<and> int (length samples) \<ge> baseline_min_samples c,
        current_threshold_max_value := active_threshold,
        current_clear_threshold_max_value := computeThermalClearThreshold c active_threshold \<rparr>"

definition event_thresholds :: "'a event_config_scheme \<Rightarrow> frame_analysis \<Rightarrow> int \<Rightarrow> int \<times> int" where
  "event_thresholds c a active_threshold =
     (let robustMad = max 1 (madValue a);
          grow = max (max (active_threshold + grow_delta c) (medianValue a + 3 * robustMad)) active_threshold;
          seed = max (max (active_threshold + seed_delta c) (p99Value a)) (medianValue a + 5 * robustMad)
      in (seed, if grow > seed then seed else grow))"

definition report_frame :: "thermal_header \<Rightarrow> frame_analysis \<Rightarrow> int \<Rightarrow> frame_report" where
  "report_frame h a observed =
     \<lparr> last_frame_max_value = maxValue h, last_signal_value = observed,
       last_valid_pixels = (if an_valid a then validPixels a else 0),
       last_roi_min_value = (if an_valid a then roiMinValue a else 0),
       last_roi_max_value = (if an_valid a then roiMaxValue a else 0),
       last_median_value = (if an_valid a then medianValue a else 0),
       last_p95_value = (if an_valid a then p95Value a else 0),
       last_p99_value = (if an_valid a then p99Value a else 0),
       last_mad_value = (if an_valid a then madValue a else 0) \<rparr>"

definition observed_signal :: "completed_frame \<Rightarrow> frame_analysis \<Rightarrow> int" where
  "observed_signal frame a = (if an_valid a then signalValue a else uint (maxValue (cfHeader frame)))"

section \<open>Detection off\<close>

definition refreshThermalEventStatusLocked :: "bool \<Rightarrow> event_state \<Rightarrow> event_state" where
  "refreshThermalEventStatusLocked isUp g =
     g\<lparr> event_stats := (event_stats g)\<lparr> broker_connected := (if event_mqtt g then isUp else False) \<rparr> \<rparr>"

definition disabled_frame :: "'a event_config_scheme \<Rightarrow> completed_frame \<Rightarrow> frame_analysis \<Rightarrow> int \<Rightarrow> event_state \<Rightarrow> event_state" where
  "disabled_frame c frame a now_ms g =
     (let samples = pruneThermalBaselineSamplesLocked now_ms (baseline_window_ms c) (baseline_normal_samples g);
          observed = observed_signal frame a;
          s = (event_stats g)\<lparr> frame_report := report_frame (cfHeader frame) a observed,
                candidate_report := (candidate_report event_stats0)\<lparr>
                  last_hot_area_threshold := hotspot_threshold_max_value c,
                  last_candidate_rejection_reason := ''event_disabled'' \<rparr>,
                active_clear_miss_frames := 0, consecutive_hits := 0, hotspot_active := False \<rparr>
      in g\<lparr> event_tracker := tracker_state0, baseline_normal_samples := samples,
            event_stats := updateThermalBaselineStatsLocked c samples (computeThermalBaselineNormalMaxLocked samples)
              (hotspot_threshold_max_value c) s \<rparr>)"

section \<open>Detection\<close>

text \<open>What the first locked section of the handler has worked out for its second part.\<close>

record detection =
  d_active :: int
  d_baseline :: int
  d_seed :: int
  d_grow :: int
  d_hot_area :: int
  d_best :: "component option"
  d_diag :: "component option"
  d_count :: int
  d_reason :: string
  d_persist :: int
  d_miss :: int

definition rejection_reason :: "'a event_config_scheme \<Rightarrow> component option \<Rightarrow> component option \<Rightarrow> string" where
  "rejection_reason c best diag =
     (if best \<noteq> None then ''ok''
      else (case diag of
         None \<Rightarrow> ''no_components''
       | Some d \<Rightarrow>
           if \<not> comp_valid d then rejectionReason d
           else if score d < score_min c then ''score_below_min''
           else ''not_selected''))"

definition find_candidate :: "'a event_config_scheme \<Rightarrow> completed_frame \<Rightarrow> frame_analysis \<Rightarrow> int \<Rightarrow> int \<Rightarrow> tracker_state \<Rightarrow>
    (detection \<times> tracker_state) option" where
  "find_candidate c frame a baseline active_threshold t =
     (let d0 = \<lparr> d_active = active_threshold, d_baseline = baseline, d_seed = hotspot_threshold_max_value c,
                 d_grow = hotspot_threshold_max_value c, d_hot_area = 0, d_best = None, d_diag = None, d_count = 0,
                 d_reason = ''analysis_unavailable'', d_persist = 0, d_miss = missFrames t \<rparr>
      in if an_valid a then
           let (seed, grow) = event_thresholds c a active_threshold;
               prev = (if sameThermalEventRoi (trackerRoi t) (roi a) then prevMask t else [])
           in (case extractThermalEventComponents a seed grow prev c of
                 None \<Rightarrow> None
               | Some ks \<Rightarrow>
                   let diag = selectDiagnosticThermalComponent ks;
                       best = selectBestThermalEventComponent ks c;
                       (t', cleared) = updateThermalEventTrackerState c (roi a) best t
                   in Some (d0\<lparr> d_seed := seed, d_grow := grow,
                                d_hot_area := countThermalPixelsAtOrAboveThreshold frame a grow,
                                d_best := best, d_diag := diag, d_count := int (length ks),
                                d_reason := rejection_reason c best diag, d_persist := persistFrames t',
                                d_miss := (if cleared then clear_frames c else missFrames t') \<rparr>, t'))
         else Some (d0, t))"

definition can_learn_baseline :: "'a event_config_scheme \<Rightarrow> frame_analysis \<Rightarrow> int \<Rightarrow> detection \<Rightarrow> event_stats \<Rightarrow> bool" where
  "can_learn_baseline c a observed d s \<longleftrightarrow>
     baseline_enabled c \<and> \<not> hotspot_active s \<and> observed < computeThermalClearThreshold c (d_active d) \<and>
     (\<not> an_valid a \<or> hot_area_min_pixels c \<le> 0 \<or> d_hot_area d < hot_area_min_pixels c) \<and> d_best d = None"

definition learn_baseline :: "'a event_config_scheme \<Rightarrow> completed_frame \<Rightarrow> frame_analysis \<Rightarrow> int \<Rightarrow> int \<Rightarrow>
    baseline_sample list \<Rightarrow> detection \<Rightarrow> baseline_sample list \<times> detection" where
  "learn_baseline c frame a observed now_ms samples d =
     (let samples = pruneThermalBaselineSamplesLocked now_ms (baseline_window_ms c)
                      (samples @ [\<lparr> observed_at_ms = now_ms, signal_value = observed \<rparr>]);
          baseline = computeThermalBaselineNormalMaxLocked samples;
          active_threshold = computeThermalAdaptiveThresholdLocked c samples baseline;
          d = d\<lparr> d_active := active_threshold, d_baseline := baseline \<rparr>
      in (samples,
          if an_valid a then
            let (seed, grow) = event_thresholds c a active_threshold
            in d\<lparr> d_seed := seed, d_grow := grow, d_hot_area := countThermalPixelsAtOrAboveThreshold frame a grow \<rparr>
          else d))"

definition report_candidate :: "frame_analysis \<Rightarrow> detection \<Rightarrow> candidate_report" where
  "report_candidate a d =
     (let reported = (case d_best d of Some b \<Rightarrow> Some b | None \<Rightarrow> d_diag d);
          field = (\<lambda>f z. case reported of Some k \<Rightarrow> f k | None \<Rightarrow> z)
      in \<lparr> last_hot_area_pixels = d_hot_area d,
           last_hot_area_threshold = (if an_valid a then d_grow d else d_active d),
           last_seed_threshold = (if an_valid a then d_seed d else 0),
           last_grow_threshold = (if an_valid a then d_grow d else 0),
           last_candidate_area = field area 0, last_candidate_seed_area = field seedArea 0,
           last_candidate_peak_value = field peakValue 0, last_candidate_p90_value = field p90Value 0,
           last_candidate_local_contrast = field localContrast 0, last_candidate_new_pixels = field newPixels 0,
           last_candidate_aspect_ratio = (case reported of Some k \<Rightarrow> aspectRatio k | None \<Rightarrow> 0),
           last_candidate_distance_to_tip_px = field distanceToTipPx (-1),
           last_candidate_score = field score 0, last_component_count = d_count d,
           last_candidate_rejection_reason = d_reason d,
           last_candidate_center_x = field centerX (-1), last_candidate_center_y = field centerY (-1),
           last_candidate_persist_frames = d_persist d, last_candidate_miss_frames = d_miss d \<rparr>)"

definition frame_hit :: "'a event_config_scheme \<Rightarrow> frame_analysis \<Rightarrow> int \<Rightarrow> detection \<Rightarrow> bool" where
  "frame_hit c a observed d =
     (if an_valid a then
        observed \<ge> d_active d \<and>
        (hot_area_min_pixels c \<le> 0 \<or> d_hot_area d \<ge> hot_area_min_pixels c) \<and>
        (case d_best d of None \<Rightarrow> False | Some b \<Rightarrow> newPixels b \<ge> new_pixels_min c \<or> d_persist d > 1)
      else observed \<ge> d_active d)"

definition count_hits :: "frame_analysis \<Rightarrow> bool \<Rightarrow> detection \<Rightarrow> int \<Rightarrow> int" where
  "count_hits a hit d hits =
     (if an_valid a then if hit then d_persist d else 0 else if hit then hits + 1 else 0)"

definition may_dispatch :: "'a event_config_scheme \<Rightarrow> u16 \<Rightarrow> int \<Rightarrow> bool \<Rightarrow> event_stats \<Rightarrow> bool" where
  "may_dispatch c fid now_ms hit s \<longleftrightarrow>
     \<not> hotspot_active s \<and> hit \<and> (\<not> baseline_enabled c \<or> baseline_ready s) \<and>
     consecutive_hits s \<ge> consecutive_frames_required c \<and> last_event_attempt_frame_id s \<noteq> fid \<and>
     (cooldown_ms c \<le> 0 \<or> last_event_attempt_at_ms s = 0 \<or> now_ms - last_event_attempt_at_ms s \<ge> cooldown_ms c)"

text \<open>The judgement of a frame: hits, the end of an alarm, and whether an event goes out.\<close>

definition judge_frame :: "'a event_config_scheme \<Rightarrow> completed_frame \<Rightarrow> frame_analysis \<Rightarrow> int \<Rightarrow> detection \<Rightarrow> event_stats \<Rightarrow>
    event_stats \<times> bool" where
  "judge_frame c frame a now_ms d s =
     (let fid = frameId (cfHeader frame); observed = observed_signal frame a;
          hit = frame_hit c a observed d;
          s = s\<lparr> consecutive_hits := count_hits a hit d (consecutive_hits s) \<rparr>;
          s = updateThermalHotspotClearState c (an_valid a) hit (d_best d \<noteq> None) (d_miss d) observed
                (current_clear_threshold_max_value s) s;
          go = may_dispatch c fid now_ms hit s
      in (if go then s\<lparr> event_attempts := event_attempts s + 1, last_event_attempt_frame_id := fid,
                        last_event_attempt_at_ms := now_ms \<rparr> else s,
          go))"

text \<open>The first locked section: the new state, the detection, and whether an event goes out.\<close>

definition detect_event :: "'a event_config_scheme \<Rightarrow> completed_frame \<Rightarrow> frame_analysis \<Rightarrow> int \<Rightarrow> event_state \<Rightarrow>
    (event_state \<times> detection \<times> bool) option" where
  "detect_event c frame a now_ms g =
     (let observed = observed_signal frame a;
          s = (event_stats g)\<lparr> frame_report := report_frame (cfHeader frame) a observed \<rparr>;
          samples = pruneThermalBaselineSamplesLocked now_ms (baseline_window_ms c) (baseline_normal_samples g);
          baseline = computeThermalBaselineNormalMaxLocked samples;
          active_threshold = computeThermalAdaptiveThresholdLocked c samples baseline
      in (case find_candidate c frame a baseline active_threshold (event_tracker g) of
            None \<Rightarrow> None
          | Some (d, t) \<Rightarrow>
              let learn = can_learn_baseline c a observed d s;
                  (samples, d) = (if learn then learn_baseline c frame a observed now_ms samples d else (samples, d));
                  s = updateThermalBaselineStatsLocked c samples (d_baseline d) (d_active d) s;
                  s = s\<lparr> candidate_report := report_candidate a d,
                         baseline_updates := (if learn then baseline_updates s + 1 else baseline_updates s) \<rparr>;
                  (s, go) = judge_frame c frame a now_ms d s
              in Some (g\<lparr> event_stats := s, event_tracker := t, baseline_normal_samples := samples \<rparr>, d, go)))"

end
