(* ===== verification/HotspotPublish.thy ===== *)
theory HotspotPublish imports HotspotEvent begin

text \<open>
  Last part of the hot-spot detection (ThermalProxy.cpp of the Crow server): the JSON event, the
  Telegram text, the servo and laser commands, and \<^verbatim>\<open>maybePublishThermalEvent\<close> as a whole. The JSON
  printer and reader (crow::json) and the answers of broker and database are inputs.
\<close>

section \<open>Messages\<close>

text \<open>A way to compute \<^const>\<open>show_int\<close> on binary numbers, for evaluations.\<close>

function show_pos :: "int \<Rightarrow> string" where
  "show_pos x = (if x < 10 then [char_of (48 + x)] else show_pos (x div 10) @ [char_of (48 + x mod 10)])"
  by pat_completeness auto
termination by (relation "measure nat") auto

declare show_pos.simps [simp del, code]

lemma digit_char_int: "digit_char n = char_of (48 + int n)"
proof -
  have "char_of (48 + int n) = char_of (int (48 + n))" by simp
  also have "\<dots> = char_of (48 + n)" by (rule char_of_nat)
  finally show ?thesis by (simp add: digit_char_def)
qed

lemma show_nat_pos: "show_nat n = show_pos (int n)"
  by (induction n rule: show_nat.induct)
    (subst show_nat.simps, subst show_pos.simps, simp add: digit_char_int zdiv_int zmod_int)

lemma show_int_code [code]: "show_int x = (if x < 0 then CHR ''-'' # show_pos (- x) else show_pos x)"
  by (simp add: show_int_def show_nat_pos)

datatype json = JStr string | JInt int | JBool bool | JNum rat | JArr "json list" | JObj "(string \<times> json) list"

fun json_get :: "string \<Rightarrow> json \<Rightarrow> json option" where
  "json_get key (JObj kvs) = map_of kvs key"
| "json_get key _ = None"

definition event_message_text :: "thermal_header \<Rightarrow> int \<Rightarrow> int \<Rightarrow> int \<Rightarrow> string" where
  "event_message_text h active_threshold signal hot_area_pixels =
     ''Thermal frame '' @ show_int (uint (frameId h)) @ '' reached signal='' @ show_int signal @
     '' hotArea='' @ show_int hot_area_pixels @ '' max='' @ show_int (uint (maxValue h)) @
     '' (threshold='' @ show_int active_threshold @ '')''"

definition candidate_json :: "component option \<Rightarrow> int \<Rightarrow> int \<Rightarrow> json" where
  "candidate_json best persist miss = JObj
     ([(''persistFrames'', JInt persist), (''missFrames'', JInt miss),
       (''valid'', JBool (case best of Some k \<Rightarrow> comp_valid k | None \<Rightarrow> False))] @
      (case best of None \<Rightarrow> []
       | Some k \<Rightarrow>
           [(''area'', JInt (area k)), (''seedArea'', JInt (seedArea k)), (''peakValue'', JInt (peakValue k)),
            (''p90Value'', JInt (p90Value k)), (''localRingMedian'', JInt (localRingMedian k)),
            (''localContrast'', JInt (localContrast k)), (''newPixels'', JInt (newPixels k)),
            (''aspectRatio'', JNum (aspectRatio k)), (''distanceToTipPx'', JInt (distanceToTipPx k)),
            (''score'', JInt (score k)), (''centerX'', JInt (centerX k)), (''centerY'', JInt (centerY k)),
            (''bbox'', JObj [(''minX'', JInt (minX k)), (''minY'', JInt (minY k)),
                           (''maxX'', JInt (maxX k)), (''maxY'', JInt (maxY k))])]))"

definition makeThermalEventPayload :: "thermal_config \<Rightarrow> thermal_header \<Rightarrow> int \<Rightarrow> int \<Rightarrow> int \<Rightarrow> frame_analysis \<Rightarrow> int \<Rightarrow>
    int \<Rightarrow> int \<Rightarrow> int \<Rightarrow> component option \<Rightarrow> int \<Rightarrow> int \<Rightarrow> json" where
  "makeThermalEventPayload c h active_threshold baseline hits a hot_area hot_area_threshold seed grow best persist miss =
     JObj
      ([(''source'', JStr (event_source c)), (''severity'', JStr (event_severity c)), (''title'', JStr (event_title c)),
        (''message'', JStr (event_message_text h active_threshold (signalValue a) hot_area)),
        (''autoControl'', JBool False), (''serverAutoControl'', JBool (actuation_enabled c)),
        (''thermal'', JObj
           [(''frameId'', JInt (uint (frameId h))), (''maxValue'', JInt (uint (maxValue h))),
            (''minValue'', JInt (uint (minValue h))), (''totalChunks'', JInt (uint (headerTotal h))),
            (''baselineNormalMax'', JInt baseline), (''activeThreshold'', JInt active_threshold),
            (''consecutiveHits'', JInt hits), (''analysisReady'', JBool (an_valid a)),
            (''signalPercentile'', JInt (percentile a)), (''signalValue'', JInt (signalValue a)),
            (''hotAreaPixels'', JInt hot_area), (''hotAreaThreshold'', JInt hot_area_threshold),
            (''validPixels'', JInt (validPixels a)), (''roiMinValue'', JInt (roiMinValue a)),
            (''roiMaxValue'', JInt (roiMaxValue a)), (''medianValue'', JInt (medianValue a)),
            (''p95Value'', JInt (p95Value a)), (''p99Value'', JInt (p99Value a)), (''madValue'', JInt (madValue a)),
            (''seedThreshold'', JInt seed), (''growThreshold'', JInt grow),
            (''roi'', JObj [(''x'', JInt (rx (roi a))), (''y'', JInt (ry (roi a))),
                          (''width'', JInt (rwidth (roi a))), (''height'', JInt (rheight (roi a)))]),
            (''candidate'', candidate_json best persist miss)])] @
       (if actuation_enabled c
        then [(''control'', JObj [(''motor1Angle'', JInt (motor1_angle c)), (''motor2Angle'', JInt (motor2_angle c)),
                                (''motor3Angle'', JInt (motor3_angle c)), (''laserEnabled'', JBool (laser_enabled c))])]
        else []))"

text \<open>The fixed Korean texts of the Telegram message, in UTF-8.\<close>

abbreviation (input) kTitle :: string where
  "kTitle \<equiv> map char_of ([91, 65, 69, 71, 73, 83, 93, 32, 236, 151, 180, 237, 153, 148, 236, 131, 129, 32, 236, 157, 180, 236, 131, 129, 32, 234, 179, 160, 236, 152, 168, 32, 234, 176, 144, 236, 167, 128, 10, 10] :: nat list)"
abbreviation (input) kSource :: string where
  "kSource \<equiv> map char_of ([236, 182, 156, 236, 178, 152, 58, 32] :: nat list)"
abbreviation (input) kSeverity :: string where
  "kSeverity \<equiv> map char_of ([236, 139, 172, 234, 176, 129, 235, 143, 132, 58, 32] :: nat list)"
abbreviation (input) kFrame :: string where
  "kFrame \<equiv> map char_of ([237, 148, 132, 235, 160, 136, 236, 158, 132, 58, 32] :: nat list)"
abbreviation (input) kSignal :: string where
  "kSignal \<equiv> map char_of ([236, 139, 160, 237, 152, 184, 234, 176, 146, 58, 32] :: nat list)"
abbreviation (input) kThreshold :: string where
  "kThreshold \<equiv> map char_of ([236, 158, 132, 234, 179, 132, 234, 176, 146, 58, 32] :: nat list)"
abbreviation (input) kMaximum :: string where
  "kMaximum \<equiv> map char_of ([236, 181, 156, 235, 140, 128, 234, 176, 146, 58, 32] :: nat list)"
abbreviation (input) kHotArea :: string where
  "kHotArea \<equiv> map char_of ([234, 179, 160, 236, 152, 168, 32, 236, 152, 129, 236, 151, 173, 58, 32] :: nat list)"
abbreviation (input) kPosition :: string where
  "kPosition \<equiv> map char_of ([10, 234, 176, 144, 236, 167, 128, 32, 236, 156, 132, 236, 185, 152, 58, 32, 40] :: nat list)"
abbreviation (input) kArea :: string where
  "kArea \<equiv> map char_of ([10, 237, 155, 132, 235, 179, 180, 32, 235, 169, 180, 236, 160, 129, 58, 32] :: nat list)"
abbreviation (input) kScore :: string where
  "kScore \<equiv> map char_of ([10, 237, 155, 132, 235, 179, 180, 32, 236, 160, 144, 236, 136, 152, 58, 32] :: nat list)"
abbreviation (input) kControl :: string where
  "kControl \<equiv> map char_of ([10, 236, 158, 144, 235, 143, 153, 32, 236, 160, 156, 236, 150, 180, 58, 32, 236, 130, 172, 236, 154, 169] :: nat list)"

definition makeThermalTelegramMessage :: "thermal_config \<Rightarrow> thermal_header \<Rightarrow> int \<Rightarrow> int \<Rightarrow> int \<Rightarrow> component option \<Rightarrow> string" where
  "makeThermalTelegramMessage c h observed active_threshold hot_area best =
     (let nl = [CHR 0x0A] in
      kTitle @ kSource @ event_source c @ nl @ kSeverity @ event_severity c @ nl @
      kFrame @ show_int (uint (frameId h)) @ nl @ kSignal @ show_int observed @ nl @
      kThreshold @ show_int active_threshold @ nl @ kMaximum @ show_int (uint (maxValue h)) @ nl @
      kHotArea @ show_int hot_area @ '' px'' @
      (case best of None \<Rightarrow> []
       | Some k \<Rightarrow>
           if comp_valid k
           then kPosition @ show_int (centerX k) @ '', '' @ show_int (centerY k) @ '')'' @
                kArea @ show_int (area k) @ '' px'' @ kScore @ show_int (score k)
           else []) @
      (if actuation_enabled c then kControl else []))"

section \<open>Going out\<close>

record log_params =
  log_source :: string
  log_event_type :: string
  log_severity :: string
  log_title :: string
  log_message :: string
  log_frame_id :: int
  log_signal_value :: int
  log_threshold_value :: int
  log_hot_area_pixels :: int
  log_candidate_area :: "int option"
  log_center_x :: "int option"
  log_center_y :: "int option"
  log_action_requested :: bool
  log_action_type :: "string option"
  log_action_result :: "string option"
  log_action_message :: "string option"
  log_payload_json :: string

datatype event_action = PublishMsg string string | InsertLog log_params | TelegramAlert string u16

record services =
  brokerUp :: "nat \<Rightarrow> bool"
  publish_ok :: "string \<Rightarrow> string \<Rightarrow> bool"
  json_dump :: "json \<Rightarrow> string"
  json_load :: "string \<Rightarrow> json option"

definition actuation_messages :: "thermal_config \<Rightarrow> (string \<times> string) list" where
  "actuation_messages c =
     [(motor_control_topic c, ''motor1 set '' @ show_int (motor1_angle c)),
      (motor_control_topic c, ''motor2 set '' @ show_int (motor2_angle c)),
      (motor_control_topic c, ''motor3 set '' @ show_int (motor3_angle c)),
      (laser_control_topic c, if laser_enabled c then ''laser on'' else ''laser off'')]"

definition publishThermalActuation :: "services \<Rightarrow> thermal_config \<Rightarrow> bool \<times> event_action list" where
  "publishThermalActuation v c =
     (if \<not> actuation_enabled c then (True, [])
      else (list_all (\<lambda>(topic, msg). publish_ok v topic msg) (actuation_messages c),
            map (\<lambda>(topic, msg). PublishMsg topic msg) (actuation_messages c)))"

definition json_text :: "string \<Rightarrow> string \<Rightarrow> json option \<Rightarrow> string" where
  "json_text key fallback parsed = (case parsed of None \<Rightarrow> fallback
     | Some j \<Rightarrow> (case json_get key j of Some (JStr t) \<Rightarrow> t | _ \<Rightarrow> fallback))"

definition event_log :: "services \<Rightarrow> thermal_config \<Rightarrow> thermal_header \<Rightarrow> int \<Rightarrow> detection \<Rightarrow> string \<Rightarrow> bool \<Rightarrow> log_params" where
  "event_log v c h observed d payload actuation_ok =
     (let parsed = json_load v payload; best = d_best d; acted = actuation_enabled c
      in \<lparr> log_source = event_source c, log_event_type = ''thermal_hotspot'', log_severity = event_severity c,
           log_title = json_text ''title'' (event_title c) parsed, log_message = json_text ''message'' payload parsed,
           log_frame_id = uint (frameId h), log_signal_value = observed, log_threshold_value = d_active d,
           log_hot_area_pixels = d_hot_area d, log_candidate_area = map_option area best,
           log_center_x = map_option centerX best, log_center_y = map_option centerY best,
           log_action_requested = acted,
           log_action_type = (if acted then Some ''server_auto_control'' else None),
           log_action_result = (if acted then Some (if actuation_ok then ''success'' else ''failed'') else None),
           log_action_message = (if acted then Some (if actuation_ok then ''Thermal auto control executed''
                                                     else ''Thermal auto control failed'') else None),
           log_payload_json = payload \<rparr>)"

definition report_published :: "thermal_header \<Rightarrow> int \<Rightarrow> int \<Rightarrow> detection \<Rightarrow> published_report" where
  "report_published h observed now_ms d =
     (let best = d_best d; field = (\<lambda>f z. case best of Some k \<Rightarrow> f k | None \<Rightarrow> z)
      in \<lparr> last_event_frame_id = frameId h, last_event_max_value = maxValue h, last_event_signal_value = observed,
           last_event_hot_area_pixels = d_hot_area d, last_event_candidate_area = field area 0,
           last_event_candidate_local_contrast = field localContrast 0,
           last_event_candidate_aspect_ratio = (case best of Some k \<Rightarrow> aspectRatio k | None \<Rightarrow> 0),
           last_event_candidate_distance_to_tip_px = field distanceToTipPx (-1),
           last_event_candidate_score = field score 0, last_event_candidate_persist_frames = d_persist d,
           last_event_threshold_max_value = d_active d, last_event_at_ms = now_ms \<rparr>)"

definition ensureThermalEventMqtt :: "bool \<Rightarrow> event_state \<Rightarrow> event_state" where
  "ensureThermalEventMqtt isUp g =
     g\<lparr> event_mqtt := True, event_stats := (event_stats g)\<lparr> broker_connected := isUp \<rparr> \<rparr>"

text \<open>The last locked section.\<close>

definition dispatched_stats :: "thermal_config \<Rightarrow> thermal_header \<Rightarrow> int \<Rightarrow> int \<Rightarrow> detection \<Rightarrow> string \<Rightarrow> bool \<Rightarrow> bool \<Rightarrow>
    bool \<Rightarrow> event_stats \<Rightarrow> event_stats" where
  "dispatched_stats c h observed now_ms d payload published actuated isUp s =
     (let s = s\<lparr> broker_connected := isUp, last_publish_ok := published, last_actuation_ok := actuated,
                last_event_message := payload \<rparr>;
          s = (if published then s\<lparr> events_published := events_published s + 1,
                                   published_report := report_published h observed now_ms d \<rparr> else s);
          s = (if actuation_enabled c then s\<lparr> actuation_requests := actuation_requests s + 1 \<rparr> else s)
      in if published \<or> actuated then s\<lparr> hotspot_active := True, active_clear_miss_frames := 0 \<rparr> else s)"

definition dispatch_event :: "services \<Rightarrow> thermal_config \<Rightarrow> completed_frame \<Rightarrow> frame_analysis \<Rightarrow> int \<Rightarrow> detection \<Rightarrow>
    event_state \<Rightarrow> event_state \<times> event_action list" where
  "dispatch_event v c frame a now_ms d g =
     (let h = cfHeader frame; observed = observed_signal frame a; hits = consecutive_hits (event_stats g);
          g = ensureThermalEventMqtt (brokerUp v 1) g;
          pa = (if an_valid a then a
                else a\<lparr> percentile := signal_percentile c, roi := normalizeThermalEventRoi c, signalValue := observed \<rparr>);
          payload = json_dump v (makeThermalEventPayload c h (d_active d) (d_baseline d) hits pa (d_hot_area d)
                      (if an_valid a then d_grow d else d_active d) (d_seed d) (d_grow d) (d_best d) (d_persist d) (d_miss d));
          published = (event_enabled c \<and> publish_ok v (event_topic c) payload);
          (acted, commands) = publishThermalActuation v c;
          actuated = (actuation_enabled c \<and> acted);
          actions = (if event_enabled c then [PublishMsg (event_topic c) payload] else []) @ commands @
                    (if published
                     then [InsertLog (event_log v c h observed d payload actuated),
                           TelegramAlert (makeThermalTelegramMessage c h observed (d_active d) (d_hot_area d) (d_best d)) (frameId h)]
                     else [])
      in (g\<lparr> event_stats := dispatched_stats c h observed now_ms d payload published actuated (brokerUp v 2) (event_stats g) \<rparr>,
          actions))"

definition maybePublishThermalEvent :: "services \<Rightarrow> thermal_config \<Rightarrow> int \<Rightarrow> completed_frame \<Rightarrow> event_state \<Rightarrow>
    (event_state \<times> event_action list) option" where
  "maybePublishThermalEvent v c now_ms frame g =
     (if \<not> ready frame then Some (g, [])
      else
        let a = analyzeThermalEventFrame frame c; g = refreshThermalEventStatusLocked (brokerUp v 0) g
        in if \<not> event_enabled c \<and> \<not> actuation_enabled c
           then Some (if cfHasRangeData frame then disabled_frame c frame a now_ms g else g, [])
           else if \<not> cfHasRangeData frame then Some (g, [])
           else (case detect_event c frame a now_ms g of
                   None \<Rightarrow> None
                 | Some (g, d, go) \<Rightarrow> Some (if go then dispatch_event v c frame a now_ms d g else (g, []))))"

text \<open>A run of the receiver thread: completed pictures with the time each is handled at.\<close>

fun event_run :: "services \<Rightarrow> thermal_config \<Rightarrow> (int \<times> completed_frame) list \<Rightarrow> event_state \<Rightarrow>
    (event_state \<times> event_action list list) option" where
  "event_run v c [] g = Some (g, [])"
| "event_run v c ((now_ms, frame) # rest) g = (case maybePublishThermalEvent v c now_ms frame g of
     None \<Rightarrow> None
   | Some (g, acts) \<Rightarrow> (case event_run v c rest g of None \<Rightarrow> None | Some (g, later) \<Rightarrow> Some (g, acts # later)))"

end
