(* ===== verification/HotspotAnalysisSpec.thy ===== *)
theory HotspotAnalysisSpec imports HotspotAnalysis begin

text \<open>
  Facts about the statistics of a picture: the region of interest lies in the picture, the loop
  over it stores every pixel at its place, a percentile is the nearest-rank order statistic.
\<close>

section \<open>Region of interest\<close>

definition roi_inside :: "event_roi \<Rightarrow> bool" where
  "roi_inside r \<longleftrightarrow> 0 \<le> rx r \<and> 0 \<le> ry r \<and> 0 < rwidth r \<and> 0 < rheight r \<and>
     rx r + rwidth r \<le> kThermalWidth \<and> ry r + rheight r \<le> kThermalHeight"

lemma clampCoordinate_range: "0 < b \<Longrightarrow> 0 \<le> clampCoordinate v b \<and> clampCoordinate v b \<le> b"
  by (auto simp: clampCoordinate_def)

lemma normalize_roi_inside [simp, intro]: "roi_inside (normalizeThermalEventRoi c)"
  using clampCoordinate_range [of "kThermalWidth - 1" "roi_x c"] clampCoordinate_range [of "kThermalHeight - 1" "roi_y c"]
  by (auto simp: roi_inside_def normalizeThermalEventRoi_def Let_def min_def max_def)

lemma roi_area: "roi_inside r \<Longrightarrow> thermalRoiArea r = nat (rwidth r) * nat (rheight r)"
  by (simp add: roi_inside_def thermalRoiArea_def nat_mult_distrib)

lemma nth_rows:
  assumes "i < length ys * w" and "\<forall>y\<in>set ys. length (f y) = w"
  shows "concat (map f ys) ! i = f (ys ! (i div w)) ! (i mod w)"
  using assms
proof (induction ys arbitrary: i)
  case (Cons y ys)
  show ?case
  proof (cases "i < w")
    case True
    then show ?thesis using Cons.prems by (simp add: nth_append)
  next
    case False
    then have "0 < w" using Cons.prems by (cases w) auto
    then have div: "i div w = Suc ((i - w) div w)" and mod: "i mod w = (i - w) mod w"
      using False by (simp_all add: le_div_geq le_mod_geq)
    have "concat (map f ys) ! (i - w) = f (ys ! ((i - w) div w)) ! ((i - w) mod w)"
      using Cons.prems False by (intro Cons.IH) auto
    then show ?thesis using Cons.prems False by (simp add: nth_append div mod)
  qed
qed simp

lemma length_rows: "\<forall>y\<in>set ys. length (f y) = w \<Longrightarrow> length (concat (map f ys)) = length ys * w"
  by (induction ys) auto

lemma length_roi_pixels: "roi_inside r \<Longrightarrow> length (roi_pixels r) = thermalRoiArea r"
  unfolding roi_pixels_def
  by (subst length_rows [where w = "nat (rwidth r)"]) (auto simp: roi_area roi_inside_def)

lemma nth_roi_pixels:
  assumes "roi_inside r" and i: "i < thermalRoiArea r"
  shows "roi_pixels r ! i = (rx r + int i mod rwidth r, ry r + int i div rwidth r)"
proof -
  define w where "w = nat (rwidth r)"
  define h where "h = nat (rheight r)"
  have w: "int w = rwidth r" "int h = rheight r" "0 < w" using assms by (auto simp: roi_inside_def w_def h_def)
  have i': "i < h * w" using assms by (simp add: roi_area w_def h_def mult.commute)
  then have "i div w < h" by (simp add: less_mult_imp_div_less)
  moreover have "i mod w < w" using w by simp
  moreover have "[ry r..ry r + rheight r - 1] ! (i div w) = ry r + int (i div w)"
    using \<open>i div w < h\<close> by (subst nth_upto) (auto simp: w(2) [symmetric])
  moreover have "[rx r..rx r + rwidth r - 1] ! (i mod w) = rx r + int (i mod w)"
    using \<open>i mod w < w\<close> by (subst nth_upto) (auto simp: w(1) [symmetric])
  moreover have "length [ry r..ry r + rheight r - 1] = h" "length [rx r..rx r + rwidth r - 1] = w"
    by (simp_all add: w_def h_def)
  ultimately show ?thesis
    unfolding roi_pixels_def using i'
    by (subst nth_rows [where w = w]) (auto simp: w(1) [symmetric] zdiv_int zmod_int)
qed

lemma roi_index_of: "thermalRoiIndex r (int i mod rwidth r) (int i div rwidth r) = int i"
  by (simp add: thermalRoiIndex_def)

section \<open>The scan of the region\<close>

definition pixel_value :: "completed_frame \<Rightarrow> int \<times> int \<Rightarrow> int" where
  "pixel_value frame = (\<lambda>(x, y). case valid_pixel frame x y of None \<Rightarrow> -1 | Some v \<Rightarrow> uint v)"

definition pixel_list :: "completed_frame \<Rightarrow> int \<times> int \<Rightarrow> u16 list" where
  "pixel_list frame = (\<lambda>(x, y). case valid_pixel frame x y of None \<Rightarrow> [] | Some v \<Rightarrow> [v])"

definition scan_result :: "completed_frame \<Rightarrow> event_roi \<Rightarrow> nat \<Rightarrow> int list \<times> u16 list \<times> u16 \<times> u16" where
  "scan_result frame r n =
     (let ps = take n (roi_pixels r); vs = concat (map (pixel_list frame) ps)
      in (map (pixel_value frame) ps @ replicate (thermalRoiArea r - n) (-1), vs, fold min vs (- 1), fold max vs 0))"

lemma scan_prefix:
  assumes "roi_inside r" and "n \<le> thermalRoiArea r"
  shows "fold (scan_pixel frame r) (take n (roi_pixels r)) (replicate (thermalRoiArea r) (-1), [], - 1, 0)
    = scan_result frame r n"
  using assms(2)
proof (induction n)
  case 0
  show ?case by (simp add: scan_result_def)
next
  case (Suc n)
  let ?p = "roi_pixels r ! n"
  have n: "n < length (roi_pixels r)" using Suc.prems assms by (simp add: length_roi_pixels)
  have idx: "nat (thermalRoiIndex r (fst ?p - rx r) (snd ?p - ry r)) = n"
    using Suc.prems assms by (simp add: nth_roi_pixels roi_index_of)
  have rep: "replicate (thermalRoiArea r - n) (-1 :: int) = -1 # replicate (thermalRoiArea r - Suc n) (-1)"
    using Suc.prems by (metis Suc_diff_Suc Suc_le_lessD replicate_Suc)
  have step: "scan_pixel frame r ?p (scan_result frame r n) = scan_result frame r (Suc n)"
    using idx n rep
    by (cases ?p) (auto simp: scan_pixel_def scan_result_def Let_def pixel_value_def pixel_list_def
        take_Suc_conv_app_nth list_update_append fold_append min.commute max.commute split: option.splits)
  show ?case using Suc n step by (simp add: take_Suc_conv_app_nth)
qed

lemma scan_roi:
  assumes "roi_inside r"
  shows "fold (scan_pixel frame r) (roi_pixels r) (replicate (thermalRoiArea r) (-1), [], - 1, 0)
    = scan_result frame r (thermalRoiArea r)"
  using scan_prefix [OF assms order.refl, of frame] by (simp add: length_roi_pixels assms)

section \<open>Percentiles\<close>

definition rank_index :: "nat \<Rightarrow> int \<Rightarrow> nat" where
  "rank_index n p = (nat (clampPercentile p) * n + 99) div 100 - 1"

lemma clampPercentile_range: "50 \<le> clampPercentile p" "clampPercentile p \<le> 100"
  by (auto simp: clampPercentile_def)

lemma rank_index_less: "0 < n \<Longrightarrow> rank_index n p < n"
proof -
  assume n: "0 < n"
  have "nat (clampPercentile p) * n \<le> 100 * n" using clampPercentile_range [of p] by (intro mult_right_mono) auto
  then have "(nat (clampPercentile p) * n + 99) div 100 \<le> (100 * n + 99) div 100" by (intro div_le_mono) simp
  then show ?thesis using n by (simp add: rank_index_def)
qed

lemma rank_count_pos: "0 < n \<Longrightarrow> 0 < (nat (clampPercentile p) * n + 99) div 100"
proof -
  assume n: "0 < n"
  have "1 \<le> nat (clampPercentile p) * n" using clampPercentile_range [of p] n by (simp add: Suc_leI)
  then have "100 div 100 \<le> (nat (clampPercentile p) * n + 99) div 100" by (intro div_le_mono) simp
  then show ?thesis by simp
qed

lemma percentile_sorted: "vs \<noteq> [] \<Longrightarrow> thermalPercentileValue vs p = sort vs ! rank_index (length vs) p"
proof -
  assume vs: "vs \<noteq> []"
  let ?c = "(nat (clampPercentile p) * length vs + 99) div 100"
  have less: "rank_index (length vs) p < length vs" and pos: "0 < ?c"
    using vs rank_index_less rank_count_pos by simp_all
  then have "(if length vs > 1 then if ?c > 0 then min (length vs - 1) (?c - 1) else 0 else 0) = rank_index (length vs) p"
    unfolding rank_index_def by simp
  then show ?thesis using vs by (simp only: thermalPercentileValue_def Let_def nth_element_def if_False)
qed

lemma percentile_in_set: "vs \<noteq> [] \<Longrightarrow> thermalPercentileValue vs p \<in> set vs"
  using nth_mem [of "rank_index (length vs) p" "sort vs"] rank_index_less [of "length vs" p]
  by (simp add: percentile_sorted)

lemma percentile_mono:
  assumes "p \<le> q" shows "thermalPercentileValue vs p \<le> thermalPercentileValue vs q"
proof (cases "vs = []")
  case False
  have "clampPercentile p \<le> clampPercentile q" using assms by (auto simp: clampPercentile_def)
  then have "rank_index (length vs) p \<le> rank_index (length vs) q"
    unfolding rank_index_def by (intro diff_le_mono div_le_mono add_right_mono mult_right_mono) auto
  then show ?thesis using rank_index_less [of "length vs" q] False
    by (simp add: percentile_sorted sorted_nth_mono)
qed (simp add: thermalPercentileValue_def)

lemma sorted_rank:
  fixes s :: "int list"
  assumes "sorted s" and "i < length s"
  shows "Suc i \<le> length (filter (\<lambda>x. x \<le> s ! i) s)" and "length (filter (\<lambda>x. x < s ! i) s) \<le> i"
proof -
  have le: "filter (\<lambda>x. x \<le> s ! i) (take (Suc i) s) = take (Suc i) s"
    using assms by (auto simp: filter_id_conv in_set_conv_nth sorted_nth_mono)
  have ge: "filter (\<lambda>x. x < s ! i) (drop i s) = []"
    using assms by (auto simp: filter_empty_conv in_set_conv_nth sorted_nth_mono not_less)
  have "length (filter (\<lambda>x. x \<le> s ! i) (take (Suc i) s @ drop (Suc i) s)) \<ge> Suc i"
    unfolding filter_append le using assms by simp
  then show "Suc i \<le> length (filter (\<lambda>x. x \<le> s ! i) s)" by simp
  have "length (filter (\<lambda>x. x < s ! i) (take i s @ drop i s)) \<le> i"
    unfolding filter_append ge using assms length_filter_le [of "\<lambda>x. x < s ! i" "take i s"] by simp
  then show "length (filter (\<lambda>x. x < s ! i) s) \<le> i" by simp
qed

lemma length_filter_sort: "length (filter P (sort xs)) = length (filter P (xs :: int list))"
  by (simp add: filter_sort)

text \<open>a percentile of the hot-spot detection is the nearest-rank percentile of the pixel values.
  With p the percentile brought into 50..100 and n values, the result is one of the values, at least
  p percent of the values are not above it, and less than p percent are below it; a higher
  percentile never gives a lower value.\<close>

theorem percentile_nearest_rank:
  assumes "vs \<noteq> []"
  shows "thermalPercentileValue vs p \<in> set vs \<and>
    nat (clampPercentile p) * length vs \<le> 100 * length (filter (\<lambda>v. v \<le> thermalPercentileValue vs p) vs) \<and>
    100 * length (filter (\<lambda>v. v < thermalPercentileValue vs p) vs) < nat (clampPercentile p) * length vs \<and>
    thermalPercentileValue vs p \<le> thermalPercentileValue vs (p + int k)"
proof -
  let ?m = "nat (clampPercentile p) * length vs" and ?s = "sort vs"
  let ?i = "rank_index (length vs) p"
  have i: "?i < length ?s" using rank_index_less [of "length vs" p] assms by simp
  have c: "0 < (?m + 99) div 100" using rank_count_pos [of "length vs" p] assms by simp
  have rank: "?m \<le> 100 * Suc ?i" "100 * ?i < ?m" using c by (auto simp: rank_index_def)
  note s = sorted_rank [OF sorted_sort i, unfolded length_filter_sort, folded percentile_sorted [OF assms]]
  show ?thesis using rank s percentile_in_set [OF assms, of p] percentile_mono [of p "p + int k" vs] by auto
qed

lemma percentile_nearest_rank_witness:
  "thermalPercentileValue [1200, 8600, 1300, 9000] 75 \<in> set [1200, 8600, 1300, 9000] \<and>
   thermalPercentileValue [1200, 8600, 1300, 9000] 75 = 8600"
  using percentile_nearest_rank [of "[1200, 8600, 1300, 9000]" 75 0] by code_simp

section \<open>The statistics\<close>

lemma valid_pixel_range: "valid_pixel frame x y = Some v \<Longrightarrow> 1000 < uint v \<and> uint v < 30000"
  by (auto simp: valid_pixel_def word_le_def split: option.splits if_splits)

lemma pixel_value_range: "pixel_value frame p = -1 \<or> 1000 < pixel_value frame p \<and> pixel_value frame p < 30000"
  using valid_pixel_range by (auto simp: pixel_value_def split: prod.splits option.splits)

lemma pixel_lists: "map uint (concat (map (pixel_list frame) ps)) = filter (\<lambda>v. 0 \<le> v) (map (pixel_value frame) ps)"
  by (induction ps) (auto simp: pixel_list_def pixel_value_def split: option.splits)

definition hot_values :: "frame_analysis \<Rightarrow> int list" where
  "hot_values a = filter (\<lambda>v. 0 \<le> v) (roiRawValues a)"

lemma uint_fold_min:
  assumes "vs \<noteq> []" shows "uint (fold min vs (- 1 :: u16)) = Min (set (map uint vs))"
proof -
  have "fold min vs (- 1 :: u16) = Min (insert (- 1) (set vs))" using Min.set_eq_fold [of "- 1 :: u16" vs] by simp
  also have "\<dots> = Min (set vs)" using assms by (simp add: min_absorb2)
  finally show ?thesis using assms by (simp add: mono_Min_commute mono_def word_le_def)
qed

lemma uint_fold_max:
  assumes "vs \<noteq> []" shows "uint (fold max vs (0 :: u16)) = Max (set (map uint vs))"
proof -
  have "fold max vs (0 :: u16) = Max (insert 0 (set vs))" using Max.set_eq_fold [of "0 :: u16" vs] by simp
  also have "\<dots> = Max (set vs)" using assms by simp
  finally show ?thesis using assms by (simp add: mono_Max_commute mono_def word_le_def)
qed

lemma analyze_roi [simp]: "roi (analyzeThermalEventFrame frame c) = normalizeThermalEventRoi c"
  by (simp add: analyzeThermalEventFrame_def Let_def split: prod.splits)

lemma analyze_valid:
  assumes "an_valid (analyzeThermalEventFrame frame c)"
  defines "a \<equiv> analyzeThermalEventFrame frame c"
  shows "roiRawValues a = map (pixel_value frame) (roi_pixels (roi a))" and "hot_values a \<noteq> []"
    and "validPixels a = int (length (hot_values a))"
    and "roiMinValue a = Min (set (hot_values a))" and "roiMaxValue a = Max (set (hot_values a))"
    and "medianValue a = thermalPercentileValue (hot_values a) 50"
    and "p95Value a = thermalPercentileValue (hot_values a) 95"
    and "p99Value a = thermalPercentileValue (hot_values a) 99"
    and "madValue a = thermalPercentileValue (map (\<lambda>v. \<bar>v - medianValue a\<bar>) (hot_values a)) 50"
    and "signalValue a = thermalPercentileValue (hot_values a) (signal_percentile c)"
proof -
  let ?r = "normalizeThermalEventRoi c"
  let ?vs = "concat (map (pixel_list frame) (roi_pixels ?r))"
  have scan: "fold (scan_pixel frame ?r) (roi_pixels ?r) (replicate (thermalRoiArea ?r) (-1), [], - 1, 0) =
    (map (pixel_value frame) (roi_pixels ?r), ?vs, fold min ?vs (- 1), fold max ?vs 0)"
    unfolding scan_roi [OF normalize_roi_inside] by (simp add: scan_result_def length_roi_pixels Let_def)
  note a = assms(1) [unfolded analyzeThermalEventFrame_def Let_def]
  have vs: "?vs \<noteq> []" and a_eq: "a = (let out = frame_analysis0\<lparr> percentile := signal_percentile c, roi := ?r \<rparr>;
       vs = map uint ?vs; median = thermalPercentileValue vs 50 in
     out\<lparr> roiRawValues := map (pixel_value frame) (roi_pixels ?r), an_valid := True, validPixels := int (length ?vs),
       roiMinValue := uint (fold min ?vs (- 1)), roiMaxValue := uint (fold max ?vs 0), medianValue := median,
       p95Value := thermalPercentileValue vs 95, p99Value := thermalPercentileValue vs 99,
       madValue := thermalPercentileValue (map (\<lambda>v. \<bar>v - median\<bar>) vs) 50,
       signalValue := thermalPercentileValue vs (signal_percentile c) \<rparr>)"
    using a unfolding a_def analyzeThermalEventFrame_def Let_def
    by (auto simp add: scan frame_analysis0_def split: if_splits)
  have raw: "roiRawValues a = map (pixel_value frame) (roi_pixels ?r)" and roi: "roi a = ?r"
    by (simp_all add: a_eq Let_def frame_analysis0_def)
  have hot: "hot_values a = map uint ?vs" by (simp only: hot_values_def raw pixel_lists)
  show "roiRawValues a = map (pixel_value frame) (roi_pixels (roi a))" by (simp add: raw roi)
  show "hot_values a \<noteq> []" using vs by (simp add: hot)
  show "roiMinValue a = Min (set (hot_values a))" "roiMaxValue a = Max (set (hot_values a))"
    unfolding hot uint_fold_min [OF vs, symmetric] uint_fold_max [OF vs, symmetric] by (simp_all add: a_eq Let_def)
  show "validPixels a = int (length (hot_values a))" "medianValue a = thermalPercentileValue (hot_values a) 50"
    "p95Value a = thermalPercentileValue (hot_values a) 95" "p99Value a = thermalPercentileValue (hot_values a) 99"
    "madValue a = thermalPercentileValue (map (\<lambda>v. \<bar>v - medianValue a\<bar>) (hot_values a)) 50"
    "signalValue a = thermalPercentileValue (hot_values a) (signal_percentile c)"
    unfolding hot by (simp_all add: a_eq Let_def)
qed

text \<open>C33: the statistics of a picture. When the analysis of a completed picture is valid, its grid holds
  at every place of the region of interest the decoded value of that pixel of the picture, and -1
  exactly for the pixels without a plausible value; the numbers reported are those of the
  plausible pixels: their count, minimum and maximum, and they are ordered
  1000 < minimum <= median <= 95% <= 99% <= maximum < 30000, with the signal between minimum and
  maximum too.\<close>

theorem analysis_statistics:
  assumes valid: "an_valid (analyzeThermalEventFrame frame c)"
  defines "a \<equiv> analyzeThermalEventFrame frame c"
  shows "roi_inside (roi a) \<and> length (roiRawValues a) = thermalRoiArea (roi a) \<and>
    (\<forall>i<thermalRoiArea (roi a). roiRawValues a ! i =
       (case valid_pixel frame (rx (roi a) + int i mod rwidth (roi a)) (ry (roi a) + int i div rwidth (roi a)) of
          None \<Rightarrow> -1 | Some v \<Rightarrow> uint v)) \<and>
    0 < validPixels a \<and> validPixels a = int (length (hot_values a)) \<and>
    roiMinValue a = Min (set (hot_values a)) \<and> roiMaxValue a = Max (set (hot_values a)) \<and>
    1000 < roiMinValue a \<and> roiMinValue a \<le> medianValue a \<and> medianValue a \<le> p95Value a \<and>
    p95Value a \<le> p99Value a \<and> p99Value a \<le> roiMaxValue a \<and> roiMaxValue a < 30000 \<and>
    roiMinValue a \<le> signalValue a \<and> signalValue a \<le> roiMaxValue a"
proof -
  note an = analyze_valid [OF valid, folded a_def]
  let ?V = "hot_values a"
  have inside: "roi_inside (roi a)" by (simp add: a_def)
  have bounds: "\<forall>v\<in>set ?V. roiMinValue a \<le> v \<and> v \<le> roiMaxValue a" by (simp add: an)
  have "\<forall>v\<in>set ?V. 1000 < v \<and> v < 30000" 
  proof
    fix v assume "v \<in> set ?V"
    then obtain q where "v = pixel_value frame q" "0 \<le> v" by (auto simp: hot_values_def an(1))
    then show "1000 < v \<and> v < 30000" using pixel_value_range [of frame q] by auto
  qed
  then have range: "1000 < roiMinValue a \<and> roiMaxValue a < 30000" using an(2) by (simp add: an(4,5))
  have perc: "roiMinValue a \<le> thermalPercentileValue ?V p \<and> thermalPercentileValue ?V p \<le> roiMaxValue a" for p
    using bounds percentile_in_set [OF an(2)] by blast
  have grid: "\<forall>i<thermalRoiArea (roi a). roiRawValues a ! i =
       (case valid_pixel frame (rx (roi a) + int i mod rwidth (roi a)) (ry (roi a) + int i div rwidth (roi a)) of
          None \<Rightarrow> -1 | Some v \<Rightarrow> uint v)"
    using inside by (simp add: an(1) length_roi_pixels nth_roi_pixels pixel_value_def)
  show ?thesis
    using inside grid range perc percentile_mono [of 50 95 ?V] percentile_mono [of 95 99 ?V] an(2)
    by (intro conjI) (auto simp: an length_roi_pixels)
qed

text \<open>The default settings, but a region of five pixels, two hot pixels for a hit and one sample for a baseline.\<close>

definition sample_config :: thermal_config where
  "sample_config = \<lparr> event_enabled = True, actuation_enabled = False, baseline_enabled = True, debug_log = False,
     hotspot_threshold_max_value = 8500, cooldown_ms = 5000, baseline_margin = 250, baseline_window_ms = 300000,
     baseline_min_samples = 1, baseline_guard_delta = 250, consecutive_frames_required = 2, signal_percentile = 100,
     hot_area_min_pixels = 2, seed_delta = 120, grow_delta = 60, component_area_min = 2, component_area_max = 48,
     local_contrast_min = 150, new_pixels_min = 1, clear_frames = 4, track_match_distance_px = 18,
     aspect_ratio_min = 9 / 5, tip_x = -1, tip_y = -1, tip_distance_max_px = 24, score_min = 6,
     roi_x = 0, roi_y = 0, roi_width = 5, roi_height = 1, monitor_always_on = True, event_topic = ''system/event'',
     event_source = ''thermal'', event_severity = ''warning'', event_title = ''Thermal hotspot detected'',
     mqtt_host = ''mqtt-service'', mqtt_port = 1883, mqtt_client_id = ''crow_thermal_event_api'',
     motor_control_topic = ''motor/control'', laser_control_topic = ''laser/control'',
     motor1_angle = 90, motor2_angle = 90, motor3_angle = 90, laser_enabled = False \<rparr>"

definition sample_frame :: "u16 \<Rightarrow> u16 list \<Rightarrow> completed_frame" where
  "sample_frame fid vs = \<lparr> cfHeader = \<lparr> frameId = fid, chunkIndex = 0, headerTotal = 20, minValue = 7000, maxValue = 9000 \<rparr>,
     cfPayloadBytes = 2 * length vs, cfHasRangeData = True, ready = True, encoding = ''raw16'',
     framePayload = concat (map writeBe16 vs) \<rparr>"

lemma analysis_statistics_witness:
  "medianValue (analyzeThermalEventFrame (sample_frame 1 [7000, 9000, 500]) sample_config) = 7000 \<and>
   roiMaxValue (analyzeThermalEventFrame (sample_frame 1 [7000, 9000, 500]) sample_config) < 30000"
proof -
  let ?f = "sample_frame 1 [7000, 9000, 500]"
  have "an_valid (analyzeThermalEventFrame ?f sample_config)" by code_simp
  from analysis_statistics [OF this] have "roiMaxValue (analyzeThermalEventFrame ?f sample_config) < 30000" by blast
  moreover have "medianValue (analyzeThermalEventFrame ?f sample_config) = 7000" by code_simp
  ultimately show ?thesis by simp
qed

end
