(* ===== verification/StackSearch.thy ===== *)
theory StackSearch imports HotspotComponents HotspotAnalysisSpec begin

text \<open>
  The search with an explicit stack that finds one connected hot region, over any finite grid: the
  locale \<open>search_grid\<close> asks for neighbours inside the grid and symmetric, and its lemmas say
  what the loop keeps and what it has found when the stack is empty. \<open>linked g s i\<close>: there is a
  way from \<open>s\<close> to \<open>i\<close> whose pixels after \<open>s\<close> are all in the mask \<open>g\<close>.
\<close>

inductive linked :: "(nat \<Rightarrow> nat list) \<Rightarrow> bool list \<Rightarrow> nat \<Rightarrow> nat \<Rightarrow> bool" for nb :: "nat \<Rightarrow> nat list" and g :: "bool list" where
  linked_start: "linked nb g s s"
| linked_step: "linked nb g s i \<Longrightarrow> j \<in> set (nb i) \<Longrightarrow> g ! j \<Longrightarrow> linked nb g s j"

definition region :: "bool list \<Rightarrow> nat set" where
  "region m = {i. i < length m \<and> m ! i}"

lemma finite_region [simp]: "finite (region m)"
  by (simp add: region_def)

lemma region_update: "i < length m \<Longrightarrow> region (m[i := True]) = insert i (region m)"
  by (auto simp: region_def nth_list_update)

lemma region_replicate [simp]: "region (replicate n False) = {}"
  by (auto simp: region_def)

section \<open>Pushing the neighbours of a pixel\<close>

lemma push_neighbours:
  assumes "set ns \<subseteq> {..<length vis}"
  shows "case fold (push_neighbour g) ns (vis, st) of (vis', st') \<Rightarrow>
     length vis' = length vis \<and>
     region vis' = region vis \<union> {j \<in> set ns. g ! j} \<and>
     set st' = set st \<union> {j \<in> set ns. g ! j \<and> \<not> vis ! j} \<and>
     (distinct st \<and> set st \<subseteq> region vis \<longrightarrow> distinct st') \<and>
     card (region vis') + length st = card (region vis) + length st'"
  using assms
proof (induction ns arbitrary: vis st)
  case Nil
  show ?case by simp
next
  case (Cons j ns)
  show ?case
  proof (cases "vis ! j \<or> \<not> g ! j")
    case True
    then have "fold (push_neighbour g) (j # ns) (vis, st) = fold (push_neighbour g) ns (vis, st)"
      by (simp add: push_neighbour_def)
    moreover have "g ! j \<longrightarrow> j \<in> region vis" using True Cons.prems by (auto simp: region_def)
    ultimately show ?thesis using Cons.IH [of vis st] Cons.prems True
      by (auto split: prod.splits)
  next
    case False
    let ?vis = "vis[j := True]"
    have j: "j < length vis" using Cons.prems by simp
    have new: "j \<notin> region vis" using False by (simp add: region_def)
    have eq: "fold (push_neighbour g) (j # ns) (vis, st) = fold (push_neighbour g) ns (?vis, j # st)"
      using False by (simp add: push_neighbour_def)
    have other: "?vis ! i \<longleftrightarrow> i = j \<or> vis ! i" if "i \<in> set ns" for i
      using that j Cons.prems by (auto simp: nth_list_update)
    have "card (region ?vis) = Suc (card (region vis))" using j new by (simp add: region_update)
    moreover have "distinct st \<and> set st \<subseteq> region vis \<longrightarrow> distinct (j # st) \<and> set (j # st) \<subseteq> region ?vis"
      using j new by (auto simp: region_update)
    ultimately show ?thesis using Cons.IH [of ?vis "j # st"] Cons.prems j False other
      unfolding eq by (auto simp: region_update split: prod.splits)
  qed
qed

section \<open>The search\<close>

locale search_grid =
  fixes nb :: "'g \<Rightarrow> nat \<Rightarrow> nat list" and size_of :: "'g \<Rightarrow> nat" and grid_ok :: "'g \<Rightarrow> bool"
  assumes nb_range: "grid_ok r \<Longrightarrow> i < size_of r \<Longrightarrow> j \<in> set (nb r i) \<Longrightarrow> j < size_of r"
    and nb_sym: "grid_ok r \<Longrightarrow> i < size_of r \<Longrightarrow> j \<in> set (nb r i) \<Longrightarrow> i \<in> set (nb r j)"
begin

definition closed :: "'g \<Rightarrow> bool list \<Rightarrow> nat set \<Rightarrow> bool" where
  "closed r g A \<longleftrightarrow> (\<forall>i\<in>A. \<forall>j\<in>set (nb r i). g ! j \<longrightarrow> j \<in> A)"

definition search_inv :: "'g \<Rightarrow> bool list \<Rightarrow> nat set \<Rightarrow> nat \<Rightarrow> bool list \<Rightarrow> bool list \<Rightarrow> nat list \<Rightarrow> bool" where
  "search_inv r g old s vis m st \<longleftrightarrow>
     grid_ok r \<and> length g = size_of r \<and> length vis = size_of r \<and> length m = size_of r \<and>
     old \<subseteq> region g \<and> closed r g old \<and> s \<in> region g \<and> s \<notin> old \<and>
     region vis = old \<union> region m \<union> set st \<and> distinct st \<and>
     set st \<subseteq> region g - old - region m \<and> region m \<subseteq> region g - old \<and>
     (\<forall>i\<in>region m \<union> set st. linked (nb r) g s i) \<and>
     (\<forall>i\<in>region m. \<forall>j\<in>set (nb r i). g ! j \<longrightarrow> j \<in> region vis) \<and>
     s \<in> region m \<union> set st"

lemma linked_closed:
  assumes "linked (nb r) g s i" and "closed r g A" and "s \<in> A"
  shows "i \<in> A"
  using assms by (induction rule: linked.induct) (auto simp: closed_def)

lemma linked_in_grid:
  assumes "linked (nb r) g s i" and "grid_ok r" and "s \<in> region g" and "length g = size_of r"
  shows "i \<in> region g"
  using assms by (induction rule: linked.induct) (auto simp: region_def intro: nb_range)

lemma search_start:
  assumes "grid_ok r" "length g = size_of r" "length vis = size_of r" "region vis \<subseteq> region g"
    and "closed r g (region vis)" "s \<in> region g" "\<not> vis ! s"
  shows "search_inv r g (region vis) s (vis[s := True]) (replicate (size_of r) False) [s]"
proof -
  have s: "s < length vis" "s \<notin> region vis" using assms by (auto simp: region_def)
  show ?thesis unfolding search_inv_def region_update [OF s(1)] using assms s by (auto intro: linked_start)
qed

lemma search_step:
  assumes "search_inv r g old s vis m (i # st)"
  shows "case fold (push_neighbour g) (nb r i) (vis, st) of (vis', st') \<Rightarrow>
     search_inv r g old s vis' (m[i := True]) st' \<and>
     card (region vis') + length (i # st) = Suc (card (region vis) + length st')"
proof -
  have ok: "grid_ok r" and len: "length g = size_of r" "length vis = size_of r" "length m = size_of r"
    and old: "old \<subseteq> region g" "closed r g old" and s: "s \<in> region g" "s \<notin> old"
    and vis: "region vis = old \<union> region m \<union> set (i # st)" and dist: "distinct (i # st)"
    and sub: "set (i # st) \<subseteq> region g - old - region m" "region m \<subseteq> region g - old"
    and link: "\<forall>j\<in>region m \<union> set (i # st). linked (nb r) g s j"
    and shut: "\<forall>j\<in>region m. \<forall>k\<in>set (nb r j). g ! k \<longrightarrow> k \<in> region vis"
    and seen: "s \<in> region m \<union> set (i # st)"
    using assms unfolding search_inv_def by - (elim conjE, assumption)+
  obtain vis' st' where eq: "fold (push_neighbour g) (nb r i) (vis, st) = (vis', st')" by fastforce
  have i: "i < size_of r" "g ! i" "i \<notin> old" using sub len by (auto simp: region_def)
  have ns: "j < size_of r" "i \<in> set (nb r j)" if "j \<in> set (nb r i)" for j
    using nb_range [OF ok i(1) that] nb_sym [OF ok i(1) that] by simp_all
  have "set (nb r i) \<subseteq> {..<length vis}" using ns len by auto
  note P = push_neighbours [OF this, of g st, unfolded eq prod.case]
  have "distinct st \<and> set st \<subseteq> region vis" using dist vis by auto
  with P have push: "length vis' = length vis" "region vis' = region vis \<union> {j \<in> set (nb r i). g ! j}"
    "set st' = set st \<union> {j \<in> set (nb r i). g ! j \<and> \<not> vis ! j}" "distinct st'"
    "card (region vis') + length st = card (region vis) + length st'"
    by blast+
  have new: "set st' = set st \<union> {j \<in> set (nb r i). g ! j \<and> j \<notin> region vis}"
    using ns len push(3) by (auto simp: region_def)
  have m: "region (m[i := True]) = insert i (region m)" using i len by (simp add: region_update)
  have g: "{j \<in> set (nb r i). g ! j} \<subseteq> region g" using ns len by (auto simp: region_def)
  have apart: "{j \<in> set (nb r i). g ! j} \<inter> old = {}"
    using old(2) ns i by (auto simp: closed_def)
  have link': "\<forall>j\<in>insert i (region m) \<union> set st'. linked (nb r) g s j"
    using link new by (auto intro: linked_step)
  have "search_inv r g old s vis' (m[i := True]) st'"
    unfolding search_inv_def m
  proof (intro conjI)
    show "region vis' = old \<union> insert i (region m) \<union> set st'" using push(2) new vis by auto
    show "set st' \<subseteq> region g - old - insert i (region m)" using new sub dist vis g by auto
    show "insert i (region m) \<subseteq> region g - old" using sub by auto
    show "\<forall>j\<in>insert i (region m). \<forall>k\<in>set (nb r j). g ! k \<longrightarrow> k \<in> region vis'"
      using shut push(2) by auto
    show "s \<in> insert i (region m) \<union> set st'" using seen new by auto
  qed (use ok len old s push link' in auto)
  then show ?thesis using push(5) by (simp add: eq)
qed

lemma search_end:
  assumes "search_inv r g old s vis m []"
  shows "region m = {i. linked (nb r) g s i}" and "region vis = old \<union> region m" and "closed r g (region vis)"
    and "region vis \<subseteq> region g" and "old \<inter> region m = {}"
proof -
  note I = assms [unfolded search_inv_def]
  have cl: "closed r g (region m)"
    unfolding closed_def
  proof (intro ballI impI)
    fix i j assume ij: "i \<in> region m" "j \<in> set (nb r i)" "g ! j"
    then have "j \<in> old \<union> region m" using I by auto
    moreover have "j \<notin> old"
    proof
      assume "j \<in> old"
      moreover have "i \<in> set (nb r j)" "g ! i" using ij I nb_sym [of r i j] by (auto simp: region_def)
      ultimately have "i \<in> old" using I by (auto simp: closed_def)
      then show False using ij I by auto
    qed
    ultimately show "j \<in> region m" by simp
  qed
  show "region m = {i. linked (nb r) g s i}" using I linked_closed [OF _ cl] by auto
  show "region vis = old \<union> region m" "region vis \<subseteq> region g" "old \<inter> region m = {}" using I by auto
  then show "closed r g (region vis)" using I cl by (auto simp: closed_def)
qed

end

section \<open>The grid of a region of interest\<close>

definition px :: "event_roi \<Rightarrow> nat \<Rightarrow> int" where
  "px r i = int i mod rwidth r"

definition py :: "event_roi \<Rightarrow> nat \<Rightarrow> int" where
  "py r i = int i div rwidth r"

lemma grid_coords:
  assumes "0 < rwidth r" "0 \<le> x" "x < rwidth r" "0 \<le> y"
  shows "px r (nat (y * rwidth r + x)) = x" and "py r (nat (y * rwidth r + x)) = y"
  using assms by (simp_all add: px_def py_def)

lemma set_next_indices:
  "set (next_indices r i) = (\<lambda>(dx, dy). nat ((py r i + dy) * rwidth r + (px r i + dx))) `
     {(dx, dy) \<in> set neighbour_offsets. 0 \<le> px r i + dx \<and> px r i + dx < rwidth r \<and> 0 \<le> py r i + dy \<and> py r i + dy < rheight r}"
  by (auto simp: next_indices_def Let_def px_def py_def thermalRoiIndex_def image_iff not_less split: prod.splits)

lemma offsets_iff: "(dx, dy) \<in> set neighbour_offsets \<longleftrightarrow> \<bar>dx\<bar> \<le> 1 \<and> \<bar>dy\<bar> \<le> 1 \<and> (dx \<noteq> 0 \<or> dy \<noteq> 0)"
  by (auto simp: neighbour_offsets_def abs_if)

lemma grid_bounds:
  assumes "roi_inside r" "i < thermalRoiArea r"
  shows "0 \<le> px r i \<and> px r i < rwidth r \<and> 0 \<le> py r i \<and> py r i < rheight r" and "int i = py r i * rwidth r + px r i"
proof -
  have w: "0 < rwidth r" "0 < rheight r" using assms by (auto simp: roi_inside_def)
  have "int i < rheight r * rwidth r" using assms w by (simp add: roi_area zless_nat_eq_int_zless [symmetric] nat_mult_distrib mult.commute)
  moreover have eq: "int i = py r i * rwidth r + px r i" by (simp add: px_def py_def)
  moreover have px: "0 \<le> px r i" "px r i < rwidth r" using w by (simp_all add: px_def)
  ultimately have "py r i * rwidth r < rheight r * rwidth r" by linarith
  then have "py r i < rheight r" using w by simp
  moreover have "0 \<le> py r i" using w by (simp add: py_def pos_imp_zdiv_nonneg_iff)
  ultimately show "0 \<le> px r i \<and> px r i < rwidth r \<and> 0 \<le> py r i \<and> py r i < rheight r" using px by simp
  show "int i = py r i * rwidth r + px r i" by (rule eq)
qed

lemma grid_index:
  assumes "roi_inside r" "0 \<le> x" "x < rwidth r" "0 \<le> y" "y < rheight r"
  shows "nat (y * rwidth r + x) < thermalRoiArea r"
proof -
  have "y * rwidth r \<le> (rheight r - 1) * rwidth r" using assms by (intro mult_right_mono) auto
  then have "y * rwidth r + x < rheight r * rwidth r" using assms by (simp add: algebra_simps)
  moreover have "0 \<le> y * rwidth r + x" using assms by (auto simp: roi_inside_def)
  ultimately show ?thesis
    using assms by (simp add: roi_area roi_inside_def nat_mult_distrib [symmetric] mult.commute nat_less_iff)
qed

lemma next_indices_iff:
  assumes "roi_inside r" "i < thermalRoiArea r"
  shows "j \<in> set (next_indices r i) \<longleftrightarrow> j < thermalRoiArea r \<and> j \<noteq> i \<and> \<bar>px r j - px r i\<bar> \<le> 1 \<and> \<bar>py r j - py r i\<bar> \<le> 1"
    (is "?L \<longleftrightarrow> ?R")
proof
  have w: "0 < rwidth r" using assms by (simp add: roi_inside_def)
  assume ?L
  then obtain dx dy where d: "(dx, dy) \<in> set neighbour_offsets" "j = nat ((py r i + dy) * rwidth r + (px r i + dx))"
    and b: "0 \<le> px r i + dx" "px r i + dx < rwidth r" "0 \<le> py r i + dy" "py r i + dy < rheight r"
    unfolding set_next_indices by auto
  have "px r j = px r i + dx" "py r j = py r i + dy" using grid_coords [OF w b(1,2,3)] d(2) by simp_all
  moreover have "j < thermalRoiArea r" using grid_index [OF assms(1) b] d(2) by simp
  ultimately show ?R using d(1) by (auto simp: offsets_iff)
next
  assume j: ?R
  let ?dx = "px r j - px r i" and ?dy = "py r j - py r i"
  have "?dx \<noteq> 0 \<or> ?dy \<noteq> 0" using j grid_bounds(2) [OF assms] grid_bounds(2) [of r j] assms(1)
    by (metis diff_eq_diff_eq diff_self of_nat_eq_iff right_minus_eq)
  then have "(?dx, ?dy) \<in> set neighbour_offsets" using j by (simp add: offsets_iff)
  moreover have "j = nat ((py r i + ?dy) * rwidth r + (px r i + ?dx))"
    using j grid_bounds(2) [of r j] assms(1) by (metis add_diff_cancel_left' diff_add_cancel add.commute nat_int)
  ultimately show ?L unfolding set_next_indices using j grid_bounds(1) [of r j] assms(1)
    by (intro image_eqI [where x = "(?dx, ?dy)"]) auto
qed

interpretation grid: search_grid next_indices thermalRoiArea roi_inside
  by unfold_locales (auto simp: next_indices_iff abs_minus_commute)

text \<open>The same connection said without the code: steps between pixels that touch, over hot pixels.\<close>

definition touching :: "event_roi \<Rightarrow> (nat \<Rightarrow> bool) \<Rightarrow> nat \<Rightarrow> nat \<Rightarrow> bool" where
  "touching r hot i j \<longleftrightarrow> j < thermalRoiArea r \<and> hot j \<and> j \<noteq> i \<and> \<bar>px r j - px r i\<bar> \<le> 1 \<and> \<bar>py r j - py r i\<bar> \<le> 1"

lemma linked_touching:
  assumes r: "roi_inside r" and s: "s < thermalRoiArea r" and hot: "\<And>j. j < thermalRoiArea r \<Longrightarrow> g ! j \<longleftrightarrow> hot j"
  shows "linked (next_indices r) g s i \<longleftrightarrow> (touching r hot)\<^sup>*\<^sup>* s i"
proof
  assume "linked (next_indices r) g s i"
  then have "s < thermalRoiArea r \<longrightarrow> i < thermalRoiArea r \<and> (touching r hot)\<^sup>*\<^sup>* s i"
  proof (induction rule: linked.induct)
    case (linked_step s i j)
    show ?case
    proof
      assume "s < thermalRoiArea r"
      then have i: "i < thermalRoiArea r" "(touching r hot)\<^sup>*\<^sup>* s i" using linked_step.IH by auto
      then have "touching r hot i j"
        using linked_step.hyps hot [of j] by (simp add: touching_def next_indices_iff [OF r i(1)])
      then show "j < thermalRoiArea r \<and> (touching r hot)\<^sup>*\<^sup>* s j"
        using i(2) by (simp add: touching_def rtranclp.rtrancl_into_rtrancl)
    qed
  qed simp
  with s have "i < thermalRoiArea r \<and> (touching r hot)\<^sup>*\<^sup>* s i" by simp
  then show "(touching r hot)\<^sup>*\<^sup>* s i" ..
next
  assume "(touching r hot)\<^sup>*\<^sup>* s i"
  then have "i < thermalRoiArea r \<and> linked (next_indices r) g s i"
  proof (induction rule: rtranclp_induct)
    case (step i j)
    then have "j \<in> set (next_indices r i)" "g ! j" using hot [of j] by (auto simp: touching_def next_indices_iff [OF r])
    with step show ?case by (auto simp: touching_def intro: linked.linked_step)
  qed (simp add: s linked.linked_start)
  then show "linked (next_indices r) g s i" ..
qed

end
