(* ===== verification/HotspotComponentsSpec.thy ===== *)
theory HotspotComponentsSpec imports StackSearch "HOL-Library.Multiset" begin

text \<open>
  What the search for hot regions finds: exactly the connected regions that hold a seed pixel, each
  once, with the features of its pixels. The loop always ends.
\<close>

definition fx :: "event_roi \<Rightarrow> nat \<Rightarrow> int" where
  "fx r i = rx r + px r i"

definition fy :: "event_roi \<Rightarrow> nat \<Rightarrow> int" where
  "fy r i = ry r + py r i"

section \<open>One region\<close>

definition fill_stats :: "frame_analysis \<Rightarrow> bool list \<Rightarrow> fill_state \<Rightarrow> bool" where
  "fill_stats a seed f \<longleftrightarrow> (let r = roi a; k = fcomp f; M = region (mask_bits k) in
     area k = int (card M) \<and> seedArea k = int (card (M \<inter> region seed)) \<and>
     sumX f = sum (fx r) M \<and> sumY f = sum (fy r) M \<and>
     minX k = Min (insert (rx r + rwidth r) (fx r ` M)) \<and> minY k = Min (insert (ry r + rheight r) (fy r ` M)) \<and>
     maxX k = Max (insert (rx r) (fx r ` M)) \<and> maxY k = Max (insert (ry r) (fy r ` M)) \<and>
     peakValue k = Max (insert 0 ((!) (roiRawValues a) ` M)) \<and>
     mset (fvalues f) = image_mset ((!) (roiRawValues a)) (mset_set M))"

lemma Min_insert_min: "finite A \<Longrightarrow> Min (insert b (insert a A)) = min (Min (insert b A)) (a :: int)"
  by (simp add: insert_commute [of b a] min.commute)

lemma Max_insert_max: "finite A \<Longrightarrow> Max (insert b (insert a A)) = max (Max (insert b A)) (a :: int)"
  by (simp add: insert_commute [of b a] max.commute)

lemma add_pixel_mask:
  "mask_bits (fcomp (add_pixel a seed i f)) = (mask_bits (fcomp f))[i := True]"
  "visited (add_pixel a seed i f) = visited f" "stack (add_pixel a seed i f) = stack f"
  by (simp_all add: add_pixel_def Let_def)

lemma add_pixel_fields:
  "area (fcomp (add_pixel a seed i f)) = area (fcomp f) + 1"
  "seedArea (fcomp (add_pixel a seed i f)) = (if seed ! i then seedArea (fcomp f) + 1 else seedArea (fcomp f))"
  "minX (fcomp (add_pixel a seed i f)) = min (minX (fcomp f)) (fx (roi a) i)"
  "minY (fcomp (add_pixel a seed i f)) = min (minY (fcomp f)) (fy (roi a) i)"
  "maxX (fcomp (add_pixel a seed i f)) = max (maxX (fcomp f)) (fx (roi a) i)"
  "maxY (fcomp (add_pixel a seed i f)) = max (maxY (fcomp f)) (fy (roi a) i)"
  "peakValue (fcomp (add_pixel a seed i f)) =
     (if roiRawValues a ! i \<ge> 0 then max (peakValue (fcomp f)) (roiRawValues a ! i) else peakValue (fcomp f))"
  "sumX (add_pixel a seed i f) = sumX f + fx (roi a) i"
  "sumY (add_pixel a seed i f) = sumY f + fy (roi a) i"
  "fvalues (add_pixel a seed i f) =
     (if roiRawValues a ! i \<ge> 0 then fvalues f @ [roiRawValues a ! i] else fvalues f)"
  by (simp_all add: add_pixel_def Let_def fx_def fy_def px_def py_def)

lemma fill_stats_add_pixel:
  assumes "fill_stats a seed f" and "i < length (mask_bits (fcomp f))" and "\<not> mask_bits (fcomp f) ! i"
    and "i < length seed" and "0 \<le> roiRawValues a ! i"
  shows "fill_stats a seed (add_pixel a seed i f)"
proof -
  let ?M = "region (mask_bits (fcomp f))"
  have i: "i \<notin> ?M" using assms(3) by (simp add: region_def)
  have seed: "i \<in> region seed \<longleftrightarrow> seed ! i" using assms(4) by (simp add: region_def)
  have M: "region ((mask_bits (fcomp f))[i := True]) = insert i ?M" using assms(2) by (rule region_update)
  have "insert i ?M \<inter> region seed = (if seed ! i then insert i (?M \<inter> region seed) else ?M \<inter> region seed)"
    using seed by auto
  then have "card (insert i ?M \<inter> region seed) = (if seed ! i then Suc (card (?M \<inter> region seed)) else card (?M \<inter> region seed))"
    using i by simp
  note seeds = this
  show ?thesis
    using assms(1,5) i seeds unfolding fill_stats_def Let_def add_pixel_mask add_pixel_fields M image_insert
    by (simp add: Min_insert_min Max_insert_max del: Min_insert Max_insert)
qed

lemma fill_stats_cong: "fill_stats a seed (f\<lparr> visited := vis, stack := st \<rparr>) = fill_stats a seed f"
  by (simp add: fill_stats_def)

definition fill_inv :: "frame_analysis \<Rightarrow> bool list \<Rightarrow> bool list \<Rightarrow> nat set \<Rightarrow> nat \<Rightarrow> fill_state \<Rightarrow> bool" where
  "fill_inv a seed g old s f \<longleftrightarrow>
     grid.search_inv (roi a) g old s (visited f) (mask_bits (fcomp f)) (stack f) \<and> fill_stats a seed f"

definition grid_masks :: "frame_analysis \<Rightarrow> bool list \<Rightarrow> bool list \<Rightarrow> bool" where
  "grid_masks a seed g \<longleftrightarrow> roi_inside (roi a) \<and> length seed = thermalRoiArea (roi a) \<and>
     length g = thermalRoiArea (roi a) \<and> region seed \<subseteq> region g \<and> (\<forall>i\<in>region g. 0 \<le> roiRawValues a ! i)"

lemma fill_step_inv:
  assumes "grid_masks a seed g" and "fill_inv a seed g old s f" and "stack f = i # st"
  shows "fill_inv a seed g old s (fill_step a seed g f) \<and>
    card (region (visited (fill_step a seed g f))) + length (stack f) =
    Suc (card (region (visited f)) + length (stack (fill_step a seed g f)))"
proof -
  let ?m = "mask_bits (fcomp f)"
  have inv: "grid.search_inv (roi a) g old s (visited f) ?m (i # st)" and stats: "fill_stats a seed f"
    using assms(2,3) by (simp_all add: fill_inv_def)
  have i: "i \<in> region g" "i \<notin> region ?m" and len: "length ?m = thermalRoiArea (roi a)" "length g = thermalRoiArea (roi a)"
    using inv unfolding grid.search_inv_def by auto
  then have it: "i < length ?m" "g ! i" "\<not> ?m ! i" "i < length seed" "0 \<le> roiRawValues a ! i"
    using assms(1) by (auto simp: region_def grid_masks_def)
  obtain vis' st' where push: "fold (push_neighbour g) (next_indices (roi a) i) (visited f, st) = (vis', st')"
    by fastforce
  have step: "fill_step a seed g f = (add_pixel a seed i f)\<lparr> visited := vis', stack := st' \<rparr>"
    using assms(3) it push by (simp add: fill_step_def Let_def add_pixel_mask)
  show ?thesis
    using grid.search_step [OF inv] fill_stats_add_pixel [OF stats it(1,3,4,5)]
    by (simp add: step push fill_inv_def add_pixel_mask fill_stats_cong assms(3))
qed

lemma fill_visited_card:
  assumes "fill_inv a seed g old s f" shows "card (region (visited f)) \<le> thermalRoiArea (roi a)"
proof -
  have "length (visited f) = thermalRoiArea (roi a)"
    using assms unfolding fill_inv_def grid.search_inv_def by (elim conjE)
  then have "region (visited f) \<subseteq> {..<thermalRoiArea (roi a)}" by (auto simp: region_def)
  then show ?thesis using card_mono [OF finite_lessThan] by fastforce
qed

lemma fill_region_ends:
  assumes g: "grid_masks a seed g" and inv: "fill_inv a seed g old s f"
  shows "\<exists>f'. fill_region a seed g f = Some f' \<and> fill_inv a seed g old s f' \<and> stack f' = []"
proof -
  let ?n = "thermalRoiArea (roi a)"
  let ?mu = "\<lambda>f. (?n - card (region (visited f))) + length (stack f)"
  let ?P = "fill_inv a seed g old s"
  have step: "?P (fill_step a seed g f) \<and> ?mu (fill_step a seed g f) < ?mu f" if P: "?P f" "stack f \<noteq> []" for f
  proof -
    obtain i st where st: "stack f = i # st" using P(2) by (cases "stack f") auto
    note S = fill_step_inv [OF g P(1) st]
    have "card (region (visited (fill_step a seed g f))) \<le> ?n" "card (region (visited f)) \<le> ?n"
      using S P by (auto intro: fill_visited_card)
    then show ?thesis using S by linarith
  qed
  have "\<exists>t. fill_region a seed g f = Some t" unfolding fill_region_def
    by (rule measure_while_option_Some [where P = ?P and f = ?mu and b = "\<lambda>f. stack f \<noteq> []", OF step inv])
  then obtain f' where f': "fill_region a seed g f = Some f'" ..
  have inv': "?P f'"
    using step by (intro while_option_rule [where P = ?P, OF _ f' [unfolded fill_region_def] inv]) simp
  have "stack f' = []" using while_option_stop [OF f' [unfolded fill_region_def]] by simp
  then show ?thesis using f' inv' by simp
qed

lemma fill_start_inv:
  assumes "grid_masks a seed g" and "length vis = thermalRoiArea (roi a)" and "region vis \<subseteq> region g"
    and "grid.closed (roi a) g (region vis)" and "s \<in> region seed" and "\<not> vis ! s"
  shows "fill_inv a seed g (region vis) s (fill_start a s vis)"
  using assms grid.search_start [of "roi a" g vis s]
  by (auto simp: fill_inv_def fill_start_def fill_stats_def Let_def grid_masks_def component0_def)

text \<open>The features of a region that holds a seed: what the loop has counted when it ends.\<close>

definition region_features :: "frame_analysis \<Rightarrow> bool list \<Rightarrow> component \<Rightarrow> bool" where
  "region_features a seed k \<longleftrightarrow> (let r = roi a; M = region (mask_bits k) in
     area k = int (card M) \<and> seedArea k = int (card (M \<inter> region seed)) \<and> 1 \<le> seedArea k \<and>
     minX k = Min (fx r ` M) \<and> minY k = Min (fy r ` M) \<and> maxX k = Max (fx r ` M) \<and> maxY k = Max (fy r ` M) \<and>
     peakValue k = Max ((!) (roiRawValues a) ` M) \<and>
     centerX k = sum (fx r) M div int (card M) \<and> centerY k = sum (fy r) M div int (card M) \<and>
     p90Value k = thermalPercentileValue (map ((!) (roiRawValues a)) (filter (\<lambda>i. mask_bits k ! i) [0..<length (mask_bits k)])) 90)"

lemma percentile_mset: "mset xs = mset ys \<Longrightarrow> thermalPercentileValue xs p = thermalPercentileValue ys p"
  using mset_eq_length [of xs ys] sort_key_eq_sort_key [of xs ys "\<lambda>x. x"]
  by (auto simp: thermalPercentileValue_def nth_element_def Let_def)

lemma finish_component_fields:
  "mask_bits (finish_component a prev c f) = mask_bits (fcomp f)"
  "area (finish_component a prev c f) = area (fcomp f)" "seedArea (finish_component a prev c f) = seedArea (fcomp f)"
  "minX (finish_component a prev c f) = minX (fcomp f)" "minY (finish_component a prev c f) = minY (fcomp f)"
  "maxX (finish_component a prev c f) = maxX (fcomp f)" "maxY (finish_component a prev c f) = maxY (fcomp f)"
  "peakValue (finish_component a prev c f) = peakValue (fcomp f)"
  "p90Value (finish_component a prev c f) = thermalPercentileValue (fvalues f) 90"
  "centerX (finish_component a prev c f) = sumX f div area (fcomp f)"
  "centerY (finish_component a prev c f) = sumY f div area (fcomp f)"
  by (simp_all add: finish_component_def rate_component_def Let_def)

lemma Min_insert_above: "finite A \<Longrightarrow> A \<noteq> {} \<Longrightarrow> \<forall>a\<in>A. a \<le> (b :: int) \<Longrightarrow> Min (insert b A) = Min A"
  by (simp add: min_absorb2 Min_le_iff ex_in_conv)

lemma Max_insert_below: "finite A \<Longrightarrow> A \<noteq> {} \<Longrightarrow> \<forall>a\<in>A. (b :: int) \<le> a \<Longrightarrow> Max (insert b A) = Max A"
  by (simp add: max_absorb2 Max_ge_iff ex_in_conv)

lemma mset_region:
  "mset (map h (filter (\<lambda>i. m ! i) [0..<length m])) = image_mset h (mset_set (region m))"
proof -
  have "mset_set (set (filter (\<lambda>i. m ! i) [0..<length m])) = mset (filter (\<lambda>i. m ! i) [0..<length m])"
    by (intro mset_set_set) simp
  moreover have "set (filter (\<lambda>i. m ! i) [0..<length m]) = region m" by (auto simp: region_def)
  ultimately show ?thesis by (simp only: mset_map)
qed

lemma fill_end:
  assumes g: "grid_masks a seed g" and inv: "fill_inv a seed g old s f" and "stack f = []" and s: "s \<in> region seed"
  shows "region (mask_bits (fcomp f)) = {i. linked (next_indices (roi a)) g s i}"
    and "region_features a seed (finish_component a prev c f)"
    and "0 < area (fcomp f)" and "fvalues f \<noteq> []"
proof -
  let ?M = "region (mask_bits (fcomp f))" and ?r = "roi a"
  have S: "grid.search_inv ?r g old s (visited f) (mask_bits (fcomp f)) []" and st: "fill_stats a seed f"
    using inv assms(3) by (simp_all add: fill_inv_def)
  show M: "?M = {i. linked (next_indices (roi a)) g s i}" by (rule grid.search_end(1) [OF S])
  then have sM: "s \<in> ?M" by (simp add: linked_start)
  then have ne: "?M \<noteq> {}" by blast
  have sub: "?M \<subseteq> region g" using S unfolding grid.search_inv_def by blast
  note F = st [unfolded fill_stats_def Let_def]
  show "0 < area (fcomp f)" using F ne by (simp add: card_gt_0_iff)
  have b: "rx ?r \<le> fx ?r i \<and> fx ?r i \<le> rx ?r + rwidth ?r \<and> ry ?r \<le> fy ?r i \<and> fy ?r i \<le> ry ?r + rheight ?r \<and>
      0 \<le> roiRawValues a ! i" if "i \<in> ?M" for i
    using that sub g grid_bounds(1) [of ?r i] by (auto simp: grid_masks_def region_def fx_def fy_def)
  have vals: "mset (fvalues f) = mset (map ((!) (roiRawValues a)) (filter (\<lambda>i. mask_bits (fcomp f) ! i) [0..<length (mask_bits (fcomp f))]))"
    unfolding mset_region using F by blast
  show "fvalues f \<noteq> []" using F ne by (auto simp: mset_set_empty_iff)
  have "1 \<le> card (?M \<inter> region seed)" using sM s by (auto simp: Suc_le_eq card_gt_0_iff)
  then show "region_features a seed (finish_component a prev c f)"
    using F b ne percentile_mset [OF vals]
    unfolding region_features_def Let_def finish_component_fields
    by (simp add: Min_insert_above Max_insert_below del: Min_insert Max_insert)
qed

section \<open>All regions\<close>

definition found_regions :: "frame_analysis \<Rightarrow> bool list \<Rightarrow> bool list \<Rightarrow> bool list \<Rightarrow> component list \<Rightarrow> bool" where
  "found_regions a seed g vis ks \<longleftrightarrow> length vis = thermalRoiArea (roi a) \<and> region vis \<subseteq> region g \<and>
     grid.closed (roi a) g (region vis) \<and>
     region vis = \<Union> ((\<lambda>k. region (mask_bits k)) ` set ks) \<and>
     (\<forall>k\<in>set ks. region_features a seed k \<and>
        (\<exists>s\<in>region seed. region (mask_bits k) = {i. linked (next_indices (roi a)) g s i})) \<and>
     (\<forall>p<length ks. \<forall>q<length ks. p \<noteq> q \<longrightarrow> region (mask_bits (ks ! p)) \<inter> region (mask_bits (ks ! q)) = {})"

lemma disjoint_append:
  assumes "\<forall>p<length ks. \<forall>q<length ks. p \<noteq> q \<longrightarrow> A (ks ! p) \<inter> A (ks ! q) = {}" and "A k \<inter> \<Union> (A ` set ks) = {}"
  shows "\<forall>p<length (ks @ [k]). \<forall>q<length (ks @ [k]). p \<noteq> q \<longrightarrow> A ((ks @ [k]) ! p) \<inter> A ((ks @ [k]) ! q) = {}"
  using assms by (auto simp: nth_append less_Suc_eq disjoint_iff)

lemma found_regions_step:
  assumes g: "grid_masks a seed g" and found: "found_regions a seed g vis ks"
    and s: "s \<in> region seed" "\<not> vis ! s"
  shows "\<exists>f. fill_region a seed g (fill_start a s vis) = Some f \<and> 0 < area (fcomp f) \<and> fvalues f \<noteq> [] \<and>
    found_regions a seed g (visited f) (ks @ [finish_component a prev c f]) \<and>
    region vis \<subseteq> region (visited f) \<and> s \<in> region (visited f)"
proof -
  note K = found [unfolded found_regions_def]
  have "fill_inv a seed g (region vis) s (fill_start a s vis)"
    using fill_start_inv [OF g _ _ _ s] K by blast
  from fill_region_ends [OF g this] obtain f where f: "fill_region a seed g (fill_start a s vis) = Some f"
    "fill_inv a seed g (region vis) s f" "stack f = []" by blast
  note e = fill_end(1) [OF g f(2,3) s(1)] fill_end(2) [OF g f(2,3) s(1), where prev = prev and c = c]
    fill_end(3,4) [OF g f(2,3) s(1)]
  have S: "grid.search_inv (roi a) g (region vis) s (visited f) (mask_bits (fcomp f)) []"
    using f by (simp add: fill_inv_def)
  note E = grid.search_end [OF S]
  have len: "length (visited f) = thermalRoiArea (roi a)" using S unfolding grid.search_inv_def by blast
  let ?k = "finish_component a prev c f"
  have new: "region (mask_bits ?k) \<inter> \<Union> ((\<lambda>k. region (mask_bits k)) ` set ks) = {}"
    using E(5) K by (auto simp: finish_component_fields)
  have "found_regions a seed g (visited f) (ks @ [?k])"
    unfolding found_regions_def
  proof (intro conjI)
    show "region (visited f) = \<Union> ((\<lambda>k. region (mask_bits k)) ` set (ks @ [?k]))"
      using E(2) K by (simp add: finish_component_fields Un_commute)
    show "\<forall>k\<in>set (ks @ [?k]). region_features a seed k \<and>
        (\<exists>s\<in>region seed. region (mask_bits k) = {i. linked (next_indices (roi a)) g s i})"
      using K e(1,2) s(1) by (auto simp: finish_component_fields)
    show "\<forall>p<length (ks @ [?k]). \<forall>q<length (ks @ [?k]). p \<noteq> q \<longrightarrow>
        region (mask_bits ((ks @ [?k]) ! p)) \<inter> region (mask_bits ((ks @ [?k]) ! q)) = {}"
      using K new by (intro disjoint_append) blast+
  qed (use len E(3,4) in auto)
  moreover have "s \<in> region (visited f)" using e(1) E(2) by (simp add: linked_start)
  ultimately show ?thesis using f(1) e(3,4) E(2) by blast
qed

lemma search_regions_found:
  assumes g: "grid_masks a seed g" and "found_regions a seed g vis ks" and "\<forall>i\<in>set idxs. i < thermalRoiArea (roi a)"
  shows "\<exists>ks' vis'. search_regions a seed g prev c idxs vis ks = Some ks' \<and> found_regions a seed g vis' ks' \<and>
    region vis \<subseteq> region vis' \<and> (\<forall>i\<in>set idxs. seed ! i \<longrightarrow> i \<in> region vis')"
  using assms(2,3)
proof (induction idxs arbitrary: vis ks)
  case Nil
  then show ?case by auto
next
  case (Cons i idxs)
  have i: "i < thermalRoiArea (roi a)" "\<forall>i\<in>set idxs. i < thermalRoiArea (roi a)" using Cons.prems by simp_all
  show ?case
  proof (cases "\<not> seed ! i \<or> vis ! i")
    case True
    have len: "length vis = thermalRoiArea (roi a)" using Cons.prems(1) by (simp add: found_regions_def)
    from Cons.IH [OF Cons.prems(1) i(2)] obtain ks' vis' where
      IH: "search_regions a seed g prev c idxs vis ks = Some ks'" "found_regions a seed g vis' ks'"
      "region vis \<subseteq> region vis'" "\<forall>i\<in>set idxs. seed ! i \<longrightarrow> i \<in> region vis'" by blast
    moreover have "seed ! i \<longrightarrow> i \<in> region vis'" using True IH(3) i(1) len by (auto simp: region_def)
    ultimately show ?thesis using True by (intro exI [where x = ks'] exI [where x = vis']) simp
  next
    case False
    have s: "i \<in> region seed" "\<not> vis ! i" using False g i by (auto simp: region_def grid_masks_def)
    from found_regions_step [OF g Cons.prems(1) s, of prev c] obtain f where
      f: "fill_region a seed g (fill_start a i vis) = Some f" "0 < area (fcomp f)" "fvalues f \<noteq> []"
      "found_regions a seed g (visited f) (ks @ [finish_component a prev c f])"
      "region vis \<subseteq> region (visited f)" "i \<in> region (visited f)" by blast
    from Cons.IH [OF f(4) i(2)] obtain ks' vis' where
      IH: "search_regions a seed g prev c idxs (visited f) (ks @ [finish_component a prev c f]) = Some ks'"
      "found_regions a seed g vis' ks'" "region (visited f) \<subseteq> region vis'"
      "\<forall>i\<in>set idxs. seed ! i \<longrightarrow> i \<in> region vis'" by blast
    then show ?thesis using False f by (intro exI [where x = ks'] exI [where x = vis']) auto
  qed
qed

section \<open>The rounded square root\<close>

lemma isqrt_bounds: "isqrt n * isqrt n \<le> n \<and> n < (isqrt n + 1) * (isqrt n + 1)"
proof (induction n rule: isqrt.induct)
  case (1 n)
  show ?case
  proof (cases "n = 0")
    case True
    then show ?thesis by (simp add: isqrt.simps)
  next
    case False
    define k where "k = isqrt (n div 4)"
    have IH: "k * k \<le> n div 4" "n div 4 < (k + 1) * (k + 1)" using 1 False by (auto simp: k_def)
    have "n = 4 * (n div 4) + n mod 4" "n mod 4 < 4" by simp_all
    with IH have "4 * (k * k) \<le> n" "n < 4 * ((k + 1) * (k + 1))" by linarith+
    then have "2 * k * (2 * k) \<le> n" "n < (2 * k + 2) * (2 * k + 2)" by (simp_all add: algebra_simps)
    moreover have "isqrt n = (if (2 * k + 1) * (2 * k + 1) \<le> n then 2 * k + 1 else 2 * k)"
      using False by (subst isqrt.simps) (simp add: Let_def k_def)
    ultimately show ?thesis by (auto simp: not_le)
  qed
qed

lemma llround_sqrt_round: "int (llround_sqrt n) = round (sqrt (real n))"
proof -
  define k where "k = isqrt n"
  have k: "k * k \<le> n" "n < (k + 1) * (k + 1)" using isqrt_bounds [of n] by (simp_all add: k_def)
  show ?thesis
  proof (cases "n - k * k > k")
    case True
    then have "k * k + k + 1 \<le> n" using k by linarith
    then have "real (k * k + k + 1) \<le> real n" by (simp only: of_nat_le_iff)
    then have "(real k + 1 / 2)\<^sup>2 \<le> real n" by (simp add: power2_eq_square algebra_simps)
    then have lo: "real k + 1 / 2 \<le> sqrt (real n)" by (rule real_le_rsqrt)
    have "real n < real ((k + 1) * (k + 1))" using k by (simp only: of_nat_less_iff)
    then have "sqrt (real n) < real k + 1" by (intro real_less_lsqrt) (simp_all add: power2_eq_square algebra_simps)
    then have "round (sqrt (real n)) = int (k + 1)" using lo by (intro round_unique) auto
    then show ?thesis using True by (simp add: llround_sqrt_def Let_def k_def)
  next
    case False
    then have "n \<le> k * k + k" using k by linarith
    then have "real n \<le> real (k * k + k)" by (simp only: of_nat_le_iff)
    then have "sqrt (real n) < real k + 1 / 2"
      by (intro real_less_lsqrt) (simp_all add: power2_eq_square algebra_simps)
    moreover have "real k \<le> sqrt (real n)" using k by (intro real_le_rsqrt) (simp add: power2_eq_square flip: of_nat_mult)
    ultimately have "round (sqrt (real n)) = int k" by (intro round_unique') (auto simp: abs_if)
    then show ?thesis using False by (simp add: llround_sqrt_def Let_def k_def)
  qed
qed

section \<open>Verdict and claims\<close>

lemma search_regions_finished:
  "search_regions a seed g prev c idxs vis ks = Some ks' \<Longrightarrow>
   \<forall>k\<in>set ks'. k \<in> set ks \<or> (\<exists>f. k = finish_component a prev c f)"
  by (induction idxs arbitrary: vis ks) (fastforce split: if_splits option.splits)+

definition verdict :: "'a event_config_scheme \<Rightarrow> component \<Rightarrow> bool" where
  "verdict c k \<longleftrightarrow> component_area_min c \<le> area k \<and> area k \<le> component_area_max c \<and>
     local_contrast_min c \<le> localContrast k \<and> aspect_ratio_min c \<le> aspectRatio k \<and>
     (hasThermalEventTipAnchor c \<longrightarrow> 0 \<le> distanceToTipPx k \<and> distanceToTipPx k \<le> tip_distance_max_px c)"

lemma finish_verdict:
  "comp_valid (finish_component a prev c f) \<longleftrightarrow> verdict c (finish_component a prev c f)"
  "rejectionReason (finish_component a prev c f) = ''ok'' \<longleftrightarrow> comp_valid (finish_component a prev c f)"
  "rejectionReason (finish_component a prev c f) \<in>
     {''ok'', ''area_too_small'', ''area_too_large'', ''low_contrast'', ''low_aspect_ratio'', ''tip_distance_unknown'', ''too_far_from_tip''}"
  by (auto simp: finish_component_def rate_component_def verdict_def Let_def not_less)

lemma finish_distance:
  fixes c :: "'a event_config_scheme"
  assumes "hasThermalEventTipAnchor c" and "0 \<le> centerX (finish_component a prev c f)" and "0 \<le> centerY (finish_component a prev c f)"
  shows "distanceToTipPx (finish_component a prev c f) =
     round (sqrt (real_of_int ((centerX (finish_component a prev c f) - tip_x c)\<^sup>2 + (centerY (finish_component a prev c f) - tip_y c)\<^sup>2)))"
proof -
  let ?k = "finish_component a prev c f"
  have "distanceToTipPx ?k = int (llround_sqrt (nat ((centerX ?k - tip_x c) * (centerX ?k - tip_x c) +
      (centerY ?k - tip_y c) * (centerY ?k - tip_y c))))"
    using assms unfolding finish_component_fields
    by (simp add: finish_component_def rate_component_def Let_def computeThermalDistanceToTipPx_def)
  then show ?thesis by (simp add: llround_sqrt_round power2_eq_square)
qed

lemma mean_bounds:
  fixes h :: "nat \<Rightarrow> int"
  assumes "finite M" "M \<noteq> {}"
  shows "Min (h ` M) \<le> sum h M div int (card M) \<and> sum h M div int (card M) \<le> Max (h ` M)"
proof -
  have c: "0 < int (card M)" using assms by (simp add: card_gt_0_iff)
  have "int (card M) * Min (h ` M) \<le> sum h M" using sum_bounded_below [of M "Min (h ` M)" h] assms by simp
  moreover have "sum h M \<le> int (card M) * Max (h ` M)" using sum_bounded_above [of M h "Max (h ` M)"] assms by simp
  ultimately show ?thesis using c by (metis nonzero_mult_div_cancel_left order_less_irrefl zdiv_mono1)
qed

lemma analysis_grid_masks:
  assumes "an_valid (analyzeThermalEventFrame frame cfg)" and "growT \<le> seedT"
  shows "grid_masks (analyzeThermalEventFrame frame cfg) (threshold_mask (analyzeThermalEventFrame frame cfg) seedT)
    (threshold_mask (analyzeThermalEventFrame frame cfg) growT)"
proof -
  have "length (roiRawValues (analyzeThermalEventFrame frame cfg)) = thermalRoiArea (normalizeThermalEventRoi cfg)"
    using analyze_valid(1) [OF assms(1)] by (simp add: length_roi_pixels)
  then show ?thesis using assms(2) by (auto simp: grid_masks_def threshold_mask_def region_def)
qed

lemma extract_found:
  assumes "an_valid (analyzeThermalEventFrame frame cfg)" and "growT \<le> seedT"
  defines "a \<equiv> analyzeThermalEventFrame frame cfg"
  shows "\<exists>ks vis. extractThermalEventComponents a seedT growT prev c = Some ks \<and>
    found_regions a (threshold_mask a seedT) (threshold_mask a growT) vis ks \<and>
    region (threshold_mask a seedT) \<subseteq> region vis \<and> (\<forall>k\<in>set ks. \<exists>f. k = finish_component a prev c f)"
proof -
  let ?seed = "threshold_mask a seedT" and ?g = "threshold_mask a growT"
  have g: "grid_masks a ?seed ?g" unfolding a_def by (rule analysis_grid_masks [OF assms(1,2)])
  then have len: "length ?seed = thermalRoiArea (roi a)" by (simp add: grid_masks_def)
  have start: "found_regions a ?seed ?g (replicate (length ?seed) False) []"
    using len by (simp add: found_regions_def grid.closed_def)
  from search_regions_found [OF g start, of "[0..<length ?seed]" prev c] obtain ks vis where
    s: "search_regions a ?seed ?g prev c [0..<length ?seed] (replicate (length ?seed) False) [] = Some ks"
    "found_regions a ?seed ?g vis ks" "\<forall>i\<in>set [0..<length ?seed]. ?seed ! i \<longrightarrow> i \<in> region vis" using len by auto
  have "extractThermalEventComponents a seedT growT prev c = Some ks"
    using s(1) by (simp add: extractThermalEventComponents_def buildThermalThresholdMasks_def)
  moreover have "region ?seed \<subseteq> region vis" using s(3) by (auto simp: region_def)
  ultimately show ?thesis using s(2) search_regions_finished [OF s(1)] by auto
qed

text \<open>C6: the search for hot regions always ends, and it finds exactly the connected regions. Take a
  valid analysis and a grow threshold not above the seed threshold. Every component found is the set
  of all pixels that can be reached from a pixel above the seed threshold by steps to one of the
  eight pixels that touch it inside the region of interest, over pixels above the grow threshold; different
  components share no pixel; and every pixel above the seed threshold is in a component.\<close>

theorem regions_exact:
  assumes "an_valid (analyzeThermalEventFrame frame cfg)" and "growT \<le> seedT"
  defines "a \<equiv> analyzeThermalEventFrame frame cfg"
  shows "\<exists>ks. extractThermalEventComponents a seedT growT prev c = Some ks \<and>
    (\<forall>k\<in>set ks. \<exists>s<thermalRoiArea (roi a). 0 \<le> roiRawValues a ! s \<and> seedT \<le> roiRawValues a ! s \<and>
       region (mask_bits k) = {i. (touching (roi a) (\<lambda>j. 0 \<le> roiRawValues a ! j \<and> growT \<le> roiRawValues a ! j))\<^sup>*\<^sup>* s i}) \<and>
    (\<forall>p<length ks. \<forall>q<length ks. p \<noteq> q \<longrightarrow> region (mask_bits (ks ! p)) \<inter> region (mask_bits (ks ! q)) = {}) \<and>
    (\<forall>i<thermalRoiArea (roi a). 0 \<le> roiRawValues a ! i \<and> seedT \<le> roiRawValues a ! i \<longrightarrow>
       (\<exists>k\<in>set ks. i \<in> region (mask_bits k)))"
proof -
  obtain ks vis where k: "extractThermalEventComponents a seedT growT prev c = Some ks"
    "found_regions a (threshold_mask a seedT) (threshold_mask a growT) vis ks"
    "region (threshold_mask a seedT) \<subseteq> region vis"
    unfolding a_def using extract_found [OF assms(1,2)] by blast
  have len: "length (roiRawValues a) = thermalRoiArea (roi a)"
    using analyze_valid(1) [OF assms(1)] by (simp add: a_def length_roi_pixels)
  then have seed: "region (threshold_mask a seedT) =
      {i. i < thermalRoiArea (roi a) \<and> 0 \<le> roiRawValues a ! i \<and> seedT \<le> roiRawValues a ! i}"
    by (auto simp: region_def threshold_mask_def)
  note K = k(2) [unfolded found_regions_def seed]
  have roi: "roi_inside (roi a)" by (simp add: a_def)
  have link: "s < thermalRoiArea (roi a) \<Longrightarrow> linked (next_indices (roi a)) (threshold_mask a growT) s i \<longleftrightarrow>
      (touching (roi a) (\<lambda>j. 0 \<le> roiRawValues a ! j \<and> growT \<le> roiRawValues a ! j))\<^sup>*\<^sup>* s i" for s i
    by (rule linked_touching [OF roi]) (simp_all add: len threshold_mask_def not_less)
  have hot_region: "\<forall>k\<in>set ks. \<exists>s<thermalRoiArea (roi a). 0 \<le> roiRawValues a ! s \<and> seedT \<le> roiRawValues a ! s \<and>
       region (mask_bits k) = {i. (touching (roi a) (\<lambda>j. 0 \<le> roiRawValues a ! j \<and> growT \<le> roiRawValues a ! j))\<^sup>*\<^sup>* s i}"
  proof
    fix k assume "k \<in> set ks"
    then obtain s where s: "s < thermalRoiArea (roi a)" "0 \<le> roiRawValues a ! s" "seedT \<le> roiRawValues a ! s"
      "region (mask_bits k) = {i. linked (next_indices (roi a)) (threshold_mask a growT) s i}" using K by fast
    then show "\<exists>s<thermalRoiArea (roi a). 0 \<le> roiRawValues a ! s \<and> seedT \<le> roiRawValues a ! s \<and>
       region (mask_bits k) = {i. (touching (roi a) (\<lambda>j. 0 \<le> roiRawValues a ! j \<and> growT \<le> roiRawValues a ! j))\<^sup>*\<^sup>* s i}"
      by (intro exI [of _ s] conjI) (simp_all only: link [OF s(1)])
  qed
  have "\<forall>i<thermalRoiArea (roi a). 0 \<le> roiRawValues a ! i \<and> seedT \<le> roiRawValues a ! i \<longrightarrow>
       (\<exists>k\<in>set ks. i \<in> region (mask_bits k))"
    using K k(3) [unfolded seed] by fast
  moreover have "\<forall>p<length ks. \<forall>q<length ks. p \<noteq> q \<longrightarrow> region (mask_bits (ks ! p)) \<inter> region (mask_bits (ks ! q)) = {}"
    using K by (elim conjE)
  ultimately show ?thesis using k(1) hot_region by (intro exI [where x = ks] conjI)
qed

lemma regions_exact_witness:
  "\<exists>ks. extractThermalEventComponents (analyzeThermalEventFrame (sample_frame 1 [9000, 8600, 7000]) sample_config) 8800 8500 [] sample_config
     = Some ks \<and> (\<exists>k\<in>set ks. 0 \<in> region (mask_bits k))"
proof -
  let ?a = "analyzeThermalEventFrame (sample_frame 1 [9000, 8600, 7000]) sample_config"
  have v: "an_valid ?a" by code_simp
  have "0 < thermalRoiArea (roi ?a)" "0 \<le> roiRawValues ?a ! 0" "8800 \<le> roiRawValues ?a ! 0" by code_simp+
  then show ?thesis using regions_exact [OF v, of 8500 8800 "[]" sample_config] by auto
qed

text \<open>C19: every component found reports the features of its own pixels: their number, the number of
  seeds (at least one), their bounding box, their highest value and 90% percentile, and their mean
  position rounded down, which lies in the bounding box and in the picture; the distance to the
  configured tip is the Euclidean distance rounded to the nearest pixel. The component is valid
  exactly when its area, contrast and aspect ratio are within the configured limits and, where a tip
  is configured, it is near enough; the reason given is "ok" exactly then, and the reason
  "tip_anchor_disabled" that the code also writes never occurs.\<close>

theorem region_features_exact:
  fixes c :: "'a event_config_scheme"
  assumes "an_valid (analyzeThermalEventFrame frame cfg)" and "growT \<le> seedT"
    and "extractThermalEventComponents (analyzeThermalEventFrame frame cfg) seedT growT prev c = Some ks" and "k \<in> set ks"
  shows "region_features (analyzeThermalEventFrame frame cfg) (threshold_mask (analyzeThermalEventFrame frame cfg) seedT) k \<and>
    minX k \<le> centerX k \<and> centerX k \<le> maxX k \<and> minY k \<le> centerY k \<and> centerY k \<le> maxY k \<and>
    0 \<le> minX k \<and> maxX k < kThermalWidth \<and> 0 \<le> minY k \<and> maxY k < kThermalHeight \<and>
    (hasThermalEventTipAnchor c \<longrightarrow> distanceToTipPx k =
       round (sqrt (real_of_int ((centerX k - tip_x c)\<^sup>2 + (centerY k - tip_y c)\<^sup>2)))) \<and>
    (comp_valid k \<longleftrightarrow> verdict c k) \<and> (rejectionReason k = ''ok'' \<longleftrightarrow> comp_valid k) \<and>
    rejectionReason k \<noteq> ''tip_anchor_disabled'' \<and> rejectionReason k \<noteq> ''rejected''"
proof -
  let ?a = "analyzeThermalEventFrame frame cfg" let ?M = "region (mask_bits k)"
  obtain vis f where F: "found_regions ?a (threshold_mask ?a seedT) (threshold_mask ?a growT) vis ks"
    and f: "k = finish_component ?a prev c f"
    using extract_found [OF assms(1,2), of prev c] assms(3,4) by auto
  have feat: "region_features ?a (threshold_mask ?a seedT) k" using F assms(4) by (auto simp: found_regions_def)
  note R = feat [unfolded region_features_def Let_def]
  have ne: "?M \<noteq> {}" using R by auto
  have g: "roi_inside (roi ?a)" "length (threshold_mask ?a growT) = thermalRoiArea (roi ?a)"
    using analysis_grid_masks [OF assms(1,2)] by (simp_all add: grid_masks_def)
  have "?M \<subseteq> region (threshold_mask ?a growT)" using F assms(4) by (auto simp: found_regions_def)
  then have box: "0 \<le> fx (roi ?a) i \<and> fx (roi ?a) i < kThermalWidth \<and> 0 \<le> fy (roi ?a) i \<and> fy (roi ?a) i < kThermalHeight"
    if "i \<in> ?M" for i
    using that g grid_bounds(1) [of "roi ?a" i] by (auto simp: region_def fx_def fy_def roi_inside_def simp del: analyze_roi)
  have inside: "0 \<le> minX k \<and> maxX k < kThermalWidth \<and> 0 \<le> minY k \<and> maxY k < kThermalHeight"
    using R ne box by (simp add: Min_ge_iff)
  have centre: "minX k \<le> centerX k \<and> centerX k \<le> maxX k \<and> minY k \<le> centerY k \<and> centerY k \<le> maxY k"
    using R ne mean_bounds [of ?M "fx (roi ?a)"] mean_bounds [of ?M "fy (roi ?a)"] by simp
  show ?thesis
    using feat inside centre finish_distance [of c ?a prev f] finish_verdict [of ?a prev c f] unfolding f by auto
qed

lemma region_features_exact_witness:
  "\<exists>k. extractThermalEventComponents (analyzeThermalEventFrame (sample_frame 1 [9000, 8600, 7000]) sample_config) 8800 8500 [] sample_config
     = Some [k] \<and> area k = 2 \<and> comp_valid k = verdict sample_config k"
proof -
  let ?a = "analyzeThermalEventFrame (sample_frame 1 [9000, 8600, 7000]) sample_config"
  let ?e = "extractThermalEventComponents ?a 8800 8500 [] sample_config"
  have v: "an_valid ?a" by code_simp
  have "case ?e of None \<Rightarrow> False | Some ks \<Rightarrow> length ks = 1 \<and> area (hd ks) = 2" by code_simp
  then obtain k where e: "?e = Some [k]" and "area k = 2"
    by (auto simp: length_Suc_conv split: option.splits)
  then show ?thesis using region_features_exact [OF v _ e, of k] by simp
qed

end
