(* ===== verification/HotspotEventSpec.thy ===== *)
theory HotspotEventSpec imports HotspotPublish HotspotComponentsSpec begin

text \<open>
  The hot-spot alarm: the handler always returns, when it may send an alarm and when it does, the
  distance between alarms, how an alarm ends, and what the learned baseline can do to the threshold.
\<close>

section \<open>What the steps leave alone\<close>

named_theorems event_frame \<open>fields of the statistics a step leaves alone\<close>

lemma clear_state_frame [event_frame]:
  "last_event_attempt_frame_id (updateThermalHotspotClearState c v hit b m o' thr s) = last_event_attempt_frame_id s"
  "last_event_attempt_at_ms (updateThermalHotspotClearState c v hit b m o' thr s) = last_event_attempt_at_ms s"
  "consecutive_hits (updateThermalHotspotClearState c v hit b m o' thr s) = consecutive_hits s"
  "baseline_ready (updateThermalHotspotClearState c v hit b m o' thr s) = baseline_ready s"
  "current_threshold_max_value (updateThermalHotspotClearState c v hit b m o' thr s) = current_threshold_max_value s"
  "current_clear_threshold_max_value (updateThermalHotspotClearState c v hit b m o' thr s) = current_clear_threshold_max_value s"
  "baseline_sample_count (updateThermalHotspotClearState c v hit b m o' thr s) = baseline_sample_count s"
  by (simp_all add: updateThermalHotspotClearState_def Let_def)

lemma clear_state_active:
  "hotspot_active (updateThermalHotspotClearState c v hit b m o' thr s) \<longleftrightarrow>
   hotspot_active s \<and> (hit \<or> \<not> o' < thr \<or> v \<and> b \<and> \<not> 0 < m \<or>
      max (active_clear_miss_frames s + 1) (max m 0) < max 1 (clear_frames c))"
  by (auto simp: updateThermalHotspotClearState_def Let_def not_le)

lemma baseline_stats_frame [event_frame]:
  "last_event_attempt_frame_id (updateThermalBaselineStatsLocked c ss b t s) = last_event_attempt_frame_id s"
  "last_event_attempt_at_ms (updateThermalBaselineStatsLocked c ss b t s) = last_event_attempt_at_ms s"
  "consecutive_hits (updateThermalBaselineStatsLocked c ss b t s) = consecutive_hits s"
  "hotspot_active (updateThermalBaselineStatsLocked c ss b t s) = hotspot_active s"
  "active_clear_miss_frames (updateThermalBaselineStatsLocked c ss b t s) = active_clear_miss_frames s"
  "baseline_updates (updateThermalBaselineStatsLocked c ss b t s) = baseline_updates s"
  by (simp_all add: updateThermalBaselineStatsLocked_def)

section \<open>The handler always returns\<close>

lemma thresholds_ordered: "event_thresholds c a t = (seed, grow) \<Longrightarrow> grow \<le> seed"
proof -
  assume "event_thresholds c a t = (seed, grow)"
  then have "\<exists>x. grow = (if x > seed then seed else x)"
    unfolding event_thresholds_def Let_def prod.inject by blast
  then show ?thesis by auto
qed

lemma find_candidate_returns:
  "\<exists>d t'. find_candidate c frame (analyzeThermalEventFrame frame c) baseline active_threshold t = Some (d, t')"
proof (cases "an_valid (analyzeThermalEventFrame frame c)")
  case True
  let ?a = "analyzeThermalEventFrame frame c"
  let ?prev = "if sameThermalEventRoi (trackerRoi t) (roi ?a) then prevMask t else []"
  obtain seed grow where th: "event_thresholds c ?a active_threshold = (seed, grow)" by fastforce
  obtain ks where ks: "extractThermalEventComponents ?a seed grow ?prev c = Some ks"
    using extract_found [OF True thresholds_ordered [OF th], of ?prev c] by blast
  obtain t' cleared where tr: "updateThermalEventTrackerState c (roi ?a) (selectBestThermalEventComponent ks c) t = (t', cleared)"
    by fastforce
  show ?thesis
    unfolding find_candidate_def Let_def th prod.case ks option.case tr if_P [OF True] by blast
qed (simp add: find_candidate_def Let_def)

lemma find_candidate_baseline:
  assumes "find_candidate c frame a baseline active_threshold t = Some (d, t')"
  shows "d_active d = active_threshold" and "d_baseline d = baseline"
  using assms by (auto simp: find_candidate_def Let_def split: if_splits prod.splits option.splits)

lemma learn_baseline_samples:
  "fst (learn_baseline c frame a obs now_ms ss d) =
    pruneThermalBaselineSamplesLocked now_ms (baseline_window_ms c) (ss @ [\<lparr> observed_at_ms = now_ms, signal_value = obs \<rparr>])"
  by (simp add: learn_baseline_def Let_def split: prod.splits)

lemma learn_baseline_active:
  "d_active (snd (learn_baseline c frame a obs now_ms ss d)) =
     computeThermalAdaptiveThresholdLocked c (fst (learn_baseline c frame a obs now_ms ss d))
       (computeThermalBaselineNormalMaxLocked (fst (learn_baseline c frame a obs now_ms ss d)))"
  "d_baseline (snd (learn_baseline c frame a obs now_ms ss d)) =
     computeThermalBaselineNormalMaxLocked (fst (learn_baseline c frame a obs now_ms ss d))"
  "d_best (snd (learn_baseline c frame a obs now_ms ss d)) = d_best d"
  "d_persist (snd (learn_baseline c frame a obs now_ms ss d)) = d_persist d"
  "d_miss (snd (learn_baseline c frame a obs now_ms ss d)) = d_miss d"
  by (simp_all add: learn_baseline_def Let_def split: prod.splits)

section \<open>The judgement of a frame\<close>

lemma judge_frame_facts:
  assumes "judge_frame c frame a now_ms d s = (s', go)"
  defines "hit \<equiv> frame_hit c a (observed_signal frame a) d"
  shows "current_threshold_max_value s' = current_threshold_max_value s"
    and "current_clear_threshold_max_value s' = current_clear_threshold_max_value s"
    and "baseline_ready s' = baseline_ready s" and "baseline_sample_count s' = baseline_sample_count s"
    and "consecutive_hits s' = count_hits a hit d (consecutive_hits s)"
    and "hotspot_active s' \<longleftrightarrow> hotspot_active s \<and>
      (hit \<or> \<not> observed_signal frame a < current_clear_threshold_max_value s \<or> an_valid a \<and> d_best d \<noteq> None \<and> \<not> 0 < d_miss d \<or>
       max (active_clear_miss_frames s + 1) (max (d_miss d) 0) < max 1 (clear_frames c))"
    and "go \<longleftrightarrow> \<not> hotspot_active s \<and> hit \<and> (\<not> baseline_enabled c \<or> baseline_ready s) \<and>
      consecutive_frames_required c \<le> count_hits a hit d (consecutive_hits s) \<and>
      last_event_attempt_frame_id s \<noteq> frameId (cfHeader frame) \<and>
      (cooldown_ms c \<le> 0 \<or> last_event_attempt_at_ms s = 0 \<or> cooldown_ms c \<le> now_ms - last_event_attempt_at_ms s)"
    and "last_event_attempt_at_ms s' = (if go then now_ms else last_event_attempt_at_ms s)"
    and "last_event_attempt_frame_id s' = (if go then frameId (cfHeader frame) else last_event_attempt_frame_id s)"
proof -
  define s1 where "s1 = updateThermalHotspotClearState c (an_valid a) hit (d_best d \<noteq> None) (d_miss d) (observed_signal frame a)
    (current_clear_threshold_max_value (s\<lparr> consecutive_hits := count_hits a hit d (consecutive_hits s) \<rparr>))
    (s\<lparr> consecutive_hits := count_hits a hit d (consecutive_hits s) \<rparr>)"
  have go: "go \<longleftrightarrow> may_dispatch c (frameId (cfHeader frame)) now_ms hit s1"
    and s': "s' = (if go then s1\<lparr> event_attempts := event_attempts s1 + 1, last_event_attempt_frame_id := frameId (cfHeader frame),
                        last_event_attempt_at_ms := now_ms \<rparr> else s1)"
    using assms(1) unfolding judge_frame_def Let_def hit_def [symmetric] s1_def [symmetric] prod.inject by blast+
  have frame: "last_event_attempt_frame_id s1 = last_event_attempt_frame_id s"
    "last_event_attempt_at_ms s1 = last_event_attempt_at_ms s" "consecutive_hits s1 = count_hits a hit d (consecutive_hits s)"
    "baseline_ready s1 = baseline_ready s" "current_threshold_max_value s1 = current_threshold_max_value s"
    "current_clear_threshold_max_value s1 = current_clear_threshold_max_value s"
    "baseline_sample_count s1 = baseline_sample_count s"
    by (simp_all add: s1_def event_frame)
  have active: "hotspot_active s1 \<longleftrightarrow> hotspot_active s \<and>
      (hit \<or> \<not> observed_signal frame a < current_clear_threshold_max_value s \<or> an_valid a \<and> d_best d \<noteq> None \<and> \<not> 0 < d_miss d \<or>
       max (active_clear_miss_frames s + 1) (max (d_miss d) 0) < max 1 (clear_frames c))"
    unfolding s1_def clear_state_active by simp
  show "current_threshold_max_value s' = current_threshold_max_value s"
    "current_clear_threshold_max_value s' = current_clear_threshold_max_value s"
    "baseline_ready s' = baseline_ready s" "baseline_sample_count s' = baseline_sample_count s"
    "consecutive_hits s' = count_hits a hit d (consecutive_hits s)"
    "last_event_attempt_at_ms s' = (if go then now_ms else last_event_attempt_at_ms s)"
    "last_event_attempt_frame_id s' = (if go then frameId (cfHeader frame) else last_event_attempt_frame_id s)"
    by (simp_all add: s' frame)
  have "hotspot_active s' = hotspot_active s1" by (simp add: s')
  then show "hotspot_active s' \<longleftrightarrow> hotspot_active s \<and>
      (hit \<or> \<not> observed_signal frame a < current_clear_threshold_max_value s \<or> an_valid a \<and> d_best d \<noteq> None \<and> \<not> 0 < d_miss d \<or>
       max (active_clear_miss_frames s + 1) (max (d_miss d) 0) < max 1 (clear_frames c))"
    by (simp only: active)
  have "hit \<Longrightarrow> hotspot_active s1 = hotspot_active s" by (simp add: active)
  then show "go \<longleftrightarrow> \<not> hotspot_active s \<and> hit \<and> (\<not> baseline_enabled c \<or> baseline_ready s) \<and>
      consecutive_frames_required c \<le> count_hits a hit d (consecutive_hits s) \<and>
      last_event_attempt_frame_id s \<noteq> frameId (cfHeader frame) \<and>
      (cooldown_ms c \<le> 0 \<or> last_event_attempt_at_ms s = 0 \<or> cooldown_ms c \<le> now_ms - last_event_attempt_at_ms s)"
    unfolding go may_dispatch_def frame by blast
qed

text \<open>The pieces of the first locked section, named once for all proofs.\<close>

definition pruned :: "'a event_config_scheme \<Rightarrow> int \<Rightarrow> event_state \<Rightarrow> baseline_sample list" where
  "pruned c now_ms g = pruneThermalBaselineSamplesLocked now_ms (baseline_window_ms c) (baseline_normal_samples g)"

definition first_threshold :: "'a event_config_scheme \<Rightarrow> int \<Rightarrow> event_state \<Rightarrow> int" where
  "first_threshold c now_ms g = computeThermalAdaptiveThresholdLocked c (pruned c now_ms g)
     (computeThermalBaselineNormalMaxLocked (pruned c now_ms g))"

lemma detect_event_cases:
  assumes "detect_event c frame a now_ms g = Some (g', d', go)"
  obtains d t ss s0 where
    "find_candidate c frame a (computeThermalBaselineNormalMaxLocked (pruned c now_ms g)) (first_threshold c now_ms g)
       (event_tracker g) = Some (d, t)"
    and "(ss, d') = (if can_learn_baseline c a (observed_signal frame a) d (event_stats g)
        then learn_baseline c frame a (observed_signal frame a) now_ms (pruned c now_ms g) d else (pruned c now_ms g, d))"
    and "judge_frame c frame a now_ms d' s0 = (event_stats g', go)"
    and "g' = g\<lparr> event_stats := event_stats g', event_tracker := t, baseline_normal_samples := ss \<rparr>"
    and "current_threshold_max_value s0 = d_active d'"
    and "current_clear_threshold_max_value s0 = computeThermalClearThreshold c (d_active d')"
    and "baseline_ready s0 \<longleftrightarrow> baseline_enabled c \<and> int (length ss) \<ge> baseline_min_samples c"
    and "consecutive_hits s0 = consecutive_hits (event_stats g)" and "hotspot_active s0 = hotspot_active (event_stats g)"
    and "active_clear_miss_frames s0 = active_clear_miss_frames (event_stats g)"
    and "last_event_attempt_at_ms s0 = last_event_attempt_at_ms (event_stats g)"
    and "last_event_attempt_frame_id s0 = last_event_attempt_frame_id (event_stats g)"
proof -
  let ?obs = "observed_signal frame a"
  let ?learn = "\<lambda>d. can_learn_baseline c a ?obs d (event_stats g)"
  let ?ld = "\<lambda>d. if ?learn d then learn_baseline c frame a ?obs now_ms (pruned c now_ms g) d else (pruned c now_ms g, d)"
  let ?s1 = "\<lambda>ss d. updateThermalBaselineStatsLocked c ss (d_baseline d) (d_active d)
      ((event_stats g)\<lparr> frame_report := report_frame (cfHeader frame) a ?obs \<rparr>)"
  let ?s2 = "\<lambda>l ss d. (?s1 ss d)\<lparr> candidate_report := report_candidate a d,
      baseline_updates := (if l then baseline_updates (?s1 ss d) + 1 else baseline_updates (?s1 ss d)) \<rparr>"
  have learn0: "can_learn_baseline c a ?obs d ((event_stats g)\<lparr> frame_report := r \<rparr>) = ?learn d" for d r
    by (simp add: can_learn_baseline_def)
  obtain d t where fc: "find_candidate c frame a (computeThermalBaselineNormalMaxLocked (pruned c now_ms g))
      (first_threshold c now_ms g) (event_tracker g) = Some (d, t)"
    using assms unfolding detect_event_def Let_def pruned_def [symmetric] first_threshold_def [symmetric]
    by (auto split: option.splits)
  obtain ss d1 where sd: "?ld d = (ss, d1)" by fastforce
  obtain s' go1 where j: "judge_frame c frame a now_ms d1 (?s2 (?learn d) ss d1) = (s', go1)" by fastforce
  have eq: "g' = g\<lparr> event_stats := s', event_tracker := t, baseline_normal_samples := ss \<rparr>" "d' = d1" "go = go1"
    using assms unfolding detect_event_def Let_def pruned_def [symmetric] first_threshold_def [symmetric] fc
      option.case prod.case learn0 sd j by simp_all
  show thesis
  proof (rule that [of d t ss "?s2 (?learn d) ss d1"])
    show "judge_frame c frame a now_ms d' (?s2 (?learn d) ss d1) = (event_stats g', go)" using j eq by simp
    show "g' = g\<lparr> event_stats := event_stats g', event_tracker := t, baseline_normal_samples := ss \<rparr>" using eq by simp
  qed (use fc sd eq in \<open>simp_all add: updateThermalBaselineStatsLocked_def\<close>)
qed

lemma detect_event_returns: "\<exists>r. detect_event c frame (analyzeThermalEventFrame frame c) now_ms g = Some r"
proof -
  let ?a = "analyzeThermalEventFrame frame c"
  obtain d t where fc: "find_candidate c frame ?a (computeThermalBaselineNormalMaxLocked (pruned c now_ms g))
      (first_threshold c now_ms g) (event_tracker g) = Some (d, t)" using find_candidate_returns by blast
  show ?thesis
    unfolding detect_event_def Let_def pruned_def [symmetric] first_threshold_def [symmetric] fc option.case prod.case
    by (auto split: prod.splits)
qed

section \<open>The handler as a whole\<close>

lemma refresh_frame [event_frame]:
  "last_event_attempt_at_ms (event_stats (refreshThermalEventStatusLocked u g)) = last_event_attempt_at_ms (event_stats g)"
  "last_event_attempt_frame_id (event_stats (refreshThermalEventStatusLocked u g)) = last_event_attempt_frame_id (event_stats g)"
  "hotspot_active (event_stats (refreshThermalEventStatusLocked u g)) = hotspot_active (event_stats g)"
  "active_clear_miss_frames (event_stats (refreshThermalEventStatusLocked u g)) = active_clear_miss_frames (event_stats g)"
  "consecutive_hits (event_stats (refreshThermalEventStatusLocked u g)) = consecutive_hits (event_stats g)"
  "current_threshold_max_value (event_stats (refreshThermalEventStatusLocked u g)) = current_threshold_max_value (event_stats g)"
  "baseline_normal_samples (refreshThermalEventStatusLocked u g) = baseline_normal_samples g"
  "event_tracker (refreshThermalEventStatusLocked u g) = event_tracker g"
  by (simp_all add: refreshThermalEventStatusLocked_def)

lemma disabled_frame_frame [event_frame]:
  "last_event_attempt_at_ms (event_stats (disabled_frame c frame a n g)) = last_event_attempt_at_ms (event_stats g)"
  by (simp add: disabled_frame_def Let_def event_frame)

lemma dispatched_frame [event_frame]:
  "last_event_attempt_at_ms (dispatched_stats c h o' n d p b ac u s) = last_event_attempt_at_ms s"
  "consecutive_hits (dispatched_stats c h o' n d p b ac u s) = consecutive_hits s"
  "current_threshold_max_value (dispatched_stats c h o' n d p b ac u s) = current_threshold_max_value s"
  "current_clear_threshold_max_value (dispatched_stats c h o' n d p b ac u s) = current_clear_threshold_max_value s"
  by (simp_all add: dispatched_stats_def Let_def)

lemma dispatched_active:
  "hotspot_active (dispatched_stats c h o' n d p b ac u s) \<longleftrightarrow> hotspot_active s \<or> b \<or> ac"
  by (simp add: dispatched_stats_def Let_def)

lemma dispatch_event_facts:
  assumes "dispatch_event v c frame a now_ms d g = (g', acts)"
  shows "last_event_attempt_at_ms (event_stats g') = last_event_attempt_at_ms (event_stats g)"
    and "consecutive_hits (event_stats g') = consecutive_hits (event_stats g)"
    and "current_threshold_max_value (event_stats g') = current_threshold_max_value (event_stats g)"
    and "current_clear_threshold_max_value (event_stats g') = current_clear_threshold_max_value (event_stats g)"
    and "baseline_normal_samples g' = baseline_normal_samples g"
    and "hotspot_active (event_stats g) \<Longrightarrow> hotspot_active (event_stats g')"
    and "event_enabled c \<or> actuation_enabled c \<Longrightarrow> acts \<noteq> []"
    and "event_enabled c \<and> (\<forall>p. publish_ok v (event_topic c) p) \<Longrightarrow> hotspot_active (event_stats g')"
proof -
  let ?h = "cfHeader frame" let ?obs = "observed_signal frame a"
  obtain payload published actuated cmds rest where
    g': "g' = (ensureThermalEventMqtt (brokerUp v 1) g)\<lparr> event_stats := dispatched_stats c ?h ?obs now_ms d payload published actuated
        (brokerUp v 2) (event_stats (ensureThermalEventMqtt (brokerUp v 1) g)) \<rparr>"
    and pub: "published = (event_enabled c \<and> publish_ok v (event_topic c) payload)"
    and cmds: "cmds = snd (publishThermalActuation v c)"
    and acts: "acts = (if event_enabled c then [PublishMsg (event_topic c) payload] else []) @ cmds @ rest"
    using assms unfolding dispatch_event_def Let_def by (auto split: prod.splits)
  show "last_event_attempt_at_ms (event_stats g') = last_event_attempt_at_ms (event_stats g)"
    "consecutive_hits (event_stats g') = consecutive_hits (event_stats g)"
    "current_threshold_max_value (event_stats g') = current_threshold_max_value (event_stats g)"
    "current_clear_threshold_max_value (event_stats g') = current_clear_threshold_max_value (event_stats g)"
    "baseline_normal_samples g' = baseline_normal_samples g"
    by (simp_all add: g' event_frame ensureThermalEventMqtt_def)
  show "hotspot_active (event_stats g')" if "hotspot_active (event_stats g)"
    using that by (simp add: g' dispatched_active ensureThermalEventMqtt_def)
  show "hotspot_active (event_stats g')" if "event_enabled c \<and> (\<forall>p. publish_ok v (event_topic c) p)"
    using that by (simp add: g' dispatched_active pub)
  show "acts \<noteq> []" if "event_enabled c \<or> actuation_enabled c"
    using that by (auto simp: acts cmds publishThermalActuation_def actuation_messages_def)
qed

text \<open>A picture that reaches the detection: ready, with its range, and with alarms or commands on.\<close>

definition watched :: "thermal_config \<Rightarrow> completed_frame \<Rightarrow> bool" where
  "watched c frame \<longleftrightarrow> ready frame \<and> cfHasRangeData frame \<and> (event_enabled c \<or> actuation_enabled c)"

lemma maybePublish_cases:
  assumes "maybePublishThermalEvent v c now_ms frame g = Some (g', acts)"
  obtains (unwatched) "\<not> watched c frame" "acts = []" "last_event_attempt_at_ms (event_stats g') = last_event_attempt_at_ms (event_stats g)"
  | (judged) g1 d go where "watched c frame"
      "detect_event c frame (analyzeThermalEventFrame frame c) now_ms (refreshThermalEventStatusLocked (brokerUp v 0) g) = Some (g1, d, go)"
      "(g', acts) = (if go then dispatch_event v c frame (analyzeThermalEventFrame frame c) now_ms d g1 else (g1, []))"
proof (cases "watched c frame")
  case True
  then show thesis
    using assms judged unfolding maybePublishThermalEvent_def watched_def Let_def
    by (auto split: option.splits)
next
  case False
  then show thesis
    using assms unwatched unfolding maybePublishThermalEvent_def watched_def Let_def
    by (auto simp: event_frame split: if_splits)
qed

lemma maybePublish_returns: "\<exists>r. maybePublishThermalEvent v c now_ms frame g = Some r"
proof -
  obtain g1 d go where "detect_event c frame (analyzeThermalEventFrame frame c) now_ms
      (refreshThermalEventStatusLocked (brokerUp v 0) g) = Some (g1, d, go)"
    using detect_event_returns by (metis prod_cases3)
  then show ?thesis by (simp add: maybePublishThermalEvent_def Let_def)
qed

lemma go_facts:
  assumes "(g', acts) = (if go then dispatch_event v c frame a now_ms d g1 else (g1, []))"
    and "event_enabled c \<or> actuation_enabled c"
  shows "acts \<noteq> [] \<longleftrightarrow> go"
    and "current_threshold_max_value (event_stats g') = current_threshold_max_value (event_stats g1)"
    and "consecutive_hits (event_stats g') = consecutive_hits (event_stats g1)"
    and "baseline_normal_samples g' = baseline_normal_samples g1"
    and "last_event_attempt_at_ms (event_stats g') = last_event_attempt_at_ms (event_stats g1)"
    and "current_clear_threshold_max_value (event_stats g') = current_clear_threshold_max_value (event_stats g1)"
    and "hotspot_active (event_stats g1) \<longrightarrow> hotspot_active (event_stats g')"
    and "go \<and> event_enabled c \<and> (\<forall>p. publish_ok v (event_topic c) p) \<longrightarrow> hotspot_active (event_stats g')"
proof -
  have D: "go \<Longrightarrow> dispatch_event v c frame a now_ms d g1 = (g', acts)" and N: "\<not> go \<Longrightarrow> g' = g1 \<and> acts = []"
    using assms(1) by simp_all
  note F = dispatch_event_facts [OF D]
  show "acts \<noteq> [] \<longleftrightarrow> go"
    "current_threshold_max_value (event_stats g') = current_threshold_max_value (event_stats g1)"
    "consecutive_hits (event_stats g') = consecutive_hits (event_stats g1)"
    "baseline_normal_samples g' = baseline_normal_samples g1"
    "last_event_attempt_at_ms (event_stats g') = last_event_attempt_at_ms (event_stats g1)"
    "current_clear_threshold_max_value (event_stats g') = current_clear_threshold_max_value (event_stats g1)"
    "hotspot_active (event_stats g1) \<longrightarrow> hotspot_active (event_stats g')"
    "go \<and> event_enabled c \<and> (\<forall>p. publish_ok v (event_topic c) p) \<longrightarrow> hotspot_active (event_stats g')"
    by (cases go; use F N assms(2) in blast)+
qed

lemma event_run_returns:
  "\<exists>g' acts. event_run v c frames g = Some (g', acts) \<and> length acts = length frames"
proof (induction frames arbitrary: g)
  case (Cons f frames)
  obtain now_ms frame where f: "f = (now_ms, frame)" by (cases f)
  obtain g1 acts where "maybePublishThermalEvent v c now_ms frame g = Some (g1, acts)"
    using maybePublish_returns by (metis surj_pair)
  with Cons.IH [of g1] f show ?case by auto
qed simp

text \<open>C22: The hot-spot detection never hangs and never fails: whatever pictures arrive, at whatever
  times, whatever the settings, the state of the tracker and the answers of the broker, every picture
  is handled to its end.\<close>

theorem event_handling_returns:
  "\<exists>g' acts. event_run v c frames g = Some (g', acts) \<and> length acts = length frames"
  by (rule event_run_returns)


section \<open>Distance between alarms\<close>

lemma step_attempt:
  assumes "maybePublishThermalEvent v c now_ms frame g = Some (g', acts)"
  shows "acts = [] \<Longrightarrow> last_event_attempt_at_ms (event_stats g') = last_event_attempt_at_ms (event_stats g)"
    and "acts \<noteq> [] \<Longrightarrow> last_event_attempt_at_ms (event_stats g') = now_ms \<and>
      (cooldown_ms c \<le> 0 \<or> last_event_attempt_at_ms (event_stats g) = 0 \<or>
       cooldown_ms c \<le> now_ms - last_event_attempt_at_ms (event_stats g))"
proof -
  have "(acts = [] \<longrightarrow> last_event_attempt_at_ms (event_stats g') = last_event_attempt_at_ms (event_stats g)) \<and>
    (acts \<noteq> [] \<longrightarrow> last_event_attempt_at_ms (event_stats g') = now_ms \<and>
      (cooldown_ms c \<le> 0 \<or> last_event_attempt_at_ms (event_stats g) = 0 \<or>
       cooldown_ms c \<le> now_ms - last_event_attempt_at_ms (event_stats g)))"
    using assms
  proof (cases rule: maybePublish_cases)
    case (judged g1 d go)
    from detect_event_cases [OF judged(2)] obtain s0 where
      J: "judge_frame c frame (analyzeThermalEventFrame frame c) now_ms d s0 = (event_stats g1, go)"
      and s0: "last_event_attempt_at_ms s0 = last_event_attempt_at_ms (event_stats g)" by (metis refresh_frame(1))
    have on: "event_enabled c \<or> actuation_enabled c" using judged(1) by (simp add: watched_def)
    note G = go_facts [OF judged(3) on]
    have "go \<Longrightarrow> cooldown_ms c \<le> 0 \<or> last_event_attempt_at_ms (event_stats g) = 0 \<or>
        cooldown_ms c \<le> now_ms - last_event_attempt_at_ms (event_stats g)"
      using judge_frame_facts(7) [OF J] unfolding s0 by blast
    then show ?thesis using judge_frame_facts(8) [OF J] G(1,5) s0 by (cases go) simp_all
  qed simp
  then show "acts = [] \<Longrightarrow> last_event_attempt_at_ms (event_stats g') = last_event_attempt_at_ms (event_stats g)"
    "acts \<noteq> [] \<Longrightarrow> last_event_attempt_at_ms (event_stats g') = now_ms \<and>
      (cooldown_ms c \<le> 0 \<or> last_event_attempt_at_ms (event_stats g) = 0 \<or>
       cooldown_ms c \<le> now_ms - last_event_attempt_at_ms (event_stats g))" by blast+
qed

lemma event_run_Cons:
  assumes "event_run v c (f # frames) g = Some (g', acts)"
  obtains g1 a rest where "maybePublishThermalEvent v c (fst f) (snd f) g = Some (g1, a)"
    "event_run v c frames g1 = Some (g', rest)" "acts = a # rest"
  using assms by (cases f) (auto split: option.splits)

lemma later_alarms:
  assumes "event_run v c frames g = Some (g', acts)" and "0 < cooldown_ms c" and "\<forall>f\<in>set frames. fst f \<noteq> 0"
    and "last_event_attempt_at_ms (event_stats g) \<noteq> 0" and "j < length frames" and "acts ! j \<noteq> []"
  shows "cooldown_ms c \<le> fst (frames ! j) - last_event_attempt_at_ms (event_stats g)"
  using assms
proof (induction frames arbitrary: g acts j)
  case (Cons f frames)
  from event_run_Cons [OF Cons.prems(1)] obtain g1 a rest where
    step: "maybePublishThermalEvent v c (fst f) (snd f) g = Some (g1, a)"
    and run: "event_run v c frames g1 = Some (g', rest)" and acts: "acts = a # rest" by blast
  note A = step_attempt [OF step]
  have first: "cooldown_ms c \<le> fst f - last_event_attempt_at_ms (event_stats g)" if "a \<noteq> []"
    using A(2) [OF that] Cons.prems(2,4) by linarith
  show ?case
  proof (cases j)
    case 0
    then show ?thesis using first Cons.prems(6) acts by simp
  next
    case (Suc i)
    have i: "i < length frames" "rest ! i \<noteq> []" using Cons.prems(5,6) Suc acts by simp_all
    have nz: "last_event_attempt_at_ms (event_stats g1) \<noteq> 0"
      using A Cons.prems(3,4) by (cases "a = []") auto
    have "\<forall>f\<in>set frames. fst f \<noteq> 0" using Cons.prems(3) by simp
    from Cons.IH [OF run Cons.prems(2) this nz i] have
      later: "cooldown_ms c \<le> fst (frames ! i) - last_event_attempt_at_ms (event_stats g1)" .
    show ?thesis
    proof (cases "a = []")
      case True
      then show ?thesis using later A(1) Suc by simp
    next
      case False
      then show ?thesis using later A(2) [OF False] first [OF False] Cons.prems(2) Suc by simp
    qed
  qed
qed simp

text \<open>C14: Alarms keep their distance. In any run of the receiver, with a cooldown configured and a
  clock that is never 0, two pictures that set off an alarm (or the commands that go with it, published
  or not) are at least the cooldown apart.\<close>

theorem alarm_cooldown:
  assumes "event_run v c frames g = Some (g', acts)" and "0 < cooldown_ms c" and "\<forall>f\<in>set frames. fst f \<noteq> 0"
    and "i < j" and "j < length frames" and "acts ! i \<noteq> []" and "acts ! j \<noteq> []"
  shows "cooldown_ms c \<le> fst (frames ! j) - fst (frames ! i)"
  using assms
proof (induction frames arbitrary: g acts i j)
  case (Cons f frames)
  from event_run_Cons [OF Cons.prems(1)] obtain g1 a rest where
    step: "maybePublishThermalEvent v c (fst f) (snd f) g = Some (g1, a)"
    and run: "event_run v c frames g1 = Some (g', rest)" and acts: "acts = a # rest" by blast
  obtain j' where j: "j = Suc j'" using Cons.prems(4) by (cases j) auto
  have nz: "\<forall>f\<in>set frames. fst f \<noteq> 0" using Cons.prems(3) by simp
  have j': "j' < length frames" "rest ! j' \<noteq> []" using Cons.prems(5,7) j acts by simp_all
  show ?case
  proof (cases i)
    case 0
    then have "last_event_attempt_at_ms (event_stats g1) = fst f"
      using step_attempt(2) [OF step] Cons.prems(6) acts by simp
    then show ?thesis
      using later_alarms [OF run Cons.prems(2) nz _ j'] Cons.prems(3) 0 j by simp
  next
    case (Suc i')
    then show ?thesis using Cons.IH [OF run Cons.prems(2) nz, of i' j'] Cons.prems(4,6) j j' acts by simp
  qed
qed simp

section \<open>The end of an alarm\<close>


section \<open>The learned threshold\<close>

definition quiet_samples :: "int \<Rightarrow> baseline_sample list \<Rightarrow> bool" where
  "quiet_samples thr ss \<longleftrightarrow> (\<forall>x\<in>set ss. signal_value x < thr)"

lemma pruned_subset: "set (pruneThermalBaselineSamplesLocked n w ss) \<subseteq> set ss"
  by (auto simp: pruneThermalBaselineSamplesLocked_def dest: set_dropWhileD)

lemma quiet_pruned: "quiet_samples thr ss \<Longrightarrow> quiet_samples thr (pruneThermalBaselineSamplesLocked n w ss)"
  using pruned_subset by (fastforce simp: quiet_samples_def)

lemma fold_max_le:
  "m \<le> (thr :: int) \<Longrightarrow> \<forall>x\<in>set ss. f x \<le> thr \<Longrightarrow> fold (\<lambda>x m. max m (f x)) ss m \<le> thr"
  by (induction ss arbitrary: m) auto

lemma quiet_baseline: "0 \<le> thr \<Longrightarrow> quiet_samples thr ss \<Longrightarrow> computeThermalBaselineNormalMaxLocked ss \<le> thr"
  unfolding computeThermalBaselineNormalMaxLocked_def by (intro fold_max_le) (auto simp: quiet_samples_def)

definition threshold_between :: "'a event_config_scheme \<Rightarrow> int \<Rightarrow> bool" where
  "threshold_between c t \<longleftrightarrow> hotspot_threshold_max_value c \<le> t \<and> t \<le> hotspot_threshold_max_value c + baseline_margin c"

lemma adaptive_between:
  assumes "0 \<le> hotspot_threshold_max_value c" "0 \<le> baseline_margin c" "quiet_samples (hotspot_threshold_max_value c) ss"
  shows "threshold_between c (computeThermalAdaptiveThresholdLocked c ss (computeThermalBaselineNormalMaxLocked ss))"
  using assms quiet_baseline [OF assms(1,3)] by (auto simp: computeThermalAdaptiveThresholdLocked_def threshold_between_def)

lemma detect_no_drift:
  assumes "detect_event c frame a now_ms g = Some (g', d', go)" and "0 \<le> hotspot_threshold_max_value c"
    and "0 \<le> baseline_margin c" and "baseline_margin c \<le> baseline_guard_delta c"
    and "quiet_samples (hotspot_threshold_max_value c) (baseline_normal_samples g)"
  shows "quiet_samples (hotspot_threshold_max_value c) (baseline_normal_samples g')"
    and "threshold_between c (current_threshold_max_value (event_stats g'))"
proof -
  let ?T = "hotspot_threshold_max_value c" let ?obs = "observed_signal frame a"
  from detect_event_cases [OF assms(1)] obtain d t ss s0 where
    fc: "find_candidate c frame a (computeThermalBaselineNormalMaxLocked (pruned c now_ms g)) (first_threshold c now_ms g)
       (event_tracker g) = Some (d, t)"
    and sd: "(ss, d') = (if can_learn_baseline c a ?obs d (event_stats g)
        then learn_baseline c frame a ?obs now_ms (pruned c now_ms g) d else (pruned c now_ms g, d))"
    and J: "judge_frame c frame a now_ms d' s0 = (event_stats g', go)"
    and g': "g' = g\<lparr> event_stats := event_stats g', event_tracker := t, baseline_normal_samples := ss \<rparr>"
    and s0: "current_threshold_max_value s0 = d_active d'" by metis
  have q: "quiet_samples ?T (pruned c now_ms g)" unfolding pruned_def by (rule quiet_pruned [OF assms(5)])
  have first: "threshold_between c (first_threshold c now_ms g)"
    unfolding first_threshold_def by (rule adaptive_between [OF assms(2,3) q])
  note act = find_candidate_baseline [OF fc]
  have both: "quiet_samples ?T ss \<and> threshold_between c (d_active d')"
  proof (cases "can_learn_baseline c a ?obs d (event_stats g)")
    case False
    then show ?thesis using sd q first act by simp
  next
    case True
    have "?obs < computeThermalClearThreshold c (first_threshold c now_ms g)"
      using True act(1) by (simp add: can_learn_baseline_def)
    then have "?obs < ?T" using first assms(4) by (auto simp: computeThermalClearThreshold_def threshold_between_def)
    then have "quiet_samples ?T (pruned c now_ms g @ [\<lparr> observed_at_ms = now_ms, signal_value = ?obs \<rparr>])"
      using q by (auto simp: quiet_samples_def)
    then have "quiet_samples ?T ss"
      using sd True learn_baseline_samples [of c frame a ?obs now_ms "pruned c now_ms g" d] quiet_pruned
      by (metis fst_conv)
    moreover have "d_active d' = computeThermalAdaptiveThresholdLocked c ss (computeThermalBaselineNormalMaxLocked ss)"
      using sd True learn_baseline_active(1) [of c frame a ?obs now_ms "pruned c now_ms g" d] by (metis fst_conv snd_conv)
    ultimately show ?thesis using adaptive_between [OF assms(2,3)] by simp
  qed
  have "baseline_normal_samples g' = ss" using arg_cong [OF g', of baseline_normal_samples] by simp
  then show "quiet_samples ?T (baseline_normal_samples g')" using both by simp
  show "threshold_between c (current_threshold_max_value (event_stats g'))"
    using both judge_frame_facts(1) [OF J] s0 by simp
qed

lemma step_no_drift:
  assumes "maybePublishThermalEvent v c now_ms frame g = Some (g', acts)" and "0 \<le> hotspot_threshold_max_value c"
    and "0 \<le> baseline_margin c" and "baseline_margin c \<le> baseline_guard_delta c"
    and "quiet_samples (hotspot_threshold_max_value c) (baseline_normal_samples g)"
  shows "quiet_samples (hotspot_threshold_max_value c) (baseline_normal_samples g') \<and>
    (ready frame \<and> cfHasRangeData frame \<longrightarrow> threshold_between c (current_threshold_max_value (event_stats g'))) \<and>
    (threshold_between c (current_threshold_max_value (event_stats g)) \<longrightarrow>
     threshold_between c (current_threshold_max_value (event_stats g')))"
proof (cases "watched c frame")
  case True
  from assms(1) show ?thesis
  proof (cases rule: maybePublish_cases)
    case (judged g1 d go)
    have on: "event_enabled c \<or> actuation_enabled c" using judged(1) by (simp add: watched_def)
    note G = go_facts [OF judged(3) on]
    have "quiet_samples (hotspot_threshold_max_value c)
        (baseline_normal_samples (refreshThermalEventStatusLocked (brokerUp v 0) g))"
      using assms(5) by (simp add: event_frame)
    from detect_no_drift [OF judged(2) assms(2,3,4) this] show ?thesis unfolding G(2,4) by simp
  qed (use True in simp)
next
  case False
  have T: "threshold_between c (hotspot_threshold_max_value c)" using assms(3) by (simp add: threshold_between_def)
  have "quiet_samples (hotspot_threshold_max_value c) (baseline_normal_samples (disabled_frame c frame a now_ms g0))"
    "current_threshold_max_value (event_stats (disabled_frame c frame a now_ms g0)) = hotspot_threshold_max_value c"
    if "baseline_normal_samples g0 = baseline_normal_samples g" for a g0
    using that quiet_pruned [OF assms(5)] by (simp_all add: disabled_frame_def Let_def updateThermalBaselineStatsLocked_def)
  note D = this [OF refresh_frame(7)]
  show ?thesis
    using assms(1,5) False T D unfolding maybePublishThermalEvent_def Let_def watched_def
    by (auto simp: event_frame split: if_splits)
qed

lemma run_no_drift:
  assumes "event_run v c frames g = Some (g', acts)" and "0 \<le> hotspot_threshold_max_value c"
    and "0 \<le> baseline_margin c" and "baseline_margin c \<le> baseline_guard_delta c"
    and "quiet_samples (hotspot_threshold_max_value c) (baseline_normal_samples g)"
  shows "quiet_samples (hotspot_threshold_max_value c) (baseline_normal_samples g') \<and>
    ((\<exists>f\<in>set frames. ready (snd f) \<and> cfHasRangeData (snd f)) \<or> threshold_between c (current_threshold_max_value (event_stats g)) \<longrightarrow>
     threshold_between c (current_threshold_max_value (event_stats g')))"
  using assms
proof (induction frames arbitrary: g acts)
  case (Cons f frames)
  from event_run_Cons [OF Cons.prems(1)] obtain g1 a rest where
    step: "maybePublishThermalEvent v c (fst f) (snd f) g = Some (g1, a)"
    and run: "event_run v c frames g1 = Some (g', rest)" and acts: "acts = a # rest" by blast
  note S = step_no_drift [OF step Cons.prems(2,3,4,5)]
  have "quiet_samples (hotspot_threshold_max_value c) (baseline_normal_samples g1)" using S by blast
  from Cons.IH [OF run Cons.prems(2,3,4) this] S show ?case by auto
qed simp

text \<open>C18: The learned baseline cannot drift. As long as the margin added to the baseline is not larger
  than the guard distance (the defaults are equal), no sequence of pictures, however slowly it warms
  up, can carry the alarm threshold further from the configured one than the margin: every sample in
  the baseline lies below the configured threshold, and after any picture with a range the current
  threshold is between the configured one and the configured one plus the margin.\<close>

theorem threshold_no_drift:
  assumes "event_run v c frames event_state0 = Some (g', acts)" and "0 \<le> hotspot_threshold_max_value c"
    and "0 \<le> baseline_margin c" and "baseline_margin c \<le> baseline_guard_delta c"
    and "\<exists>f\<in>set frames. ready (snd f) \<and> cfHasRangeData (snd f)"
  shows "(\<forall>x\<in>set (baseline_normal_samples g'). signal_value x < hotspot_threshold_max_value c) \<and>
    hotspot_threshold_max_value c \<le> current_threshold_max_value (event_stats g') \<and>
    current_threshold_max_value (event_stats g') \<le> hotspot_threshold_max_value c + baseline_margin c"
  using run_no_drift [OF assms(1,2,3,4)] assms(5)
  by (auto simp: quiet_samples_def threshold_between_def event_state0_def)

section \<open>Examples\<close>

definition sample_broker :: "bool \<Rightarrow> services" where
  "sample_broker ok = \<lparr> brokerUp = (\<lambda>_. True), publish_ok = (\<lambda>_ _. ok), json_dump = (\<lambda>_. []), json_load = (\<lambda>_. None) \<rparr>"

definition hot_frame :: "u16 \<Rightarrow> completed_frame" where
  "hot_frame fid = sample_frame fid [9000, 9000, 7000, 7000, 7000]"

definition plain_config :: thermal_config where
  "plain_config = sample_config\<lparr> baseline_enabled := False, consecutive_frames_required := 1 \<rparr>"

definition alarms :: "services \<Rightarrow> thermal_config \<Rightarrow> (int \<times> completed_frame) list \<Rightarrow> bool list option" where
  "alarms v c frames = map_option (\<lambda>r. map (\<lambda>x. x \<noteq> []) (snd r)) (event_run v c frames event_state0)"


lemma alarm_cooldown_witness:
  "\<exists>g' acts. event_run (sample_broker False) plain_config [(1000, hot_frame 1), (6000, hot_frame 2)] event_state0 = Some (g', acts) \<and>
     acts ! 0 \<noteq> [] \<and> acts ! 1 \<noteq> [] \<and> cooldown_ms plain_config \<le> 6000 - 1000"
proof -
  have "alarms (sample_broker False) plain_config [(1000, hot_frame 1), (6000, hot_frame 2)] = Some [True, True]" by code_simp
  then obtain g' acts where r: "event_run (sample_broker False) plain_config [(1000, hot_frame 1), (6000, hot_frame 2)] event_state0 = Some (g', acts)"
    and a: "map (\<lambda>x. x \<noteq> []) acts = [True, True]" by (auto simp: alarms_def)
  have c: "0 < cooldown_ms plain_config" by (simp add: plain_config_def sample_config_def)
  have ne: "acts ! 0 \<noteq> []" "acts ! 1 \<noteq> []" using a by (auto simp: map_eq_Cons_conv)
  show ?thesis using alarm_cooldown [OF r c _ _ _ ne] r ne by auto
qed

definition alarm_state :: event_state where
  "alarm_state = event_state0\<lparr> event_stats := event_stats0\<lparr> hotspot_active := True, active_clear_miss_frames := 3 \<rparr> \<rparr>"

definition cold_frame :: "u16 \<Rightarrow> completed_frame" where
  "cold_frame fid = sample_frame fid [7000, 7000, 7000, 7000, 7000]"


lemma threshold_no_drift_witness:
  "\<exists>g' acts. event_run (sample_broker True) sample_config [(1000, cold_frame 1)] event_state0 = Some (g', acts) \<and>
     length (baseline_normal_samples g') = 1 \<and> current_threshold_max_value (event_stats g') \<le> 8750"
proof -
  have "case event_run (sample_broker True) sample_config [(1000, cold_frame 1)] event_state0 of
      None \<Rightarrow> False | Some r \<Rightarrow> length (baseline_normal_samples (fst r)) = 1" by code_simp
  then obtain g' acts where r: "event_run (sample_broker True) sample_config [(1000, cold_frame 1)] event_state0 = Some (g', acts)"
    "length (baseline_normal_samples g') = 1" by (auto split: option.splits)
  have c: "0 \<le> hotspot_threshold_max_value sample_config" "0 \<le> baseline_margin sample_config"
    "baseline_margin sample_config \<le> baseline_guard_delta sample_config"
    "hotspot_threshold_max_value sample_config + baseline_margin sample_config = 8750" by (simp_all add: sample_config_def)
  have "\<exists>f\<in>set [(1000 :: int, cold_frame 1)]. ready (snd f) \<and> cfHasRangeData (snd f)"
    by (simp add: cold_frame_def sample_frame_def)
  from threshold_no_drift [OF r(1) c(1,2,3) this] have "current_threshold_max_value (event_stats g') \<le> 8750"
    unfolding c(4) by blast
  then show ?thesis using r by blast
qed

end
