(* ===== verification/HotspotSteady.thy ===== *)
theory HotspotSteady imports HotspotEventSpec begin

text \<open>
  A steady hot spot can stay without an alarm for ever: a candidate scores a point for pixels that
  were not hot in the last picture, so a spot that stands still scores less in its second picture
  than in its first, and with the score limit between the two no second hit follows the first.
\<close>

lemma raw16_frame_id:
  "valid_pixel (sample_frame fid vs) x y = valid_pixel (sample_frame 1 vs) x y"
  by (simp add: valid_pixel_def decodeThermalFramePixelRaw_def sample_frame_def)

lemma analysis_frame_id: "analyzeThermalEventFrame (sample_frame fid vs) c = analyzeThermalEventFrame (sample_frame 1 vs) c"
proof -
  have "scan_pixel (sample_frame fid vs) r = scan_pixel (sample_frame 1 vs) r" for r
    unfolding scan_pixel_def raw16_frame_id [of fid] by simp
  moreover have "ready (sample_frame fid vs) = ready (sample_frame 1 vs)"
    "cfHasRangeData (sample_frame fid vs) = cfHasRangeData (sample_frame 1 vs)"
    "framePayload (sample_frame fid vs) = framePayload (sample_frame 1 vs)"
    "encoding (sample_frame fid vs) = encoding (sample_frame 1 vs)" by (simp_all add: sample_frame_def)
  ultimately show ?thesis unfolding analyzeThermalEventFrame_def by (simp cong: if_cong)
qed

lemma count_frame_id:
  "countThermalPixelsAtOrAboveThreshold (sample_frame fid vs) a t = countThermalPixelsAtOrAboveThreshold (sample_frame 1 vs) a t"
  unfolding countThermalPixelsAtOrAboveThreshold_def raw16_frame_id [of fid] by simp

lemma candidate_frame_id:
  "find_candidate c (sample_frame fid vs) a b th t = find_candidate c (sample_frame 1 vs) a b th t"
  unfolding find_candidate_def count_frame_id [of fid] by simp

definition strict_config :: thermal_config where
  "strict_config = sample_config\<lparr> baseline_enabled := False, score_min := 9 \<rparr>"

definition hot_analysis :: frame_analysis where
  "hot_analysis = analyzeThermalEventFrame (hot_frame 1) strict_config"

definition seen_once :: "int \<Rightarrow> tracker_state" where
  "seen_once n = \<lparr> persistFrames = 1, missFrames = n, lastCenterX = 0, lastCenterY = 0,
     trackerRoi = \<lparr> rx = 0, ry = 0, rwidth = 5, rheight = 1 \<rparr>, prevMask = [True, True, False, False, False] \<rparr>"

definition cycle :: "tracker_state list" where
  "cycle = [tracker_state0, seen_once 0, seen_once 1, seen_once 2, seen_once 3]"

definition cycle_step :: "tracker_state \<Rightarrow> bool" where
  "cycle_step t = (case find_candidate strict_config (hot_frame 1) hot_analysis 0 8500 t of
     None \<Rightarrow> False | Some (d, t') \<Rightarrow> t' \<in> set cycle \<and> d_persist d \<le> 1)"

lemma cycle_steps:
  "cycle_step tracker_state0" "cycle_step (seen_once 0)" "cycle_step (seen_once 1)" "cycle_step (seen_once 2)"
  "cycle_step (seen_once 3)"
  by code_simp+

lemma hot_analysis_valid: "an_valid hot_analysis"
  by code_simp

lemma in_cycle:
  assumes "t \<in> set cycle" and "find_candidate strict_config (hot_frame 1) hot_analysis 0 8500 t = Some (d, t')"
  shows "t' \<in> set cycle" and "d_persist d \<le> 1"
proof -
  have "cycle_step t" using assms(1) cycle_steps by (auto simp: cycle_def)
  then show "t' \<in> set cycle" "d_persist d \<le> 1" using assms(2) by (auto simp: cycle_step_def)
qed

lemma strict_simps:
  "baseline_enabled strict_config = False" "hotspot_threshold_max_value strict_config = 8500"
  "consecutive_frames_required strict_config = 2" "event_enabled strict_config"
  by (simp_all add: strict_config_def sample_config_def)

lemma steady_step:
  assumes t: "event_tracker g \<in> set cycle" and b: "baseline_normal_samples g = []"
    and step: "maybePublishThermalEvent v strict_config now_ms (hot_frame fid) g = Some (g', acts)"
  shows "event_tracker g' \<in> set cycle \<and> baseline_normal_samples g' = [] \<and> acts = []"
  using step
proof (cases rule: maybePublish_cases)
  case unwatched
  have "watched strict_config (hot_frame fid)"
    by (simp add: watched_def strict_simps hot_frame_def sample_frame_def)
  with unwatched show ?thesis by simp
next
  case (judged g1 d go)
  let ?g0 = "refreshThermalEventStatusLocked (brokerUp v 0) g"
  have a: "analyzeThermalEventFrame (hot_frame fid) strict_config = hot_analysis"
    unfolding hot_analysis_def hot_frame_def by (rule analysis_frame_id)
  note det = judged(2) [unfolded a]
  from detect_event_cases [OF det] obtain d0 t ss s0 where
    fc: "find_candidate strict_config (hot_frame fid) hot_analysis (computeThermalBaselineNormalMaxLocked (pruned strict_config now_ms ?g0))
       (first_threshold strict_config now_ms ?g0) (event_tracker ?g0) = Some (d0, t)"
    and sd: "(ss, d) = (if can_learn_baseline strict_config hot_analysis (observed_signal (hot_frame fid) hot_analysis) d0 (event_stats ?g0)
        then learn_baseline strict_config (hot_frame fid) hot_analysis (observed_signal (hot_frame fid) hot_analysis) now_ms (pruned strict_config now_ms ?g0) d0
        else (pruned strict_config now_ms ?g0, d0))"
    and J: "judge_frame strict_config (hot_frame fid) hot_analysis now_ms d s0 = (event_stats g1, go)"
    and g1: "g1 = ?g0\<lparr> event_stats := event_stats g1, event_tracker := t, baseline_normal_samples := ss \<rparr>" by metis
  have p: "pruned strict_config now_ms ?g0 = []"
    by (simp add: pruned_def event_frame b pruneThermalBaselineSamplesLocked_def)
  have fc': "find_candidate strict_config (hot_frame 1) hot_analysis 0 8500 (event_tracker g) = Some (d0, t)"
    using fc unfolding hot_frame_def candidate_frame_id [of _ fid]
    by (simp add: p first_threshold_def computeThermalBaselineNormalMaxLocked_def computeThermalAdaptiveThresholdLocked_def
        strict_simps event_frame)
  have ss: "ss = []" "d = d0" using sd p by (simp_all add: can_learn_baseline_def strict_simps)
  have "\<not> go"
    using judge_frame_facts(7) [OF J] in_cycle(2) [OF t fc'] hot_analysis_valid ss
    by (simp add: count_hits_def strict_simps split: if_splits)
  then have "g' = g1 \<and> acts = []" using judged(3) by simp
  moreover have "event_tracker g1 = t" "baseline_normal_samples g1 = []"
    using arg_cong [OF g1, of event_tracker] arg_cong [OF g1, of baseline_normal_samples] ss by simp_all
  ultimately show ?thesis using in_cycle(1) [OF t fc'] by simp
qed

lemma steady_run:
  assumes "event_run v strict_config (map (\<lambda>(now_ms, fid). (now_ms, hot_frame fid)) xs) g = Some (g', acts)"
    and "event_tracker g \<in> set cycle" and "baseline_normal_samples g = []"
  shows "concat acts = []"
  using assms
proof (induction xs arbitrary: g acts)
  case (Cons x xs)
  obtain now_ms fid where x: "x = (now_ms, fid)" by (cases x)
  from Cons.prems(1) [unfolded x list.map prod.case] event_run_Cons obtain g1 a rest where
    step: "maybePublishThermalEvent v strict_config now_ms (hot_frame fid) g = Some (g1, a)"
    and run: "event_run v strict_config (map (\<lambda>(now_ms, fid). (now_ms, hot_frame fid)) xs) g1 = Some (g', rest)"
    and acts: "acts = a # rest" by (metis fst_conv snd_conv)
  note S = steady_step [OF Cons.prems(2,3) step]
  show ?case using Cons.IH [OF run] S acts by simp
qed simp

text \<open>C38: A steady hot spot may never raise an alarm. With a score limit of 9, two hits needed and no
  baseline, a picture with two pixels at 9000 in a cold region (threshold 8500) may arrive any number
  of times, at any times and under any frame ids: nothing is ever sent. In its first picture the spot
  scores 9, in the next ones 8, because its pixels are no longer new; so the count of hits never
  reaches two, until the tracker forgets the spot and it starts again. With the limit 8 the second
  picture raises the alarm.\<close>

theorem steady_spot_missed:
  "\<exists>g' acts. event_run v strict_config (map (\<lambda>(now_ms, fid). (now_ms, hot_frame fid)) xs) event_state0 = Some (g', acts) \<and>
     length acts = length xs \<and> concat acts = [] \<and>
     alarms (sample_broker True) (strict_config\<lparr> score_min := 8 \<rparr>) [(1000, hot_frame 1), (2000, hot_frame 2)] = Some [False, True]"
proof -
  obtain g' acts where r: "event_run v strict_config (map (\<lambda>(now_ms, fid). (now_ms, hot_frame fid)) xs) event_state0 = Some (g', acts)"
    "length acts = length (map (\<lambda>(now_ms, fid). (now_ms, hot_frame fid)) xs)" using event_run_returns by blast
  have "concat acts = []" by (rule steady_run [OF r(1)]) (simp_all add: event_state0_def cycle_def)
  moreover have "alarms (sample_broker True) (strict_config\<lparr> score_min := 8 \<rparr>) [(1000, hot_frame 1), (2000, hot_frame 2)] = Some [False, True]"
    by code_simp
  ultimately show ?thesis using r by (intro exI [where x = g'] exI [where x = acts]) simp
qed

end
