(* ===== verification/MotorManager.thy ===== *)
theory MotorManager imports HotspotPublish "HOL-Library.AList" begin

text \<open>
  The motor and laser routes of the Crow server (features/motor/MotorManager.cpp): the check of a
  request body, the text of the command, its publication, the wait for an answer from the response
  topic, and the emergency sequence. One request holds \<^verbatim>\<open>request_mutex_\<close>, so requests do not overlap;
  the messages the callback thread handles between the first and the last locked section of a request
  are an input of it, as are the answers of the broker. An exception that leaves a route is \<open>None\<close>.
\<close>

section \<open>Texts\<close>

definition toLowerCopy :: "string \<Rightarrow> string" where
  "toLowerCopy value = map tolower value"

definition trimWhitespace :: "string \<Rightarrow> string" where
  "trimWhitespace value =
     (let value = dropWhile isspace value
      in take (length value - length (takeWhile isspace (rev value))) value)"

definition line_ending :: "char \<Rightarrow> bool" where
  "line_ending c \<longleftrightarrow> c = CHR 0x0A \<or> c = CHR 0x0D"

function trimLineEndings :: "string \<Rightarrow> string" where
  "trimLineEndings value =
     (if value \<noteq> [] \<and> line_ending (last value) then trimLineEndings (butlast value) else value)"
  by pat_completeness auto
termination by (relation "measure length") (auto simp: length_greater_0_conv [symmetric] simp del: length_greater_0_conv)

declare trimLineEndings.simps [simp del]

definition normalize_char :: "char \<Rightarrow> string \<times> bool \<Rightarrow> string \<times> bool" where
  "normalize_char ch = (\<lambda>(normalized, last_was_space).
     if isspace ch then (if \<not> last_was_space then (normalized @ '' '', True) else (normalized, last_was_space))
     else (normalized @ [tolower ch], False))"

definition normalizeWhitespaceLower :: "string \<Rightarrow> string" where
  "normalizeWhitespaceLower value =
     (let (normalized, last_was_space) = fold normalize_char (trimLineEndings value) ([], True)
      in if normalized \<noteq> [] \<and> last normalized = CHR '' '' then butlast normalized else normalized)"

definition isMotorIndexValid :: "int \<Rightarrow> bool" where
  "isMotorIndexValid motor \<longleftrightarrow> motor \<ge> 1 \<and> motor \<le> 3"

definition isMotorSpeedValid :: "int \<Rightarrow> bool" where
  "isMotorSpeedValid speed \<longleftrightarrow> speed \<ge> 1 \<and> speed \<le> 10"

definition isDirectionValid :: "string \<Rightarrow> bool" where
  "isDirectionValid direction \<longleftrightarrow> direction = ''left'' \<or> direction = ''right''"

definition isMotorErrorResponse :: "string \<Rightarrow> bool" where
  "isMotorErrorResponse response \<longleftrightarrow> take 3 response = ''ERR''"

definition tryNormalizeLaserCommand :: "string \<Rightarrow> string option" where
  "tryNormalizeLaserCommand raw =
     (let normalized = normalizeWhitespaceLower raw
      in if normalized = ''on'' \<or> normalized = ''laser on'' then Some ''laser on''
         else if normalized = ''off'' \<or> normalized = ''laser off'' then Some ''laser off''
         else None)"

section \<open>A request\<close>

record command_result =
  res_ok :: bool
  res_published :: bool
  res_timed_out :: bool
  res_broker_connected :: bool
  res_command :: string
  res_response :: string

definition command_result0 :: command_result where
  "command_result0 = \<lparr> res_ok = False, res_published = False, res_timed_out = False, res_broker_connected = False,
     res_command = [], res_response = [] \<rparr>"

record motor_manager =
  control_topic :: string
  response_topic :: string
  timeout_ms :: int
  awaiting_response :: bool
  last_command :: string
  last_command_topic :: string
  last_response :: string
  last_response_is_error :: bool
  response_sequence :: u64
  last_response_time :: int

definition motor_manager0 :: "string \<Rightarrow> string \<Rightarrow> int \<Rightarrow> motor_manager" where
  "motor_manager0 control response timeout =
     \<lparr> control_topic = control, response_topic = response, timeout_ms = timeout, awaiting_response = False,
       last_command = [], last_command_topic = [], last_response = [], last_response_is_error = False,
       response_sequence = 0, last_response_time = 0 \<rparr>"

text \<open>The callback thread: a message with the time it is handled at.\<close>

definition handleMessage :: "int \<times> string \<times> string \<Rightarrow> motor_manager \<Rightarrow> motor_manager" where
  "handleMessage = (\<lambda>(now, topic, payload) m.
     if topic \<noteq> response_topic m then m
     else m\<lparr> last_response := trimLineEndings payload,
             last_response_is_error := isMotorErrorResponse (trimLineEndings payload),
             last_response_time := now, response_sequence := response_sequence m + 1,
             awaiting_response := False \<rparr>)"

text \<open>What happens to one request: the connection before and after publishing and at the end, whether
  the broker takes the message, and the messages handled before the wait is over, which is when the
  sequence number has grown or the time is up.\<close>

record request_env =
  up_before :: bool
  taken :: bool
  up_sent :: bool
  up_end :: bool
  arrivals :: "(int \<times> string \<times> string) list"

definition sendCommandToTopic :: "request_env \<Rightarrow> string \<Rightarrow> string \<Rightarrow> motor_manager \<Rightarrow> command_result \<times> motor_manager" where
  "sendCommandToTopic q topic command m =
     (let cmd = trimLineEndings command;
          r = command_result0\<lparr> res_command := cmd, res_broker_connected := up_before q \<rparr>
      in if cmd = [] then (r\<lparr> res_response := ''Command is empty'' \<rparr>, m)
      else let publish_topic = trimLineEndings topic
      in if publish_topic = [] then (r\<lparr> res_response := ''Control topic is empty'' \<rparr>, m)
      else let start_sequence = response_sequence m;
          m = m\<lparr> awaiting_response := True, last_command := cmd, last_command_topic := publish_topic \<rparr>;
          m = fold handleMessage (arrivals q) m;
          r = r\<lparr> res_published := taken q, res_broker_connected := up_sent q \<rparr>
      in if \<not> taken q
         then (r\<lparr> res_response := ''Failed to publish MQTT command'' \<rparr>, m\<lparr> awaiting_response := False \<rparr>)
      else let got_response = (response_sequence m > start_sequence);
          r = r\<lparr> res_broker_connected := up_end q \<rparr>;
          m = m\<lparr> awaiting_response := False \<rparr>
      in if \<not> got_response
         then (r\<lparr> res_timed_out := True, res_response := ''Timed out waiting for device response'' \<rparr>, m)
         else (r\<lparr> res_response := last_response m, res_ok := \<not> last_response_is_error m \<rparr>, m))"

definition sendCommand :: "request_env \<Rightarrow> string \<Rightarrow> motor_manager \<Rightarrow> command_result \<times> motor_manager" where
  "sendCommand q command m = sendCommandToTopic q (control_topic m) command m"

definition press_text :: "int \<Rightarrow> string \<Rightarrow> string" where
  "press_text motor direction = ''motor'' @ show_int motor @ '' '' @ direction @ '' press''"

definition release_text :: "int \<Rightarrow> string" where
  "release_text motor = ''motor'' @ show_int motor @ '' release''"

definition stop_text :: "int \<Rightarrow> string" where
  "stop_text motor = ''motor'' @ show_int motor @ '' stop''"

definition angle_text :: "int \<Rightarrow> int \<Rightarrow> string" where
  "angle_text motor angle = ''motor'' @ show_int motor @ '' set '' @ show_int (clampServoAngle angle)"

definition speed_text :: "int \<Rightarrow> int \<Rightarrow> string" where
  "speed_text motor speed = ''motor'' @ show_int motor @ '' speed '' @ show_int speed"

definition move_text :: "int \<Rightarrow> string \<Rightarrow> int \<Rightarrow> string" where
  "move_text motor direction degrees =
     ''motor'' @ show_int motor @ '' '' @ direction @ '' '' @ show_int (max 0 degrees)"

section \<open>Answers\<close>

type_synonym http = "int \<times> json"

definition json_put :: "string \<Rightarrow> json \<Rightarrow> (string \<times> json) list \<Rightarrow> (string \<times> json) list" where
  "json_put key v body = AList.update key v body"

definition writeMotorCommandFields :: "command_result \<Rightarrow> (string \<times> json) list" where
  "writeMotorCommandFields r =
     [(''ok'', JBool (res_ok r)), (''command'', JStr (res_command r)), (''published'', JBool (res_published r)),
      (''timed_out'', JBool (res_timed_out r)), (''broker_connected'', JBool (res_broker_connected r)),
      (''response'', JStr (res_response r))]"

definition makeMotorCommandResponse :: "command_result \<Rightarrow> http" where
  "makeMotorCommandResponse r =
     (let answer = (\<lambda>code status. (code, JObj (writeMotorCommandFields r @ [(''status'', JStr status)])))
      in if res_command r = [] then answer 400 ''INVALID_REQUEST''
         else if res_timed_out r then answer 504 ''TIMEOUT''
         else if \<not> res_published r \<or> \<not> res_broker_connected r then answer 503 ''MQTT_UNAVAILABLE''
         else if isMotorErrorResponse (res_response r) then answer 400 ''ERR''
         else answer 200 ''OK'')"

definition makeInvalidBodyResponse :: "string \<Rightarrow> http" where
  "makeInvalidBodyResponse message = (400, JObj [(''status'', JStr ''INVALID_REQUEST''), (''message'', JStr message)])"

text \<open>\<^verbatim>\<open>getStatus\<close> and \<^verbatim>\<open>makeStatusBody\<close> together.\<close>

definition makeStatusBody :: "bool \<Rightarrow> int \<Rightarrow> motor_manager \<Rightarrow> (string \<times> json) list" where
  "makeStatusBody isUp now m =
     [(''broker_connected'', JBool isUp), (''awaiting_response'', JBool (awaiting_response m)),
      (''control_topic'', JStr (control_topic m)), (''response_topic'', JStr (response_topic m)),
      (''timeout_ms'', JInt (timeout_ms m)), (''last_command'', JStr (last_command m)),
      (''last_command_topic'', JStr (last_command_topic m)), (''last_response'', JStr (last_response m)),
      (''last_response_is_error'', JBool (last_response_is_error m)),
      (''response_sequence'', JInt (uint (response_sequence m))),
      (''last_response_age_ms'', JInt (if response_sequence m > 0 then now - last_response_time m else -1))]"

section \<open>Routes\<close>

text \<open>Reading a field of a body. A body that is no object and no list makes the library throw, as does a
  number that its conversion to a 64-bit integer refuses; that conversion is an input.\<close>

datatype 'a field = Raised | Absent | Got 'a

definition json_has :: "string \<Rightarrow> json \<Rightarrow> bool option" where
  "json_has key j = (case j of JObj kvs \<Rightarrow> Some (map_of kvs key \<noteq> None) | JArr _ \<Rightarrow> Some False | _ \<Rightarrow> None)"

definition tryReadJsonInt :: "(json \<Rightarrow> int option) \<Rightarrow> string \<Rightarrow> json \<Rightarrow> int field" where
  "tryReadJsonInt to_i64 key j = (case json_has key j of None \<Rightarrow> Raised | Some False \<Rightarrow> Absent
     | Some True \<Rightarrow> (case json_get key j of
         Some (JInt x) \<Rightarrow> (case to_i64 (JInt x) of None \<Rightarrow> Raised | Some v \<Rightarrow> Got (sint (word_of_int v :: 32 word)))
       | Some (JNum x) \<Rightarrow> (case to_i64 (JNum x) of None \<Rightarrow> Raised | Some v \<Rightarrow> Got (sint (word_of_int v :: 32 word)))
       | _ \<Rightarrow> Absent))"

definition tryReadJsonString :: "string \<Rightarrow> json \<Rightarrow> string field" where
  "tryReadJsonString key j = (case json_has key j of None \<Rightarrow> Raised | Some False \<Rightarrow> Absent
     | Some True \<Rightarrow> (case json_get key j of Some (JStr t) \<Rightarrow> Got t | _ \<Rightarrow> Absent))"

text \<open>What a body asks for: nothing because of an exception, a refusal, or a command on a topic.\<close>

datatype decoded = Throws | Invalid string | Command string

definition need :: "'a field \<Rightarrow> string \<Rightarrow> ('a \<Rightarrow> decoded) \<Rightarrow> decoded" where
  "need fld message go = (case fld of Raised \<Rightarrow> Throws | Absent \<Rightarrow> Invalid message | Got v \<Rightarrow> go v)"

definition check :: "bool \<Rightarrow> string \<Rightarrow> decoded \<Rightarrow> decoded" where
  "check ok message go = (if \<not> ok then Invalid message else go)"

definition with_body :: "json option \<Rightarrow> (json \<Rightarrow> decoded) \<Rightarrow> decoded" where
  "with_body body go = (case body of None \<Rightarrow> Invalid ''Invalid JSON'' | Some j \<Rightarrow> go j)"

definition index_message :: string where
  "index_message = ''Motor index must be between 1 and 3''"

definition quoted :: "string \<Rightarrow> string" where
  "quoted t = [CHR 0x27] @ t @ [CHR 0x27]"

definition direction_message :: string where
  "direction_message = ''Direction must be '' @ quoted ''left'' @ '' or '' @ quoted ''right''"

definition command_route :: "json option \<Rightarrow> decoded" where
  "command_route body = with_body body (\<lambda>j.
     need (tryReadJsonString ''command'' j) (''Field '' @ quoted ''command'' @ '' must be a string'') Command)"

definition press_route :: "(json \<Rightarrow> int option) \<Rightarrow> json option \<Rightarrow> decoded" where
  "press_route to_i64 body = with_body body (\<lambda>j.
     let message = ''Fields '' @ quoted ''motor'' @ '' and '' @ quoted ''direction'' @ '' are required''
     in need (tryReadJsonInt to_i64 ''motor'' j) message (\<lambda>motor.
        need (tryReadJsonString ''direction'' j) message (\<lambda>direction.
        let direction = toLowerCopy direction
        in check (isMotorIndexValid motor) index_message
          (check (isDirectionValid direction) direction_message (Command (press_text motor direction))))))"

definition release_route :: "(json \<Rightarrow> int option) \<Rightarrow> json option \<Rightarrow> decoded" where
  "release_route to_i64 body = with_body body (\<lambda>j.
     need (tryReadJsonInt to_i64 ''motor'' j) (''Field '' @ quoted ''motor'' @ '' is required'') (\<lambda>motor.
     check (isMotorIndexValid motor) index_message (Command (release_text motor))))"

definition stop_route :: "(json \<Rightarrow> int option) \<Rightarrow> json option \<Rightarrow> decoded" where
  "stop_route to_i64 body = with_body body (\<lambda>j.
     need (tryReadJsonInt to_i64 ''motor'' j) (''Field '' @ quoted ''motor'' @ '' is required'') (\<lambda>motor.
     check (isMotorIndexValid motor) index_message (Command (stop_text motor))))"

definition set_route :: "(json \<Rightarrow> int option) \<Rightarrow> json option \<Rightarrow> decoded" where
  "set_route to_i64 body = with_body body (\<lambda>j.
     let message = ''Fields '' @ quoted ''motor'' @ '' and '' @ quoted ''angle'' @ '' are required''
     in need (tryReadJsonInt to_i64 ''motor'' j) message (\<lambda>motor.
        need (tryReadJsonInt to_i64 ''angle'' j) message (\<lambda>angle.
        check (isMotorIndexValid motor) index_message (Command (angle_text motor angle)))))"

definition speed_route :: "(json \<Rightarrow> int option) \<Rightarrow> json option \<Rightarrow> decoded" where
  "speed_route to_i64 body = with_body body (\<lambda>j.
     let message = ''Fields '' @ quoted ''motor'' @ '' and '' @ quoted ''speed'' @ '' are required''
     in need (tryReadJsonInt to_i64 ''motor'' j) message (\<lambda>motor.
        need (tryReadJsonInt to_i64 ''speed'' j) message (\<lambda>speed.
        check (isMotorIndexValid motor) index_message
          (check (isMotorSpeedValid speed) ''Speed must be between 1 and 10'' (Command (speed_text motor speed))))))"

definition move_route :: "(json \<Rightarrow> int option) \<Rightarrow> json option \<Rightarrow> decoded" where
  "move_route to_i64 body = with_body body (\<lambda>j.
     let message = ''Fields '' @ quoted ''motor'' @ '', '' @ quoted ''direction'' @ '', and '' @ quoted ''degrees'' @ '' are required''
     in need (tryReadJsonInt to_i64 ''motor'' j) message (\<lambda>motor.
        need (tryReadJsonInt to_i64 ''degrees'' j) message (\<lambda>degrees.
        need (tryReadJsonString ''direction'' j) message (\<lambda>direction.
        let direction = toLowerCopy direction
        in check (isMotorIndexValid motor) index_message
          (check (isDirectionValid direction) direction_message
          (check (\<not> degrees < 0) ''Degrees must be zero or greater'' (Command (move_text motor direction degrees))))))))"

definition laser_route :: "json option \<Rightarrow> decoded" where
  "laser_route body = with_body body (\<lambda>j.
     need (tryReadJsonString ''command'' j) (''Field '' @ quoted ''command'' @ '' must be a string'') (\<lambda>command.
     case tryNormalizeLaserCommand command of
       None \<Rightarrow> Invalid (''Command must be '' @ quoted ''on'' @ '', '' @ quoted ''off'' @ '', '' @ quoted ''laser on'' @ '', or '' @ quoted ''laser off'')
     | Some normalized \<Rightarrow> Command normalized))"

datatype motor_route = RCommand | RPress | RRelease | RStop | RSet | RSpeed | RMove | RStopAll | RAngles | RPing |
  LaserCommand | LaserOn | LaserOff

fun route_command :: "(json \<Rightarrow> int option) \<Rightarrow> motor_route \<Rightarrow> json option \<Rightarrow> decoded" where
  "route_command to_i64 RCommand body = command_route body"
| "route_command to_i64 RPress body = press_route to_i64 body"
| "route_command to_i64 RRelease body = release_route to_i64 body"
| "route_command to_i64 RStop body = stop_route to_i64 body"
| "route_command to_i64 RSet body = set_route to_i64 body"
| "route_command to_i64 RSpeed body = speed_route to_i64 body"
| "route_command to_i64 RMove body = move_route to_i64 body"
| "route_command to_i64 RStopAll body = Command ''stopall''"
| "route_command to_i64 RAngles body = Command ''read''"
| "route_command to_i64 RPing body = Command ''ping''"
| "route_command to_i64 LaserCommand body = laser_route body"
| "route_command to_i64 LaserOn body = Command ''laser on''"
| "route_command to_i64 LaserOff body = Command ''laser off''"

definition route_topic :: "string \<Rightarrow> motor_route \<Rightarrow> motor_manager \<Rightarrow> string" where
  "route_topic laser_topic route m =
     (if route \<in> {LaserCommand, LaserOn, LaserOff} then laser_topic else control_topic m)"

definition serve :: "(json \<Rightarrow> int option) \<Rightarrow> string \<Rightarrow> motor_route \<Rightarrow> json option \<Rightarrow> request_env \<Rightarrow> motor_manager \<Rightarrow>
    (http \<times> motor_manager) option" where
  "serve to_i64 laser_topic route body q m = (case route_command to_i64 route body of
     Throws \<Rightarrow> None
   | Invalid message \<Rightarrow> Some (makeInvalidBodyResponse message, m)
   | Command command \<Rightarrow> (let (r, m) = sendCommandToTopic q (route_topic laser_topic route m) command m
                         in Some (makeMotorCommandResponse r, m)))"

text \<open>The centre route sends one command to each motor; its answer is always 200.\<close>

definition center_angle :: "(json \<Rightarrow> int option) \<Rightarrow> string \<Rightarrow> json option \<Rightarrow> http option + int" where
  "center_angle to_i64 raw body =
     (if raw = [] then Inr 90
      else case body of None \<Rightarrow> Inl (Some (makeInvalidBodyResponse ''Invalid JSON''))
      | Some j \<Rightarrow> (case json_has ''angle'' j of None \<Rightarrow> Inl None | Some False \<Rightarrow> Inr 90
          | Some True \<Rightarrow> (case tryReadJsonInt to_i64 ''angle'' j of Raised \<Rightarrow> Inl None
              | Absent \<Rightarrow> Inl (Some (makeInvalidBodyResponse (''Field '' @ quoted ''angle'' @ '' must be a number'')))
              | Got angle \<Rightarrow> Inr angle)))"

fun center_motors :: "(nat \<Rightarrow> request_env) \<Rightarrow> int \<Rightarrow> int list \<Rightarrow> motor_manager \<Rightarrow> (string \<times> json) list \<Rightarrow>
    (string \<times> json) list \<times> motor_manager" where
  "center_motors q angle [] m body = (body, m)"
| "center_motors q angle (motor # rest) m body =
     (let (r, m) = sendCommand (q (nat motor)) (angle_text motor angle) m;
          body = json_put (''motor'' @ show_int motor)
            (JObj [(''ok'', JBool (res_ok r)), (''command'', JStr (res_command r)),
                   (''response'', JStr (res_response r)), (''timed_out'', JBool (res_timed_out r))]) body;
          body = (if res_ok r then body
                  else json_put ''status'' (JStr (if res_timed_out r then ''TIMEOUT'' else ''PARTIAL_ERROR'')) body)
      in center_motors q angle rest m body)"

definition serve_center :: "(json \<Rightarrow> int option) \<Rightarrow> string \<Rightarrow> json option \<Rightarrow> (nat \<Rightarrow> request_env) \<Rightarrow> motor_manager \<Rightarrow>
    (http \<times> motor_manager) option" where
  "serve_center to_i64 raw body q m = (case center_angle to_i64 raw body of
     Inl None \<Rightarrow> None
   | Inl (Some refusal) \<Rightarrow> Some (refusal, m)
   | Inr angle \<Rightarrow>
       let (result, m) = center_motors q angle [1, 2, 3] m
             [(''status'', JStr ''OK''), (''target_angle'', JInt (clampServoAngle angle))]
       in Some ((200, JObj result), m))"

definition laser_status :: "string \<Rightarrow> bool \<Rightarrow> int \<Rightarrow> motor_manager \<Rightarrow> (string \<times> json) list" where
  "laser_status laser_topic isUp now m =
     json_put ''bridge_default_control_topic'' (JStr (control_topic m))
       (json_put ''control_topic'' (JStr laser_topic) (makeStatusBody isUp now m))"

section \<open>The emergency sequence\<close>

definition kDefaultEmergencyScript :: string where
  "kDefaultEmergencyScript =
     ''motor2 set 30; motor2 set 47; motor3 set 104; motor2 set 55; '' @
     ''motor3 set 77; motor2 set 65; motor3 set 90; motor2 set 70;''"

definition getEmergencyScript :: "environment \<Rightarrow> string" where
  "getEmergencyScript env = (case env ''MOTOR_EMERGENCY_SCRIPT'' of
     None \<Rightarrow> kDefaultEmergencyScript
   | Some configured \<Rightarrow>
       if configured = [] then kDefaultEmergencyScript
       else let trimmed = trimWhitespace configured in if trimmed = [] then kDefaultEmergencyScript else trimmed)"

text \<open>\<^verbatim>\<open>find(';', start)\<close>\<close>

definition find_semicolon :: "string \<Rightarrow> nat \<Rightarrow> nat option" where
  "find_semicolon raw start =
     (let pos = start + length (takeWhile (\<lambda>c. c \<noteq> CHR '';'') (drop start raw))
      in if pos < length raw then Some pos else None)"

definition push_command :: "string \<Rightarrow> string list \<Rightarrow> string list" where
  "push_command command commands = (if command \<noteq> [] then commands @ [command] else commands)"

function split_loop :: "string \<Rightarrow> nat \<Rightarrow> string list \<Rightarrow> string list" where
  "split_loop raw start commands =
     (if \<not> start \<le> length raw then commands
      else case find_semicolon raw start of
        None \<Rightarrow> push_command (trimWhitespace (drop start raw)) commands
      | Some pos \<Rightarrow> split_loop raw (pos + 1) (push_command (trimWhitespace (take (pos - start) (drop start raw))) commands))"
  by pat_completeness auto
termination
  by (relation "measure (\<lambda>(raw, start, commands). length raw + 1 - start)")
    (auto simp: find_semicolon_def Let_def split: if_splits)

declare split_loop.simps [simp del]

definition splitEmergencyCommands :: "string \<Rightarrow> string list" where
  "splitEmergencyCommands raw = split_loop raw 0 []"

text \<open>The mutex of a request is not held over the sequence: before each step anything else may have
  happened to the manager (the first part of the input of a step).\<close>

fun emergency_steps :: "(nat \<Rightarrow> (motor_manager \<Rightarrow> motor_manager) \<times> request_env) \<Rightarrow> nat \<Rightarrow> string list \<Rightarrow> motor_manager \<Rightarrow>
    command_result list \<times> motor_manager" where
  "emergency_steps q i [] m = ([], m)"
| "emergency_steps q i (command # rest) m =
     (let (r, m) = sendCommand (snd (q i)) command (fst (q i) m)
      in if res_ok r then (let (rs, m) = emergency_steps q (i + 1) rest m in (r # rs, m)) else ([r], m))"

definition step_json :: "nat \<Rightarrow> command_result \<Rightarrow> json" where
  "step_json i r = JObj ((''index'', JInt (int i + 1)) # writeMotorCommandFields r)"

definition makeEmergencySequenceResponse :: "environment \<Rightarrow> (nat \<Rightarrow> (motor_manager \<Rightarrow> motor_manager) \<times> request_env) \<Rightarrow>
    motor_manager \<Rightarrow> http \<times> motor_manager" where
  "makeEmergencySequenceResponse env q m =
     (let raw_script = getEmergencyScript env; commands = splitEmergencyCommands raw_script;
          count = (\<lambda>n. JInt (int n));
          body = [(''status'', JStr ''OK''), (''sequence_name'', JStr ''emergency_evacuation''),
            (''delivery_mode'', JStr ''sequential_mqtt_commands''), (''control_topic'', JStr (control_topic m)),
            (''response_topic'', JStr (response_topic m)), (''raw_script'', JStr raw_script),
            (''note'', JStr (''Current STM32 firmware accepts one motor command per line, so the server '' @
               ''splits the emergency script on '' @ quoted '';'' @ '' and publishes each step in order.'')),
            (''total_steps'', count (length commands)), (''attempted_steps'', count 0), (''successful_steps'', count 0),
            (''published_steps'', count 0), (''stopped_early'', JBool False)]
      in if commands = []
         then ((500, JObj (json_put ''message'' (JStr ''MOTOR_EMERGENCY_SCRIPT is empty or contains no valid commands'')
                (json_put ''status'' (JStr ''EMERGENCY_ROUTE_MISCONFIGURED'') body))), m)
      else let (rs, m) = emergency_steps q 0 commands m;
          body = json_put ''steps'' (JArr (map2 step_json [0..<length rs] rs)) body;
          r = last rs;
          (code, body) =
            (if res_ok r then (200, body)
             else let body = json_put ''stopped_early'' (JBool (length rs < length commands))
                      (json_put ''failed_step'' (count (length rs)) body)
               in if res_timed_out r then (504, json_put ''status'' (JStr ''TIMEOUT'') body)
                  else if \<not> res_published r \<or> \<not> res_broker_connected r
                       then (503, json_put ''status'' (JStr ''MQTT_UNAVAILABLE'') body)
                  else (400, json_put ''status'' (JStr ''STEP_ERROR'') body));
          body = json_put ''attempted_steps'' (count (length rs)) body;
          body = json_put ''successful_steps'' (count (length (filter res_ok rs))) body;
          body = json_put ''published_steps'' (count (length (filter res_published rs))) body
      in ((code, JObj body), m))"

end
