(* ===== verification/MotorSpec.thy ===== *)
theory MotorSpec imports MotorManager ServoSpec begin

text \<open>
  Properties of the motor routes of the Crow server: the emergency script is cut into exactly its
  commands, every validated request becomes a command the STM32 reads back with its meaning, and what
  a request answers depends on the messages of the response topic.
\<close>

section \<open>Texts\<close>

lemma trimWhitespace_strip: "trimWhitespace t = strip t"
proof -
  let ?v = "dropWhile isspace t"
  have "take (length ?v - length (takeWhile isspace (rev ?v))) ?v = rev (drop (length (takeWhile isspace (rev ?v))) (rev ?v))"
    by (simp add: rev_drop)
  also have "\<dots> = rev (dropWhile isspace (rev ?v))" by (metis dropWhile_eq_drop)
  finally show ?thesis by (simp add: trimWhitespace_def strip_def)
qed

lemma trimLineEndings_plain: "t = [] \<or> \<not> line_ending (last t) \<Longrightarrow> trimLineEndings t = t"
  by (subst trimLineEndings.simps) auto

lemma split_segment:
  assumes "find_semicolon raw start = Some pos" "start \<le> length raw"
  shows "split_by (\<lambda>c. c = CHR '';'') (drop start raw) =
    take (pos - start) (drop start raw) # split_by (\<lambda>c. c = CHR '';'') (drop (pos + 1) raw)"
proof -
  let ?w = "takeWhile (\<lambda>c. c \<noteq> CHR '';'') (drop start raw)"
  have pos: "pos = start + length ?w" "pos < length raw" using assms(1) by (auto simp: find_semicolon_def Let_def split: if_splits)
  have w: "take (pos - start) (drop start raw) = ?w" using pos(1) by (simp add: takeWhile_eq_take [symmetric])
  have len: "length ?w < length (drop start raw)" using pos by simp
  then have semi: "drop start raw ! length ?w = CHR '';''"
    using nth_length_takeWhile [of "\<lambda>c. c \<noteq> CHR '';''" "drop start raw"] by blast
  have "drop start raw = ?w @ drop (length ?w) (drop start raw)"
    by (metis dropWhile_eq_drop takeWhile_dropWhile_id)
  also have "drop (length ?w) (drop start raw) = CHR '';'' # drop (Suc (length ?w)) (drop start raw)"
    using Cons_nth_drop_Suc [OF len] semi by simp
  also have "drop (Suc (length ?w)) (drop start raw) = drop (pos + 1) raw" using pos(1) by (simp add: add.commute)
  finally have "drop start raw = ?w @ CHR '';'' # drop (pos + 1) raw" .
  then have "split_by (\<lambda>c. c = CHR '';'') (drop start raw) = split_by (\<lambda>c. c = CHR '';'') (?w @ CHR '';'' # drop (pos + 1) raw)" by simp
  also have "\<dots> = ?w # split_by (\<lambda>c. c = CHR '';'') (drop (pos + 1) raw)"
    by (subst split_by_append) (auto simp: list_all_iff dest: set_takeWhileD)
  finally show ?thesis unfolding w .
qed

lemma split_loop_segments:
  "start \<le> length raw + 1 \<Longrightarrow> split_loop raw start commands = commands @
    (if start \<le> length raw then filter (\<lambda>c. c \<noteq> []) (map strip (split_by (\<lambda>c. c = CHR '';'') (drop start raw))) else [])"
proof (induction raw start commands rule: split_loop.induct)
  case (1 raw start commands)
  show ?case
  proof (cases "start \<le> length raw")
    case True
    show ?thesis
    proof (cases "find_semicolon raw start")
      case None
      then have "length (takeWhile (\<lambda>c. c \<noteq> CHR '';'') (drop start raw)) = length (drop start raw)"
        using True length_takeWhile_le [of "\<lambda>c. c \<noteq> CHR '';''" "drop start raw"]
        by (auto simp: find_semicolon_def Let_def split: if_splits)
      then have "list_all (\<lambda>c. \<not> c = CHR '';'') (drop start raw)"
        by (metis (mono_tags, lifting) list_all_iff takeWhile_eq_all_conv takeWhile_eq_take take_all order_refl)
      then show ?thesis using None True
        by (subst split_loop.simps) (simp add: split_by_none push_command_def trimWhitespace_strip)
    next
      case (Some pos)
      then have pos: "pos < length raw" by (auto simp: find_semicolon_def Let_def split: if_splits)
      then show ?thesis
        using 1(1) [OF _ Some] Some True split_segment [OF Some True]
        by (subst split_loop.simps) (simp add: push_command_def trimWhitespace_strip)
    qed
  qed (subst split_loop.simps, simp)
qed

text \<open>C35: the emergency script is cut into exactly its commands: the pieces between its semicolons, without
  the white space around them, leaving out the empty ones, in order; the cutting always ends.\<close>

theorem emergency_script_split:
  "splitEmergencyCommands raw = filter (\<lambda>c. c \<noteq> []) (map strip (split_by (\<lambda>c. c = CHR '';'') raw))"
  using split_loop_segments [of 0 raw "[]"] by (simp add: splitEmergencyCommands_def)

section \<open>Requests the STM32 reads back\<close>

definition word :: "string \<Rightarrow> bool" where
  "word w \<longleftrightarrow> w \<noteq> [] \<and> length w \<le> 15 \<and> list_all (\<lambda>c. \<not> isspace c) w"

lemma scan_word_text:
  assumes "word w" and "r = [] \<or> isspace (hd r)"
  shows "scan_word 15 (CHR '' '' # w @ r) = Some (w, r)"
proof -
  have w: "w \<noteq> []" "length w \<le> 15" "\<forall>c\<in>set w. \<not> isspace c" using assms(1) by (auto simp: word_def list_all_iff)
  have "dropWhile isspace (w @ r) = w @ r" using w(1,3) by (cases w) auto
  moreover have "takeWhile (\<lambda>c. \<not> isspace c) (take 15 (w @ r)) = w"
  proof -
    have "take 15 (w @ r) = w @ take (15 - length w) r" using w(2) by simp
    moreover have "takeWhile (\<lambda>c. \<not> isspace c) (take (15 - length w) r) = []"
      using assms(2) by (cases r) (auto simp: take_Cons' )
    ultimately show ?thesis using w(3) by (simp add: takeWhile_append2)
  qed
  ultimately show ?thesis using w(1) by (simp add: scan_word_def)
qed

lemma scan_word_end: "scan_word 15 [] = None"
  by (simp add: scan_word_def)

lemma sscanf_words:
  assumes "i < 3" and "word w1"
  shows "sscanf_motor (''motor'' @ show_nat (Suc i) @ '' '' @ w1) = (2, int (Suc i), w1, [])"
    and "word w2 \<Longrightarrow> sscanf_motor (''motor'' @ show_nat (Suc i) @ '' '' @ w1 @ '' '' @ w2) = (3, int (Suc i), w1, w2)"
proof -
  have n: "strtol (show_nat (Suc i) @ '' '' @ r) = (int (Suc i), '' '' @ r)" "'' '' @ r \<noteq> show_nat (Suc i) @ '' '' @ r" for r
    using assms(1) by (intro strtol_show_nat) (auto simp: not_digit_space)
  show "sscanf_motor (''motor'' @ show_nat (Suc i) @ '' '' @ w1) = (2, int (Suc i), w1, [])"
    using n [of w1] scan_word_text [OF assms(2), of "[]"] scan_word_end by (simp add: sscanf_motor_def isspace_def del: dropWhile_eq_Nil_conv)
  show "sscanf_motor (''motor'' @ show_nat (Suc i) @ '' '' @ w1 @ '' '' @ w2) = (3, int (Suc i), w1, w2)" if "word w2"
    using n [of "w1 @ '' '' @ w2"] scan_word_text [OF assms(2), of "'' '' @ w2"] scan_word_text [OF that, of "[]"]
    by (simp add: sscanf_motor_def isspace_def del: dropWhile_eq_Nil_conv)
qed

lemma motor_text_run:
  assumes "i < 3" and "word w1"
  shows "Motor_ParseAndRun (''motor'' @ show_nat (Suc i) @ '' '' @ w1) now s = run_motor_cmd2 i (map tolower w1) s"
    and "word w2 \<Longrightarrow> Motor_ParseAndRun (''motor'' @ show_nat (Suc i) @ '' '' @ w1 @ '' '' @ w2) now s =
      run_motor_cmd3 i (map tolower w1) (map tolower w2) now s"
  using assms sscanf_words [OF assms]
  by (simp_all add: Motor_ParseAndRun_def parse_setall_command_def skip_space_def isspace_def Let_def)

lemma word_number: "n < 10 ^ 15 \<Longrightarrow> word (show_nat n)"
proof -
  have "length (show_nat n) \<le> k" if "n < 10 ^ k" "0 < k" for k
    using that
  proof (induction k arbitrary: n)
    case (Suc k)
    show ?case
    proof (cases "n < 10")
      case False
      then have "n div 10 < 10 ^ k" "0 < k" using Suc.prems by (auto simp: div_less_iff_less_mult mult.commute) (cases k, auto)
      then show ?thesis using Suc.IH [of "n div 10"] False by (subst show_nat.simps) simp
    qed (subst show_nat.simps, simp)
  qed simp
  then show "n < 10 ^ 15 \<Longrightarrow> word (show_nat n)"
    using show_nat_digits [of n] by (auto simp: word_def list_all_iff isdigit_not_space)
qed

text \<open>What a request with these fields asks of the servo controller: answer code and new state.\<close>

definition route_effect :: "motor_route \<Rightarrow> nat \<Rightarrow> string \<Rightarrow> int \<Rightarrow> u32 \<Rightarrow> servo \<Rightarrow> int \<times> servo" where
  "route_effect route i direction v now s = (case route of
     RPress \<Rightarrow> (0, Motor_StartMove i (if direction = ''left'' then -1 else 1) now s)
   | RRelease \<Rightarrow> (0, Motor_Release i s)
   | RStop \<Rightarrow> (0, Motor_Stop i s)
   | RSet \<Rightarrow> ret_code (motor_enqueue_target_angles ([0, 0, 0][i := clampServoAngle v]) (push_bit i 1) s)
   | RSpeed \<Rightarrow> (0, Motor_SetSpeed i v s)
   | RMove \<Rightarrow> if v \<le> 180 then (0, Motor_MoveRelative i (if direction = ''left'' then - v else v) now s) else (-1, s)
   | _ \<Rightarrow> (-1, s))"

lemma show_motor:
  assumes "isMotorIndexValid motor"
  shows "show_int motor = show_nat (Suc (nat (motor - 1)))" and "nat (motor - 1) < 3"
  using assms by (auto simp: isMotorIndexValid_def show_int_def Suc_nat_eq_nat_zadd1)

lemma words [simp]: "word ''left''" "word ''right''" "word ''press''" "word ''release''" "word ''stop''" "word ''set''" "word ''speed''"
  by (simp_all add: word_def isspace_def)

lemma lower_number [simp]: "map tolower (show_nat n) = show_nat n"
  by (simp add: digits_lower show_nat_digits)

lemma number_words [simp]: "show_nat n \<noteq> ''press''" "show_nat n \<noteq> ''release''"
  by (rule show_nat_not_word, simp add: isdigit_def)+

lemma strict_int_refused: "int n > hi \<Longrightarrow> parse_strict_int16 (show_nat n) lo hi = None" if "int n \<le> 2147483647"
  using that strtol_show_nat_end [of n] by (simp add: parse_strict_int16_def skip_space_def show_nat_not_space)

lemma texts_understood:
  fixes now :: u32
  assumes m: "isMotorIndexValid motor"
  defines "i \<equiv> nat (motor - 1)"
  shows "isDirectionValid d \<Longrightarrow> Motor_ParseAndRun (press_text motor d) now s = route_effect RPress i d v now s"
    and "Motor_ParseAndRun (release_text motor) now s = route_effect RRelease i d v now s"
    and "Motor_ParseAndRun (stop_text motor) now s = route_effect RStop i d v now s"
    and "Motor_ParseAndRun (angle_text motor v) now s = route_effect RSet i d v now s"
    and "isMotorSpeedValid v \<Longrightarrow> Motor_ParseAndRun (speed_text motor v) now s = route_effect RSpeed i d v now s"
    and "isDirectionValid d \<Longrightarrow> 0 \<le> v \<Longrightarrow> v \<le> 2147483647 \<Longrightarrow>
      Motor_ParseAndRun (move_text motor d v) now s = route_effect RMove i d v now s"
proof -
  have i: "show_int motor = show_nat (Suc i)" "i < 3" using show_motor [OF m] by (simp_all add: i_def)
  note run2 = motor_text_run(1) [OF i(2)] and run3 = motor_text_run(2) [OF i(2)]
  show "Motor_ParseAndRun (press_text motor d) now s = route_effect RPress i d v now s" if "isDirectionValid d"
    using that run3 [of d "''press''" now s] by (auto simp: press_text_def i(1) isDirectionValid_def route_effect_def run_motor_cmd3_def tolower_def)
  show "Motor_ParseAndRun (release_text motor) now s = route_effect RRelease i d v now s"
    using run2 [of "''release''" now s] by (simp add: release_text_def i(1) route_effect_def run_motor_cmd2_def tolower_def)
  show "Motor_ParseAndRun (stop_text motor) now s = route_effect RStop i d v now s"
    using run2 [of "''stop''" now s] by (simp add: stop_text_def i(1) route_effect_def run_motor_cmd2_def tolower_def)
  show "Motor_ParseAndRun (angle_text motor v) now s = route_effect RSet i d v now s"
  proof -
    have a: "0 \<le> clampServoAngle v" "clampServoAngle v \<le> 180" by (simp_all add: clampServoAngle_def)
    then have "show_int (clampServoAngle v) = show_nat (nat (clampServoAngle v))" by (simp add: show_int_def)
    then show ?thesis
      using run3 [of "''set''" "show_nat (nat (clampServoAngle v))" now s] a word_number [of "nat (clampServoAngle v)"]
        strict_int_roundtrip [of "nat (clampServoAngle v)" 180 0]
      by (simp add: angle_text_def i(1) route_effect_def run_motor_cmd3_def tolower_def MOTOR_ANGLE_MIN_def MOTOR_ANGLE_MAX_def)
  qed
  show "Motor_ParseAndRun (speed_text motor v) now s = route_effect RSpeed i d v now s" if "isMotorSpeedValid v"
  proof -
    have v: "1 \<le> v" "v \<le> 10" using that by (simp_all add: isMotorSpeedValid_def)
    then have "show_int v = show_nat (nat v)" by (simp add: show_int_def)
    with v show ?thesis
      using run3 [of "''speed''" "show_nat (nat v)" now s] word_number [of "nat v"] strict_int_roundtrip [of "nat v" 10 1]
      by (simp add: speed_text_def i(1) route_effect_def run_motor_cmd3_def tolower_def)
  qed
  show "Motor_ParseAndRun (move_text motor d v) now s = route_effect RMove i d v now s"
    if "isDirectionValid d" "0 \<le> v" "v \<le> 2147483647"
  proof -
    have w: "word d" "word (show_nat (nat v))" using that word_number [of "nat v"] by (auto simp: isDirectionValid_def)
    have "show_int v = show_nat (nat v)" using that(2) by (simp add: show_int_def)
    then have t: "move_text motor d v = ''motor'' @ show_nat (Suc i) @ '' '' @ d @ '' '' @ show_nat (nat v)"
      using that(2) by (simp add: move_text_def i(1))
    show ?thesis
    proof (cases "v \<le> 180")
      case True
      then show ?thesis
        using that run3 [OF w, of now s] strict_int_roundtrip [of "nat v" 180 0]
        by (auto simp: t isDirectionValid_def route_effect_def run_motor_cmd3_def tolower_def MOTOR_ANGLE_MAX_def)
    next
      case False
      then show ?thesis
        using that run3 [OF w, of now s] strict_int_refused [of "nat v" 180 0]
        by (auto simp: t isDirectionValid_def route_effect_def run_motor_cmd3_def tolower_def MOTOR_ANGLE_MAX_def)
    qed
  qed
qed

lemma got_int: "tryReadJsonInt to_i64 key j = Got v \<Longrightarrow> v \<le> 2147483647"
proof -
  assume a: "tryReadJsonInt to_i64 key j = Got v"
  have "sint (word_of_int x :: 32 word) \<le> 2147483647" for x
    using sint_lt [of "word_of_int x :: 32 word"] by simp
  with a show ?thesis by (auto simp: tryReadJsonInt_def split: option.splits bool.splits json.splits)
qed

lemma decoded_command:
  "with_body body go = Command c \<longleftrightarrow> (\<exists>j. body = Some j \<and> go j = Command c)"
  "need fld message k = Command c \<longleftrightarrow> (\<exists>v. fld = Got v \<and> k v = Command c)"
  "check ok message d = Command c \<longleftrightarrow> ok \<and> d = Command c"
  by (auto simp: with_body_def need_def check_def split: option.splits field.splits)

lemmas route_defs = press_route_def release_route_def stop_route_def set_route_def speed_route_def move_route_def

text \<open>The fields of a validated request.\<close>

definition request_fields :: "(json \<Rightarrow> int option) \<Rightarrow> motor_route \<Rightarrow> json \<Rightarrow> int \<Rightarrow> string \<Rightarrow> int \<Rightarrow> bool" where
  "request_fields to_i64 route j motor d v \<longleftrightarrow>
     tryReadJsonInt to_i64 ''motor'' j = Got motor \<and> 1 \<le> motor \<and> motor \<le> 3 \<and>
     (route \<notin> {RPress, RMove} \<or>
        (\<exists>t. tryReadJsonString ''direction'' j = Got t \<and> d = toLowerCopy t) \<and> d \<in> {''left'', ''right''}) \<and>
     (route \<noteq> RSet \<or> tryReadJsonInt to_i64 ''angle'' j = Got v) \<and>
     (route \<noteq> RSpeed \<or> tryReadJsonInt to_i64 ''speed'' j = Got v \<and> 1 \<le> v \<and> v \<le> 10) \<and>
     (route \<noteq> RMove \<or> tryReadJsonInt to_i64 ''degrees'' j = Got v \<and> 0 \<le> v)"

lemma move_decoded:
  assumes "move_route to_i64 body = Command c"
  shows "\<exists>j motor d v. body = Some j \<and> request_fields to_i64 RMove j motor d v \<and> c = move_text motor d v"
proof -
  from assms obtain j motor v t where f: "body = Some j" "tryReadJsonInt to_i64 ''motor'' j = Got motor"
    "tryReadJsonInt to_i64 ''degrees'' j = Got v" "tryReadJsonString ''direction'' j = Got t"
    and ok: "isMotorIndexValid motor" "isDirectionValid (toLowerCopy t)" "\<not> v < 0"
    and c: "c = move_text motor (toLowerCopy t) v"
    unfolding move_route_def decoded_command Let_def by blast
  have "request_fields to_i64 RMove j motor (toLowerCopy t) v"
    using f ok by (auto simp: request_fields_def isMotorIndexValid_def isDirectionValid_def)
  with f(1) c show ?thesis by blast
qed

definition request_text :: "motor_route \<Rightarrow> int \<Rightarrow> string \<Rightarrow> int \<Rightarrow> string" where
  "request_text route motor d v = (case route of RPress \<Rightarrow> press_text motor d | RRelease \<Rightarrow> release_text motor
     | RStop \<Rightarrow> stop_text motor | RSet \<Rightarrow> angle_text motor v | RSpeed \<Rightarrow> speed_text motor v | _ \<Rightarrow> move_text motor d v)"

lemma request_decoded:
  assumes "route_command to_i64 route body = Command c"
    and "route \<in> {RPress, RRelease, RStop, RSet, RSpeed, RMove}"
  shows "\<exists>j motor d v. body = Some j \<and> request_fields to_i64 route j motor d v \<and> c = request_text route motor d v"
proof (cases "route = RMove")
  case True
  then show ?thesis using move_decoded [of to_i64 body c] assms(1) by (simp add: request_text_def)
next
  case False
  with assms show ?thesis
    by (cases route) (auto simp: route_defs decoded_command Let_def request_fields_def isMotorIndexValid_def
      isDirectionValid_def isMotorSpeedValid_def request_text_def)
qed

text \<open>C13: every validated motor request is understood by the STM32 as it is meant. When one of the routes
  press, release, stop, set, speed or move accepts a body, the text it sends is read back by the
  command parser of the STM32 with the motor, direction and number of the body, the angle brought into
  0..180, and runs exactly that operation of the servo controller; only a move of more than 180
  degrees, which the route lets pass, is refused there.\<close>

theorem requests_understood:
  fixes now :: u32
  assumes "route_command to_i64 route body = Command c"
    and "route \<in> {RPress, RRelease, RStop, RSet, RSpeed, RMove}"
  shows "\<exists>j motor d v. body = Some j \<and> request_fields to_i64 route j motor d v \<and>
    Motor_ParseAndRun c now s = route_effect route (nat (motor - 1)) d v now s"
proof -
  obtain j motor d v where "body = Some j" "request_fields to_i64 route j motor d v" and c: "c = request_text route motor d v"
    using request_decoded [OF assms] by blast
  moreover from this(2) have "isMotorIndexValid motor" by (simp add: request_fields_def isMotorIndexValid_def)
  moreover have v: "route = RMove \<Longrightarrow> v \<le> 2147483647"
    using \<open>request_fields to_i64 route j motor d v\<close> got_int [of to_i64 "''degrees''" j v] by (simp add: request_fields_def)
  note t = texts_understood [OF \<open>isMotorIndexValid motor\<close>]
  have "Motor_ParseAndRun c now s = route_effect route (nat (motor - 1)) d v now s"
    using assms(2) c v t \<open>request_fields to_i64 route j motor d v\<close>
    by (auto simp: request_fields_def isDirectionValid_def isMotorSpeedValid_def request_text_def)
  ultimately show ?thesis by blast
qed

lemma requests_understood_witness:
  "\<exists>c. route_command (\<lambda>j. case j of JInt x \<Rightarrow> Some x | _ \<Rightarrow> None) RMove
       (Some (JObj [(''motor'', JInt 2), (''direction'', JStr ''LEFT''), (''degrees'', JInt 30)])) = Command c \<and>
     fst (Motor_ParseAndRun c 7 servo_reset) = 0"
proof -
  let ?body = "Some (JObj [(''motor'', JInt 2), (''direction'', JStr ''LEFT''), (''degrees'', JInt 30)])"
  let ?i64 = "\<lambda>j. case j of JInt x \<Rightarrow> Some x | _ \<Rightarrow> None"
  have c: "route_command ?i64 RMove ?body = Command ''motor2 left 30''" by code_simp
  from requests_understood [OF c, of 7 servo_reset] have "fst (Motor_ParseAndRun ''motor2 left 30'' 7 servo_reset) = 0"
    by (auto simp: request_fields_def tryReadJsonInt_def json_has_def route_effect_def)
  with c show ?thesis by blast
qed

section \<open>Requests and answers\<close>

text \<open>The answers among the messages.\<close>

definition answers :: "string \<Rightarrow> (int \<times> string \<times> string) list \<Rightarrow> string list" where
  "answers topic msgs = map (\<lambda>(now, _, payload). trimLineEndings payload) (filter (\<lambda>(_, t, _). t = topic) msgs)"

lemma answers_simps [simp]:
  "answers topic [] = []"
  "answers topic ((now, t, payload) # msgs) = (if t = topic then [trimLineEndings payload] else []) @ answers topic msgs"
  by (simp_all add: answers_def)

lemma length_answers: "length (answers topic msgs) \<le> length msgs"
  by (simp add: answers_def)

lemma handle_all:
  fixes m :: motor_manager and msgs :: "(int \<times> string \<times> string) list"
  defines "ans \<equiv> answers (response_topic m) msgs" and "m' \<equiv> fold handleMessage msgs m"
  shows "response_topic m' = response_topic m \<and> control_topic m' = control_topic m \<and> timeout_ms m' = timeout_ms m \<and>
    last_command m' = last_command m \<and> last_command_topic m' = last_command_topic m \<and>
    response_sequence m' = response_sequence m + of_nat (length ans) \<and>
    (if ans = [] then m' = m
     else last_response m' = last ans \<and> last_response_is_error m' = isMotorErrorResponse (last ans) \<and> \<not> awaiting_response m')"
  unfolding ans_def m'_def
proof (induction msgs arbitrary: m)
  case (Cons msg msgs)
  obtain now topic payload where msg: "msg = (now, topic, payload)" by (cases msg) auto
  show ?case
  proof (cases "topic = response_topic m")
    case False
    then have "handleMessage msg m = m" by (simp add: handleMessage_def msg)
    then show ?thesis using Cons.IH [of m] False by (simp add: msg)
  next
    case True
    then show ?thesis
      using Cons.IH [of "handleMessage msg m"] by (auto simp: msg handleMessage_def split: if_splits)
  qed
qed simp

lemma sequence_grows:
  fixes s :: u64
  assumes "unat s + n < 2 ^ 64"
  shows "s < s + of_nat n \<longleftrightarrow> 0 < n"
  using assms by (simp add: word_less_nat_alt unat_word_ariths unat_of_nat)

lemma request_result:
  assumes "trimLineEndings command \<noteq> []" and "trimLineEndings topic \<noteq> []"
    and "unat (response_sequence m) + length (arrivals q) < 2 ^ 64"
    and r: "sendCommandToTopic q topic command m = (r, m')" and ans_def: "ans = answers (response_topic m) (arrivals q)"
  shows "res_command r = trimLineEndings command \<and> res_published r = taken q \<and>
    (res_ok r \<longleftrightarrow> taken q \<and> ans \<noteq> [] \<and> \<not> isMotorErrorResponse (last ans)) \<and>
    (res_timed_out r \<longleftrightarrow> taken q \<and> ans = []) \<and> (taken q \<and> ans \<noteq> [] \<longrightarrow> res_response r = last ans) \<and>
    control_topic m' = control_topic m \<and> response_topic m' = response_topic m \<and>
    response_sequence m' = response_sequence m + of_nat (length ans) \<and>
    \<not> awaiting_response m' \<and> last_command m' = trimLineEndings command \<and>
    fst (makeMotorCommandResponse r) =
      (if \<not> taken q then 503 else if ans = [] then 504 else if \<not> up_end q then 503
       else if isMotorErrorResponse (last ans) then 400 else 200)"
proof -
  let ?m = "m\<lparr> awaiting_response := True, last_command := trimLineEndings command, last_command_topic := trimLineEndings topic \<rparr>"
  note h = handle_all [where m = ?m and msgs = "arrivals q", simplified, folded ans_def]
  define M where "M = fold handleMessage (arrivals q) ?m"
  have seq: "response_sequence m < response_sequence M \<longleftrightarrow> ans \<noteq> []"
    using h length_answers [of "response_topic m" "arrivals q"] sequence_grows [of "response_sequence m" "length ans"] assms(3)
    by (simp add: ans_def M_def)
  have M: "ans \<noteq> [] \<Longrightarrow> last_response M = last ans \<and> last_response_is_error M = isMotorErrorResponse (last ans)"
    and cmd: "last_command M = trimLineEndings command" "control_topic M = control_topic m" "response_topic M = response_topic m"
      "response_sequence M = response_sequence m + of_nat (length ans)"
    using h by (auto simp: M_def ans_def)
  have "(r, m') = sendCommandToTopic q topic command m" by (rule r [symmetric])
  also have "\<dots> = (if \<not> taken q then (command_result0\<lparr> res_command := trimLineEndings command, res_broker_connected := up_sent q,
        res_response := ''Failed to publish MQTT command'' \<rparr>, M\<lparr> awaiting_response := False \<rparr>)
      else if ans = [] then (command_result0\<lparr> res_command := trimLineEndings command, res_published := True,
        res_broker_connected := up_end q, res_timed_out := True, res_response := ''Timed out waiting for device response'' \<rparr>,
        M\<lparr> awaiting_response := False \<rparr>)
      else (command_result0\<lparr> res_command := trimLineEndings command, res_published := True, res_broker_connected := up_end q,
        res_response := last ans, res_ok := \<not> isMotorErrorResponse (last ans) \<rparr>, M\<lparr> awaiting_response := False \<rparr>))"
    using assms(1,2) seq M by (simp add: sendCommandToTopic_def Let_def M_def [symmetric] command_result0_def)
  finally show ?thesis
    using assms(1) cmd by (cases "taken q"; cases "ans = []") (simp_all add: command_result0_def makeMotorCommandResponse_def Let_def)
qed



end
