(* ===== verification/AlarmPath.thy ===== *)
theory AlarmPath imports HotspotEventSpec CommandPathSpec begin

text \<open>
  The way of an alarm: the servo and laser commands the Crow server publishes with an alarm,
  taken by the ESP32 gateway from its MQTT topics, written to the serial line, assembled by the
  STM32 and executed there.
\<close>

section \<open>The messages\<close>

definition angles_ok :: "thermal_config \<Rightarrow> bool" where
  "angles_ok c \<longleftrightarrow> (\<forall>x\<in>{motor1_angle c, motor2_angle c, motor3_angle c}. 0 \<le> x \<and> x \<le> 180)"

lemma loaded_angles [simp]: "angles_ok (loadThermalEventConfig stod env)"
  by (simp add: angles_ok_def loadThermalEventConfig_def Let_def clampServoAngle_def)

definition alarm_commands :: "thermal_config \<Rightarrow> string list" where
  "alarm_commands c = [print_set 0 (nat (motor1_angle c)), print_set 1 (nat (motor2_angle c)), print_set 2 (nat (motor3_angle c)),
     if laser_enabled c then ''LASER ON'' else ''LASER OFF'']"

lemma show_small: "show_nat (Suc 0) = ''1''" "show_nat 2 = ''2''" "show_nat (Suc (Suc 0)) = ''2''" "show_nat 3 = ''3''"
  by (simp_all add: show_nat.simps digit_char_def numeral_2_eq_2 [symmetric]) code_simp+

lemma motor_texts:
  assumes "angles_ok c"
  shows "''motor1 set '' @ show_int (motor1_angle c) = print_set 0 (nat (motor1_angle c))"
    and "''motor2 set '' @ show_int (motor2_angle c) = print_set 1 (nat (motor2_angle c))"
    and "''motor3 set '' @ show_int (motor3_angle c) = print_set 2 (nat (motor3_angle c))"
  using assms show_small by (auto simp: angles_ok_def show_int_def print_set_def numeral_3_eq_3 eval_nat_numeral)

lemma print_set_plain:
  assumes "i < 3" and "a \<le> 180"
  shows "plain_command (print_set i a)"
proof -
  note p = print_set_line [OF assms]
  have "print_set i a \<noteq> []" by (simp add: print_set_def)
  have len: "length (print_set i a) \<le> 63"
    using length_show_nat_180 [of "Suc i"] length_show_nat_180 [of a] assms by (simp add: print_set_def)
  have dig: "c \<noteq> CHR '';''" if "c \<in> set (show_nat n)" for c n
    using that show_nat_digits [of n] by (auto simp: list_all_iff isdigit_def)
  have semi: "CHR '';'' \<notin> set (print_set i a)" using dig by (auto simp: print_set_def)
  then have "split_by (\<lambda>c. c = CHR '';'') (print_set i a) = [print_set i a]"
    by (intro split_by_none) (auto simp: list_all_iff)
  then have "strip (print_set i a) = print_set i a"
    using p(1) \<open>print_set i a \<noteq> []\<close> by (auto simp: line_commands_def split: if_splits)
  then show ?thesis
    using p(2) semi len \<open>print_set i a \<noteq> []\<close>
    by (auto simp: plain_command_def list_separator_def list_all_iff eol_def)
qed

lemma alarm_commands_plain: "angles_ok c \<Longrightarrow> list_all plain_command (alarm_commands c)"
  using print_set_plain
  by (auto simp: alarm_commands_def angles_ok_def plain_command_def strip_def list_separator_def isspace_def)

section \<open>Through the gateway\<close>

definition deliver :: "(cmd_uart_msg \<Rightarrow> 'q \<Rightarrow> bool \<times> 'q) \<Rightarrow> health_env \<Rightarrow> (string \<times> string) list \<Rightarrow> 'q gw \<Rightarrow> 'q gw" where
  "deliver send e msgs s = fold (\<lambda>(topic, payload). mqttEventHandler send e (MQTT_EVENT_DATA topic payload)) msgs s"

lemma plain_payload:
  assumes "plain_command c"
  shows "payload_commands c = [c]"
proof -
  have c: "c \<noteq> []" "strip c = c" "length c \<le> 63" "list_all (\<lambda>x. \<not> list_separator x) c"
    using assms by (auto simp: plain_command_def list_all_iff)
  have "piece_fits c" using c(3) length_dropWhile_le [of isspace c] by (simp add: piece_fits_def le_trans)
  then have "piece_command c = c" using c(2) piece_command_strip by metis
  then show ?thesis using c(1) by (simp add: payload_commands_def split_by_none [OF c(4)])
qed

lemma plain_queued:
  assumes q: "cmd_queue qinv contents send receive" and s: "g_cmd_uart_queue s = Some q0" "qinv q0"
    and c: "plain_command c" "length (contents q0) < 16"
  shows "\<exists>q1. snd (mqttQueueStmCommandList send c s) = s\<lparr> g_cmd_uart_queue := Some q1 \<rparr> \<and> qinv q1 \<and>
    contents q1 = contents q0 @ [stm_command_msg c]"
proof -
  have ne: "c \<noteq> []" "list_all (\<lambda>c. c \<noteq> []) [c]" using c(1) by (auto simp: plain_command_def)
  from queue_commands_fifo [OF q s ne(2), of False "list_all piece_fits (split_by list_separator c)"] obtain q1 where
    e: "queue_commands send [c] (False, list_all piece_fits (split_by list_separator c), s) =
      ([c] \<noteq> [] \<and> length (contents q0) < 16, list_all piece_fits (split_by list_separator c) \<and>
        length (contents q0) + length [c] \<le> max 16 (length (contents q0)), s\<lparr> g_cmd_uart_queue := Some q1 \<rparr>)"
    and q1: "qinv q1" "contents q1 = take 16 (contents q0 @ map stm_command_msg [c])" by auto
  have "snd (mqttQueueStmCommandList send c s) = s\<lparr> g_cmd_uart_queue := Some q1 \<rparr>"
    unfolding command_list_pieces [OF ne(1)] plain_payload [OF c(1)] e by simp
  then show ?thesis using q1 c(2) by auto
qed

lemma laser_queued:
  assumes q: "cmd_queue qinv contents send receive" and s: "g_cmd_uart_queue s = Some q0" "qinv q0"
    and "mqttResolveLaserCommand payload = Some c" and "c \<noteq> []" and "length (contents q0) < 16"
  shows "\<exists>q1. mqtt_on_data send e LASER_CMD_TOPIC payload s = s\<lparr> g_cmd_uart_queue := Some q1 \<rparr> \<and> qinv q1 \<and>
    contents q1 = contents q0 @ [stm_command_msg c]"
proof -
  have "list_all (\<lambda>c. c \<noteq> []) [c]" using assms(5) by simp
  from queue_commands_fifo [OF q s this, of False True] obtain q1 where
    e: "queue_commands send [c] (False, True, s) =
      (False \<or> [c] \<noteq> [] \<and> length (contents q0) < 16, True \<and> length (contents q0) + length [c] \<le> max 16 (length (contents q0)),
        s\<lparr> g_cmd_uart_queue := Some q1 \<rparr>)"
    and q1: "qinv q1" "contents q1 = take 16 (contents q0 @ map stm_command_msg [c])" by auto
  have "snd (mqttQueueStmCommand send c s) = s\<lparr> g_cmd_uart_queue := Some q1 \<rparr>" using e by simp
  then show ?thesis using q1 assms(4,6)
    by (intro exI [of _ q1]) (simp add: mqtt_on_data_def LASER_CMD_TOPIC_def HEALTH_CONTROL_TOPIC_def)
qed

lemma motor_on_data: "mqtt_on_data send e CMD_TOPIC c s = snd (mqttQueueStmCommandList send c s)"
  by (simp add: mqtt_on_data_def CMD_TOPIC_def LASER_CMD_TOPIC_def HEALTH_CONTROL_TOPIC_def)

lemma alarm_queued:
  assumes q: "cmd_queue qinv contents send receive" and s: "g_cmd_uart_queue s = Some q0" "qinv q0" "contents q0 = []"
    and c: "angles_ok c" "motor_control_topic c = CMD_TOPIC" "laser_control_topic c = LASER_CMD_TOPIC"
  shows "\<exists>q1. deliver send e (actuation_messages c) s = s\<lparr> g_cmd_uart_queue := Some q1 \<rparr> \<and> qinv q1 \<and>
    contents q1 = map stm_command_msg (alarm_commands c)"
proof -
  let ?p = "\<lambda>i a. print_set i (nat a)"
  have plain: "plain_command (?p 0 (motor1_angle c))" "plain_command (?p 1 (motor2_angle c))" "plain_command (?p 2 (motor3_angle c))"
    using alarm_commands_plain [OF c(1)] by (simp_all add: alarm_commands_def)
  from plain_queued [OF q s(1,2) plain(1)] s(3) obtain q1 where
    q1: "snd (mqttQueueStmCommandList send (?p 0 (motor1_angle c)) s) = s\<lparr> g_cmd_uart_queue := Some q1 \<rparr>" "qinv q1"
      "contents q1 = [stm_command_msg (?p 0 (motor1_angle c))]" by auto
  from plain_queued [OF q _ q1(2) plain(2), of "s\<lparr> g_cmd_uart_queue := Some q1 \<rparr>"] q1(3) obtain q2 where
    q2: "snd (mqttQueueStmCommandList send (?p 1 (motor2_angle c)) (s\<lparr> g_cmd_uart_queue := Some q1 \<rparr>)) = s\<lparr> g_cmd_uart_queue := Some q2 \<rparr>"
      "qinv q2" "contents q2 = map stm_command_msg [?p 0 (motor1_angle c), ?p 1 (motor2_angle c)]" by auto
  from plain_queued [OF q _ q2(2) plain(3), of "s\<lparr> g_cmd_uart_queue := Some q2 \<rparr>"] q2(3) obtain q3 where
    q3: "snd (mqttQueueStmCommandList send (?p 2 (motor3_angle c)) (s\<lparr> g_cmd_uart_queue := Some q2 \<rparr>)) = s\<lparr> g_cmd_uart_queue := Some q3 \<rparr>"
      "qinv q3" "contents q3 = map stm_command_msg [?p 0 (motor1_angle c), ?p 1 (motor2_angle c), ?p 2 (motor3_angle c)]" by auto
  let ?l = "if laser_enabled c then ''laser on'' else ''laser off''"
  have ln: "(if laser_enabled c then ''LASER ON'' else ''LASER OFF'') \<noteq> []" by simp
  have "mqttResolveLaserCommand ?l = Some (if laser_enabled c then ''LASER ON'' else ''LASER OFF'')"
    by (simp add: mqttResolveLaserCommand_def)
  from laser_queued [OF q _ q3(2) this ln, of "s\<lparr> g_cmd_uart_queue := Some q3 \<rparr>" e] q3(3) obtain q4 where
    q4: "mqtt_on_data send e LASER_CMD_TOPIC ?l (s\<lparr> g_cmd_uart_queue := Some q3 \<rparr>) = s\<lparr> g_cmd_uart_queue := Some q4 \<rparr>"
      "qinv q4" "contents q4 = map stm_command_msg (alarm_commands c)" by (auto simp: alarm_commands_def)
  have "deliver send e (actuation_messages c) s = s\<lparr> g_cmd_uart_queue := Some q4 \<rparr>"
    unfolding deliver_def actuation_messages_def motor_texts [OF c(1)] c(2,3)
    by (simp only: fold_simps prod.case mqttEventHandler.simps motor_on_data q1(1) q2(1) q3(1) q4(1))
  then show ?thesis using q4 by blast
qed

section \<open>In the STM32\<close>

definition execute :: "u32 \<Rightarrow> string list \<Rightarrow> stm \<Rightarrow> stm" where
  "execute now cmds t = fold (\<lambda>cmd. run_uart_command cmd now) cmds t"

lemma run_set_keeps:
  fixes now :: u32
  assumes "i < 3" and "a \<le> 180" and "servo_safe (stm_motor s)" and "s_hi2c (stm_motor s)" and "s_set_queue_count (stm_motor s) < 8"
  shows "servo_safe (stm_motor (run_uart_command (print_set i a) now s)) \<and>
    s_hi2c (stm_motor (run_uart_command (print_set i a) now s)) \<and>
    s_set_queue_count (stm_motor (run_uart_command (print_set i a) now s)) = s_set_queue_count (stm_motor s) + 1"
proof -
  let ?e = "motor_enqueue_target_angles ([0, 0, 0][i := int a]) (push_bit i 1) (stm_motor s)"
  have "fst ?e" using assms(4,5) by (simp add: motor_enqueue_target_angles_def)
  then have "stm_motor (run_uart_command (print_set i a) now s) = snd ?e"
    unfolding run_uart_command_def ParseAndRun_set [OF assms(1,2)]
    by (simp add: print_set_def ret_code_def uartSendOkWithAngles_def uartSendText_def Let_def)
  moreover have "s_hi2c (snd ?e)" "s_set_queue_count (snd ?e) = s_set_queue_count (stm_motor s) + 1"
    using assms(4,5) by (simp_all add: motor_enqueue_target_angles_def)
  ultimately show ?thesis using enqueue_safe [OF assms(3)] by simp
qed

lemma run_laser:
  "stm_motor (run_uart_command (if b then ''LASER ON'' else ''LASER OFF'') now s) = stm_motor s"
  "stm_laser (run_uart_command (if b then ''LASER ON'' else ''LASER OFF'') now s) = b"
  by (simp_all add: run_uart_command_def laserSet_def uartSendText_def)

lemma alarm_executed:
  fixes now :: u32
  assumes "angles_ok c" and "servo_safe (stm_motor t)" and "s_hi2c (stm_motor t)" and "s_set_queue_count (stm_motor t) + 3 \<le> 8"
  shows "servo_queue (stm_motor (execute now (alarm_commands c) t)) = servo_queue (stm_motor t) @
     [\<lparr> set_mask = 1, set_angles = [motor1_angle c, 0, 0] \<rparr>, \<lparr> set_mask = 2, set_angles = [0, motor2_angle c, 0] \<rparr>,
      \<lparr> set_mask = 4, set_angles = [0, 0, motor3_angle c] \<rparr>]"
    and "stm_laser (execute now (alarm_commands c) t) = laser_enabled c"
proof -
  let ?n = "\<lambda>x. nat x"
  have a: "?n (motor1_angle c) \<le> 180" "?n (motor2_angle c) \<le> 180" "?n (motor3_angle c) \<le> 180"
    "0 \<le> motor1_angle c" "0 \<le> motor2_angle c" "0 \<le> motor3_angle c" using assms(1) by (auto simp: angles_ok_def)
  define t1 where "t1 = run_uart_command (print_set 0 (?n (motor1_angle c))) now t"
  define t2 where "t2 = run_uart_command (print_set 1 (?n (motor2_angle c))) now t1"
  define t3 where "t3 = run_uart_command (print_set 2 (?n (motor3_angle c))) now t2"
  have k1: "servo_safe (stm_motor t1)" "s_hi2c (stm_motor t1)" "s_set_queue_count (stm_motor t1) + 2 \<le> 8"
    using run_set_keeps [of 0 _ t now, OF _ a(1) assms(2,3)] assms(4) by (simp_all add: t1_def)
  have k2: "servo_safe (stm_motor t2)" "s_hi2c (stm_motor t2)" "s_set_queue_count (stm_motor t2) + 1 \<le> 8"
    using run_set_keeps [of 1 _ t1 now, OF _ a(2) k1(1,2)] k1(3) by (simp_all add: t2_def)
  have q1: "servo_queue (stm_motor t1) = servo_queue (stm_motor t) @ [\<lparr> set_mask = 1, set_angles = [motor1_angle c, 0, 0] \<rparr>]"
    using run_set(2) [of 0 _ t now, OF _ a(1) assms(2,3)] assms(4) a(4) by (simp add: t1_def)
  have q2: "servo_queue (stm_motor t2) = servo_queue (stm_motor t1) @ [\<lparr> set_mask = 2, set_angles = [0, motor2_angle c, 0] \<rparr>]"
    using run_set(2) [of 1 _ t1 now, OF _ a(2) k1(1,2)] k1(3) a(5) by (simp add: t2_def)
  have q3: "servo_queue (stm_motor t3) = servo_queue (stm_motor t2) @ [\<lparr> set_mask = 4, set_angles = [0, 0, motor3_angle c] \<rparr>]"
    using run_set(2) [of 2 _ t2 now, OF _ a(3) k2(1,2)] k2(3) a(6) by (simp add: t3_def numeral_2_eq_2 push_bit_Suc)
  have e: "execute now (alarm_commands c) t = run_uart_command (if laser_enabled c then ''LASER ON'' else ''LASER OFF'') now t3"
    by (simp only: execute_def alarm_commands_def fold_simps t1_def t2_def t3_def)
  show "servo_queue (stm_motor (execute now (alarm_commands c) t)) = servo_queue (stm_motor t) @
     [\<lparr> set_mask = 1, set_angles = [motor1_angle c, 0, 0] \<rparr>, \<lparr> set_mask = 2, set_angles = [0, motor2_angle c, 0] \<rparr>,
      \<lparr> set_mask = 4, set_angles = [0, 0, motor3_angle c] \<rparr>]"
    unfolding e run_laser q3 q2 q1 by simp
  show "stm_laser (execute now (alarm_commands c) t) = laser_enabled c" unfolding e run_laser ..
qed


definition alarm_env :: environment where
  "alarm_env = [''THERMAL_EVENT_ACTUATE'' \<mapsto> ''on'', ''THERMAL_EVENT_MOTOR1_ANGLE'' \<mapsto> ''30'', ''THERMAL_EVENT_MOTOR2_ANGLE'' \<mapsto> ''999'']"


end
