(* ===== verification/MotorPath.thy ===== *)
theory MotorPath imports MotorSpec AlarmPath begin

text \<open>
  The way of a motor request: from the route of the Crow server over the ESP32 gateway to the STM32,
  and its answer back to the HTTP response; the emergency sequence; and an answer that is taken for
  the one of another command.
\<close>

section \<open>A row of set commands in the STM32\<close>

lemma angle_text_set:
  assumes "isMotorIndexValid motor"
  shows "angle_text motor angle = print_set (nat (motor - 1)) (nat (clampServoAngle angle))"
proof -
  have "0 \<le> clampServoAngle angle" by (simp add: clampServoAngle_def)
  then show ?thesis using show_motor(1) [OF assms] by (simp add: angle_text_def print_set_def show_int_def)
qed

lemma run_set_angles:
  fixes now :: u32
  assumes "i < 3" and "a \<le> 180" and "servo_safe (stm_motor s)" and "s_hi2c (stm_motor s)" and "s_set_queue_count (stm_motor s) < 8"
  shows "angles_text tag (stm_motor (run_uart_command (print_set i a) now s)) = angles_text tag (stm_motor s)"
proof -
  let ?e = "motor_enqueue_target_angles ([0, 0, 0][i := int a]) (push_bit i 1) (stm_motor s)"
  have "fst ?e" using assms(4,5) by (simp add: motor_enqueue_target_angles_def)
  then have "stm_motor (run_uart_command (print_set i a) now s) = snd ?e"
    unfolding run_uart_command_def ParseAndRun_set [OF assms(1,2)]
    by (simp add: print_set_def ret_code_def uartSendOkWithAngles_def uartSendText_def Let_def)
  then show ?thesis by (simp add: angles_text_def)
qed

definition set_of :: "nat \<times> nat \<Rightarrow> MotorSetCommand" where
  "set_of = (\<lambda>(i, a). \<lparr> set_mask = push_bit i 1, set_angles = [0, 0, 0][i := int a] \<rparr>)"

lemma sets_executed:
  fixes now :: u32
  assumes "list_all (\<lambda>(i, a). i < 3 \<and> a \<le> 180) ps" and "servo_safe (stm_motor t)" and "s_hi2c (stm_motor t)"
    and "s_set_queue_count (stm_motor t) + length ps \<le> 8"
  shows "servo_queue (stm_motor (execute now (map (\<lambda>(i, a). print_set i a) ps) t)) = servo_queue (stm_motor t) @ map set_of ps \<and>
    stm_tx (execute now (map (\<lambda>(i, a). print_set i a) ps) t) =
      stm_tx t @ replicate (length ps) (angles_text ''OK'' (stm_motor t))"
  using assms
proof (induction ps arbitrary: t)
  case (Cons p ps)
  obtain i a where p: "p = (i, a)" by fastforce
  have ia: "i < 3" "a \<le> 180" and c: "s_set_queue_count (stm_motor t) < 8" using Cons.prems(1,4) p by simp_all
  let ?t = "run_uart_command (print_set i a) now t"
  note k = run_set_keeps [of i a t now, OF ia Cons.prems(2,3) c]
  have "execute now (map (\<lambda>(i, a). print_set i a) (p # ps)) t = execute now (map (\<lambda>(i, a). print_set i a) ps) ?t"
    by (simp add: execute_def p)
  moreover have "list_all (\<lambda>(i, a). i < 3 \<and> a \<le> 180) ps" "s_set_queue_count (stm_motor ?t) + length ps \<le> 8"
    using Cons.prems(1,4) k by simp_all
  ultimately show ?case
    using Cons.IH [of ?t] k run_set [of i a t now, OF ia Cons.prems(2,3) c]
      run_set_angles [of i a t, OF ia Cons.prems(2,3) c]
    by (simp add: p set_of_def)
qed (simp add: execute_def)

section \<open>The emergency sequence\<close>

lemma default_script:
  "splitEmergencyCommands kDefaultEmergencyScript = map (\<lambda>(i, a). print_set i a)
     [(1, 30), (1, 47), (2, 104), (1, 55), (2, 77), (1, 65), (2, 90), (1, 70)]"
  by code_simp

lemma trim_line: "l = [] \<or> \<not> line_ending (last l) \<Longrightarrow> trimLineEndings (l @ CRLF) = l"
proof -
  assume l: "l = [] \<or> \<not> line_ending (last l)"
  have "trimLineEndings (l @ CRLF) = trimLineEndings (l @ [CHR 0x0D])"
    by (subst trimLineEndings.simps) (simp add: line_ending_def butlast_append)
  also have "\<dots> = trimLineEndings l"
    by (subst trimLineEndings.simps) (simp add: line_ending_def)
  finally show ?thesis using trimLineEndings_plain [OF l] by simp
qed

definition answer_line :: "servo \<Rightarrow> string" where
  "answer_line m = ''OK '' @ show_int (Motor_GetAngle 0 m) @ '' '' @ show_int (Motor_GetAngle 1 m) @ '' '' @ show_int (Motor_GetAngle 2 m)"

lemma digit_no_line_end: "isdigit c \<Longrightarrow> \<not> line_ending c"
  by (auto simp: isdigit_def line_ending_def)

lemma show_int_last: "\<not> line_ending (last (show_int x))" and show_int_nonempty: "show_int x \<noteq> []"
proof -
  have "isdigit (last (show_nat n))" for n
    using show_nat_digits [of n] show_nat_nonempty [of n] by (simp add: list_all_iff)
  then have "\<not> line_ending (last (show_nat n))" for n by (rule digit_no_line_end)
  then show "\<not> line_ending (last (show_int x))" "show_int x \<noteq> []" by (simp_all add: show_int_def)
qed

lemma ok_answer:
  "angles_text ''OK'' m = answer_line m @ CRLF" "trimLineEndings (angles_text ''OK'' m) = answer_line m"
  "\<not> isMotorErrorResponse (answer_line m)" "answer_line m \<noteq> []" "trimLineEndings (answer_line m) = answer_line m"
proof -
  show t: "angles_text ''OK'' m = answer_line m @ CRLF" by (simp add: angles_text_def answer_line_def)
  have l: "\<not> line_ending (last (answer_line m))" using show_int_last show_int_nonempty by (simp add: answer_line_def)
  then show "trimLineEndings (angles_text ''OK'' m) = answer_line m" unfolding t by (intro trim_line) simp
  show "trimLineEndings (answer_line m) = answer_line m" using l by (simp add: trimLineEndings_plain)
qed (simp_all add: answer_line_def isMotorErrorResponse_def)

text \<open>A step that is answered once, and not by an error.\<close>

definition answered_step :: "string \<Rightarrow> (motor_manager \<Rightarrow> motor_manager) \<times> request_env \<Rightarrow> bool" where
  "answered_step topic = (\<lambda>(others, q). others = (\<lambda>m. m) \<and> taken q \<and> up_end q \<and>
     (\<exists>now p. arrivals q = [(now, topic, p)] \<and> \<not> isMotorErrorResponse (trimLineEndings p)))"

lemma emergency_all_ok:
  assumes "\<And>i. i < length cmds \<Longrightarrow> answered_step (response_topic m) (q (k + i))"
    and "list_all (\<lambda>c. trimLineEndings c \<noteq> []) cmds" and "trimLineEndings (control_topic m) \<noteq> []"
    and "unat (response_sequence m) + length cmds < 2 ^ 64"
  shows "\<exists>rs m'. emergency_steps q k cmds m = (rs, m') \<and> length rs = length cmds \<and> list_all (\<lambda>r. res_ok r \<and> res_published r) rs"
  using assms
proof (induction cmds arbitrary: k m)
  case (Cons c cmds)
  obtain e where q: "q k = (\<lambda>m. m, e)" and e: "taken e" "up_end e"
    and "\<exists>now p. arrivals e = [(now, response_topic m, p)] \<and> \<not> isMotorErrorResponse (trimLineEndings p)"
    using Cons.prems(1) [of 0] by (auto simp: answered_step_def)
  then obtain now p where p: "arrivals e = [(now, response_topic m, p)]" "\<not> isMotorErrorResponse (trimLineEndings p)" by blast
  obtain r m1 where r: "sendCommandToTopic e (control_topic m) c m = (r, m1)" by fastforce
  have bound: "unat (response_sequence m) + length (arrivals e) < 2 ^ 64" using Cons.prems(4) p(1) by simp
  have c: "trimLineEndings c \<noteq> []" using Cons.prems(2) by simp
  note R = request_result [OF c Cons.prems(3) bound r refl]
  have ok: "res_ok r \<and> res_published r" using R e p by simp
  have m1: "control_topic m1 = control_topic m" "response_topic m1 = response_topic m" "response_sequence m1 = response_sequence m + 1"
    using R p(1) by simp_all
  have "unat (response_sequence m1) + length cmds < 2 ^ 64"
    using Cons.prems(4) unfolding m1(3) by (subst unat_add_lem [THEN iffD1]) simp_all
  moreover have "answered_step (response_topic m1) (q (k + 1 + i))" if "i < length cmds" for i
    using Cons.prems(1) [of "Suc i"] that m1(2) by simp
  ultimately have "\<exists>rs m'. emergency_steps q (k + 1) cmds m1 = (rs, m') \<and> length rs = length cmds \<and>
      list_all (\<lambda>r. res_ok r \<and> res_published r) rs"
    using Cons.prems(2,3) m1(1) by (intro Cons.IH) simp_all
  then show ?case using r ok by (auto simp: q sendCommand_def)
qed simp

definition emergency_sets :: "(nat \<times> nat) list" where
  "emergency_sets = [(1, 30), (1, 47), (2, 104), (1, 55), (2, 77), (1, 65), (2, 90), (1, 70)]"

lemma emergency_ok: "list_all (\<lambda>(i, a). i < 3 \<and> a \<le> 180) emergency_sets" "length emergency_sets = 8"
  by (simp_all add: emergency_sets_def)

text \<open>C15: the built-in emergency sequence is served. With no script configured, the server cuts it into
  eight set commands of the motors 2 and 3. An STM32 with an empty set queue accepts all eight, even
  without any time between them: they just fill its queue of eight, in order, and each is answered with
  the OK line. When each step finds that answer (the line end may be missing), the route answers 200
  and counts eight steps attempted, published and successful.\<close>

theorem emergency_served:
  fixes now :: u32
  assumes "env ''MOTOR_EMERGENCY_SCRIPT'' = None" and cmds_def: "cmds = splitEmergencyCommands (getEmergencyScript env)"
    and t: "servo_safe (stm_motor t)" "s_hi2c (stm_motor t)" "s_set_queue_count (stm_motor t) = 0"
    and t'_def: "t' = execute now cmds t"
    and q: "\<And>i. i < 8 \<Longrightarrow> \<exists>e tm p. q i = (\<lambda>m. m, e) \<and> taken e \<and> up_end e \<and> arrivals e = [(tm, response_topic m, p)] \<and>
      trimLineEndings p = trimLineEndings (drop (length (stm_tx t)) (stm_tx t') ! i)"
    and m: "trimLineEndings (control_topic m) \<noteq> []" "unat (response_sequence m) + 8 < 2 ^ 64"
  shows "servo_queue (stm_motor t') = servo_queue (stm_motor t) @ map set_of emergency_sets \<and>
    stm_tx t' = stm_tx t @ replicate 8 (angles_text ''OK'' (stm_motor t)) \<and>
    (\<exists>body m'. makeEmergencySequenceResponse env q m = ((200, JObj body), m') \<and>
       (\<forall>key\<in>{''total_steps'', ''attempted_steps'', ''successful_steps'', ''published_steps''}. map_of body key = Some (JInt 8)))"
proof -
  have cmds: "cmds = map (\<lambda>(i, a). print_set i a) emergency_sets"
    unfolding cmds_def getEmergencyScript_def assms(1) option.case default_script emergency_sets_def ..
  have ex: "servo_queue (stm_motor t') = servo_queue (stm_motor t) @ map set_of emergency_sets"
    "stm_tx t' = stm_tx t @ replicate 8 (angles_text ''OK'' (stm_motor t))"
    using sets_executed [OF emergency_ok(1) t(1,2), of now] emergency_ok(2) t(3) unfolding t'_def cmds by simp_all
  have steps: "answered_step (response_topic m) (q (0 + i))" if "i < length cmds" for i
  proof -
    have i: "i < 8" using that unfolding cmds by (simp add: emergency_sets_def)
    have "drop (length (stm_tx t)) (stm_tx t') ! i = angles_text ''OK'' (stm_motor t)" using ex(2) i by simp
    then show ?thesis using q [OF i] ok_answer(2,3) [of "stm_motor t"] by (auto simp: answered_step_def)
  qed
  have "list_all (\<lambda>c. trimLineEndings c \<noteq> []) cmds" unfolding cmds emergency_sets_def by code_simp
  moreover have len: "length cmds = 8" unfolding cmds by (simp add: emergency_sets_def)
  ultimately obtain rs m' where rs: "emergency_steps q 0 cmds m = (rs, m')" "length rs = 8" "list_all (\<lambda>r. res_ok r \<and> res_published r) rs"
    using emergency_all_ok [of cmds m q 0, OF steps _ m(1)] m(2) by auto
  then have all: "filter res_ok rs = rs" "filter res_published rs = rs" "rs \<noteq> []"
    by (auto simp: list_all_iff filter_id_conv)
  with rs(3) have last: "res_ok (last rs)" by (simp add: list_all_iff)
  have "cmds \<noteq> []" using len by auto
  then show ?thesis
    using ex rs all last len
    by (simp add: makeEmergencySequenceResponse_def Let_def cmds_def [symmetric] json_put_def update_conv)
qed

lemma boot_servo:
  defines "t \<equiv> stm_boot (\<lambda>_ _. True) (\<lambda>_. False) stm_reset"
  shows "s_hi2c (stm_motor t)" and "s_set_queue_count (stm_motor t) < 8" and "s_set_queue_count (stm_motor t) = 0"
    and "answer_line (stm_motor t) = ''OK 90 90 90''" and "servo_safe (stm_motor t)"
proof -
  have m: "s_hi2c (stm_motor t)" "s_set_queue_count (stm_motor t) = 0" "s_angle (stm_motor t) = [90, 90, 90]"
    by (simp_all add: t_def boot_fields stm_reset_def Motor_Init_def pca_write_def servo_reset_def motor_init_axis_def upt_3
        pca_set_pwm_def)
  then show "s_hi2c (stm_motor t)" "s_set_queue_count (stm_motor t) < 8" "s_set_queue_count (stm_motor t) = 0" by simp_all
  have "show_int 90 = ''90''" by code_simp
  then show "answer_line (stm_motor t) = ''OK 90 90 90''" using m(3) by (simp add: answer_line_def Motor_GetAngle_def)
  show "servo_safe (stm_motor t)"
    using stm_reachable_inv [OF stm_reachable.boot] by (simp add: t_def stm_inv_def)
qed

lemma emergency_served_witness:
  "\<exists>q body m'. makeEmergencySequenceResponse Map.empty q (motor_manager0 ''motor/control'' ''motor/response'' 3000) = ((200, JObj body), m') \<and>
    map_of body ''successful_steps'' = Some (JInt 8)"
proof -
  let ?t = "stm_boot (\<lambda>_ _. True) (\<lambda>_. False) stm_reset" and ?m = "motor_manager0 ''motor/control'' ''motor/response'' 3000"
  let ?cmds = "splitEmergencyCommands (getEmergencyScript Map.empty)"
  let ?q = "\<lambda>i. (\<lambda>m :: motor_manager. m, \<lparr> up_before = True, taken = True, up_sent = True, up_end = True,
    arrivals = [(int i, ''motor/response'', drop (length (stm_tx ?t)) (stm_tx (execute 0 ?cmds ?t)) ! i)] \<rparr>)"
  have m: "trimLineEndings (control_topic ?m) \<noteq> []" "unat (response_sequence ?m) + 8 < 2 ^ 64" "response_topic ?m = ''motor/response''"
    by (simp_all add: motor_manager0_def trimLineEndings_plain line_ending_def)
  note E = emergency_served [where env = Map.empty and q = ?q and now = 0, OF _ refl boot_servo(5,1,3) refl _ m(1,2)]
  have "\<exists>body m'. makeEmergencySequenceResponse Map.empty ?q ?m = ((200, JObj body), m') \<and>
      (\<forall>key\<in>{''total_steps'', ''attempted_steps'', ''successful_steps'', ''published_steps''}. map_of body key = Some (JInt 8))"
    by (rule E [THEN conjunct2, THEN conjunct2]) (simp_all add: m(3))
  then show ?thesis by blast
qed

end
