(* ===== verification/MotorLoop.thy ===== *)
theory MotorLoop imports MotorPath begin

text \<open>
  The whole loop of a set request: the route of the Crow server publishes the command, the ESP32
  gateway takes it and writes it to the serial line, the STM32 executes it and answers, the gateway
  publishes the answer line, and the waiting request turns it into the HTTP response.
\<close>

section \<open>A command line ended by both line ends\<close>

lemma set_line_processed:
  fixes now :: u32
  assumes "stm_reachable (Loop, s)" and "uart_cmds (stm_uart s) = []" and "uart_cmd_len (stm_uart s) = 0"
    and "\<not> uart_cmd_overflow (stm_uart s)" and "s_hi2c (stm_motor s)"
    and "s_set_queue_count (stm_motor s) < 8" and "i < 3" and "a \<le> 180"
  defines "t \<equiv> processUartCommand now (stm_rx (line_bytes [print_set i a]) s)"
  shows "stm_tx t = stm_tx s @ [angles_text ''OK'' (stm_motor s)]"
    and "servo_queue (stm_motor t) = servo_queue (stm_motor s) @ [set_of (i, a)]"
proof -
  have inv: "uart_inv (stm_uart s)" and safe: "servo_safe (stm_motor s)"
    using stm_reachable_inv [OF assms(1)] by (simp_all add: stm_inv_def)
  note p = print_set_line [OF assms(7,8)]
  let ?u1 = "uart_rx (print_set i a @ [CHR 0x0D]) (stm_uart s)" and ?u2 = "uart_rx (line_bytes [print_set i a]) (stm_uart s)"
  have e: "eol (CHR 0x0D)" "eol (CHR 0x0A)" by (simp_all add: eol_def)
  note l1 = rx_line [OF inv assms(3) p(2,3) e(1), unfolded p(1) assms(2)]
  have u1: "uart_inv ?u1" "uart_cmds ?u1 = [print_set i a]" "uart_cmd_len ?u1 = 0" "\<not> uart_cmd_overflow ?u1"
    using l1 assms(4) by (simp_all del: uart_rx_simps(3))
  have two: "?u2 = uart_rx ([] @ [CHR 0x0A]) ?u1" by (simp add: line_bytes_def CMD_EOL_def)
  have "uart_inv ?u2" "uart_cmds ?u2 = [print_set i a]" "\<not> uart_cmd_overflow ?u2"
    using rx_line [OF u1(1,3) _ _ e(2), of "[]"] u1(2,4) unfolding two by (simp_all add: line_commands_def del: uart_rx_simps)
  then have "uart_inv (stm_uart (stm_rx (line_bytes [print_set i a]) s))"
    "uart_cmds (stm_uart (stm_rx (line_bytes [print_set i a]) s)) = [print_set i a]"
    and ov: "\<not> uart_cmd_overflow (stm_uart (stm_rx (line_bytes [print_set i a]) s))"
    by (simp_all add: stm_rx_def)
  from process_command [OF this(1,2), of now] obtain u where u: "\<not> uart_cmd_overflow u"
    and t: "t = uart_finish (run_uart_command (print_set i a) now ((stm_rx (line_bytes [print_set i a]) s)\<lparr> stm_uart := u \<rparr>))"
    using ov unfolding t_def by metis
  let ?s = "(stm_rx (line_bytes [print_set i a]) s)\<lparr> stm_uart := u \<rparr>"
  have m: "stm_motor ?s = stm_motor s" "stm_tx ?s = stm_tx s" by (simp_all add: stm_rx_def)
  note r = run_set [of i a ?s now, OF assms(7,8), unfolded m, OF safe assms(5,6)]
  show "stm_tx t = stm_tx s @ [angles_text ''OK'' (stm_motor s)]"
    and "servo_queue (stm_motor t) = servo_queue (stm_motor s) @ [set_of (i, a)]"
    using r u by (simp_all add: t set_of_def)
qed

section \<open>The answer line through the gateway\<close>

lemma answer_chars: "list_all (\<lambda>c. \<not> eol_char c \<and> c \<noteq> NUL) (answer_line m)"
proof -
  have "\<not> eol_char c \<and> c \<noteq> NUL" if "c \<in> set (show_int x)" for c x
  proof -
    have "isdigit c \<or> c = CHR ''-''" using that show_nat_digits by (auto simp: show_int_def list_all_iff split: if_splits)
    then show ?thesis by (auto simp: isdigit_def eol_char_def)
  qed
  then show ?thesis by (auto simp: answer_line_def list_all_iff eol_char_def)
qed

lemma answer_published:
  assumes "s_client s" and "s_mqtt_connected s" and "line_buf s = []" and "servo_safe m"
  shows "mqtt_out (fold cmd_uart_receive (angles_text ''OK'' m) s) = mqtt_out s @ [Publish STM32_RESP_TOPIC (answer_line m) 1]"
proof -
  have c: "list_all (\<lambda>x. \<not> eol_char x) (answer_line m)" "NUL \<notin> set (answer_line m)"
    using answer_chars [of m] by (auto simp: list_all_iff)
  have "split_by eol_char (answer_line m @ CRLF) = [answer_line m, [], []]"
    by (subst split_by_append [OF c(1)]) (simp add: eol_char_def)
  moreover have "length (answer_line m) \<le> 127"
    using length_show_int_angle [OF GetAngle_ok [OF assms(4), of 0]] length_show_int_angle [OF GetAngle_ok [OF assms(4), of 1]]
      length_show_int_angle [OF GetAngle_ok [OF assms(4), of 2]] by (simp add: answer_line_def)
  ultimately show ?thesis
    using receive_lines [OF assms(1,2,3), of "angles_text ''OK'' m"] c(2) ok_answer(1,4) [of m] by simp
qed

lemma print_set_last: "\<not> line_ending (last (print_set i a))"
proof -
  have "isdigit (last (show_nat a))" using show_nat_digits [of a] show_nat_nonempty [of a] by (simp add: list_all_iff)
  then have "\<not> line_ending (last (show_nat a))" by (rule digit_no_line_end)
  then show ?thesis by (simp add: print_set_def)
qed

lemma gateway_round:
  assumes q: "cmd_queue qinv contents send receive" and s: "g_cmd_uart_queue s = Some q0" "qinv q0" "contents q0 = []" "uart_out s = []"
    and c: "plain_command c"
  shows "\<exists>q1. cmdUartTask receive [] (mqttEventHandler send he (MQTT_EVENT_DATA CMD_TOPIC c) s) =
      s\<lparr> g_cmd_uart_queue := Some q1, uart_out := line_bytes [c] \<rparr> \<and> qinv q1 \<and> contents q1 = []"
proof -
  have fit: "list_all (\<lambda>c. c \<noteq> [] \<and> length c \<le> 63) [c]" using c by (simp add: plain_command_def)
  from plain_queued [OF q s(1,2) c] s(3) obtain q1 where
    q1: "snd (mqttQueueStmCommandList send c s) = s\<lparr> g_cmd_uart_queue := Some q1 \<rparr>" "qinv q1" "contents q1 = map stm_command_msg [c]"
    by auto
  from transmit_rounds [OF q _ q1(2,3) fit, of "s\<lparr> g_cmd_uart_queue := Some q1 \<rparr>" 1] show ?thesis
    by (auto simp: motor_on_data q1(1) s(4))
qed

lemma idle_round:
  assumes q: "cmd_queue qinv contents send receive" and s: "g_cmd_uart_queue s = Some q0" "qinv q0" "contents q0 = []"
  shows "\<exists>q1. cmdUartTask receive bytes s = fold cmd_uart_receive bytes (s\<lparr> g_cmd_uart_queue := Some q1 \<rparr>)"
proof -
  from transmit_rounds [OF q s(1,2), of "[]" 1] s(3) obtain q1 where "cmdUartTask receive [] s = s\<lparr> g_cmd_uart_queue := Some q1, uart_out := uart_out s \<rparr>"
    by (auto simp: line_bytes_def)
  then show ?thesis by (intro exI [of _ q1]) (simp add: cmdUartTask_def)
qed

section \<open>The loop\<close>

text \<open>What the server receives of the messages a gateway sends.\<close>

fun received :: "int \<Rightarrow> mqtt_out \<Rightarrow> (int \<times> string \<times> string) list" where
  "received tm (Publish topic payload qos) = [(tm, topic, payload)]"
| "received tm (Subscribe topic qos) = []"

text \<open>C9: a set request is served from end to end. Take a valid body, the topics of the firmware, a
  gateway and an STM32 that are idle, with room in the servo queue. The text the request publishes,
  taken by the gateway and sent over the serial line, appends to the servo queue the set command of
  exactly that motor with the requested angle brought into 0..180; the answer of the STM32, published
  by the gateway and handled while the request waits, makes it return 200 with that text and the
  angles the STM32 reported.\<close>

theorem set_request_served:
  fixes now :: u32
  assumes body: "tryReadJsonInt to_i64 ''motor'' j = Got motor" "tryReadJsonInt to_i64 ''angle'' j = Got angle" "isMotorIndexValid motor"
    and q: "cmd_queue qinv contents send receive" and s: "g_cmd_uart_queue s = Some q0" "qinv q0" "contents q0 = []" "uart_out s = []"
      "s_client s" "s_mqtt_connected s" "line_buf s = []"
    and t: "stm_reachable (Loop, t)" "uart_cmds (stm_uart t) = []" "uart_cmd_len (stm_uart t) = 0" "\<not> uart_cmd_overflow (stm_uart t)"
      "s_hi2c (stm_motor t)" "s_set_queue_count (stm_motor t) < 8"
    and m: "control_topic m = CMD_TOPIC" "response_topic m = STM32_RESP_TOPIC" "unat (response_sequence m) + 1 < 2 ^ 64"
    and s1_def: "s1 = cmdUartTask receive [] (mqttEventHandler send he (MQTT_EVENT_DATA CMD_TOPIC (angle_text motor angle)) s)"
    and t1_def: "t1 = processUartCommand now (stm_rx (uart_out s1) t)"
    and s2_def: "s2 = cmdUartTask receive (concat (drop (length (stm_tx t)) (stm_tx t1))) s1"
    and e: "taken e" "up_end e" "arrivals e = concat (map (received tm) (drop (length (mqtt_out s1)) (mqtt_out s2)))"
  shows "servo_queue (stm_motor t1) = servo_queue (stm_motor t) @ [set_of (nat (motor - 1), nat (clampServoAngle angle))] \<and>
    (\<exists>m'. serve to_i64 laser RSet (Some j) e m = Some ((200, JObj [(''ok'', JBool True), (''command'', JStr (angle_text motor angle)),
      (''published'', JBool True), (''timed_out'', JBool False), (''broker_connected'', JBool True),
      (''response'', JStr (answer_line (stm_motor t))), (''status'', JStr ''OK'')]), m'))"
proof -
  let ?i = "nat (motor - 1)" and ?a = "nat (clampServoAngle angle)" and ?c = "angle_text motor angle"
  have ia: "?i < 3" "?a \<le> 180" using body(3) by (auto simp: isMotorIndexValid_def clampServoAngle_def)
  have c: "?c = print_set ?i ?a" by (rule angle_text_set [OF body(3)])
  note plain = print_set_plain [OF ia, folded c]
  have safe: "servo_safe (stm_motor t)" using stm_reachable_inv [OF t(1)] by (simp add: stm_inv_def)
  from gateway_round [OF q s(1-4) plain] obtain q1 where s1: "s1 = s\<lparr> g_cmd_uart_queue := Some q1, uart_out := line_bytes [?c] \<rparr>"
    "qinv q1" "contents q1 = []" unfolding s1_def by blast
  note t1 = set_line_processed [OF t ia, of now, folded c]
  have tx: "stm_tx t1 = stm_tx t @ [angles_text ''OK'' (stm_motor t)]" using t1(1) s1(1) by (simp add: t1_def)
  from idle_round [OF q _ s1(2,3), of s1] s1(1) obtain q2 where
    "s2 = fold cmd_uart_receive (angles_text ''OK'' (stm_motor t)) (s1\<lparr> g_cmd_uart_queue := Some q2 \<rparr>)"
    by (auto simp: s2_def tx)
  then have "mqtt_out s2 = mqtt_out s1 @ [Publish STM32_RESP_TOPIC (answer_line (stm_motor t)) 1]"
    using answer_published [OF _ _ _ safe, of "s1\<lparr> g_cmd_uart_queue := Some q2 \<rparr>"] s(5-7) s1(1) by simp
  then have arr: "arrivals e = [(tm, response_topic m, answer_line (stm_motor t))]" using e(3) m(2) by simp
  obtain r m' where r: "sendCommandToTopic e (control_topic m) ?c m = (r, m')" by fastforce
  have bound: "unat (response_sequence m) + length (arrivals e) < 2 ^ 64" using m(3) arr by simp
  have ct: "trimLineEndings (control_topic m) \<noteq> []" unfolding m(1) CMD_TOPIC_def by code_simp
  have cc: "trimLineEndings ?c = ?c" "?c \<noteq> []"
    using print_set_last unfolding c by (simp_all add: trimLineEndings_plain print_set_def)
  note R = request_result [OF _ ct bound r refl]
  have "r = \<lparr> res_ok = True, res_published = True, res_timed_out = False, res_broker_connected = True,
      res_command = ?c, res_response = answer_line (stm_motor t) \<rparr>"
    using R cc arr e(1,2) ok_answer(3,4,5) [of "stm_motor t"]
    by (cases r) (auto simp: makeMotorCommandResponse_def Let_def split: if_splits)
  then have "serve to_i64 laser RSet (Some j) e m = Some ((200, JObj [(''ok'', JBool True), (''command'', JStr ?c),
      (''published'', JBool True), (''timed_out'', JBool False), (''broker_connected'', JBool True),
      (''response'', JStr (answer_line (stm_motor t))), (''status'', JStr ''OK'')]), m')"
    using body r cc ok_answer(3) by (simp add: serve_def route_topic_def set_route_def with_body_def need_def check_def Let_def
      makeMotorCommandResponse_def writeMotorCommandFields_def)
  then show ?thesis using t1(2) s1(1) by (simp add: t1_def)
qed

lemma set_request_served_witness:
  "\<exists>e m'. serve (\<lambda>j. case j of JInt x \<Rightarrow> Some x | _ \<Rightarrow> None) ''laser/control'' RSet
      (Some (JObj [(''motor'', JInt 2), (''angle'', JInt 200)])) e (motor_manager0 CMD_TOPIC STM32_RESP_TOPIC 3000) =
    Some ((200, JObj [(''ok'', JBool True), (''command'', JStr ''motor2 set 180''), (''published'', JBool True),
      (''timed_out'', JBool False), (''broker_connected'', JBool True), (''response'', JStr ''OK 90 90 90''), (''status'', JStr ''OK'')]), m')"
proof -
  let ?i64 = "\<lambda>j. case j of JInt x \<Rightarrow> Some x | _ \<Rightarrow> None" and ?j = "JObj [(''motor'', JInt 2), (''angle'', JInt 200)]"
  let ?t = "stm_boot (\<lambda>_ _. True) (\<lambda>_. False) stm_reset" and ?m = "motor_manager0 CMD_TOPIC STM32_RESP_TOPIC 3000"
  define s1 where "s1 = cmdUartTask fifo_get [] (mqttEventHandler test_send undefined (MQTT_EVENT_DATA CMD_TOPIC (angle_text 2 200)) test_gw)"
  define t1 where "t1 = processUartCommand 5 (stm_rx (uart_out s1) ?t)"
  define s2 where "s2 = cmdUartTask fifo_get (concat (drop (length (stm_tx ?t)) (stm_tx t1))) s1"
  let ?e = "\<lparr> up_before = True, taken = True, up_sent = True, up_end = True,
    arrivals = concat (map (received 9) (drop (length (mqtt_out s1)) (mqtt_out s2))) \<rparr>"
  have body: "tryReadJsonInt ?i64 ''motor'' ?j = Got 2" "tryReadJsonInt ?i64 ''angle'' ?j = Got 200" "isMotorIndexValid 2"
    by (simp_all add: tryReadJsonInt_def json_has_def isMotorIndexValid_def)
  have gw: "line_buf test_gw = []" by (simp add: test_gw_def gw_reset_def)
  have m: "control_topic ?m = CMD_TOPIC" "response_topic ?m = STM32_RESP_TOPIC" "unat (response_sequence ?m) + 1 < 2 ^ 64"
    by (simp_all add: motor_manager0_def)
  note S = set_request_served [where e = ?e and tm = 9 and laser = "''laser/control''", OF body list_fifo test_gw_fields(1) _ refl test_gw_fields(2-4) gw stm_reachable.boot
    boot_uart(2,3,4) boot_servo(1,2) m s1_def t1_def s2_def]
  have "\<exists>m'. serve ?i64 ''laser/control'' RSet (Some ?j) ?e ?m = Some ((200, JObj [(''ok'', JBool True), (''command'', JStr (angle_text 2 200)),
      (''published'', JBool True), (''timed_out'', JBool False), (''broker_connected'', JBool True),
      (''response'', JStr (answer_line (stm_motor ?t))), (''status'', JStr ''OK'')]), m')"
    by (rule S [THEN conjunct2]) simp_all
  moreover have "angle_text 2 200 = ''motor2 set 180''" by code_simp
  ultimately show ?thesis using boot_servo(4) by auto
qed

section \<open>An answer taken by another request\<close>

lemma help_texts: "list_all (\<lambda>l. \<not> isMotorErrorResponse (trimLineEndings l)) help_lines" "length help_lines = 8"
  by code_simp+

lemma answers_lines: "answers topic (map (\<lambda>l. (tm, topic, l)) ls) = map trimLineEndings ls"
  by (induction ls) simp_all

lemma help_and_error:
  "stm_tx (run_uart_command ''help'' now t) = stm_tx t @ help_lines"
  "stm_tx (run_uart_command ''motor9 stop'' now t) = stm_tx t @ [''ERR'' @ CRLF]"
proof -
  show "stm_tx (run_uart_command ''help'' now t) = stm_tx t @ help_lines"
    using send_all_tx [of help_lines t] by (simp add: run_uart_command_def) (simp add: help_lines_def)
  have "sscanf_motor ''motor9 stop'' = (2, 9, ''stop'', [])" "parse_setall_command ''motor9 stop'' = None" by code_simp+
  then have "Motor_ParseAndRun ''motor9 stop'' now (stm_motor t) = (-1, stm_motor t)" by (simp add: Motor_ParseAndRun_def)
  then show "stm_tx (run_uart_command ''motor9 stop'' now t) = stm_tx t @ [''ERR'' @ CRLF]"
    by (simp add: run_uart_command_def uartSendText_def)
qed

text \<open>C37: an answer can be taken by another request. The STM32 answers help with eight lines, and a command
  it does not know, such as one for motor 9, with ERR. The server takes the first line as the answer to
  help; when more of them come in while the next request waits, that request succeeds with code 200 and
  a help line as its response, whatever its command is.\<close>

theorem help_answers_next_request:
  assumes "trimLineEndings command \<noteq> []" and "trimLineEndings control \<noteq> []" and "0 < k" and "taken e1" and "taken e2" and "up_end e2"
    and a: "arrivals e1 = [(tm1, topic, hd help_lines)]" "arrivals e2 = map (\<lambda>l. (tm2, topic, l)) (take k (tl help_lines))"
    and r1: "sendCommand e1 ''help'' (motor_manager0 control topic timeout) = (r1, m1)" and r2: "sendCommand e2 command m1 = (r2, m2)"
  shows "stm_tx (run_uart_command ''help'' now t) = stm_tx t @ help_lines \<and>
    stm_tx (run_uart_command ''motor9 stop'' now t) = stm_tx t @ [''ERR'' @ CRLF] \<and>
    res_ok r1 \<and> res_ok r2 \<and> fst (makeMotorCommandResponse r2) = 200 \<and> res_response r2 \<in> set (map trimLineEndings help_lines)"
proof -
  let ?m = "motor_manager0 control topic timeout"
  have m: "control_topic ?m = control" "response_topic ?m = topic" "response_sequence ?m = 0" by (simp_all add: motor_manager0_def)
  have h: "trimLineEndings ''help'' \<noteq> []" by (simp add: trimLineEndings_plain line_ending_def)
  have hl: "help_lines = hd help_lines # tl help_lines" using help_texts(2) by (intro hd_Cons_tl [symmetric]) auto
  have "sendCommandToTopic e1 (control_topic ?m) ''help'' ?m = (r1, m1)" using r1 by (simp add: sendCommand_def)
  note R1 = request_result [OF h _ _ this refl]
  have "hd help_lines \<in> set help_lines" by (subst hl) simp
  with help_texts(1) have hd_ok: "\<not> isMotorErrorResponse (trimLineEndings (hd help_lines))" by (simp add: list_all_iff)
  have m1: "control_topic m1 = control" "response_topic m1 = topic" "unat (response_sequence m1) \<le> 1" and ok: "res_ok r1"
    using R1 assms(2,4) m a(1) hd_ok by auto
  let ?ans = "map trimLineEndings (take k (tl help_lines))"
  have ans: "?ans \<noteq> []" "last ?ans \<in> set (map trimLineEndings help_lines)"
  proof -
    have "length (tl help_lines) = 7" using help_texts(2) by simp
    then have "tl help_lines \<noteq> []" by (metis list.size(3) zero_neq_numeral)
    then show ne: "?ans \<noteq> []" using assms(3) by simp
    have "set ?ans \<subseteq> trimLineEndings ` set help_lines" using set_take_subset [of k "tl help_lines"] hl by (metis image_mono list.set_map set_subset_Cons subset_trans)
    then show "last ?ans \<in> set (map trimLineEndings help_lines)" using last_in_set [OF ne] by auto
  qed
  have "length (arrivals e2) \<le> 8" using a(2) help_texts(2) by simp
  then have bound: "unat (response_sequence m1) + length (arrivals e2) < 2 ^ 64" using m1(3) by simp
  have "sendCommandToTopic e2 (control_topic m1) command m1 = (r2, m2)" using r2 by (simp add: sendCommand_def)
  note R2 = request_result [OF assms(1) _ bound this refl]
  have "answers (response_topic m1) (arrivals e2) = ?ans" using a(2) m1(2) by (simp add: answers_lines)
  with R2 ans help_texts(1) assms(2,5,6) m1(1) have "res_ok r2 \<and> fst (makeMotorCommandResponse r2) = 200 \<and> res_response r2 \<in> set (map trimLineEndings help_lines)"
    by (auto simp: list_all_iff)
  then show ?thesis using ok help_and_error by blast
qed

lemma help_answers_next_request_witness:
  "\<exists>e1 e2 m1. m1 = snd (sendCommand e1 ''help'' (motor_manager0 ''motor/control'' ''motor/response'' 3000)) \<and>
    fst (makeMotorCommandResponse (fst (sendCommand e2 ''motor9 stop'' m1))) = 200"
proof -
  let ?e1 = "\<lparr> up_before = True, taken = True, up_sent = True, up_end = True, arrivals = [(1, ''motor/response'', hd help_lines)] \<rparr>"
  let ?e2 = "\<lparr> up_before = True, taken = True, up_sent = True, up_end = True,
    arrivals = map (\<lambda>l. (2, ''motor/response'', l)) (take 1 (tl help_lines)) \<rparr>"
  let ?m1 = "snd (sendCommand ?e1 ''help'' (motor_manager0 ''motor/control'' ''motor/response'' 3000))"
  have t: "trimLineEndings ''motor9 stop'' \<noteq> []" "trimLineEndings ''motor/control'' \<noteq> []"
    by (simp_all add: trimLineEndings_plain line_ending_def)
  have "fst (makeMotorCommandResponse (fst (sendCommand ?e2 ''motor9 stop'' ?m1))) = 200"
    using help_answers_next_request [where ?e1.0 = ?e1 and ?e2.0 = ?e2 and k = 1 and ?tm1.0 = 1 and ?tm2.0 = 2 and ?m2.0 = "snd (sendCommand ?e2 ''motor9 stop'' ?m1)"
        and t = stm_reset and now = 0, OF t _ _ _ _ _ _ surjective_pairing surjective_pairing]
    by simp
  then show ?thesis by blast
qed

end
