(* ===== verification/EspHealth.thy ===== *)
theory EspHealth imports MotorLoop GatewaySpec begin

text \<open>
  The watchdog routes of the Crow server (features/esp/EspHealthManager.cpp): the request for a status
  report and the last report received. The JSON printer and parser, the clock and the answers of the
  broker are inputs. Two properties tie it to the ESP32: its request is not one the firmware knows, and
  the report of the firmware is not JSON.
\<close>

section \<open>State and operations\<close>

record health_result =
  hr_published :: bool
  hr_broker_connected :: bool
  hr_request_id :: string
  hr_control_topic :: string
  hr_payload :: string
  hr_message :: string

record health_manager =
  hm_control_topic :: string
  hm_status_topic :: string
  last_request_id :: string
  last_request_payload :: string
  latest_status_json :: string
  latest_status_valid_json :: bool
  status_sequence :: u64
  last_status_time :: int

definition health_manager0 :: "string \<Rightarrow> string \<Rightarrow> health_manager" where
  "health_manager0 control status =
     \<lparr> hm_control_topic = control, hm_status_topic = status, last_request_id = [], last_request_payload = [],
       latest_status_json = [], latest_status_valid_json = False, status_sequence = 0, last_status_time = 0 \<rparr>"

text \<open>The counter is global to the process.\<close>

definition generateRequestId :: "int \<Rightarrow> u64 \<Rightarrow> string \<times> u64" where
  "generateRequestId now_ms request_counter =
     (let counter = request_counter + 1
      in (''esp-watchdog-'' @ show_int now_ms @ ''-'' @ show_int (uint counter), counter))"

definition requestPublishNow :: "(json \<Rightarrow> string) \<Rightarrow> int \<Rightarrow> (string \<Rightarrow> string \<Rightarrow> bool) \<Rightarrow> bool \<Rightarrow> health_manager \<times> u64 \<Rightarrow>
    health_result \<times> health_manager \<times> u64" where
  "requestPublishNow dump now_ms publish isUp = (\<lambda>(h, n).
     let (request_id, n) = generateRequestId now_ms n;
         payload = dump (JObj [(''cmd'', JStr ''publish_status_now''), (''request_id'', JStr request_id)]);
         published = publish (hm_control_topic h) payload
     in (\<lparr> hr_published = published, hr_broker_connected = isUp, hr_request_id = request_id,
           hr_control_topic = hm_control_topic h, hr_payload = payload,
           hr_message = (if published then ''ESP32 watchdog control request published''
                         else ''Failed to publish ESP32 watchdog control request'') \<rparr>,
         if published then h\<lparr> last_request_id := request_id, last_request_payload := payload \<rparr> else h, n))"

definition handleStatusMessage :: "(string \<Rightarrow> json option) \<Rightarrow> int \<Rightarrow> string \<Rightarrow> string \<Rightarrow> health_manager \<Rightarrow> health_manager" where
  "handleStatusMessage load now topic payload h =
     (if topic \<noteq> hm_status_topic h then h
      else h\<lparr> latest_status_json := payload, latest_status_valid_json := load payload \<noteq> None,
              last_status_time := now, status_sequence := status_sequence h + 1 \<rparr>)"

definition status_age :: "int \<Rightarrow> health_manager \<Rightarrow> int" where
  "status_age now h = (if latest_status_json h \<noteq> [] then now - last_status_time h else -1)"

section \<open>Routes\<close>

definition health_request_response :: "health_result \<Rightarrow> http" where
  "health_request_response r =
     (if hr_published r then 202 else 503,
      JObj [(''status'', JStr (if hr_published r then ''ACCEPTED'' else ''MQTT_UNAVAILABLE'')),
        (''published'', JBool (hr_published r)), (''broker_connected'', JBool (hr_broker_connected r)),
        (''control_topic'', JStr (hr_control_topic r)), (''request_id'', JStr (hr_request_id r)),
        (''payload'', JStr (hr_payload r)), (''message'', JStr (hr_message r))])"

definition latest_route :: "(string \<Rightarrow> json option) \<Rightarrow> bool \<Rightarrow> int \<Rightarrow> health_manager \<Rightarrow> http" where
  "latest_route load isUp now h =
     (200, JObj ([(''broker_connected'', JBool isUp), (''has_status'', JBool (latest_status_json h \<noteq> [])),
        (''status_topic'', JStr (hm_status_topic h)), (''control_topic'', JStr (hm_control_topic h)),
        (''last_request_id'', JStr (last_request_id h)), (''last_status_age_ms'', JInt (status_age now h)),
        (''status_sequence'', JInt (uint (status_sequence h)))] @
       (if latest_status_json h = [] then []
        else case (if latest_status_valid_json h then load (latest_status_json h) else None) of
          Some parsed \<Rightarrow> [(''status_payload'', parsed)]
        | None \<Rightarrow> [(''status_payload_raw'', JStr (latest_status_json h))])))"

definition status_route :: "bool \<Rightarrow> int \<Rightarrow> health_manager \<Rightarrow> http" where
  "status_route isUp now h =
     (200, JObj [(''broker_connected'', JBool isUp), (''has_status'', JBool (latest_status_json h \<noteq> [])),
        (''latest_status_valid_json'', JBool (latest_status_valid_json h)),
        (''control_topic'', JStr (hm_control_topic h)), (''status_topic'', JStr (hm_status_topic h)),
        (''last_request_id'', JStr (last_request_id h)), (''last_request_payload'', JStr (last_request_payload h)),
        (''last_status_age_ms'', JInt (status_age now h)), (''status_sequence'', JInt (uint (status_sequence h)))])"

section \<open>Together with the ESP32\<close>

text \<open>C30: the watchdog request of the server has no effect. Whatever the JSON printer makes of the request
  object, as long as it begins with an opening brace, the ESP32 gateway that receives it on its control
  topic ignores it: nothing is published and nothing changes, although the route answers 202 ACCEPTED.
  The firmware only knows the plain text.\<close>

theorem watchdog_request_ignored:
  assumes dump: "\<And>kvs. \<exists>t. dump (JObj kvs) = CHR ''{'' # t"
    and "hm_control_topic h = HEALTH_CONTROL_TOPIC" and up: "publish HEALTH_CONTROL_TOPIC = (\<lambda>_. True)"
    and r: "requestPublishNow dump now publish isUp (h, n) = (r, h', n')"
  shows "fst (health_request_response r) = 202 \<and>
    mqttEventHandler send e (MQTT_EVENT_DATA (hr_control_topic r) (hr_payload r)) s = s"
proof -
  obtain id kvs where "hr_payload r = dump (JObj kvs)" "hr_control_topic r = HEALTH_CONTROL_TOPIC" "hr_published r"
    using assms(2,3) r by (auto simp: requestPublishNow_def Let_def split: prod.splits)
  moreover obtain t where "dump (JObj kvs) = CHR ''{'' # t" using dump by blast
  ultimately show ?thesis
    by (simp add: mqtt_on_data_def HEALTH_CONTROL_CMD_def health_request_response_def)
qed

lemma watchdog_request_ignored_witness:
  "let r = fst (requestPublishNow (\<lambda>_. ''{...}'') 5 (\<lambda>_ _. True) True (health_manager0 HEALTH_CONTROL_TOPIC HEALTH_TOPIC, 0))
   in mqttEventHandler test_send undefined (MQTT_EVENT_DATA (hr_control_topic r) (hr_payload r)) test_gw = test_gw"
proof -
  let ?h = "health_manager0 HEALTH_CONTROL_TOPIC HEALTH_TOPIC"
  obtain r h' n' where r: "requestPublishNow (\<lambda>_. ''{...}'') 5 (\<lambda>_ _. True) True (?h, 0) = (r, h', n')" by (metis prod_cases3)
  have "hm_control_topic ?h = HEALTH_CONTROL_TOPIC" by (simp add: health_manager0_def)
  show ?thesis
    unfolding Let_def r fst_conv by (rule watchdog_request_ignored [OF _ \<open>hm_control_topic ?h = HEALTH_CONTROL_TOPIC\<close> refl r, THEN conjunct2]) simp
qed

text \<open>C36: the server never has a readable status of the ESP32 in normal operation. A report that is due is
  published; with a signal of -10 dBm or less and at least 10000 bytes of heap it is cut, so a JSON
  parser that refuses an unclosed object refuses it: the server keeps the text as its latest status,
  counts it, marks it as no valid JSON, and hands it out as raw text only.\<close>

theorem watchdog_status_unreadable:
  assumes "wifi_rssi e = Some r" and "r \<le> -10" and "10000 \<le> free_heap e" and "10000 \<le> min_heap e"
    and s: "s_client s" "s_mqtt_connected s" "s_next_health_publish_us s \<noteq> 0" "s_next_health_publish_us s \<le> now"
    and load: "\<And>t. CHR ''}'' \<notin> set t \<Longrightarrow> load (CHR ''{'' # t) = None"
    and h: "hm_status_topic h = HEALTH_TOPIC"
  shows "\<exists>payload. mqtt_out (mqttHealthTask now e s) = mqtt_out s @ [Publish HEALTH_TOPIC payload 0] \<and>
    (let h' = handleStatusMessage load tm HEALTH_TOPIC payload h in
       latest_status_json h' = payload \<and> payload \<noteq> [] \<and> \<not> latest_status_valid_json h' \<and> status_sequence h' = status_sequence h + 1 \<and>
       (''status_payload_raw'', JStr payload) \<in> set (case snd (latest_route load isUp now' h') of JObj kvs \<Rightarrow> kvs | _ \<Rightarrow> []))"
proof -
  obtain payload where p: "mqttBuildHealthPayload 320 e s = Some payload" "CHR ''}'' \<notin> set payload"
    using health_report_cut [OF assms(1-4), of s] by blast
  have "mqttBuildHealthPayload 320 e s = Some (take 319 (health_json e s))" by (simp add: mqttBuildHealthPayload_def)
  then have "payload = take 319 (health_json e s)" using p(1) by simp
  then have "hd payload = CHR ''{''" "payload \<noteq> []" by (simp_all add: health_json_def)
  then obtain t where t: "payload = CHR ''{'' # t" by (cases payload) auto
  with p(2) have "load payload = None" using load by simp
  moreover have "mqtt_out (mqttHealthTask now e s) = mqtt_out s @ [Publish HEALTH_TOPIC payload 0]"
    using s p(1) by (simp add: mqttHealthTask_def mqttPublishHealthSnapshot_def mqttPublishText_def mqtt_emit_def)
  ultimately show ?thesis
    using h t by (intro exI [of _ payload]) (simp add: handleStatusMessage_def latest_route_def Let_def)
qed

lemma watchdog_status_unreadable_witness:
  "\<exists>payload. mqtt_out (mqttHealthTask 60000001 test_health test_gw) = mqtt_out test_gw @ [Publish HEALTH_TOPIC payload 0]"
proof -
  have e: "wifi_rssi test_health = Some (-60)" "10000 \<le> free_heap test_health" "10000 \<le> min_heap test_health"
    by (simp_all add: test_health_def)
  have g: "s_client test_gw" "s_mqtt_connected test_gw" "s_next_health_publish_us test_gw \<noteq> 0" "s_next_health_publish_us test_gw \<le> 60000001"
    by (simp_all add: test_gw_def)
  show ?thesis
    using watchdog_status_unreadable [where load = "\<lambda>_. None" and h = "health_manager0 HEALTH_CONTROL_TOPIC HEALTH_TOPIC", OF e(1) _ e(2,3) g]
    by (simp add: health_manager0_def) blast
qed

end
