(* ===== verification/Spec2Isabelle.thy ===== *)
theory Spec2Isabelle imports ServoSpec Stm32Spec LinkProps TeensyPoolSpec TeensyCci MqttFrameSpec GatewaySpec UartLegacy SpiLegacy
  EspMainSpec UdpStreamSpec GatewayCommon ThermalSenderSpec EndToEnd HotspotSteady EspHealth begin

text \<open>
  Verification library of the thermal camera robot: the C firmware under src/Hardware and the C++
  programs under src/RaspberryPi/k3s-cluster that receive its pictures.

  The program. A Lepton sensor is read by a Teensy (teensy/TeensyC/src/main.c), which sends each
  picture in checksummed packets over SPI to an ESP32 (esp32/main). The ESP32 assembles them in a
  ring of frame buffers (device/frame_link.c) and sends every frame as chunk messages over MQTT or
  UDP (mqtt/mqtt.c, mqtt/udp_stream.c). The DTLS gateway (thermal_dtls_gateway) forwards the
  datagrams and keeps statistics; the Crow server (features/thermal/ThermalProxy.cpp) assembles the
  frames again. In the other direction text commands arrive on MQTT topics, are queued and bridged
  to a UART (device/cmd_uart.c), and an STM32 (Core/Src/main.c, motor.c) drives the servos and the
  laser from them.

  Foundations. \<^verbatim>\<open>FwPrelude\<close>: machine types, casts, big-endian fields, list and word lemmas.
  \<^verbatim>\<open>RingFifo\<close>: rings of slots and the locale of a bounded queue, interpreted on the servo set queue,
  the command ring, and the frame ring. \<^verbatim>\<open>CStrings\<close>: the C library functions of the text
  protocols. \<^verbatim>\<open>SortedMap\<close>, \<^verbatim>\<open>ChunkTracker\<close>: ordered maps, and the tracking of chunked frames with the
  locale \<open>chunk_assembly\<close>, interpreted on the gateway and on the server.

  STM32. \<^verbatim>\<open>ServoState\<close>, \<^verbatim>\<open>ServoMotion\<close>, \<^verbatim>\<open>ServoUpdate\<close>, \<^verbatim>\<open>ServoBus\<close>, \<^verbatim>\<open>ServoCommand\<close>: variables,
  operations, periodic update, calibration and I2C messages, text commands and step relation of
  motor.c; \<^verbatim>\<open>ServoSpec\<close>: its invariant, queue refinement, arrival of commands, slew rate, errors.
  \<^verbatim>\<open>Stm32Uart\<close>, \<^verbatim>\<open>Stm32Line\<close>, \<^verbatim>\<open>Stm32Main\<close>: receive interrupt, line splitter and main loop of main.c,
  with the interrupt between any two phases; \<^verbatim>\<open>Stm32Spec\<close>: safety of every interleaving, what a line
  queues, and the lines that get lost.

  Teensy. \<^verbatim>\<open>TeensyCapture\<close>, \<^verbatim>\<open>TeensyCaptureInv\<close>, \<^verbatim>\<open>TeensyCaptureSpec\<close>: the capture loop, its
  coherence, progress and end. \<^verbatim>\<open>TeensyPool\<close>, \<^verbatim>\<open>TeensyPoolSpec\<close>: the buffer pool of the capturing and
  the sending thread under every interleaving. \<^verbatim>\<open>TeensyCci\<close>: configuration of the sensor.
  \<^verbatim>\<open>TeensySend\<close>: the packets of a frame.

  ESP32. \<^verbatim>\<open>FrameLink\<close>, \<^verbatim>\<open>FrameLinkInv\<close>, \<^verbatim>\<open>FrameLinkStep\<close>, \<^verbatim>\<open>FrameLinkSpec\<close>: receiver and ring of frames;
  \<^verbatim>\<open>LinkTransport\<close>, \<^verbatim>\<open>LinkProps\<close>: the way of a frame from the Teensy to the ring, buffers held by a
  consumer, corrupted packets. \<^verbatim>\<open>MqttFrame\<close>, \<^verbatim>\<open>MqttFrameSpec\<close>: range, scaling, chunk messages, rounds of
  the sender task. \<^verbatim>\<open>UdpStream\<close>, \<^verbatim>\<open>UdpStreamSpec\<close>: connection and retries. \<^verbatim>\<open>MqttClient\<close>, \<^verbatim>\<open>MqttCommand\<close>,
  \<^verbatim>\<open>CmdUart\<close>: events, commands, status report, UART bridge; \<^verbatim>\<open>CommandPath\<close>, \<^verbatim>\<open>CommandPathSpec\<close>: the way
  of a command list from a topic to the STM32; \<^verbatim>\<open>GatewaySpec\<close>: the properties of the client.
  \<^verbatim>\<open>EspMain\<close>, \<^verbatim>\<open>EspMainSpec\<close>: start-up and Wi-Fi events. \<^verbatim>\<open>UartLegacy\<close>, \<^verbatim>\<open>SpiLegacy\<close>: the former links,
  compiled but not started.

  Raspberry Pi. \<^verbatim>\<open>ThermalGateway\<close>, \<^verbatim>\<open>GatewayCommon\<close>, \<^verbatim>\<open>ThermalGatewaySpec\<close>: the DTLS gateway.
  \<^verbatim>\<open>ThermalServer\<close>, \<^verbatim>\<open>ThermalServerSpec\<close>, \<^verbatim>\<open>ThermalSenderSpec\<close>: packet formats, synthetic ids, assembly
  and bookkeeping of the server. \<^verbatim>\<open>EndToEnd\<close>: a picture sent by the ESP32 completes at the server as
  the same picture, in any order of its messages.

  Hot spots (features/thermal/ThermalProxy.cpp, from line 385 for the settings and 838 for the
  rest). \<^verbatim>\<open>HotspotAnalysis\<close>, \<^verbatim>\<open>HotspotAnalysisSpec\<close>: settings and the statistics of a picture.
  \<^verbatim>\<open>HotspotComponents\<close>, \<^verbatim>\<open>StackSearch\<close>, \<^verbatim>\<open>HotspotComponentsSpec\<close>: the search for connected hot regions,
  its correctness in the locale \<open>search_grid\<close> (a stack search over any grid of neighbours),
  interpreted on the eight neighbours of the code, and the features of a region. \<^verbatim>\<open>HotspotEvent\<close>,
  \<^verbatim>\<open>HotspotPublish\<close>, \<^verbatim>\<open>HotspotEventSpec\<close>, \<^verbatim>\<open>HotspotSteady\<close>: tracker, learned baseline, alarms and their
  messages; when an alarm goes out and ends, the distance of alarms, the bound on the threshold, and
  a steady spot that is missed. \<^verbatim>\<open>AlarmPath\<close>: the commands of an alarm reach the servos and the laser.
  The flood fill is a while loop with a termination proof, not fuel.

  Motor routes (features/motor/MotorManager.cpp). \<^verbatim>\<open>MotorManager\<close>: routes, requests with their wait for
  an answer, emergency sequence. \<^verbatim>\<open>MotorSpec\<close>: the texts are read back by the STM32 as they are meant,
  the cutting of the script, what a request answers. \<^verbatim>\<open>MotorPath\<close>, \<^verbatim>\<open>MotorLoop\<close>: the emergency sequence
  and a set request from the route over gateway and STM32 back to the response, and an answer taken by
  another request. \<^verbatim>\<open>EspHealth\<close> (features/esp/EspHealthManager.cpp): the watchdog routes, and why the
  server neither gets a report it asks for nor can read one.

  Conventions. Machine integers are words of their width; C strings are lists of characters up to
  the NUL; buffers of fixed size are lists of that length. Drivers, clocks, sockets, the FreeRTOS
  and Zephyr kernels and the MQTT library are inputs: the answers of a step are arguments or fields
  of an environment record, and what is sent to them is recorded as events. Loops whose end
  depends on such answers take the list of answers or a number of rounds as fuel, and a theorem
  states which answers end them (\<open>capture_ends\<close>, the wait loops of \<open>TeensyCci\<close>). Threads
  interleave between the calls that take a mutex or a queue.

  Doubles are rationals (the aspect ratio is compared and printed only; a rounded square root is
  computed on integers); settings are integers without overflow, which the code would only reach with
  settings near the end of the int range.

  Not modelled: register and clock set-up of the STM32, pin multiplexing of the Teensy, vendor
  drivers; sockets, threads and the DTLS handshake of the gateway; the JSON printer and reader of the
  server, which are inputs of the model, as is the parser of decimal fractions; the other HTTP
  routes, database and mail glue; the Qt client and the CUDA runtime, which are
  interfaces on large third-party frameworks.
\<close>

end
